(* ===== verification/Mfs_Prelude.thy ===== *)
theory Mfs_Prelude
  imports Main "HOL-Library.Char_ord" "HOL-Library.List_Lexorder" "HOL-Library.Word"
begin

text \<open>
  Shared vocabulary of the development: the C and C++ string primitives the sources use
  (positions with \<open>npos\<close> as \<open>None\<close>, \<open>substr\<close>, \<open>tolower\<close>), the
  model of \<open>errno\<close> results, and generic lemmas on lists that several components need.

  A \<open>std::string\<close> and a \<open>const char*\<close> are a \<open>string\<close> (a list of bytes);
  a pointer that may be \<open>NULL\<close> is an option.
\<close>

named_theorems str_simps \<open>characterisations of the C++ string primitives\<close>

section \<open>Positions in strings\<close>

text \<open>
  \<open>find_idx P xs\<close> is \<open>find_first_of\<close> for the characters satisfying \<open>P\<close>:
  the first position, or \<open>None\<close> for \<open>npos\<close>.
\<close>

fun find_idx :: "('a \<Rightarrow> bool) \<Rightarrow> 'a list \<Rightarrow> nat option" where
  "find_idx P [] = None"
| "find_idx P (x # xs) = (if P x then Some 0 else map_option Suc (find_idx P xs))"

definition find_last_idx :: "('a \<Rightarrow> bool) \<Rightarrow> 'a list \<Rightarrow> nat option" where
  "find_last_idx P xs = map_option (\<lambda>i. length xs - Suc i) (find_idx P (rev xs))"

text \<open>\<open>std::string::find(needle)\<close>: the first position where \<open>needle\<close> starts.\<close>

fun is_prefix :: "'a list \<Rightarrow> 'a list \<Rightarrow> bool" where
  "is_prefix [] ys = True"
| "is_prefix (x # xs) [] = False"
| "is_prefix (x # xs) (y # ys) = (x = y \<and> is_prefix xs ys)"

fun find_sub :: "'a list \<Rightarrow> 'a list \<Rightarrow> nat option" where
  "find_sub needle [] = (if needle = [] then Some 0 else None)"
| "find_sub needle (x # xs) =
     (if is_prefix needle (x # xs) then Some 0 else map_option Suc (find_sub needle xs))"

definition substr :: "'a list \<Rightarrow> nat \<Rightarrow> nat \<Rightarrow> 'a list" where
  "substr s pos n = take n (drop pos s)"

definition ends_with :: "'a \<Rightarrow> 'a list \<Rightarrow> bool" where
  "ends_with c s \<longleftrightarrow> s \<noteq> [] \<and> last s = c"

text \<open>\<open>s.c_str()\<close> read as a C string: the characters before the first NUL.\<close>

definition c_str :: "string \<Rightarrow> string" where
  "c_str s = takeWhile (\<lambda>c. c \<noteq> CHR 0x00) s"

lemma is_prefix_iff [str_simps]: "is_prefix xs ys \<longleftrightarrow> (\<exists>zs. ys = xs @ zs)"
  by (induction xs ys rule: is_prefix.induct) auto

lemma find_idx_None [str_simps]: "find_idx P xs = None \<longleftrightarrow> (\<forall>x \<in> set xs. \<not> P x)"
  by (induction xs) auto

lemma find_idx_Some [str_simps]:
  "find_idx P xs = Some i \<longleftrightarrow> i < length xs \<and> P (xs ! i) \<and> (\<forall>j < i. \<not> P (xs ! j))"
proof (induction xs arbitrary: i)
  case Nil
  then show ?case by simp
next
  case (Cons x xs)
  show ?case
  proof (cases i)
    case 0
    then show ?thesis by simp
  next
    case (Suc k)
    then show ?thesis
      by (auto simp: Cons.IH nth_Cons' less_Suc_eq_0_disj)
  qed
qed

lemma find_idx_take: "find_idx P xs = Some i \<Longrightarrow> take i xs = takeWhile (\<lambda>x. \<not> P x) xs"
  by (induction xs arbitrary: i) (auto split: if_splits)

lemma find_idx_drop:
  "find_idx P xs = Some i \<Longrightarrow> drop i xs = dropWhile (\<lambda>x. \<not> P x) xs"
  by (induction xs arbitrary: i) (auto split: if_splits)

lemma find_idx_append:
  "find_idx P (xs @ ys) =
     (case find_idx P xs of Some i \<Rightarrow> Some i | None \<Rightarrow> map_option (\<lambda>i. length xs + i) (find_idx P ys))"
proof (induction xs)
  case Nil
  then show ?case by (cases "find_idx P ys") auto
next
  case (Cons x xs)
  then show ?case by (cases "find_idx P ys") (auto split: option.splits)
qed

lemma find_idx_first:
  "\<forall>x \<in> set xs. \<not> P x \<Longrightarrow> P y \<Longrightarrow> find_idx P (xs @ y # ys) = Some (length xs)"
  by (induction xs) auto

lemma find_idx_absent: "\<forall>x \<in> set xs. \<not> P x \<Longrightarrow> find_idx P xs = None"
  by (simp add: find_idx_None)

lemma find_last_idx_last:
  "\<forall>x \<in> set ys. \<not> P x \<Longrightarrow> P y \<Longrightarrow> find_last_idx P (xs @ y # ys) = Some (length xs)"
  using find_idx_first [of "rev ys" P y "rev xs"] by (simp add: find_last_idx_def)

lemma find_sub_Some:
  "find_sub n xs = Some i \<Longrightarrow> \<exists>ys zs. xs = ys @ n @ zs \<and> length ys = i"
proof (induction xs arbitrary: i)
  case Nil
  then show ?case by (auto split: if_splits)
next
  case (Cons x xs)
  show ?case
  proof (cases "is_prefix n (x # xs)")
    case True
    with Cons.prems obtain zs where "x # xs = n @ zs" "i = 0"
      by (auto simp: is_prefix_iff)
    then show ?thesis by fastforce
  next
    case False
    with Cons.prems obtain k where "find_sub n xs = Some k" "i = Suc k" by auto
    with Cons.IH [of k] obtain ys zs where "xs = ys @ n @ zs" "length ys = k" by auto
    then have "x # xs = (x # ys) @ n @ zs \<and> length (x # ys) = i" using \<open>i = Suc k\<close> by simp
    then show ?thesis by blast
  qed
qed

section \<open>Characters\<close>

text \<open>\<open>tolower\<close> of the C locale changes \<open>A\<close>..\<open>Z\<close> only.\<close>

definition tolower :: "char \<Rightarrow> char" where
  "tolower c = (if 65 \<le> (of_char c :: nat) \<and> (of_char c :: nat) \<le> 90
                then char_of ((of_char c :: nat) + 32) else c)"

definition char_between :: "char \<Rightarrow> char \<Rightarrow> char \<Rightarrow> bool" where
  "char_between lo hi c \<longleftrightarrow>
     (of_char lo :: nat) \<le> of_char c \<and> (of_char c :: nat) \<le> of_char hi"

abbreviation is_digit :: "char \<Rightarrow> bool" where
  "is_digit c \<equiv> char_between CHR ''0'' CHR ''9'' c"

lemma tolower_idem [simp]: "tolower (tolower c) = tolower c"
  by (auto simp: tolower_def)

section \<open>Result codes\<close>

text \<open>The \<open>errno\<close> values the sources return, with their Linux numbers.\<close>

abbreviation EPERM :: int where "EPERM \<equiv> 1"
abbreviation ENOENT :: int where "ENOENT \<equiv> 2"
abbreviation EIO :: int where "EIO \<equiv> 5"
abbreviation EBADF :: int where "EBADF \<equiv> 9"
abbreviation EACCES :: int where "EACCES \<equiv> 13"
abbreviation EEXIST :: int where "EEXIST \<equiv> 17"
abbreviation ENOSPC :: int where "ENOSPC \<equiv> 28"
abbreviation ENOTEMPTY :: int where "ENOTEMPTY \<equiv> 39"
abbreviation ENODATA :: int where "ENODATA \<equiv> 61"
abbreviation ENOTSUP :: int where "ENOTSUP \<equiv> 95"

section \<open>Errors as values\<close>

text \<open>
  A call that may throw is a sum, \<open>Inl\<close> the exception: \<open>ebind\<close> runs the rest of
  the function only when the call returned.
\<close>

fun ebind :: "'e + 'a \<Rightarrow> ('a \<Rightarrow> 'e + 'b) \<Rightarrow> 'e + 'b" where
  "ebind (Inl e) f = Inl e"
| "ebind (Inr x) f = f x"

lemma ebind_Inr_iff: "ebind m f = Inr y \<longleftrightarrow> (\<exists>x. m = Inr x \<and> f x = Inr y)"
  by (cases m) auto

lemma ebind_Inl_iff: "ebind m f = Inl e \<longleftrightarrow> m = Inl e \<or> (\<exists>x. m = Inr x \<and> f x = Inl e)"
  by (cases m) auto

lemma ebind_assoc: "ebind (ebind m f) g = ebind m (\<lambda>x. ebind (f x) g)"
  by (cases m) auto

end
