(* ===== verification/Ord_Map.thy ===== *)
theory Ord_Map
  imports Mfs_Prelude
begin

text \<open>
  \<open>std::map\<close> as the sources use it: an association list kept strictly sorted by the
  map's comparator, so that iteration visits the keys in the comparator's order.
  \<open>om_find\<close> is \<open>find\<close>, \<open>om_set\<close> is \<open>m[k] = v\<close> (an existing entry
  keeps its key and changes its value), \<open>om_erase\<close> is \<open>erase(find(k))\<close>.
  The comparators of the program are \<open>std::less<std::string>\<close> and
  \<open>header_nocase_cmp\<close> of \<open>common.h\<close>; the laws are proved once, for any strict weak
  order, in the locale \<open>weak_order\<close> and interpreted on both.
\<close>

type_synonym ('k, 'v) omap = "('k \<times> 'v) list"

fun om_find :: "('k \<Rightarrow> 'k \<Rightarrow> bool) \<Rightarrow> 'k \<Rightarrow> ('k, 'v) omap \<Rightarrow> 'v option" where
  "om_find lt k [] = None"
| "om_find lt k ((a, b) # m) =
     (if lt a k then om_find lt k m else if lt k a then None else Some b)"

fun om_set :: "('k \<Rightarrow> 'k \<Rightarrow> bool) \<Rightarrow> 'k \<Rightarrow> 'v \<Rightarrow> ('k, 'v) omap \<Rightarrow> ('k, 'v) omap" where
  "om_set lt k v [] = [(k, v)]"
| "om_set lt k v ((a, b) # m) =
     (if lt a k then (a, b) # om_set lt k v m
      else if lt k a then (k, v) # (a, b) # m else (a, v) # m)"

fun om_erase :: "('k \<Rightarrow> 'k \<Rightarrow> bool) \<Rightarrow> 'k \<Rightarrow> ('k, 'v) omap \<Rightarrow> ('k, 'v) omap" where
  "om_erase lt k [] = []"
| "om_erase lt k ((a, b) # m) =
     (if lt a k then (a, b) # om_erase lt k m else if lt k a then (a, b) # m else m)"

definition om_sorted :: "('k \<Rightarrow> 'k \<Rightarrow> bool) \<Rightarrow> ('k, 'v) omap \<Rightarrow> bool" where
  "om_sorted lt m \<longleftrightarrow> sorted_wrt lt (map fst m)"

lemma om_sorted_Nil [simp]: "om_sorted lt []"
  by (simp add: om_sorted_def)

lemma om_sorted_Cons:
  "om_sorted lt ((a, b) # m) \<longleftrightarrow> (\<forall>x \<in> set m. lt a (fst x)) \<and> om_sorted lt m"
  by (simp add: om_sorted_def)

lemma om_sorted_filter: "om_sorted lt m \<Longrightarrow> om_sorted lt (filter P m)"
  by (induction m) (auto simp: om_sorted_def)

lemma om_erase_subset: "set (om_erase lt k m) \<subseteq> set m"
  by (induction lt k m rule: om_erase.induct) auto

lemma om_set_fst: "fst ` set (om_set lt k v m) \<subseteq> insert k (fst ` set m)"
  by (induction lt k v m rule: om_set.induct) auto

lemma om_set_elem: "x \<in> set (om_set lt k v m) \<Longrightarrow> x \<in> set m \<or> snd x = v"
  by (induction lt k v m rule: om_set.induct) (auto split: if_splits)

lemma om_find_elem: "om_find lt k m = Some v \<Longrightarrow> \<exists>a. (a, v) \<in> set m"
  by (induction lt k m rule: om_find.induct) (auto split: if_splits)

lemma om_erase_length: "length (om_erase lt k m) \<le> length m"
  by (induction lt k m rule: om_erase.induct) auto

lemma om_set_length:
  "length (om_set lt k v m) = (if om_find lt k m = None then Suc (length m) else length m)"
  by (induction lt k v m rule: om_set.induct) auto

lemma om_erase_length_find:
  "length (om_erase lt k m) = (if om_find lt k m = None then length m else length m - 1)"
proof (induction lt k m rule: om_erase.induct)
  case (1 lt k)
  then show ?case by simp
next
  case (2 lt k a b m)
  then show ?case by (cases m) auto
qed

lemma om_erase_absent: "om_find lt k m = None \<Longrightarrow> om_erase lt k m = m"
  by (induction lt k m rule: om_erase.induct) (auto split: if_splits)

section \<open>The contract of an ordered map\<close>

locale weak_order =
  fixes lt :: "'k \<Rightarrow> 'k \<Rightarrow> bool"
  assumes irrefl: "\<not> lt a a"
    and trans: "lt a b \<Longrightarrow> lt b c \<Longrightarrow> lt a c"
    and split: "lt a c \<Longrightarrow> lt a b \<or> lt b c"
begin

definition eqv :: "'k \<Rightarrow> 'k \<Rightarrow> bool" where
  "eqv a b \<longleftrightarrow> \<not> lt a b \<and> \<not> lt b a"

lemma eqv_refl [simp]: "eqv a a"
  by (simp add: eqv_def irrefl)

lemma eqv_sym: "eqv a b \<longleftrightarrow> eqv b a"
  by (auto simp: eqv_def)

lemma asym: "lt a b \<Longrightarrow> \<not> lt b a"
  using irrefl trans by blast

lemma eqv_less: "eqv a b \<Longrightarrow> lt a c \<longleftrightarrow> lt b c" "eqv a b \<Longrightarrow> lt c a \<longleftrightarrow> lt c b"
  unfolding eqv_def using split by blast+

lemma find_sorted_head: "\<forall>x \<in> set m. lt k (fst x) \<Longrightarrow> om_find lt k m = None"
  by (cases m) (auto simp: asym)

lemma find_set_lemma:
  "om_sorted lt m \<Longrightarrow>
    om_find lt k' (om_set lt k v m) = (if eqv k k' then Some v else om_find lt k' m)"
proof (induction m)
  case Nil
  then show ?case by (auto simp: eqv_def)
next
  case (Cons p m)
  obtain a b where p: "p = (a, b)" by (cases p)
  consider "lt a k" | "lt k a" | "eqv a k" by (auto simp: eqv_def)
  then show ?case
  proof cases
    case 1
    then show ?thesis using Cons p split [of a k k'] asym
      by (auto simp: om_sorted_Cons eqv_def)
  next
    case 2
    then have "\<not> lt a k" by (rule asym)
    have "lt k k' \<Longrightarrow> \<not> eqv k k'" "lt k' k \<Longrightarrow> \<not> eqv k k'" by (auto simp: eqv_def)
    moreover have "eqv k k' \<or> lt k k' \<or> lt k' k" by (auto simp: eqv_def)
    moreover have "lt k' k \<Longrightarrow> lt k' a" using 2 trans by blast
    ultimately show ?thesis using 2 p \<open>\<not> lt a k\<close> asym by auto
  next
    case 3
    then have n: "\<not> lt a k" "\<not> lt k a" by (auto simp: eqv_def)
    have "eqv k k' \<longleftrightarrow> \<not> lt a k' \<and> \<not> lt k' a"
      using eqv_less [OF 3] by (auto simp: eqv_def)
    then show ?thesis using n p by auto
  qed
qed

lemma sorted_set: "om_sorted lt m \<Longrightarrow> om_sorted lt (om_set lt k v m)"
proof (induction m)
  case Nil
  then show ?case by (simp add: om_sorted_Cons)
next
  case (Cons p m)
  obtain a b where p: "p = (a, b)" by (cases p)
  have *: "lt a k \<Longrightarrow> \<forall>x \<in> set (om_set lt k v m). lt a (fst x)"
    using Cons.prems om_set_fst [of lt k v m] p by (fastforce simp: om_sorted_Cons)
  show ?case using Cons p * trans [of k a] by (auto simp: om_sorted_Cons)
qed

lemma sorted_erase: "om_sorted lt m \<Longrightarrow> om_sorted lt (om_erase lt k m)"
proof (induction m)
  case Nil
  then show ?case by simp
next
  case (Cons p m)
  obtain a b where p: "p = (a, b)" by (cases p)
  then show ?case using Cons om_erase_subset [of lt k m] by (auto simp: om_sorted_Cons)
qed

lemma find_erase_lemma:
  "om_sorted lt m \<Longrightarrow>
    om_find lt k' (om_erase lt k m) = (if eqv k k' then None else om_find lt k' m)"
proof (induction m)
  case Nil
  then show ?case by simp
next
  case (Cons p m)
  obtain a b where p: "p = (a, b)" by (cases p)
  have m: "om_sorted lt m" "\<forall>x \<in> set m. lt a (fst x)"
    using Cons.prems p by (auto simp: om_sorted_Cons)
  consider "lt a k" | "lt k a" | "eqv a k" by (auto simp: eqv_def)
  then show ?case
  proof cases
    case 1
    then show ?thesis using Cons.IH [OF m(1)] p split [of a k k'] by (auto simp: eqv_def)
  next
    case 2
    then have "eqv k k' \<Longrightarrow> lt k' a" using eqv_less by blast
    with 2 show ?thesis using p asym by auto
  next
    case 3
    then have n: "\<not> lt a k" "\<not> lt k a" by (auto simp: eqv_def)
    have kk: "eqv k k' \<longleftrightarrow> \<not> lt a k' \<and> \<not> lt k' a"
      using eqv_less [OF 3] by (auto simp: eqv_def)
    have "\<not> lt a k' \<Longrightarrow> om_find lt k' m = None"
      using m(2) split by (intro find_sorted_head) blast
    then show ?thesis using n p kk by auto
  qed
qed

lemma find_Some_iff:
  "om_sorted lt m \<Longrightarrow> om_find lt k m = Some v \<longleftrightarrow> (\<exists>a. (a, v) \<in> set m \<and> eqv a k)"
proof (induction m)
  case Nil
  then show ?case by simp
next
  case (Cons p m)
  obtain a b where p: "p = (a, b)" by (cases p)
  have m: "om_sorted lt m" "\<forall>x \<in> set m. lt a (fst x)"
    using Cons.prems p by (auto simp: om_sorted_Cons)
  have "\<not> lt a k \<Longrightarrow> (c, w) \<in> set m \<Longrightarrow> \<not> eqv c k" for c w
    using m(2) eqv_less(2) by fastforce
  then show ?case using Cons.IH [OF m(1)] p by (auto simp: eqv_def)
qed

lemmas map_laws = find_set_lemma find_erase_lemma sorted_set sorted_erase

end

section \<open>The comparators of the program\<close>

text \<open>\<open>std::less\<close> on \<open>std::string\<close>: lexicographic on unsigned bytes.\<close>

abbreviation str_less :: "string \<Rightarrow> string \<Rightarrow> bool" where
  "str_less \<equiv> (<)"

text \<open>\<open>header_nocase_cmp\<close>: \<open>strcasecmp(a, b) < 0\<close>.\<close>

definition strcasecmp_less :: "string \<Rightarrow> string \<Rightarrow> bool" where
  "strcasecmp_less a b \<longleftrightarrow> map tolower (c_str a) < map tolower (c_str b)"

interpretation smap: weak_order "(<) :: string \<Rightarrow> string \<Rightarrow> bool"
  by unfold_locales auto

interpretation hmap: weak_order strcasecmp_less
  by unfold_locales (auto simp: strcasecmp_less_def)

lemma smap_eqv [simp]: "smap.eqv a b \<longleftrightarrow> a = b"
  by (auto simp: smap.eqv_def)

definition nocase_eq :: "string \<Rightarrow> string \<Rightarrow> bool" where
  "nocase_eq a b \<longleftrightarrow> map tolower (c_str a) = map tolower (c_str b)"

lemma hmap_eqv [simp]: "hmap.eqv a b \<longleftrightarrow> nocase_eq a b"
  by (auto simp: hmap.eqv_def strcasecmp_less_def nocase_eq_def)

type_synonym 'v smap = "(string, 'v) omap"

abbreviation sm_find :: "string \<Rightarrow> 'v smap \<Rightarrow> 'v option" where "sm_find \<equiv> om_find (<)"
abbreviation sm_set :: "string \<Rightarrow> 'v \<Rightarrow> 'v smap \<Rightarrow> 'v smap" where "sm_set \<equiv> om_set (<)"
abbreviation sm_erase :: "string \<Rightarrow> 'v smap \<Rightarrow> 'v smap" where "sm_erase \<equiv> om_erase (<)"
abbreviation sm_sorted :: "'v smap \<Rightarrow> bool" where "sm_sorted \<equiv> om_sorted (<)"

text \<open>\<open>headers_t\<close> of \<open>common.h\<close>: a map from header names, ignoring their case.\<close>

type_synonym headers = "(string, string) omap"

abbreviation hd_find :: "string \<Rightarrow> headers \<Rightarrow> string option" where
  "hd_find \<equiv> om_find strcasecmp_less"
abbreviation hd_set :: "string \<Rightarrow> string \<Rightarrow> headers \<Rightarrow> headers" where
  "hd_set \<equiv> om_set strcasecmp_less"

end
