(* ===== verification/Page_List.thy ===== *)
theory Page_List
  imports Mfs_Prelude
begin

text \<open>
  Class \<open>PageList\<close> of \<open>protocols/s3/fdcache.cpp\<close>: the areas of a cached file and
  whether each has been downloaded. The state is the list \<open>pages\<close> of \<open>fdpage\<close>
  structs; offsets (\<open>off_t\<close>) are integers. \<open>contig\<close> is the invariant (pages adjoin,
  none is empty), \<open>st_at\<close> the abstract content (the loaded flag of each byte position),
  and every operation is characterised by its effect on \<open>st_at\<close> and on the size.
\<close>

section \<open>The operations\<close>

record fdpage =
  pg_offset :: int
  pg_bytes :: int
  pg_loaded :: bool

definition pg_next :: "fdpage \<Rightarrow> int" where
  "pg_next p = pg_offset p + pg_bytes p"

definition pg_end :: "fdpage \<Rightarrow> int" where
  "pg_end p = (if 0 < pg_bytes p then pg_offset p + pg_bytes p - 1 else 0)"

definition pl_Init :: "int \<Rightarrow> bool \<Rightarrow> fdpage list" where
  "pl_Init sz is_loaded = [\<lparr>pg_offset = 0, pg_bytes = sz, pg_loaded = is_loaded\<rparr>]"

definition pl_Size :: "fdpage list \<Rightarrow> int" where
  "pl_Size pages = (if pages = [] then 0 else pg_next (last pages))"

text \<open>
  \<open>Compress\<close>: \<open>compress_loop b is_last_loaded rest\<close> is the loop with \<open>b\<close> the page
  before the iterator (\<open>biter\<close>).
\<close>

fun compress_loop :: "fdpage \<Rightarrow> bool \<Rightarrow> fdpage list \<Rightarrow> fdpage list" where
  "compress_loop b is_last_loaded [] = [b]"
| "compress_loop b is_last_loaded (p # ps) =
     (if is_last_loaded = pg_loaded p
      then compress_loop (b\<lparr>pg_bytes := pg_bytes b + pg_bytes p\<rparr>) is_last_loaded ps
      else b # compress_loop p (pg_loaded p) ps)"

fun pl_Compress :: "fdpage list \<Rightarrow> fdpage list" where
  "pl_Compress [] = []"
| "pl_Compress (p # ps) = compress_loop p (pg_loaded p) ps"

fun pl_Parse :: "int \<Rightarrow> fdpage list \<Rightarrow> fdpage list \<times> bool" where
  "pl_Parse new_pos [] = ([], False)"
| "pl_Parse new_pos (p # ps) =
     (if new_pos = pg_offset p then (p # ps, True)
      else if pg_offset p < new_pos \<and> new_pos < pg_next p
      then (\<lparr>pg_offset = pg_offset p, pg_bytes = new_pos - pg_offset p, pg_loaded = pg_loaded p\<rparr>
              # p\<lparr>pg_bytes := pg_bytes p - (new_pos - pg_offset p), pg_offset := new_pos\<rparr> # ps, True)
      else (let (qs, r) = pl_Parse new_pos ps in (p # qs, r)))"

text \<open>
  The cutting loop of \<open>Resize\<close>. A page that is shortened is looked at again by the code,
  passes the first test and is stepped over.
\<close>

fun cut_loop :: "int \<Rightarrow> fdpage list \<Rightarrow> fdpage list" where
  "cut_loop sz [] = []"
| "cut_loop sz (p # ps) =
     (if pg_next p \<le> sz then p # cut_loop sz ps
      else if sz \<le> pg_offset p then cut_loop sz ps
      else p\<lparr>pg_bytes := sz - pg_offset p\<rparr> # cut_loop sz ps)"

definition pl_Resize :: "int \<Rightarrow> bool \<Rightarrow> fdpage list \<Rightarrow> fdpage list" where
  "pl_Resize sz is_loaded pages =
     (let total = pl_Size pages in
      pl_Compress
        (if total = 0 then pl_Init sz is_loaded
         else if total < sz
         then pages @ [\<lparr>pg_offset = total, pg_bytes = sz - total, pg_loaded = is_loaded\<rparr>]
         else if sz < total then cut_loop sz pages
         else pages))"

fun pl_IsPageLoaded :: "int \<Rightarrow> int \<Rightarrow> fdpage list \<Rightarrow> bool" where
  "pl_IsPageLoaded start sz [] = True"
| "pl_IsPageLoaded start sz (p # ps) =
     (if pg_end p < start then pl_IsPageLoaded start sz ps
      else if \<not> pg_loaded p then False
      else if sz \<noteq> 0 \<and> start + sz \<le> pg_next p then True
      else pl_IsPageLoaded start sz ps)"

text \<open>The flag-setting loop of \<open>SetPageLoadedStatus\<close>.\<close>

fun set_loaded_loop :: "int \<Rightarrow> int \<Rightarrow> bool \<Rightarrow> fdpage list \<Rightarrow> fdpage list" where
  "set_loaded_loop start sz is_loaded [] = []"
| "set_loaded_loop start sz is_loaded (p # ps) =
     (if pg_end p < start then p # set_loaded_loop start sz is_loaded ps
      else if start + sz \<le> pg_offset p then p # ps
      else p\<lparr>pg_loaded := is_loaded\<rparr> # set_loaded_loop start sz is_loaded ps)"

definition pl_SetPageLoadedStatus ::
  "int \<Rightarrow> int \<Rightarrow> bool \<Rightarrow> bool \<Rightarrow> fdpage list \<Rightarrow> fdpage list" where
  "pl_SetPageLoadedStatus start sz is_loaded is_compress pages =
     (let now_size = pl_Size pages;
          pages' =
            (if now_size \<le> start then
               (let pages1 = (if now_size < start then pl_Resize start False pages else pages)
                in pl_Resize (start + sz) is_loaded pages1)
             else if now_size \<le> start + sz then
               pl_Resize (start + sz) is_loaded (pl_Resize start False pages)
             else
               set_loaded_loop start sz is_loaded
                 (fst (pl_Parse (start + sz) (fst (pl_Parse start pages)))))
      in if is_compress then pl_Compress pages' else pages')"

text \<open>\<open>FindUnloadedPage\<close> returns its two reference parameters, if it returns true.\<close>

fun pl_FindUnloadedPage :: "int \<Rightarrow> fdpage list \<Rightarrow> (int \<times> int) option" where
  "pl_FindUnloadedPage start [] = None"
| "pl_FindUnloadedPage start (p # ps) =
     (if start \<le> pg_end p \<and> \<not> pg_loaded p then Some (pg_offset p, pg_bytes p)
      else pl_FindUnloadedPage start ps)"

fun total_unloaded_loop :: "int \<Rightarrow> int \<Rightarrow> int \<Rightarrow> fdpage list \<Rightarrow> int" where
  "total_unloaded_loop start nxt restsize [] = restsize"
| "total_unloaded_loop start nxt restsize (p # ps) =
     (if pg_next p \<le> start then total_unloaded_loop start nxt restsize ps
      else if nxt \<le> pg_offset p then restsize
      else if pg_loaded p then total_unloaded_loop start nxt restsize ps
      else let tmpsize =
             (if pg_offset p \<le> start
              then (if pg_next p \<le> nxt then pg_next p - start else nxt - start)
              else (if pg_next p \<le> nxt then pg_next p - pg_offset p else nxt - pg_offset p))
           in total_unloaded_loop start nxt (restsize + tmpsize) ps)"

definition pl_GetTotalUnloadedPageSize :: "int \<Rightarrow> int \<Rightarrow> fdpage list \<Rightarrow> int" where
  "pl_GetTotalUnloadedPageSize start sz pages =
     total_unloaded_loop start (start + sz) 0 pages"

text \<open>
  \<open>GetUnloadedPages\<close>: \<open>acc\<close> is \<open>unloaded_list\<close>, which a caller passes in; the
  method returns its length.
\<close>

definition add_unloaded :: "int \<Rightarrow> int \<Rightarrow> fdpage list \<Rightarrow> fdpage list" where
  "add_unloaded page_start page_size acc =
     (if acc \<noteq> [] \<and> pg_next (last acc) = page_start
      then butlast acc @ [(last acc)\<lparr>pg_bytes := pg_bytes (last acc) + page_size\<rparr>]
      else acc @ [\<lparr>pg_offset = page_start, pg_bytes = page_size, pg_loaded = False\<rparr>])"

fun unloaded_loop :: "int \<Rightarrow> int \<Rightarrow> fdpage list \<Rightarrow> fdpage list \<Rightarrow> fdpage list" where
  "unloaded_loop start nxt acc [] = acc"
| "unloaded_loop start nxt acc (p # ps) =
     (if pg_next p \<le> start then unloaded_loop start nxt acc ps
      else if nxt \<le> pg_offset p then acc
      else if pg_loaded p then unloaded_loop start nxt acc ps
      else let page_start = max (pg_offset p) start;
               page_next = min (pg_next p) nxt;
               page_size = page_next - page_start
           in unloaded_loop start nxt (add_unloaded page_start page_size acc) ps)"

definition pl_GetUnloadedPages ::
  "fdpage list \<Rightarrow> int \<Rightarrow> int \<Rightarrow> fdpage list \<Rightarrow> fdpage list \<times> nat" where
  "pl_GetUnloadedPages unloaded_list start sz pages =
     (let sz' = (if sz = 0 \<and> start < pl_Size pages then pl_Size pages - start else sz);
          acc = unloaded_loop start (start + sz') unloaded_list pages
      in (acc, length acc))"

section \<open>Invariant and abstraction\<close>

text \<open>The pages cover an interval from \<open>pos\<close> on, without holes and without empty pages.\<close>

fun contig :: "int \<Rightarrow> fdpage list \<Rightarrow> bool" where
  "contig pos [] = True"
| "contig pos (p # ps) = (pg_offset p = pos \<and> 0 < pg_bytes p \<and> contig (pg_next p) ps)"

fun limit :: "int \<Rightarrow> fdpage list \<Rightarrow> int" where
  "limit pos [] = pos"
| "limit pos (p # ps) = limit (pg_next p) ps"

text \<open>
  A page list of the program is contiguous from 0, or it is the single empty page that
  \<open>Init(0, b)\<close> makes.
\<close>

definition pl_inv :: "fdpage list \<Rightarrow> bool" where
  "pl_inv pages \<longleftrightarrow> contig 0 pages \<or> (\<exists>b. pages = pl_Init 0 b)"

fun st_at :: "fdpage list \<Rightarrow> int \<Rightarrow> bool option" where
  "st_at [] x = None"
| "st_at (p # ps) x = (if pg_offset p \<le> x \<and> x < pg_next p then Some (pg_loaded p) else st_at ps x)"

text \<open>After \<open>Compress\<close>, neighbouring pages differ in their flag.\<close>

fun alternating :: "fdpage list \<Rightarrow> bool" where
  "alternating [] = True"
| "alternating [p] = True"
| "alternating (p # q # ps) = (pg_loaded p \<noteq> pg_loaded q \<and> alternating (q # ps))"

named_theorems pl_defs \<open>unfolding of the small page operations\<close>
lemmas [pl_defs] = pg_next_def pg_end_def

lemma limit_append: "limit pos (ps @ qs) = limit (limit pos ps) qs"
  by (induction ps arbitrary: pos) auto

lemma contig_append: "contig pos (ps @ qs) \<longleftrightarrow> contig pos ps \<and> contig (limit pos ps) qs"
  by (induction ps arbitrary: pos) auto

lemma limit_ge: "contig pos ps \<Longrightarrow> pos \<le> limit pos ps"
  by (induction ps arbitrary: pos) (fastforce simp: pl_defs)+

lemma limit_gr: "contig pos ps \<Longrightarrow> ps \<noteq> [] \<Longrightarrow> pos < limit pos ps"
  using limit_ge by (cases ps) (fastforce simp: pl_defs)+

lemma limit_last: "ps \<noteq> [] \<Longrightarrow> limit pos ps = pg_next (last ps)"
  by (induction ps arbitrary: pos) auto

lemma pl_Size_limit: "contig 0 pages \<Longrightarrow> pl_Size pages = limit 0 pages"
  by (auto simp: pl_Size_def limit_last)

lemma pl_Size_nonneg: "pl_inv pages \<Longrightarrow> 0 \<le> pl_Size pages"
  using limit_ge [of 0 pages] pl_Size_limit [of pages]
  by (auto simp: pl_inv_def pl_Init_def pl_Size_def pg_next_def)

lemma pl_Size_pos: "contig 0 pages \<Longrightarrow> pages \<noteq> [] \<Longrightarrow> 0 < pl_Size pages"
  by (simp add: pl_Size_limit limit_gr)

lemma pl_Size_Init [simp]: "pl_Size (pl_Init n b) = n"
  by (simp add: pl_Size_def pl_Init_def pg_next_def)

lemma pl_Size_Nil [simp]: "pl_Size [] = 0"
  by (simp add: pl_Size_def)

lemma pl_inv_contig: "pl_inv pages \<Longrightarrow> 0 < pl_Size pages \<Longrightarrow> contig 0 pages"
  by (auto simp: pl_inv_def)

lemma pl_inv_Nil [simp]: "pl_inv []"
  by (simp add: pl_inv_def)

lemma pl_inv_Init [simp]: "0 \<le> n \<Longrightarrow> pl_inv (pl_Init n b)"
  by (cases "n = 0") (auto simp: pl_inv_def pl_Init_def pg_next_def)

lemma st_at_Init: "st_at (pl_Init n b) x = (if 0 \<le> x \<and> x < n then Some b else None)"
  by (simp add: pl_Init_def pg_next_def)

lemma st_at_below: "contig pos ps \<Longrightarrow> x < pos \<Longrightarrow> st_at ps x = None"
  by (induction ps arbitrary: pos) (auto simp: pl_defs)

lemma st_at_above: "contig pos ps \<Longrightarrow> limit pos ps \<le> x \<Longrightarrow> st_at ps x = None"
proof (induction ps arbitrary: pos)
  case Nil
  then show ?case by simp
next
  case (Cons p ps)
  then have "pg_next p \<le> limit (pg_next p) ps" by (simp add: limit_ge)
  with Cons show ?case by auto
qed

lemma st_at_defined: "contig pos ps \<Longrightarrow> pos \<le> x \<Longrightarrow> x < limit pos ps \<Longrightarrow> st_at ps x \<noteq> None"
proof (induction ps arbitrary: pos)
  case Nil
  then show ?case by simp
next
  case (Cons p ps)
  then show ?case by (cases "x < pg_next p") auto
qed

lemma st_at_append:
  "contig pos (ps @ qs) \<Longrightarrow>
    st_at (ps @ qs) x = (if x < limit pos ps then st_at ps x else st_at qs x)"
proof (induction ps arbitrary: pos)
  case Nil
  then show ?case using st_at_below by fastforce
next
  case (Cons p ps)
  then have "pg_next p \<le> limit (pg_next p) ps" by (simp add: limit_ge contig_append)
  with Cons show ?case by auto
qed

lemma st_at_None_iff:
  "pl_inv pages \<Longrightarrow> st_at pages x = None \<longleftrightarrow> x < 0 \<or> pl_Size pages \<le> x"
  unfolding pl_inv_def
  using st_at_below [of 0 pages x] st_at_above [of 0 pages x] st_at_defined [of 0 pages x]
  by (fastforce simp: pl_Size_limit st_at_Init)


section \<open>Compress, Parse and Resize\<close>

lemma contig_join:
  "contig pos (b # p # ps) \<Longrightarrow> contig pos (b\<lparr>pg_bytes := pg_bytes b + pg_bytes p\<rparr> # ps)"
  by (auto simp: pl_defs add.assoc)

lemma compress_loop_contig:
  "contig pos (b # ps) \<Longrightarrow>
    contig pos (compress_loop b l ps) \<and> limit pos (compress_loop b l ps) = limit pos (b # ps)"
proof (induction b l ps arbitrary: pos rule: compress_loop.induct)
  case (1 b l)
  then show ?case by simp
next
  case (2 b l p ps)
  show ?case
  proof (cases "l = pg_loaded p")
    case True
    have "contig pos (b\<lparr>pg_bytes := pg_bytes b + pg_bytes p\<rparr> # ps)"
      using "2.prems" by (rule contig_join)
    from "2.IH"(1) [OF True this] "2.prems" True show ?thesis
      by (auto simp: pl_defs add.assoc)
  next
    case False
    have "contig (pg_next b) (p # ps)" using "2.prems" by simp
    from "2.IH"(2) [OF False this] False "2.prems" show ?thesis by simp
  qed
qed

lemma compress_loop_st_at:
  "contig pos (b # ps) \<Longrightarrow> l = pg_loaded b \<Longrightarrow>
    st_at (compress_loop b l ps) x = st_at (b # ps) x"
proof (induction b l ps arbitrary: pos rule: compress_loop.induct)
  case (1 b l)
  then show ?case by simp
next
  case (2 b l p ps)
  show ?case
  proof (cases "l = pg_loaded p")
    case True
    have "contig pos (b\<lparr>pg_bytes := pg_bytes b + pg_bytes p\<rparr> # ps)"
      using "2.prems"(1) by (rule contig_join)
    from "2.IH"(1) [OF True this] "2.prems" True show ?thesis
      by (auto simp: pl_defs)
  next
    case False
    have "contig (pg_next b) (p # ps)" using "2.prems" by simp
    from "2.IH"(2) [OF False this] False "2.prems" show ?thesis by simp
  qed
qed

lemma compress_loop_hd:
  "l = pg_loaded b \<Longrightarrow> \<exists>q qs. compress_loop b l ps = q # qs \<and> pg_loaded q = l"
proof (induction b l ps rule: compress_loop.induct)
  case (1 b l)
  then show ?case by simp
next
  case (2 b l p ps)
  then show ?case by (cases "l = pg_loaded p") auto
qed

lemma compress_loop_alternating: "l = pg_loaded b \<Longrightarrow> alternating (compress_loop b l ps)"
proof (induction b l ps rule: compress_loop.induct)
  case (1 b l)
  then show ?case by simp
next
  case (2 b l p ps)
  show ?case
  proof (cases "l = pg_loaded p")
    case True
    then show ?thesis using 2 by simp
  next
    case False
    obtain q qs where "compress_loop p (pg_loaded p) ps = q # qs" "pg_loaded q = pg_loaded p"
      using compress_loop_hd by blast
    then show ?thesis using False "2.IH"(2) "2.prems" by auto
  qed
qed

lemma Compress_contig: "contig 0 pages \<Longrightarrow> contig 0 (pl_Compress pages)"
  using compress_loop_contig by (cases pages) (auto simp del: contig.simps(2) limit.simps)

lemma Compress_Size: "contig 0 pages \<Longrightarrow> pl_Size (pl_Compress pages) = pl_Size pages"
  using compress_loop_contig [of 0]
  by (cases pages) (simp_all add: pl_Size_limit del: contig.simps(2) limit.simps)

lemma Compress_st_at: "contig 0 pages \<Longrightarrow> st_at (pl_Compress pages) x = st_at pages x"
  using compress_loop_st_at by (cases pages) (auto simp del: contig.simps(2) st_at.simps)

lemma Compress_alternating: "alternating (pl_Compress pages)"
  by (cases pages) (auto simp: compress_loop_alternating)

lemma Compress_Init [simp]: "pl_Compress (pl_Init n b) = pl_Init n b"
  by (simp add: pl_Init_def)

lemma Compress_inv: "pl_inv pages \<Longrightarrow> pl_inv (pl_Compress pages)"
  using Compress_contig by (auto simp: pl_inv_def)

lemma Compress_inv_st_at: "pl_inv pages \<Longrightarrow> st_at (pl_Compress pages) x = st_at pages x"
  using Compress_st_at by (auto simp: pl_inv_def)

lemma Compress_inv_Size: "pl_inv pages \<Longrightarrow> pl_Size (pl_Compress pages) = pl_Size pages"
  using Compress_Size by (auto simp: pl_inv_def)

lemma Parse_contig:
  "contig pos pages \<Longrightarrow>
    contig pos (fst (pl_Parse n pages)) \<and> limit pos (fst (pl_Parse n pages)) = limit pos pages"
  by (induction n pages arbitrary: pos rule: pl_Parse.induct)
    (auto simp: pl_defs add.commute split: prod.splits)

lemma Parse_st_at: "contig pos pages \<Longrightarrow> st_at (fst (pl_Parse n pages)) x = st_at pages x"
  by (induction n pages arbitrary: pos rule: pl_Parse.induct)
    (auto simp: pl_defs split: prod.splits)

text \<open>\<open>Parse\<close> makes its position a page boundary, and keeps the boundaries there were.\<close>

definition boundary :: "int \<Rightarrow> fdpage list \<Rightarrow> bool" where
  "boundary n pages \<longleftrightarrow> (\<forall>p \<in> set pages. n \<le> pg_offset p \<or> pg_next p \<le> n)"

lemma boundary_Cons [simp]:
  "boundary n (p # ps) \<longleftrightarrow> (n \<le> pg_offset p \<or> pg_next p \<le> n) \<and> boundary n ps"
  by (simp add: boundary_def)

lemma boundary_Nil [simp]: "boundary n []"
  by (simp add: boundary_def)

lemma boundary_below: "contig pos ps \<Longrightarrow> n \<le> pos \<Longrightarrow> boundary n ps"
proof (induction ps arbitrary: pos)
  case Nil
  then show ?case by simp
next
  case (Cons p ps)
  then show ?case by (auto simp: pg_next_def intro: Cons.IH)
qed

lemma Parse_boundary: "contig pos pages \<Longrightarrow> boundary n (fst (pl_Parse n pages))"
proof (induction n pages arbitrary: pos rule: pl_Parse.induct)
  case (1 n)
  then show ?case by simp
next
  case (2 n p ps)
  consider "n \<le> pg_offset p" | "pg_offset p < n" "n < pg_next p" | "pg_next p \<le> n" by linarith
  then show ?case
  proof cases
    case 1
    have "contig pos (fst (pl_Parse n (p # ps)))" using "2.prems" by (rule Parse_contig [THEN conjunct1])
    moreover have "n \<le> pos" using 1 "2.prems" by simp
    ultimately show ?thesis by (rule boundary_below)
  next
    case 2
    have "boundary n ps"
      using "2.prems" 2 by (intro boundary_below [of "pg_next p"]) auto
    then show ?thesis using 2 by (simp add: pg_next_def)
  next
    case 3
    have "pg_offset p < n" using "2.prems" 3 by (simp add: pg_next_def)
    then show ?thesis using 3 2 by (auto split: prod.splits)
  qed
qed

lemma Parse_boundary_keep:
  "contig pos pages \<Longrightarrow> boundary m pages \<Longrightarrow> boundary m (fst (pl_Parse n pages))"
  by (induction n pages arbitrary: pos rule: pl_Parse.induct)
    (auto simp: pg_next_def split: prod.splits)

lemma cut_contig:
  "contig pos ps \<Longrightarrow> pos \<le> n \<Longrightarrow> n \<le> limit pos ps \<Longrightarrow>
    contig pos (cut_loop n ps) \<and> limit pos (cut_loop n ps) = n"
proof (induction ps arbitrary: pos)
  case Nil
  then show ?case by simp
next
  case (Cons p ps)
  have drop: "contig q qs \<Longrightarrow> n \<le> q \<Longrightarrow> cut_loop n qs = []" for q qs
    by (induction qs arbitrary: q) (auto simp: pg_next_def)
  show ?case
  proof (cases "pg_next p \<le> n")
    case True
    then show ?thesis using Cons by auto
  next
    case False
    then have "cut_loop n ps = []" using Cons.prems by (intro drop [of "pg_next p"]) auto
    then show ?thesis using False Cons.prems by (auto simp: pg_next_def)
  qed
qed

lemma cut_st_at:
  "contig pos ps \<Longrightarrow> st_at (cut_loop n ps) x = (if x < n then st_at ps x else None)"
proof (induction ps arbitrary: pos)
  case Nil
  then show ?case by simp
next
  case (Cons p ps)
  have "contig (pg_next p) ps" using Cons.prems by simp
  then have "x < pg_next p \<Longrightarrow> st_at ps x = None" by (rule st_at_below)
  then show ?case using Cons.IH [OF \<open>contig (pg_next p) ps\<close>] Cons.prems
    by (auto simp: pg_next_def)
qed

lemma Resize_cases:
  assumes "pl_inv pages" "0 \<le> n"
  obtains (empty) "pl_Size pages = 0" "pl_Resize n b pages = pl_Init n b"
  | (build) ps where "contig 0 pages" "limit 0 pages = pl_Size pages" "0 < pl_Size pages"
      "contig 0 ps" "limit 0 ps = n" "pl_Resize n b pages = pl_Compress ps"
      "\<And>x. st_at ps x = (if 0 \<le> x \<and> x < n then (if x < pl_Size pages then st_at pages x else Some b) else None)"
proof (cases "pl_Size pages = 0")
  case True
  then show ?thesis by (intro empty) (simp_all add: pl_Resize_def)
next
  case False
  then have s: "0 < pl_Size pages" using assms(1) pl_Size_nonneg [of pages] by simp
  then have c: "contig 0 pages" using assms(1) by (simp add: pl_inv_contig)
  then have l: "limit 0 pages = pl_Size pages" by (simp add: pl_Size_limit)
  have none: "st_at pages x = None \<longleftrightarrow> x < 0 \<or> pl_Size pages \<le> x" for x
    using assms(1) by (rule st_at_None_iff)
  let ?new = "\<lparr>pg_offset = pl_Size pages, pg_bytes = n - pl_Size pages, pg_loaded = b\<rparr>"
  consider "pl_Size pages < n" | "n < pl_Size pages" | "n = pl_Size pages" by linarith
  then show ?thesis
  proof cases
    case 1
    then have c': "contig 0 (pages @ [?new])" using c l by (simp add: contig_append)
    show ?thesis
    proof (rule build [OF c l s c'])
      show "limit 0 (pages @ [?new]) = n" by (simp add: limit_append pg_next_def)
      show "pl_Resize n b pages = pl_Compress (pages @ [?new])"
        using 1 False by (simp add: pl_Resize_def Let_def)
      show "st_at (pages @ [?new]) x = (if 0 \<le> x \<and> x < n then
          (if x < pl_Size pages then st_at pages x else Some b) else None)" for x
        unfolding st_at_append [OF c'] l using 1 none [of x] s by (simp add: pg_next_def)
    qed
  next
    case 2
    then have c': "contig 0 (cut_loop n pages) \<and> limit 0 (cut_loop n pages) = n"
      using c assms(2) l by (intro cut_contig) simp_all
    show ?thesis
    proof (rule build [OF c l s conjunct1 [OF c'] conjunct2 [OF c']])
      show "pl_Resize n b pages = pl_Compress (cut_loop n pages)"
        using 2 False by (simp add: pl_Resize_def)
      show "st_at (cut_loop n pages) x = (if 0 \<le> x \<and> x < n then
          (if x < pl_Size pages then st_at pages x else Some b) else None)" for x
        unfolding cut_st_at [OF c] using 2 none [of x] by simp
    qed
  next
    case 3
    show ?thesis
    proof (rule build [OF c l s c])
      show "limit 0 pages = n" using l 3 by simp
      show "pl_Resize n b pages = pl_Compress pages" using 3 False by (simp add: pl_Resize_def)
      show "st_at pages x = (if 0 \<le> x \<and> x < n then
          (if x < pl_Size pages then st_at pages x else Some b) else None)" for x
        using 3 none [of x] by auto
    qed
  qed
qed

lemma Resize_inv: "pl_inv pages \<Longrightarrow> 0 \<le> n \<Longrightarrow> pl_inv (pl_Resize n b pages)"
  by (erule (1) Resize_cases [where b = b]) (simp_all add: pl_inv_def Compress_contig, auto simp: pl_inv_Init [unfolded pl_inv_def])

lemma Resize_Size: "pl_inv pages \<Longrightarrow> 0 \<le> n \<Longrightarrow> pl_Size (pl_Resize n b pages) = n"
  by (erule (1) Resize_cases [where b = b]) (simp_all add: Compress_Size pl_Size_limit)

lemma Resize_st_at:
  "pl_inv pages \<Longrightarrow> 0 \<le> n \<Longrightarrow>
    st_at (pl_Resize n b pages) x =
      (if 0 \<le> x \<and> x < n then (if x < pl_Size pages then st_at pages x else Some b) else None)"
  by (erule (1) Resize_cases [where b = b]) (simp_all add: Compress_st_at st_at_Init)


section \<open>Setting and querying the flags\<close>

lemma set_loaded_contig:
  "contig pos ps \<Longrightarrow> contig pos (set_loaded_loop a n b ps)
    \<and> limit pos (set_loaded_loop a n b ps) = limit pos ps"
  by (induction ps arbitrary: pos) (auto simp: pg_next_def)

lemma set_loaded_st_at:
  "contig pos ps \<Longrightarrow> boundary a ps \<Longrightarrow> boundary (a + n) ps \<Longrightarrow> 0 \<le> n \<Longrightarrow>
    st_at (set_loaded_loop a n b ps) x =
      (if a \<le> x \<and> x < a + n \<and> st_at ps x \<noteq> None then Some b else st_at ps x)"
proof (induction ps arbitrary: pos)
  case Nil
  then show ?case by simp
next
  case (Cons p ps)
  have c: "contig (pg_next p) ps" using Cons.prems by simp
  have IH: "st_at (set_loaded_loop a n b ps) x =
      (if a \<le> x \<and> x < a + n \<and> st_at ps x \<noteq> None then Some b else st_at ps x)"
    using Cons.IH [OF c] Cons.prems by simp
  consider "pg_next p \<le> a" | "a < pg_next p" "a + n \<le> pg_offset p"
    | "a < pg_next p" "pg_offset p < a + n" by linarith
  then show ?case
  proof cases
    case 1
    then show ?thesis using IH Cons.prems by (auto simp: pl_defs)
  next
    case 2
    then have "x < a + n \<Longrightarrow> st_at (p # ps) x = None"
      using Cons.prems(1) by (intro st_at_below [of pos]) auto
    then show ?thesis using 2 Cons.prems by (auto simp: pl_defs)
  next
    case 3
    then have "a \<le> pg_offset p" "pg_next p \<le> a + n" using Cons.prems by auto
    then show ?thesis using 3 IH Cons.prems by (auto simp: pl_defs)
  qed
qed

lemma SetPageLoadedStatus_inner:
  fixes a n :: int and b :: bool
  assumes c: "contig 0 pages" and "0 \<le> n"
  defines "ps \<equiv> set_loaded_loop a n b (fst (pl_Parse (a + n) (fst (pl_Parse a pages))))"
  shows "contig 0 ps" "pl_Size ps = pl_Size pages"
    "st_at ps x = (if a \<le> x \<and> x < a + n \<and> st_at pages x \<noteq> None then Some b else st_at pages x)"
proof -
  let ?q = "fst (pl_Parse a pages)"
  let ?r = "fst (pl_Parse (a + n) ?q)"
  have q: "contig 0 ?q \<and> limit 0 ?q = limit 0 pages" using c by (rule Parse_contig)
  then have r: "contig 0 ?r \<and> limit 0 ?r = limit 0 ?q" using Parse_contig by blast
  have s: "contig 0 ps \<and> limit 0 ps = limit 0 ?r"
    unfolding ps_def using r by (intro set_loaded_contig) simp
  show "contig 0 ps" using s by simp
  then show "pl_Size ps = pl_Size pages" using s r q c by (simp add: pl_Size_limit)
  have "boundary a ?r" by (rule Parse_boundary_keep [OF conjunct1 [OF q] Parse_boundary [OF c]])
  moreover have "boundary (a + n) ?r" using q Parse_boundary by blast
  moreover have "st_at ?r x = st_at pages x" using Parse_st_at [OF c] Parse_st_at q by metis
  ultimately show
    "st_at ps x = (if a \<le> x \<and> x < a + n \<and> st_at pages x \<noteq> None then Some b else st_at pages x)"
    unfolding ps_def using r assms(2) by (subst set_loaded_st_at [of 0]) auto
qed

lemma SetPageLoadedStatus_cases:
  assumes "pl_inv pages" "0 \<le> a" "0 \<le> n"
  obtains ps where "pl_inv ps" "pl_Size ps = max (pl_Size pages) (a + n)"
    "pl_SetPageLoadedStatus a n b z pages = (if z then pl_Compress ps else ps)"
    "\<And>x. st_at ps x =
       (if a \<le> x \<and> x < a + n then Some b
        else if x < pl_Size pages then st_at pages x
        else if 0 \<le> x \<and> x < a then Some False else None)"
proof -
  have none: "st_at pages x = None \<longleftrightarrow> x < 0 \<or> pl_Size pages \<le> x" for x
    using assms(1) by (rule st_at_None_iff)
  then have neg: "x < 0 \<Longrightarrow> st_at pages x = None" for x by simp
  consider "pl_Size pages \<le> a" | "a < pl_Size pages" "pl_Size pages \<le> a + n"
    | "a + n < pl_Size pages" by linarith
  then show ?thesis
  proof cases
    case 1
    define p1 where "p1 = (if pl_Size pages < a then pl_Resize a False pages else pages)"
    have i: "pl_inv p1" "pl_Size p1 = a"
      using assms 1 by (auto simp: p1_def Resize_inv Resize_Size)
    have at: "st_at p1 x = (if x < pl_Size pages then st_at pages x
        else if 0 \<le> x \<and> x < a then Some False else None)" for x
      using assms 1 none [of x] by (auto simp: p1_def Resize_st_at)
    show ?thesis
      by (rule that [of "pl_Resize (a + n) b p1"])
        (use assms 1 i in \<open>auto simp: Resize_inv Resize_Size Resize_st_at at none neg
           pl_SetPageLoadedStatus_def Let_def p1_def [symmetric]\<close>)
  next
    case 2
    have i: "pl_inv (pl_Resize a False pages)" "pl_Size (pl_Resize a False pages) = a"
      using assms by (auto simp: Resize_inv Resize_Size)
    show ?thesis
      by (rule that [of "pl_Resize (a + n) b (pl_Resize a False pages)"])
        (use assms 2 i in \<open>auto simp: Resize_inv Resize_Size Resize_st_at none neg
           pl_SetPageLoadedStatus_def Let_def\<close>)
  next
    case 3
    then have c: "contig 0 pages" using assms by (simp add: pl_inv_contig)
    note i = SetPageLoadedStatus_inner [OF c assms(3)]
    show ?thesis
      by (rule that [of "set_loaded_loop a n b (fst (pl_Parse (a + n) (fst (pl_Parse a pages))))"])
        (use assms 3 i none neg in \<open>auto simp: pl_SetPageLoadedStatus_def Let_def pl_inv_def\<close>)
  qed
qed

lemma SetPageLoadedStatus_inv:
  assumes "pl_inv pages" "0 \<le> a" "0 \<le> n"
  shows "pl_inv (pl_SetPageLoadedStatus a n b z pages)"
  by (rule SetPageLoadedStatus_cases [OF assms, of b z]) (simp add: Compress_inv)

lemma SetPageLoadedStatus_Size:
  assumes "pl_inv pages" "0 \<le> a" "0 \<le> n"
  shows "pl_Size (pl_SetPageLoadedStatus a n b z pages) = max (pl_Size pages) (a + n)"
  by (rule SetPageLoadedStatus_cases [OF assms, of b z]) (simp add: Compress_inv_Size)

lemma SetPageLoadedStatus_st_at:
  assumes "pl_inv pages" "0 \<le> a" "0 \<le> n"
  shows "st_at (pl_SetPageLoadedStatus a n b z pages) x =
       (if a \<le> x \<and> x < a + n then Some b
        else if x < pl_Size pages then st_at pages x
        else if 0 \<le> x \<and> x < a then Some False else None)"
  by (rule SetPageLoadedStatus_cases [OF assms, of b z]) (simp add: Compress_inv_st_at)

text \<open>A page that is loaded, or ends before \<open>a\<close>, holds no unloaded position from \<open>a\<close> on.\<close>

lemma st_at_skip:
  assumes "contig (pg_next p) ps" "pg_loaded p \<or> pg_next p \<le> a" "a \<le> x"
  shows "st_at (p # ps) x = Some False \<longleftrightarrow> st_at ps x = Some False"
  using assms st_at_below [OF assms(1), of x] by auto

lemma IsPageLoaded_contig:
  "contig pos ps \<Longrightarrow> 0 \<le> n \<Longrightarrow> n = 0 \<or> pos < a + n \<Longrightarrow>
    pl_IsPageLoaded a n ps \<longleftrightarrow>
      (\<forall>x. a \<le> x \<and> (n = 0 \<or> x < a + n) \<longrightarrow> st_at ps x \<noteq> Some False)"
proof (induction ps arbitrary: pos)
  case Nil
  then show ?case by simp
next
  case (Cons p ps)
  have c: "contig (pg_next p) ps" and p: "0 < pg_bytes p" using Cons.prems by auto
  note IH = Cons.IH [OF c Cons.prems(2)]
  have above: "x < pg_next p \<Longrightarrow> st_at ps x = None" for x using c by (rule st_at_below)
  have rest: "pg_loaded p \<or> pg_next p \<le> a \<Longrightarrow> n = 0 \<or> pg_next p < a + n \<Longrightarrow>
      (\<forall>x. a \<le> x \<and> (n = 0 \<or> x < a + n) \<longrightarrow> st_at (p # ps) x \<noteq> Some False) =
      (\<forall>x. a \<le> x \<and> (n = 0 \<or> x < a + n) \<longrightarrow> st_at ps x \<noteq> Some False)"
    using st_at_skip [OF c] by blast
  consider "pg_next p \<le> a" "n = 0 \<or> pg_next p < a + n"
    | "a < pg_next p" "\<not> pg_loaded p"
    | "a < pg_next p" "pg_loaded p" "n \<noteq> 0" "a + n \<le> pg_next p"
    | "a < pg_next p" "pg_loaded p" "n = 0 \<or> pg_next p < a + n"
    using Cons.prems(2) by linarith
  then show ?case
  proof cases
    case 1
    then show ?thesis using IH p rest by (simp add: pl_defs)
  next
    case 2
    let ?x = "max a (pg_offset p)"
    have "a \<le> ?x \<and> (n = 0 \<or> ?x < a + n) \<and> st_at (p # ps) ?x = Some False"
      using 2 p Cons.prems by (auto simp: pg_next_def)
    moreover have "\<not> pl_IsPageLoaded a n (p # ps)" using 2 p by (auto simp: pl_defs)
    ultimately show ?thesis by blast
  next
    case 3
    then have "st_at (p # ps) x \<noteq> Some False" if "x < a + n" for x
      using that above [of x] by auto
    then show ?thesis using 3 p by (auto simp: pl_defs)
  next
    case 4
    then have "pl_IsPageLoaded a n (p # ps) = pl_IsPageLoaded a n ps"
      using p by (auto simp: pl_defs)
    then show ?thesis using IH rest 4 by simp
  qed
qed

lemma IsPageLoaded_iff:
  "contig 0 pages \<Longrightarrow> 0 \<le> a \<Longrightarrow> 0 \<le> n \<Longrightarrow>
    pl_IsPageLoaded a n pages \<longleftrightarrow>
      (\<forall>x. a \<le> x \<and> (n = 0 \<or> x < a + n) \<longrightarrow> st_at pages x \<noteq> Some False)"
  by (rule IsPageLoaded_contig) auto

text \<open>\<open>FindUnloadedPage\<close> finds the first page, in order, that reaches past \<open>start\<close> and is not loaded.\<close>

lemma FindUnloadedPage_None:
  "contig pos ps \<Longrightarrow> pl_FindUnloadedPage a ps = None \<longleftrightarrow> (\<forall>x \<ge> a. st_at ps x \<noteq> Some False)"
proof (induction ps arbitrary: pos)
  case Nil
  then show ?case by simp
next
  case (Cons p ps)
  have c: "contig (pg_next p) ps" and p: "0 < pg_bytes p" using Cons.prems by auto
  have above: "x < pg_next p \<Longrightarrow> st_at ps x = None" for x using c by (rule st_at_below)
  show ?case
  proof (cases "a < pg_next p \<and> \<not> pg_loaded p")
    case True
    then have "st_at (p # ps) (max a (pg_offset p)) = Some False"
      using p by (auto simp: pg_next_def)
    moreover have "pl_FindUnloadedPage a (p # ps) \<noteq> None" using True p by (simp add: pl_defs)
    ultimately show ?thesis by (meson max.cobounded1)
  next
    case False
    then have "(st_at (p # ps) x = Some False) = (st_at ps x = Some False)" if "a \<le> x" for x
      using st_at_skip [OF c _ that] by auto
    then show ?thesis using Cons.IH [OF c] False p by (auto simp: pl_defs)
  qed
qed

lemma FindUnloadedPage_Some:
  "contig pos ps \<Longrightarrow> pl_FindUnloadedPage a ps = Some (s, n) \<Longrightarrow>
    0 < n \<and> a < s + n \<and> (\<forall>x. s \<le> x \<and> x < s + n \<longrightarrow> st_at ps x = Some False)
    \<and> (\<forall>x. a \<le> x \<and> x < s \<longrightarrow> st_at ps x \<noteq> Some False)"
proof (induction ps arbitrary: pos)
  case Nil
  then show ?case by simp
next
  case (Cons p ps)
  have c: "contig (pg_next p) ps" and p: "0 < pg_bytes p" using Cons.prems by auto
  have above: "x < pg_next p \<Longrightarrow> st_at ps x = None" for x using c by (rule st_at_below)
  show ?case
  proof (cases "a < pg_next p \<and> \<not> pg_loaded p")
    case True
    then have "s = pg_offset p" "n = pg_bytes p" using Cons.prems p by (auto simp: pl_defs)
    then show ?thesis using True p above by (auto simp: pg_next_def)
  next
    case False
    then have "pl_FindUnloadedPage a ps = Some (s, n)"
      using Cons.prems p by (auto simp: pl_defs split: if_splits)
    note IH = Cons.IH [OF c this]
    then have "st_at ps s = Some False" by auto
    then have s: "pg_next p \<le> s" using above [of s] by (cases "s < pg_next p") auto
    have "st_at (p # ps) x = st_at ps x" if "s \<le> x" for x using s that by simp
    moreover have "st_at (p # ps) x = Some False \<longleftrightarrow> st_at ps x = Some False" if "a \<le> x" for x
      using st_at_skip [OF c _ that] False by auto
    ultimately show ?thesis using IH by auto
  qed
qed


section \<open>Counting and listing the unloaded areas\<close>

lemma unloaded_Cons:
  assumes "contig pos (p # ps)"
  shows "{x. a \<le> x \<and> x < m \<and> st_at (p # ps) x = Some False} =
    (if pg_loaded p then {} else {max a (pg_offset p)..<min m (pg_next p)})
      \<union> {x. a \<le> x \<and> x < m \<and> st_at ps x = Some False}"
proof -
  have "x < pg_next p \<Longrightarrow> st_at ps x = None" for x
    using assms by (intro st_at_below [of "pg_next p"]) auto
  then show ?thesis by auto
qed

lemma unloaded_beyond:
  "contig pos ps \<Longrightarrow> m \<le> pos \<Longrightarrow> {x. a \<le> x \<and> x < m \<and> st_at ps x = Some False} = {}"
  using st_at_below by fastforce

lemma unloaded_finite: "finite {x::int. a \<le> x \<and> x < m \<and> Q x}"
  by (rule finite_subset [of _ "{a..<m}"]) auto

lemma total_unloaded_card:
  "contig pos ps \<Longrightarrow> a \<le> m \<Longrightarrow>
    total_unloaded_loop a m r ps = r + int (card {x. a \<le> x \<and> x < m \<and> st_at ps x = Some False})"
proof (induction ps arbitrary: pos r)
  case Nil
  then show ?case by simp
next
  case (Cons p ps)
  have c: "contig (pg_next p) ps" and p: "0 < pg_bytes p" using Cons.prems by auto
  let ?U = "{x. a \<le> x \<and> x < m \<and> st_at ps x = Some False}"
  let ?I = "{max a (pg_offset p)..<min m (pg_next p)}"
  note IH = Cons.IH [OF c Cons.prems(2)] and U = unloaded_Cons [OF Cons.prems(1), of a m]
  consider "pg_next p \<le> a" | "a < pg_next p" "m \<le> pg_offset p"
    | "a < pg_next p" "pg_offset p < m" "pg_loaded p"
    | "a < pg_next p" "pg_offset p < m" "\<not> pg_loaded p" by linarith
  then show ?case
  proof cases
    case 1
    then show ?thesis using IH U by simp
  next
    case 2
    then have "{x. a \<le> x \<and> x < m \<and> st_at (p # ps) x = Some False} = {}"
      using Cons.prems(1) by (intro unloaded_beyond [of pos]) auto
    then have "card {x. a \<le> x \<and> x < m \<and> st_at (p # ps) x = Some False} = 0" by (simp only: card.empty)
    then show ?thesis using 2 by simp
  next
    case 3
    then show ?thesis using IH U by simp
  next
    case 4
    have "?I \<inter> ?U = {}" using st_at_below [OF c] by fastforce
    then have "card (?I \<union> ?U) = card ?I + card ?U"
      by (intro card_Un_disjoint) (auto simp: unloaded_finite)
    moreover have "int (card ?I) = min m (pg_next p) - max a (pg_offset p)"
      using 4 p Cons.prems(2) by (auto simp: pg_next_def)
    ultimately show ?thesis using 4 IH U by (auto simp: Let_def)
  qed
qed

lemma GetTotalUnloadedPageSize_card:
  "contig 0 pages \<Longrightarrow> 0 \<le> n \<Longrightarrow>
    pl_GetTotalUnloadedPageSize a n pages =
      int (card {x. a \<le> x \<and> x < a + n \<and> st_at pages x = Some False})"
  by (simp add: pl_GetTotalUnloadedPageSize_def total_unloaded_card [of 0])

text \<open>
  The list \<open>GetUnloadedPages\<close> builds: non-empty unloaded areas in ascending order, with a
  gap between any two (touching areas are merged).
\<close>

definition areas :: "fdpage list \<Rightarrow> bool" where
  "areas us \<longleftrightarrow> (\<forall>u \<in> set us. 0 < pg_bytes u \<and> \<not> pg_loaded u)
     \<and> sorted_wrt (\<lambda>u v. pg_next u < pg_offset v) us"

definition covers :: "fdpage list \<Rightarrow> int \<Rightarrow> bool" where
  "covers us x \<longleftrightarrow> (\<exists>u \<in> set us. pg_offset u \<le> x \<and> x < pg_next u)"

lemma areas_Nil [simp]: "areas []" and covers_Nil [simp]: "\<not> covers [] x"
  by (auto simp: areas_def covers_def)

lemma areas_append_one:
  "areas (us @ [u]) \<longleftrightarrow>
    areas us \<and> 0 < pg_bytes u \<and> \<not> pg_loaded u \<and> (\<forall>v \<in> set us. pg_next v < pg_offset u)"
  by (auto simp: areas_def sorted_wrt_append)

lemma covers_append_one:
  "covers (us @ [u]) x \<longleftrightarrow> covers us x \<or> (pg_offset u \<le> x \<and> x < pg_next u)"
  by (auto simp: covers_def)

lemma add_unloaded_spec:
  assumes "areas acc" "0 < n" "\<forall>u \<in> set acc. pg_next u \<le> a"
  shows "areas (add_unloaded a n acc)" "\<forall>u \<in> set (add_unloaded a n acc). pg_next u \<le> a + n"
    "covers (add_unloaded a n acc) x \<longleftrightarrow> covers acc x \<or> (a \<le> x \<and> x < a + n)"
proof -
  have "areas (add_unloaded a n acc) \<and> (\<forall>u \<in> set (add_unloaded a n acc). pg_next u \<le> a + n)
    \<and> (covers (add_unloaded a n acc) x \<longleftrightarrow> covers acc x \<or> (a \<le> x \<and> x < a + n))"
  proof (cases acc rule: rev_cases)
    case Nil
    then show ?thesis using assms(2)
      by (auto simp: add_unloaded_def areas_def covers_def pg_next_def)
  next
    case (snoc us u)
    then have u: "areas us" "0 < pg_bytes u" "\<not> pg_loaded u" "\<forall>v \<in> set us. pg_next v < pg_offset u"
      using assms(1) by (auto simp: areas_append_one)
    have le: "\<forall>v \<in> set us. pg_next v \<le> a" "pg_next u \<le> a" using assms(3) snoc by auto
    show ?thesis
    proof (cases "pg_next u = a")
      case True
      then have "add_unloaded a n acc = us @ [u\<lparr>pg_bytes := pg_bytes u + n\<rparr>]"
        using snoc by (simp add: add_unloaded_def)
      then show ?thesis using True u le assms(2) snoc
        by (auto simp: areas_append_one covers_append_one pg_next_def)
    next
      case False
      then have eq: "add_unloaded a n acc = acc @ [\<lparr>pg_offset = a, pg_bytes = n, pg_loaded = False\<rparr>]"
        using snoc by (simp add: add_unloaded_def)
      have "\<forall>v \<in> set acc. pg_next v < a"
        using u le False snoc by (auto simp: pg_next_def)
      then show ?thesis unfolding eq areas_append_one covers_append_one
        using assms by (auto simp: pg_next_def)
    qed
  qed
  then show "areas (add_unloaded a n acc)" "\<forall>u \<in> set (add_unloaded a n acc). pg_next u \<le> a + n"
    "covers (add_unloaded a n acc) x \<longleftrightarrow> covers acc x \<or> (a \<le> x \<and> x < a + n)" by auto
qed

lemma unloaded_loop_spec:
  "contig pos ps \<Longrightarrow> areas acc \<Longrightarrow> \<forall>u \<in> set acc. pg_next u \<le> max a pos \<Longrightarrow> a < m \<Longrightarrow>
    areas (unloaded_loop a m acc ps) \<and>
    (\<forall>x. covers (unloaded_loop a m acc ps) x \<longleftrightarrow>
       covers acc x \<or> (a \<le> x \<and> x < m \<and> st_at ps x = Some False))"
proof (induction ps arbitrary: pos acc)
  case Nil
  then show ?case by simp
next
  case (Cons p ps)
  have c: "contig (pg_next p) ps" and p: "0 < pg_bytes p" "pg_offset p = pos"
    using Cons.prems by auto
  have le: "\<forall>u \<in> set acc. pg_next u \<le> max a (pg_next p)"
    using Cons.prems(3) p by (fastforce simp: pg_next_def)
  have at: "(a \<le> x \<and> x < m \<and> st_at (p # ps) x = Some False) \<longleftrightarrow>
      (\<not> pg_loaded p \<and> max a pos \<le> x \<and> x < min m (pg_next p)) \<or>
      (a \<le> x \<and> x < m \<and> st_at ps x = Some False)" for x
    using st_at_below [OF c, of x] p(2) by (cases "x < pg_next p") auto
  consider "pg_next p \<le> a \<or> (a < pg_next p \<and> pos < m \<and> pg_loaded p)"
    | "a < pg_next p" "m \<le> pos" | "a < pg_next p" "pos < m" "\<not> pg_loaded p" by linarith
  then show ?case
  proof cases
    case 1
    then have "unloaded_loop a m acc (p # ps) = unloaded_loop a m acc ps" using p by auto
    moreover have "(a \<le> x \<and> x < m \<and> st_at (p # ps) x = Some False) \<longleftrightarrow>
        (a \<le> x \<and> x < m \<and> st_at ps x = Some False)" for x
      using at [of x] 1 by linarith
    ultimately show ?thesis using Cons.IH [OF c Cons.prems(2) le Cons.prems(4)] by presburger
  next
    case 2
    then have "\<not> (a \<le> x \<and> x < m \<and> st_at (p # ps) x = Some False)" for x
      using unloaded_beyond [OF Cons.prems(1), of m a] by blast
    moreover have "unloaded_loop a m acc (p # ps) = acc" using 2 p by simp
    ultimately show ?thesis using Cons.prems(2) by metis
  next
    case 3
    let ?acc = "add_unloaded (max pos a) (min (pg_next p) m - max pos a) acc"
    have pos: "0 < min (pg_next p) m - max pos a"
      using 3 Cons.prems(4) p by (auto simp: pg_next_def)
    have le': "\<forall>u \<in> set acc. pg_next u \<le> max pos a"
      using Cons.prems(3) by (simp add: max.commute)
    note A = add_unloaded_spec [OF Cons.prems(2) pos le']
    have "\<forall>u \<in> set ?acc. pg_next u \<le> max a (pg_next p)" using A(2) by fastforce
    note IH = Cons.IH [OF c A(1) this Cons.prems(4)]
    have eq: "unloaded_loop a m acc (p # ps) = unloaded_loop a m ?acc ps"
      using 3 p by (simp add: Let_def)
    have "covers ?acc x \<or> (a \<le> x \<and> x < m \<and> st_at ps x = Some False) \<longleftrightarrow>
        covers acc x \<or> (a \<le> x \<and> x < m \<and> st_at (p # ps) x = Some False)" for x
      unfolding at A(3) using 3(3) by auto
    then show ?thesis unfolding eq using IH by simp
  qed
qed

lemma unloaded_loop_none: "contig pos ps \<Longrightarrow> limit pos ps \<le> a \<Longrightarrow> unloaded_loop a m acc ps = acc"
proof (induction ps arbitrary: pos)
  case Nil
  then show ?case by simp
next
  case (Cons p ps)
  then have "pg_next p \<le> limit (pg_next p) ps" by (simp add: limit_ge)
  then show ?case using Cons by auto
qed

lemma GetUnloadedPages_spec:
  assumes "contig 0 pages" "0 \<le> a" "0 \<le> n"
  shows "areas (fst (pl_GetUnloadedPages [] a n pages))"
    "covers (fst (pl_GetUnloadedPages [] a n pages)) x \<longleftrightarrow>
       a \<le> x \<and> (n = 0 \<or> x < a + n) \<and> st_at pages x = Some False"
proof -
  let ?n = "if n = 0 \<and> a < pl_Size pages then pl_Size pages - a else n"
  have eq: "fst (pl_GetUnloadedPages [] a n pages) = unloaded_loop a (a + ?n) [] pages"
    by (simp add: pl_GetUnloadedPages_def Let_def)
  have none: "st_at pages x = None \<longleftrightarrow> x < 0 \<or> pl_Size pages \<le> x" for x
    using assms(1) by (intro st_at_None_iff) (simp add: pl_inv_def)
  show "areas (fst (pl_GetUnloadedPages [] a n pages))"
    "covers (fst (pl_GetUnloadedPages [] a n pages)) x \<longleftrightarrow>
       a \<le> x \<and> (n = 0 \<or> x < a + n) \<and> st_at pages x = Some False"
  proof (atomize (full), cases "0 < ?n")
    case True
    have "st_at pages x = Some False \<Longrightarrow> x < pl_Size pages" using none [of x] by auto
    then show "areas (fst (pl_GetUnloadedPages [] a n pages)) \<and>
      (covers (fst (pl_GetUnloadedPages [] a n pages)) x \<longleftrightarrow>
         a \<le> x \<and> (n = 0 \<or> x < a + n) \<and> st_at pages x = Some False)"
      unfolding eq using unloaded_loop_spec [OF assms(1) areas_Nil, of a "a + ?n"] True
      by (auto split: if_splits)
  next
    case False
    then have "n = 0" "pl_Size pages \<le> a" using assms(3) by (auto split: if_splits)
    moreover from this have "unloaded_loop a (a + ?n) [] pages = []"
      using assms(1) by (intro unloaded_loop_none [of 0]) (simp_all add: pl_Size_limit)
    moreover have "a \<le> x \<Longrightarrow> st_at pages x = None" using none [of x] \<open>pl_Size pages \<le> a\<close> by auto
    ultimately show "areas (fst (pl_GetUnloadedPages [] a n pages)) \<and>
      (covers (fst (pl_GetUnloadedPages [] a n pages)) x \<longleftrightarrow>
         a \<le> x \<and> (n = 0 \<or> x < a + n) \<and> st_at pages x = Some False)"
      unfolding eq by auto
  qed
qed

end
