(* ===== verification/String_Util.thy ===== *)
theory String_Util
  imports Mfs_Prelude
begin

text \<open>
  The character-level half of \<open>protocols/s3/string_util.cpp\<close>: decimal printing and
  parsing, trimming, URL coding, keyword lookup in a URL and the duration parser of the
  options. A function that changes a reference parameter returns its new value; a C++
  exception is the \<open>Inl\<close> of a sum.
\<close>

section \<open>Numbers\<close>

text \<open>\<open>str(value)\<close> prints an integer in decimal through an \<open>ostringstream\<close>.\<close>

fun nat_digits :: "nat \<Rightarrow> string" where
  "nat_digits n =
     (if n < 10 then [char_of (48 + n)] else nat_digits (n div 10) @ [char_of (48 + n mod 10)])"

declare nat_digits.simps [simp del]

definition str :: "int \<Rightarrow> string" where
  "str n = (if n < 0 then CHR ''-'' # nat_digits (nat (- n)) else nat_digits (nat n))"

datatype strtoofft_error = Invalid_argument | Out_of_range

definition LLONG_MAX :: int where "LLONG_MAX = 2 ^ 63 - 1"
definition LLONG_MIN :: int where "LLONG_MIN = - (2 ^ 63)"

definition is_space :: "char \<Rightarrow> bool" where
  "is_space c \<longleftrightarrow> c \<in> {CHR '' '', CHR 0x09, CHR 0x0A, CHR 0x0B, CHR 0x0C, CHR 0x0D}"

text \<open>The value of a digit in base 36, or \<open>None\<close>; \<open>strtoll\<close> takes those below its base.\<close>

definition digit_val :: "char \<Rightarrow> nat option" where
  "digit_val c =
     (if char_between CHR ''0'' CHR ''9'' c then Some (of_char c - 48)
      else if char_between CHR ''A'' CHR ''Z'' c then Some (of_char c - 55)
      else if char_between CHR ''a'' CHR ''z'' c then Some (of_char c - 87)
      else None)"

definition is_base_digit :: "nat \<Rightarrow> char \<Rightarrow> bool" where
  "is_base_digit base c = (case digit_val c of None \<Rightarrow> False | Some d \<Rightarrow> d < base)"

fun digits_value :: "nat \<Rightarrow> nat \<Rightarrow> string \<Rightarrow> nat" where
  "digits_value base acc [] = acc"
| "digits_value base acc (c # s) = digits_value base (acc * base + the (digit_val c)) s"

text \<open>
  \<open>strtoll(str, &temp, base)\<close>: white space, a sign, for base 16 an optional \<open>0x\<close>,
  then digits. The result is the unbounded value and the text \<open>temp\<close> points to, or
  \<open>None\<close> if there is no conversion (\<open>temp == str\<close>).
\<close>

definition strtoll :: "nat \<Rightarrow> string \<Rightarrow> (int \<times> string) option" where
  "strtoll base s =
     (let s1 = dropWhile is_space s;
          neg = (s1 \<noteq> [] \<and> hd s1 = CHR ''-'');
          s2 = (if s1 \<noteq> [] \<and> hd s1 \<in> {CHR ''-'', CHR ''+''} then tl s1 else s1);
          s3 = (if base = 16 \<and> 3 \<le> length s2 \<and> s2 ! 0 = CHR ''0''
                   \<and> s2 ! 1 \<in> {CHR ''x'', CHR ''X''} \<and> is_base_digit 16 (s2 ! 2)
                then drop 2 s2 else s2);
          ds = takeWhile (is_base_digit base) s3;
          v = int (digits_value base 0 ds)
      in if ds = [] then None
         else Some (if neg then - v else v, dropWhile (is_base_digit base) s3))"

definition s3fs_strtoofft :: "string \<Rightarrow> bool \<Rightarrow> strtoofft_error + int" where
  "s3fs_strtoofft s is_base_16 =
     (case strtoll (if is_base_16 then 16 else 10) s of
        None \<Rightarrow> Inl Invalid_argument
      | Some (result, temp) \<Rightarrow>
          if temp \<noteq> [] then Inl Invalid_argument
          else if result < LLONG_MIN \<or> LLONG_MAX < result then Inl Out_of_range
          else Inr result)"

section \<open>Case and trimming\<close>

definition lower :: "string \<Rightarrow> string" where
  "lower s = map tolower s"

definition SPACES :: string where
  "SPACES = [CHR '' '', CHR 0x09, CHR 0x0D, CHR 0x0A]"

definition trim_left :: "string \<Rightarrow> string \<Rightarrow> string" where
  "trim_left s t = (case find_idx (\<lambda>c. c \<notin> set t) s of None \<Rightarrow> [] | Some i \<Rightarrow> drop i s)"

definition trim_right :: "string \<Rightarrow> string \<Rightarrow> string" where
  "trim_right s t =
     (case find_last_idx (\<lambda>c. c \<notin> set t) s of None \<Rightarrow> [] | Some i \<Rightarrow> take (i + 1) s)"

definition trim :: "string \<Rightarrow> string \<Rightarrow> string" where
  "trim s t = trim_left (trim_right s t) t"

section \<open>URL coding\<close>

definition hexAlphabet :: string where
  "hexAlphabet = ''0123456789ABCDEF''"

definition is_alnum :: "char \<Rightarrow> bool" where
  "is_alnum c \<longleftrightarrow> char_between CHR ''a'' CHR ''z'' c \<or> char_between CHR ''A'' CHR ''Z'' c
     \<or> char_between CHR ''0'' CHR ''9'' c"

definition percent_encode :: "char \<Rightarrow> string" where
  "percent_encode c =
     [CHR ''%'', hexAlphabet ! ((of_char c :: nat) div 16), hexAlphabet ! ((of_char c :: nat) mod 16)]"

definition url_plain :: "char \<Rightarrow> bool" where
  "url_plain c \<longleftrightarrow> c = CHR ''/'' \<or> c = CHR ''.'' \<or> c = CHR ''-'' \<or> c = CHR ''_'' \<or> c = CHR ''~'' \<or> is_alnum c"

fun urlEncode :: "string \<Rightarrow> string" where
  "urlEncode [] = []"
| "urlEncode (c # s) = (if url_plain c then [c] else percent_encode c) @ urlEncode s"

definition url_plain2 :: "char \<Rightarrow> bool" where
  "url_plain2 c \<longleftrightarrow> c = CHR ''='' \<or> c = CHR ''&'' \<or> c = CHR ''%'' \<or> c = CHR ''.''
     \<or> c = CHR ''-'' \<or> c = CHR ''_'' \<or> c = CHR ''~'' \<or> is_alnum c"

fun urlEncode2 :: "string \<Rightarrow> string" where
  "urlEncode2 [] = []"
| "urlEncode2 (c # s) = (if url_plain2 c then [c] else percent_encode c) @ urlEncode2 s"

definition hex_nibble :: "char \<Rightarrow> nat" where
  "hex_nibble c =
     (if char_between CHR ''0'' CHR ''9'' c then of_char c - 48
      else if char_between CHR ''A'' CHR ''F'' c then of_char c - 65 + 10
      else if char_between CHR ''a'' CHR ''f'' c then of_char c - 97 + 10
      else 0)"

fun urlDecode :: "string \<Rightarrow> string" where
  "urlDecode [] = []"
| "urlDecode (c # s) =
     (if c \<noteq> CHR ''%'' then c # urlDecode s
      else (case s of
              [] \<Rightarrow> []
            | h # s1 \<Rightarrow> (case s1 of
                [] \<Rightarrow> []
              | l # s2 \<Rightarrow> char_of (hex_nibble h * 16 + hex_nibble l) # urlDecode s2)))"

section \<open>Quotes and keywords\<close>

definition takeout_str_dquart :: "string \<Rightarrow> string \<times> bool" where
  "takeout_str_dquart s =
     (case find_idx ((=) CHR 0x22) s of
        None \<Rightarrow> (s, True)
      | Some pos \<Rightarrow>
          (let s1 = drop (pos + 1) s in
           case find_last_idx ((=) CHR 0x22) s1 of
             None \<Rightarrow> (s1, False)
           | Some pos2 \<Rightarrow>
               (let s2 = take pos2 s1 in (s2, find_idx ((=) CHR 0x22) s2 = None))))"

text \<open>
  \<open>get_keyword_value\<close>: \<open>Inr None\<close> is the result \<open>false\<close>, \<open>Inr (Some v)\<close> is
  \<open>true\<close> with the value, \<open>Inl\<close> the \<open>std::out_of_range\<close> that \<open>target.at(spos)\<close>
  throws when the keyword is the end of the target.
\<close>

definition get_keyword_value ::
  "string \<Rightarrow> string option \<Rightarrow> strtoofft_error + string option" where
  "get_keyword_value target keyword =
     (case keyword of None \<Rightarrow> Inr None
      | Some kw \<Rightarrow>
          (case find_sub kw target of None \<Rightarrow> Inr None
           | Some p \<Rightarrow>
               (let spos = p + length kw in
                if length target \<le> spos then Inl Out_of_range
                else if CHR ''='' \<noteq> target ! spos then Inr None
                else let rest = drop (spos + 1) target in
                  (case find_idx ((=) CHR ''&'') rest of
                     None \<Rightarrow> Inr (Some rest)
                   | Some epos \<Rightarrow> Inr (Some (take epos rest))))))"

section \<open>Durations\<close>

text \<open>
  \<open>convert_unixtime_from_option_arg\<close>: the loop with its variables, the unit in the order
  of the code's tests. The result is the reference parameter and the returned flag.
\<close>

definition unit_of :: "char \<Rightarrow> (int \<times> int) option" where
  "unit_of c =
     (if c = CHR ''Y'' then Some (60 * 60 * 24 * 365, 1)
      else if c = CHR ''M'' then Some (60 * 60 * 24 * 30, 2)
      else if c = CHR ''D'' then Some (60 * 60 * 24, 3)
      else if c = CHR ''h'' then Some (60 * 60, 4)
      else if c = CHR ''m'' then Some (60, 5)
      else if c = CHR ''s'' then Some (1, 6)
      else None)"

fun unixtime_loop :: "int \<Rightarrow> int \<Rightarrow> bool \<Rightarrow> int \<Rightarrow> string \<Rightarrow> int \<times> bool" where
  "unixtime_loop unixtime last_unit is_last_number tmptime [] =
     (unixtime, \<not> is_last_number)"
| "unixtime_loop unixtime last_unit is_last_number tmptime (c # s) =
     (if is_digit c
      then unixtime_loop unixtime last_unit True (tmptime * 10 + int (of_char c - 48)) s
      else if is_last_number then
        (case unit_of c of
           None \<Rightarrow> (unixtime, False)
         | Some (secs, u) \<Rightarrow>
             if u > last_unit
             then unixtime_loop (unixtime + tmptime * secs) u False 0 s
             else (unixtime, False))
      else (unixtime, False))"

definition convert_unixtime_from_option_arg :: "string option \<Rightarrow> int \<Rightarrow> int \<times> bool" where
  "convert_unixtime_from_option_arg argv unixtime =
     (case argv of None \<Rightarrow> (unixtime, False) | Some s \<Rightarrow> unixtime_loop 0 0 True 0 s)"


section \<open>Printing and parsing numbers\<close>

lemma digit_val_digit: "d < 10 \<Longrightarrow> digit_val (char_of (48 + d)) = Some d"
  by (simp add: digit_val_def char_between_def)

lemma is_base_digit_digit: "(d::nat) < 10 \<Longrightarrow> 10 \<le> base \<Longrightarrow> is_base_digit base (char_of (48 + d))"
  by (simp add: is_base_digit_def digit_val_digit)

lemma digits_value_append:
  "digits_value base a (xs @ ys) = digits_value base (digits_value base a xs) ys"
  by (induction base a xs rule: digits_value.induct) auto

lemma nat_digits_all: "10 \<le> base \<Longrightarrow> \<forall>c \<in> set (nat_digits n). is_base_digit base c"
proof (induction n rule: nat_digits.induct)
  case (1 n)
  then show ?case
    by (subst nat_digits.simps) (auto simp: is_base_digit_digit)
qed

lemma nat_digits_value: "digits_value 10 0 (nat_digits n) = n"
proof (induction n rule: nat_digits.induct)
  case (1 n)
  show ?case
  proof (cases "n < 10")
    case True
    then show ?thesis by (subst nat_digits.simps) (simp add: digit_val_digit)
  next
    case False
    then show ?thesis using 1
      by (subst nat_digits.simps) (simp add: digits_value_append digit_val_digit)
  qed
qed

lemma nat_digits_nonempty [simp]: "nat_digits n \<noteq> []"
  by (subst nat_digits.simps) simp

lemma is_base_digit_not_space: "is_base_digit 10 c \<Longrightarrow> \<not> is_space c"
  by (auto simp: is_base_digit_def digit_val_def is_space_def char_between_def split: if_splits)

lemma is_base_digit_not_sign: "is_base_digit 10 c \<Longrightarrow> c \<noteq> CHR ''-'' \<and> c \<noteq> CHR ''+''"
  by (auto simp: is_base_digit_def digit_val_def char_between_def)

lemma strtoll_digits:
  assumes "\<forall>c \<in> set ds. is_base_digit 10 c" "ds \<noteq> []" "r = [] \<or> \<not> is_base_digit 10 (hd r)"
  shows "strtoll 10 (ds @ r) = Some (int (digits_value 10 0 ds), r)"
    "strtoll 10 (CHR ''-'' # ds @ r) = Some (- int (digits_value 10 0 ds), r)"
proof -
  obtain d ds' where ds: "ds = d # ds'" using assms(2) by (cases ds) auto
  have d: "\<not> is_space d" "d \<noteq> CHR ''-''" "d \<noteq> CHR ''+''" "is_base_digit 10 d"
    using assms(1) ds is_base_digit_not_space is_base_digit_not_sign by auto
  have sp: "\<not> is_space CHR ''-''" by (simp add: is_space_def)
  have tw: "takeWhile (is_base_digit 10) (ds @ r) = ds" "dropWhile (is_base_digit 10) (ds @ r) = r"
    using assms(1,3) by (cases r; simp add: takeWhile_append dropWhile_append3)+
  have s: "dropWhile is_space (ds @ r) = ds @ r" using ds d by simp
  show "strtoll 10 (ds @ r) = Some (int (digits_value 10 0 ds), r)"
    using tw d ds by (simp add: strtoll_def Let_def)
  show "strtoll 10 (CHR ''-'' # ds @ r) = Some (- int (digits_value 10 0 ds), r)"
    using tw d ds sp by (simp add: strtoll_def Let_def)
qed

lemma strtoofft_str:
  assumes "LLONG_MIN \<le> n" "n \<le> LLONG_MAX"
  shows "s3fs_strtoofft (str n) False = Inr n"
proof (cases "n < 0")
  case True
  have "strtoll 10 (CHR ''-'' # nat_digits (nat (- n)) @ []) = Some (- int (nat (- n)), [])"
    by (subst strtoll_digits(2)) (simp_all add: nat_digits_all nat_digits_value)
  then show ?thesis using True assms by (simp add: s3fs_strtoofft_def str_def)
next
  case False
  have "strtoll 10 (nat_digits (nat n) @ []) = Some (int (nat n), [])"
    by (subst strtoll_digits(1)) (simp_all add: nat_digits_all nat_digits_value)
  then show ?thesis using False assms by (simp add: s3fs_strtoofft_def str_def)
qed

lemma str_not_empty [simp]: "str n \<noteq> []"
  by (simp add: str_def)

lemma is_base_digit_iff: "is_base_digit 10 c \<longleftrightarrow> is_digit c"
  by (auto simp: is_base_digit_def digit_val_def char_between_def)

lemma str_chars: "c \<in> set (str n) \<Longrightarrow> is_digit c \<or> c = CHR ''-''"
  using nat_digits_all [of 10] by (auto simp: str_def is_base_digit_iff split: if_splits)

lemma str_inj:
  assumes "str a = str b" "LLONG_MIN \<le> a" "a \<le> LLONG_MAX" "LLONG_MIN \<le> b" "b \<le> LLONG_MAX"
  shows "a = b"
  using assms strtoofft_str [of a] strtoofft_str [of b] by (metis sum.inject(2))

section \<open>Trimming\<close>

lemma trim_left_dropWhile: "trim_left s t = dropWhile (\<lambda>c. c \<in> set t) s"
proof (cases "find_idx (\<lambda>c. c \<notin> set t) s")
  case None
  then have e: "dropWhile (\<lambda>c. c \<in> set t) s = []" by (simp add: find_idx_None)
  show ?thesis unfolding e using None by (simp add: trim_left_def)
next
  case (Some i)
  then show ?thesis using find_idx_drop [OF Some] by (simp add: trim_left_def)
qed

lemma trim_right_dropWhile: "trim_right s t = rev (dropWhile (\<lambda>c. c \<in> set t) (rev s))"
proof (cases "find_idx (\<lambda>c. c \<notin> set t) (rev s)")
  case None
  then have "\<forall>c \<in> set (rev s). c \<in> set t" by (simp add: find_idx_None)
  then show ?thesis using None by (simp add: trim_right_def find_last_idx_def)
next
  case (Some i)
  then have "i < length s" by (simp add: find_idx_Some)
  then have "trim_right s t = take (length s - i) s"
    using Some by (simp add: trim_right_def find_last_idx_def Suc_diff_Suc)
  also have "\<dots> = rev (drop i (rev s))" by (simp add: rev_drop)
  finally show ?thesis using find_idx_drop [OF Some] by simp
qed

lemma trim_decomp:
  "\<exists>a b. s = a @ trim s t @ b \<and> set a \<subseteq> set t \<and> set b \<subseteq> set t"
proof -
  let ?P = "\<lambda>c. c \<in> set t"
  let ?r = "trim_right s t"
  have "rev s = takeWhile ?P (rev s) @ dropWhile ?P (rev s)" by simp
  then have "s = ?r @ rev (takeWhile ?P (rev s))"
    unfolding trim_right_dropWhile by (metis rev_append rev_rev_ident)
  moreover have "?r = takeWhile ?P ?r @ trim s t"
    by (simp add: trim_def trim_left_dropWhile)
  ultimately have "s = takeWhile ?P ?r @ trim s t @ rev (takeWhile ?P (rev s))"
    by (metis append.assoc)
  moreover have "set (takeWhile ?P ?r) \<subseteq> set t" "set (rev (takeWhile ?P (rev s))) \<subseteq> set t"
    by (auto dest: set_takeWhileD)
  ultimately show ?thesis by blast
qed

lemma trim_left_hd: "trim_left s t \<noteq> [] \<Longrightarrow> hd (trim_left s t) \<notin> set t"
  using hd_dropWhile [of "\<lambda>c. c \<in> set t" s] by (simp add: trim_left_dropWhile)

lemma trim_ends:
  assumes "trim s t \<noteq> []"
  shows "hd (trim s t) \<notin> set t" "last (trim s t) \<notin> set t"
proof -
  let ?P = "\<lambda>c. c \<in> set t"
  show "hd (trim s t) \<notin> set t" using assms unfolding trim_def by (rule trim_left_hd)
  obtain a where a: "trim_right s t = a @ trim s t"
    using takeWhile_dropWhile_id [of ?P "trim_right s t"]
    unfolding trim_def trim_left_dropWhile by metis
  then have l: "last (trim_right s t) = last (trim s t)" and n: "trim_right s t \<noteq> []"
    using assms by simp_all
  have "dropWhile ?P (rev s) \<noteq> []" using n unfolding trim_right_dropWhile by simp
  then have "hd (dropWhile ?P (rev s)) \<notin> set t" using hd_dropWhile [of ?P "rev s"] by simp
  then show "last (trim s t) \<notin> set t"
    unfolding l [symmetric] trim_right_dropWhile by (simp add: last_rev)
qed

lemma trim_id: "s = [] \<or> hd s \<notin> set t \<and> last s \<notin> set t \<Longrightarrow> trim s t = s"
proof -
  assume a: "s = [] \<or> hd s \<notin> set t \<and> last s \<notin> set t"
  have "dropWhile (\<lambda>c. c \<in> set t) (rev s) = rev s"
    using a by (cases s rule: rev_cases) auto
  then have "trim_right s t = s" by (simp add: trim_right_dropWhile)
  then show ?thesis using a by (cases s) (auto simp: trim_def trim_left_dropWhile)
qed

lemma trim_idem: "trim (trim s t) t = trim s t"
proof (rule trim_id)
  show "trim s t = [] \<or> hd (trim s t) \<notin> set t \<and> last (trim s t) \<notin> set t"
    using trim_ends [of s t] by (cases "trim s t = []") simp_all
qed

section \<open>The URL codec\<close>

lemma hexAlphabet_nibble: "n < 16 \<Longrightarrow> hex_nibble (hexAlphabet ! n) = n"
proof -
  assume "n < 16"
  then have "n \<in> {0..<16}" by simp
  moreover have "\<forall>n \<in> set [0..<16]. hex_nibble (hexAlphabet ! n) = n"
    by code_simp
  ultimately show ?thesis by simp
qed

lemma of_char_less: "(of_char c :: nat) < 256"
  by (metis of_char_mod_256 mod_less_divisor zero_less_numeral)

lemma percent_decode: "urlDecode (percent_encode c @ s) = c # urlDecode s"
proof -
  have "(of_char c :: nat) div 16 < 16" using of_char_less [of c] by (simp add: less_mult_imp_div_less)
  moreover have "(of_char c :: nat) mod 16 < 16" by simp
  moreover have "(of_char c :: nat) div 16 * 16 + of_char c mod 16 = of_char c" by simp
  ultimately show ?thesis by (simp add: percent_encode_def hexAlphabet_nibble)
qed

lemma url_plain_not_percent: "url_plain c \<Longrightarrow> c \<noteq> CHR ''%''"
  by (auto simp: url_plain_def is_alnum_def char_between_def)

lemma urlDecode_urlEncode: "urlDecode (urlEncode s) = s"
  by (induction s) (auto simp: percent_decode url_plain_not_percent)

lemma urlEncode_chars: "c \<in> set (urlEncode s) \<Longrightarrow> url_plain c \<or> c = CHR ''%''"
proof (induction s)
  case Nil
  then show ?case by simp
next
  case (Cons a s)
  have hex: "n < 16 \<Longrightarrow> url_plain (hexAlphabet ! n)" for n
  proof -
    assume "n < 16"
    moreover have "\<forall>n \<in> set [0..<16]. url_plain (hexAlphabet ! n)" by code_simp
    ultimately show ?thesis by simp
  qed
  have "(of_char a :: nat) div 16 < 16" using of_char_less [of a] by (simp add: less_mult_imp_div_less)
  then show ?case using Cons hex by (auto simp: percent_encode_def split: if_splits)
qed


section \<open>Quotes, keywords and durations\<close>

lemma takeout_quoted:
  assumes "CHR 0x22 \<notin> set pre" "CHR 0x22 \<notin> set v" "CHR 0x22 \<notin> set post"
  shows "takeout_str_dquart (pre @ CHR 0x22 # v @ CHR 0x22 # post) = (v, True)"
proof -
  have "find_idx ((=) CHR 0x22) (pre @ CHR 0x22 # v @ CHR 0x22 # post) = Some (length pre)"
    using assms(1) by (intro find_idx_first) auto
  moreover have "find_last_idx ((=) CHR 0x22) (v @ CHR 0x22 # post) = Some (length v)"
    using assms(3) by (intro find_last_idx_last) auto
  moreover have "find_idx ((=) CHR 0x22) v = None"
    using assms(2) by (intro find_idx_absent) auto
  ultimately show ?thesis by (simp add: takeout_str_dquart_def)
qed

lemma takeout_unquoted: "CHR 0x22 \<notin> set s \<Longrightarrow> takeout_str_dquart s = (s, True)"
proof -
  assume "CHR 0x22 \<notin> set s"
  then have "find_idx ((=) CHR 0x22) s = None" by (intro find_idx_absent) auto
  then show ?thesis by (simp add: takeout_str_dquart_def)
qed

lemma takeout_no_quote_left:
  "takeout_str_dquart s = (v, True) \<Longrightarrow> CHR 0x22 \<notin> set v"
  by (auto simp: takeout_str_dquart_def Let_def find_idx_None split: option.splits)

lemma keyword_value:
  assumes f: "find_sub kw (pre @ kw @ CHR ''='' # v @ post) = Some (length pre)"
    and "CHR ''&'' \<notin> set v" and post: "post = [] \<or> hd post = CHR ''&''"
  shows "get_keyword_value (pre @ kw @ CHR ''='' # v @ post) (Some kw) = Inr (Some v)"
proof -
  have "find_idx ((=) CHR ''&'') (v @ post) = (if post = [] then None else Some (length v))"
  proof (cases post)
    case Nil
    then show ?thesis using assms(2) by (auto intro: find_idx_absent)
  next
    case (Cons c cs)
    then have "c = CHR ''&''" using post by simp
    then show ?thesis using assms(2) Cons by (simp, intro find_idx_first) auto
  qed
  then show ?thesis using f by (simp add: get_keyword_value_def Let_def nth_append)
qed

text \<open>The duration syntax: numbers, each followed by a unit, in descending order of the units.\<close>

definition duration_string :: "(nat \<times> char) list \<Rightarrow> string" where
  "duration_string us = concat (map (\<lambda>(n, c). nat_digits n @ [c]) us)"

fun units_ok :: "int \<Rightarrow> (nat \<times> char) list \<Rightarrow> bool" where
  "units_ok last_unit [] = True"
| "units_ok last_unit ((n, c) # us) =
     (case unit_of c of None \<Rightarrow> False | Some (secs, u) \<Rightarrow> last_unit < u \<and> units_ok u us)"

definition duration_secs :: "(nat \<times> char) list \<Rightarrow> int" where
  "duration_secs us = sum_list (map (\<lambda>(n, c). int n * fst (the (unit_of c))) us)"

lemma unixtime_digits:
  "\<forall>c \<in> set ds. is_base_digit 10 c \<Longrightarrow> ds \<noteq> [] \<Longrightarrow>
    unixtime_loop t u l (int a) (ds @ s) = unixtime_loop t u True (int (digits_value 10 a ds)) s"
proof (induction ds arbitrary: l a)
  case Nil
  then show ?case by simp
next
  case (Cons c ds)
  have c: "is_digit c" "digit_val c = Some (of_char c - 48)"
    using Cons.prems by (auto simp: is_base_digit_iff digit_val_def)
  have step: "unixtime_loop t u l (int a) ((c # ds) @ s) =
      unixtime_loop t u True (int (a * 10 + the (digit_val c))) (ds @ s)"
    by (simp add: c)
  show ?case
  proof (cases "ds = []")
    case True
    then show ?thesis using step by simp
  next
    case False
    have "\<forall>c \<in> set ds. is_base_digit 10 c" using Cons.prems by simp
    from Cons.IH [OF this False, of True "a * 10 + the (digit_val c)"] show ?thesis
      by (simp only: step digits_value.simps)
  qed
qed

lemma unit_not_digit: "unit_of c \<noteq> None \<Longrightarrow> \<not> is_digit c"
  by (auto simp: unit_of_def char_between_def split: if_splits)

lemma unixtime_units:
  "units_ok u us \<Longrightarrow> us \<noteq> [] \<Longrightarrow>
    unixtime_loop t u l 0 (duration_string us) = (t + duration_secs us, True)"
proof (induction us arbitrary: t u l)
  case Nil
  then show ?case by simp
next
  case (Cons p us)
  obtain n c where p: "p = (n, c)" by (cases p)
  obtain secs k where k: "unit_of c = Some (secs, k)" "u < k" "units_ok k us"
    using Cons.prems p by (auto split: option.splits)
  have "unixtime_loop t u l (int 0) (nat_digits n @ c # duration_string us) =
      unixtime_loop t u True (int (digits_value 10 0 (nat_digits n))) (c # duration_string us)"
    by (rule unixtime_digits) (simp_all add: nat_digits_all)
  also have "\<dots> = unixtime_loop (t + int n * secs) k False 0 (duration_string us)"
    using k unit_not_digit [of c] by (simp add: nat_digits_value)
  also have "\<dots> = (t + duration_secs (p # us), True)"
    using Cons.IH [OF k(3)] k p by (cases "us = []") (simp_all add: duration_secs_def duration_string_def)
  finally show ?case using p by (simp add: duration_string_def)
qed

text \<open>A unit that does not come after the previous one, or a stray character, is refused.\<close>

lemma unixtime_bad_unit:
  "unit_of c = Some (secs, k) \<Longrightarrow> k \<le> u \<Longrightarrow> snd (unixtime_loop t u l a (c # s)) = False"
  using unit_not_digit [of c] by simp

section \<open>Properties\<close>

text \<open>
  Numbers survive printing: \<open>s3fs_strtoofft\<close> of the decimal text of any 64-bit
  integer is that integer, the least and the greatest included.
\<close>

theorem strtoofft_of_str:
  assumes "LLONG_MIN \<le> n" "n \<le> LLONG_MAX"
  shows "s3fs_strtoofft (str n) False = Inr n"
  using assms by (rule strtoofft_str)

theorem strtoofft_of_str_witness:
  "s3fs_strtoofft (str (- 9223372036854775808)) False = Inr (- 9223372036854775808)"
  by (rule strtoofft_of_str) (simp_all add: LLONG_MIN_def LLONG_MAX_def)

text \<open>
  A duration of years, months, days, hours, minutes and seconds, each unit at most once and in that
  order, is the sum of its parts in seconds.
\<close>

theorem unixtime_of_duration:
  assumes "units_ok 0 us" "us \<noteq> []"
  shows "convert_unixtime_from_option_arg (Some (duration_string us)) t = (duration_secs us, True)"
  using unixtime_units [OF assms, of 0 True] by (simp add: convert_unixtime_from_option_arg_def)

theorem unixtime_of_duration_witness:
  "convert_unixtime_from_option_arg (Some (duration_string [(1, CHR ''D''), (2, CHR ''h'')])) 0 = (93600, True)"
  by (subst unixtime_of_duration) (simp_all add: unit_of_def duration_secs_def)

end
