(* ===== verification/Codecs.thy ===== *)
theory Codecs
  imports String_Util
begin

text \<open>
  The byte codecs of \<open>protocols/s3/string_util.cpp\<close>: hexadecimal, base64 and the
  \<open>wtf8\<close> escaping of invalid UTF-8. An \<open>unsigned char\<close> is an \<open>8 word\<close>, so the
  shifts and masks are the code's own. The locale \<open>codec\<close> is the contract a coder and its
  decoder keep; base64, URL coding and \<open>wtf8\<close> are its interpretations.
\<close>

unbundle bit_operations_syntax

type_synonym bytes = "8 word list"

definition byte_of :: "char \<Rightarrow> 8 word" where
  "byte_of c = of_nat (of_char c)"

definition char_of_byte :: "8 word \<Rightarrow> char" where
  "char_of_byte b = char_of (unat b)"

lemma char_of_byte_of [simp]: "char_of_byte (byte_of c) = c"
proof -
  have "(of_char c :: nat) < 256" by (rule of_char_less)
  then have "unat (of_nat (of_char c) :: 8 word) = of_char c"
    by (simp add: unat_of_nat)
  then show ?thesis by (simp add: char_of_byte_def byte_of_def)
qed

lemma byte_of_char_of [simp]: "byte_of (char_of_byte b) = b"
proof -
  have "unat b < 256" using unsigned_less [of b, where ?'a = nat] by simp
  then have "(of_char (char_of (unat b) :: char) :: nat) = unat b" by simp
  then show ?thesis by (simp add: char_of_byte_def byte_of_def)
qed

section \<open>The contract of a codec\<close>

locale codec =
  fixes enc :: "'a list \<Rightarrow> 'b list" and dec :: "'b list \<Rightarrow> 'a list" and ok :: "'a list \<Rightarrow> bool"
  assumes dec_enc: "ok x \<Longrightarrow> dec (enc x) = x"
begin

lemma enc_inj: "ok x \<Longrightarrow> ok y \<Longrightarrow> enc x = enc y \<Longrightarrow> x = y"
  using dec_enc by metis

lemma enc_inj_on: "inj_on enc (Collect ok)"
  using enc_inj by (auto intro: inj_onI)

text \<open>Encoding twice is undone by decoding twice, where the code itself is admissible.\<close>

lemma dec_enc_twice: "ok x \<Longrightarrow> dec (enc x) = dec (enc y) \<Longrightarrow> ok y \<Longrightarrow> x = y"
  by (simp add: dec_enc)

end

interpretation url: codec urlEncode urlDecode "\<lambda>_. True"
  by unfold_locales (simp add: urlDecode_urlEncode)

section \<open>Hexadecimal\<close>

definition hex_char :: "nat \<Rightarrow> char" where
  "hex_char n = ''0123456789abcdef'' ! n"

fun s3fs_hex :: "bytes \<Rightarrow> string" where
  "s3fs_hex [] = []"
| "s3fs_hex (b # bs) = hex_char (unat b div 16) # hex_char (unat b mod 16) # s3fs_hex bs"

fun unhex :: "string \<Rightarrow> bytes" where
  "unhex (h # l # s) = of_nat (hex_nibble h * 16 + hex_nibble l) # unhex s"
| "unhex _ = []"

lemma hex_char_nibble: "n < 16 \<Longrightarrow> hex_nibble (hex_char n) = n"
proof -
  assume "n < 16"
  moreover have "\<forall>n \<in> set [0..<16]. hex_nibble (hex_char n) = n" by code_simp
  ultimately show ?thesis by simp
qed

lemma s3fs_hex_length: "length (s3fs_hex bs) = 2 * length bs"
  by (induction bs) auto

lemma unhex_hex: "unhex (s3fs_hex bs) = bs"
proof (induction bs)
  case Nil
  then show ?case by simp
next
  case (Cons b bs)
  have "unat b < 256" using unsigned_less [of b, where ?'a = nat] by simp
  then have "unat b div 16 < 16" by (simp add: less_mult_imp_div_less)
  then have "hex_nibble (hex_char (unat b div 16)) * 16 + hex_nibble (hex_char (unat b mod 16)) = unat b"
    by (simp add: hex_char_nibble)
  then show ?case using Cons by simp
qed

interpretation hex: codec s3fs_hex unhex "\<lambda>_. True"
  by unfold_locales (simp add: unhex_hex)

section \<open>Base64\<close>

definition base64_table :: string where
  "base64_table = ''ABCDEFGHIJKLMNOPQRSTUVWXYZabcdefghijklmnopqrstuvwxyz0123456789+/=''"

definition base64_char :: "8 word \<Rightarrow> char" where
  "base64_char p = base64_table ! unat p"

text \<open>One turn of the loop: the byte at \<open>rpos\<close> and those after it, where there are any.\<close>

definition base64_parts :: "8 word \<Rightarrow> 8 word option \<Rightarrow> 8 word option \<Rightarrow> 8 word list" where
  "base64_parts a b c =
     [drop_bit 2 (a AND 0xfc),
      push_bit 4 (a AND 0x03) OR drop_bit 4 ((case b of Some b' \<Rightarrow> b' | None \<Rightarrow> 0) AND 0xf0),
      (case b of
         Some b' \<Rightarrow> push_bit 2 (b' AND 0x0f)
                      OR drop_bit 6 ((case c of Some c' \<Rightarrow> c' | None \<Rightarrow> 0) AND 0xc0)
       | None \<Rightarrow> 0x40),
      (case c of Some c' \<Rightarrow> c' AND 0x3f | None \<Rightarrow> 0x40)]"

fun base64_loop :: "bytes \<Rightarrow> string" where
  "base64_loop [] = []"
| "base64_loop [a] = map base64_char (base64_parts a None None)"
| "base64_loop [a, b] = map base64_char (base64_parts a (Some b) None)"
| "base64_loop (a # b # c # s) =
     map base64_char (base64_parts a (Some b) (Some c)) @ base64_loop s"

definition s3fs_base64 :: "bytes option \<Rightarrow> string option" where
  "s3fs_base64 input =
     (case input of None \<Rightarrow> None | Some s \<Rightarrow> if s = [] then None else Some (base64_loop s))"

definition char_decode64 :: "char \<Rightarrow> 8 word" where
  "char_decode64 ch =
     (if char_between CHR ''A'' CHR ''Z'' ch then of_nat (of_char ch - 65)
      else if char_between CHR ''a'' CHR ''z'' ch then of_nat (of_char ch - 97 + 26)
      else if char_between CHR ''0'' CHR ''9'' ch then of_nat (of_char ch - 48 + 52)
      else if ch = CHR ''+'' then 62
      else if ch = CHR ''/'' then 63
      else if ch = CHR ''='' then 64
      else 255)"

definition char_or_pad :: "string \<Rightarrow> nat \<Rightarrow> 8 word" where
  "char_or_pad s i = (if i < length s then char_decode64 (s ! i) else 64)"

function decode64_loop :: "string \<Rightarrow> bytes" where
  "decode64_loop [] = []"
| "decode64_loop (ch # s) =
     (let p0 = char_decode64 ch; p1 = char_or_pad s 0; p2 = char_or_pad s 1; p3 = char_or_pad s 2
      in ((push_bit 2 p0 AND 0xfc) OR (drop_bit 4 p1 AND 0x03)) #
         (if p2 = 64 then []
          else ((push_bit 4 p1 AND 0xf0) OR (drop_bit 2 p2 AND 0x0f)) #
            (if p3 = 64 then []
             else ((push_bit 6 p2 AND 0xc0) OR (p3 AND 0x3f)) # decode64_loop (drop 3 s))))"
  by pat_completeness auto
termination by (relation "measure length") auto

definition s3fs_decode64 :: "string option \<Rightarrow> bytes option" where
  "s3fs_decode64 input =
     (case input of None \<Rightarrow> None | Some s \<Rightarrow> if s = [] then None else Some (decode64_loop s))"

lemma base64_char_decode:
  "p < 65 \<Longrightarrow> char_decode64 (base64_char p) = p"
proof -
  assume "p < 65"
  then have n: "unat p < 65" by (simp add: word_less_nat_alt)
  have "\<forall>n \<in> set [0..<65]. char_decode64 (base64_table ! n) = of_nat n" by code_simp
  then have "char_decode64 (base64_table ! unat p) = of_nat (unat p)" using n by auto
  then show ?thesis by (simp add: base64_char_def)
qed

lemma byte_index:
  "(n::nat) < 8 \<Longrightarrow> n = 0 \<or> n = 1 \<or> n = 2 \<or> n = 3 \<or> n = 4 \<or> n = 5 \<or> n = 6 \<or> n = 7"
  by arith

lemmas byte_bits = bit_and_iff bit_or_iff bit_push_bit_iff bit_drop_bit_eq comp_apply
  possible_bit_word len_num0 len_bit0

lemma byte_eqI:
  fixes x y :: "8 word"
  assumes "bit x 0 = bit y 0" "bit x 1 = bit y 1" "bit x 2 = bit y 2" "bit x 3 = bit y 3"
    "bit x 4 = bit y 4" "bit x 5 = bit y 5" "bit x 6 = bit y 6" "bit x 7 = bit y 7"
  shows "x = y"
proof (rule bit_word_eqI)
  fix n assume "n < LENGTH(8)"
  then have "n < 8" by simp
  from byte_index [OF this] show "bit x n = bit y n" using assms by auto
qed

lemma six_bits: "p AND 0x3f = p \<Longrightarrow> (p :: 8 word) < 64"
proof -
  assume "p AND 0x3f = p"
  then have "p \<le> 0x3f" by (metis word_and_le1)
  then show ?thesis by (rule order_le_less_trans) simp
qed

lemma part_bounds:
  fixes a b c :: "8 word"
  shows part0_bound: "drop_bit 2 (a AND 0xfc) < 64"
    and part1_bound: "push_bit 4 (a AND 0x03) OR drop_bit 4 (b AND 0xf0) < 64"
    and part2_bound: "push_bit 2 (b AND 0x0f) OR drop_bit 6 (c AND 0xc0) < 64"
    and part3_bound: "c AND 0x3f < 64"
     apply (rule six_bits, rule byte_eqI; simp only: byte_bits; simp)
    apply (rule six_bits, rule byte_eqI; simp only: byte_bits; simp)
   apply (rule six_bits, rule byte_eqI; simp only: byte_bits; simp)
  apply (rule six_bits, rule byte_eqI; simp only: byte_bits; simp)
  done

lemma decode_byte0: "(push_bit 2 (drop_bit 2 (a AND 0xfc)) AND 0xfc)
      OR (drop_bit 4 (push_bit 4 (a AND 0x03) OR drop_bit 4 (b AND 0xf0)) AND 0x03) = (a :: 8 word)"
  by (rule byte_eqI; simp only: byte_bits; simp)

lemma decode_byte1: "(push_bit 4 (push_bit 4 (a AND 0x03) OR drop_bit 4 (b AND 0xf0)) AND 0xf0)
      OR (drop_bit 2 (push_bit 2 (b AND 0x0f) OR drop_bit 6 (c AND 0xc0)) AND 0x0f) = (b :: 8 word)"
  by (rule byte_eqI; simp only: byte_bits; simp)

lemma decode_byte2: "(push_bit 6 (push_bit 2 (b AND 0x0f) OR drop_bit 6 (c AND 0xc0)) AND 0xc0)
      OR ((c AND 0x3f) AND 0x3f) = (c :: 8 word)"
  by (rule byte_eqI; simp only: byte_bits; simp)

lemmas decode_bytes = decode_byte0 decode_byte1 decode_byte2

lemma decode_part:
  "(p :: 8 word) < 64 \<Longrightarrow> char_decode64 (base64_char p) = p"
  "(p :: 8 word) < 64 \<Longrightarrow> p \<noteq> 64"
  by (auto intro!: base64_char_decode elim: order_less_trans)

lemma decode_pad: "char_decode64 (base64_char 0x40) = 64"
  by (rule base64_char_decode) simp

lemma decode64_base64_loop: "decode64_loop (base64_loop bs) = bs"
proof (induction bs rule: base64_loop.induct)
  case 1
  then show ?case by simp
next
  case (2 a)
  show ?case using decode_bytes(1) [of a 0] part_bounds(1) [of a] part_bounds(2) [of a 0]
    by (simp add: base64_parts_def char_or_pad_def decode_part decode_pad Let_def)
next
  case (3 a b)
  show ?case
    using decode_bytes(1) [of a b] decode_bytes(2) [of a b 0]
      part_bounds(1) [of a] part_bounds(2) [of a b] part_bounds(3) [of b 0]
    by (simp add: base64_parts_def char_or_pad_def decode_part decode_pad Let_def)
next
  case (4 a b c s)
  show ?case
    using decode_bytes(1) [of a b] decode_bytes(2) [of a b c] decode_bytes(3) [of b c]
      part_bounds(1) [of a] part_bounds(2) [of a b] part_bounds(3) [of b c] part_bounds(4) [of c] 4
    by (simp add: base64_parts_def char_or_pad_def decode_part Let_def)
qed

interpretation base64: codec base64_loop decode64_loop "\<lambda>_. True"
  by unfold_locales (simp add: decode64_base64_loop)

text \<open>The sizes of the buffers that both functions allocate.\<close>

lemma base64_loop_length: "length (base64_loop bs) = 4 * ((length bs + 2) div 3)"
proof (induction bs rule: base64_loop.induct)
  case (4 a b c s)
  have "(length (a # b # c # s) + 2) div 3 = Suc ((length s + 2) div 3)" by simp
  then show ?case using 4 by (simp add: base64_parts_def)
qed (simp_all add: base64_parts_def)

lemma decode64_loop_length: "length (decode64_loop s) \<le> length s"
proof (induction s rule: decode64_loop.induct)
  case 1
  then show ?case by simp
next
  case (2 ch s)
  have p: "char_or_pad s i \<noteq> 64 \<Longrightarrow> Suc i \<le> length s" for i
    by (auto simp: char_or_pad_def split: if_splits)
  show ?case
  proof (cases "char_or_pad s 1 = 64 \<or> char_or_pad s 2 = 64")
    case True
    then show ?thesis using p [of 1] by (auto simp: Let_def)
  next
    case False
    then have "3 \<le> length s" using p [of 2] by simp
    moreover from this have "length (decode64_loop (drop 3 s)) \<le> length s - 3"
      using 2 False by simp
    ultimately have "Suc (Suc (length (decode64_loop (drop 3 s)))) \<le> length s" by arith
    then show ?thesis using False by (simp add: Let_def)
  qed
qed

lemma base64_table_chars: "n < 65 \<Longrightarrow> base64_table ! n \<in> set base64_table"
  by (rule nth_mem) (simp add: base64_table_def)

lemma base64_char_set:
  "(p :: 8 word) < 64 \<or> p = 64 \<Longrightarrow> base64_char p \<in> set base64_table"
  unfolding base64_char_def by (rule base64_table_chars) (auto simp: word_less_nat_alt)

lemma base64_loop_chars: "set (base64_loop bs) \<subseteq> set base64_table"
proof (induction bs rule: base64_loop.induct)
  case 1
  then show ?case by simp
next
  case (2 a)
  show ?case using part0_bound [of a] part1_bound [of a 0]
    by (simp add: base64_parts_def base64_char_set)
next
  case (3 a b)
  show ?case using part0_bound [of a] part1_bound [of a b] part2_bound [of b 0]
    by (simp add: base64_parts_def base64_char_set)
next
  case (4 a b c s)
  then show ?case
    using part0_bound [of a] part1_bound [of a b] part2_bound [of b c] part3_bound [of c]
    by (simp add: base64_parts_def base64_char_set)
qed

section \<open>Properties\<close>

text \<open>
  Base64 is undone by its decoder: for every non-empty byte string, whatever its length modulo 3,
  \<open>s3fs_decode64\<close> of what \<open>s3fs_base64\<close> produced is the byte string; the text has four
  characters for each started group of three bytes, all from the alphabet.
\<close>

theorem base64_round_trip:
  assumes "bs \<noteq> []"
  shows "\<exists>text. s3fs_base64 (Some bs) = Some text \<and> s3fs_decode64 (Some text) = Some bs
    \<and> length text = 4 * ((length bs + 2) div 3) \<and> set text \<subseteq> set base64_table"
proof -
  have l: "length (base64_loop bs) = 4 * ((length bs + 2) div 3)" by (rule base64_loop_length)
  then have "base64_loop bs \<noteq> []" using assms by (cases bs) auto
  then show ?thesis using assms base64.dec_enc [of bs] base64_loop_chars [of bs] l
    by (simp add: s3fs_base64_def s3fs_decode64_def)
qed

theorem base64_round_trip_witness:
  "\<exists>text. s3fs_base64 (Some [0x4d, 0xff]) = Some text \<and> s3fs_decode64 (Some text) = Some [0x4d, 0xff]"
  using base64_round_trip [of "[0x4d, 0xff]"] by auto

text \<open>
  URL coding is undone by its decoder and produces only unreserved characters, slashes and
  percent signs.
\<close>

theorem urlEncode_round_trip:
  "urlDecode (urlEncode s) = s \<and> (\<forall>c \<in> set (urlEncode s). url_plain c \<or> c = CHR ''%'')"
  using url.dec_enc urlEncode_chars by blast

theorem urlEncode_round_trip_witness:
  "urlDecode (urlEncode ''a b/%'') = ''a b/%''"
  using urlEncode_round_trip by blast

end
