(* ===== verification/Wtf8.thy ===== *)
theory Wtf8
  imports Codecs
begin

text \<open>
  The \<open>wtf8\<close> escaping of \<open>protocols/s3/string_util.cpp\<close>: bytes that are not part of
  a valid UTF-8 sequence are mapped to the private range U+E000..U+E0FF and back. The code
  points are the code's \<open>unsigned\<close>, a \<open>32 word\<close>; the scanned string is a list of
  bytes, read past its end as the terminating zero.
\<close>

unbundle bit_operations_syntax

definition at :: "bytes \<Rightarrow> nat \<Rightarrow> 8 word" where
  "at s i = (if i < length s then s ! i else 0)"

definition is_cont :: "8 word \<Rightarrow> bool" where
  "is_cont b \<longleftrightarrow> b AND 0xc0 = 0x80"

definition code3 :: "8 word \<Rightarrow> 8 word \<Rightarrow> 8 word \<Rightarrow> 32 word" where
  "code3 c d e =
     push_bit 12 (ucast c AND 0x0f) OR push_bit 6 (ucast d AND 0x3f) OR (ucast e AND 0x3f)"

definition code4 :: "8 word \<Rightarrow> 8 word \<Rightarrow> 8 word \<Rightarrow> 8 word \<Rightarrow> 32 word" where
  "code4 c d e f =
     push_bit 18 (ucast c AND 0x07) OR push_bit 12 (ucast d AND 0x3f)
       OR push_bit 6 (ucast e AND 0x3f) OR (ucast f AND 0x3f)"

text \<open>The bytes that the encoder passes through at the head of \<open>s\<close>; 0 where it escapes.\<close>

definition utf8_len :: "bytes \<Rightarrow> nat" where
  "utf8_len s =
     (let c = at s 0; d = at s 1; e = at s 2; f = at s 3
      in if c \<le> 0x7f then 1
         else if 0xc2 \<le> c \<and> c \<le> 0xf5 then
           (if c AND 0xe0 = 0xc0 \<and> is_cont d then 2
            else if c AND 0xf0 = 0xe0 \<and> is_cont d \<and> is_cont e
              \<and> 0x800 \<le> code3 c d e \<and> \<not> (0xd800 \<le> code3 c d e \<and> code3 c d e \<le> 0xd8ff) then 3
            else if c AND 0xf8 = 0xf0 \<and> is_cont d \<and> is_cont e \<and> is_cont f
              \<and> 0x10000 \<le> code4 c d e f \<and> code4 c d e f \<le> 0x10ffff then 4
            else 0)
         else 0)"

definition escape_base :: "32 word" where
  "escape_base = 0xe000"

definition escape3 :: "8 word \<Rightarrow> bytes" where
  "escape3 c =
     (let escape = escape_base + ucast c
      in [ucast (0xe0 OR (drop_bit 12 escape AND 0x0f)),
          ucast (0x80 OR (drop_bit 6 escape AND 0x3f)),
          ucast (0x80 OR (escape AND 0x3f))])"

text \<open>
  The loop of \<open>s3fs_wtf8_encode\<close>. The flag \<open>r\<close> is whether \<open>result\<close> is given:
  the pointer is moved over the continuation bytes only inside \<open>if (result)\<close>.
\<close>

function wtf8_encode_loop :: "bool \<Rightarrow> bytes \<Rightarrow> bytes \<times> bool" where
  "wtf8_encode_loop r [] = ([], False)"
| "wtf8_encode_loop r (c # s) =
     (let n = utf8_len (c # s)
      in if 0 < n then
           let (out, invalid) = wtf8_encode_loop r (if r then drop (n - 1) s else s)
           in (if r then take n (c # s) @ out else out, invalid)
         else
           let (out, invalid) = wtf8_encode_loop r s
           in (if r then escape3 c @ out else out, True))"
  by pat_completeness auto
termination by (relation "measure (length \<circ> snd)") auto

definition c_bytes :: "bytes \<Rightarrow> bytes" where
  "c_bytes s = takeWhile (\<lambda>b. b \<noteq> 0) s"

definition s3fs_wtf8_encode :: "bytes \<Rightarrow> bytes" where
  "s3fs_wtf8_encode s = fst (wtf8_encode_loop True (c_bytes s))"

definition is_escape :: "bytes \<Rightarrow> bool" where
  "is_escape s \<longleftrightarrow>
     at s 0 AND 0xf0 = 0xe0 \<and> is_cont (at s 1) \<and> is_cont (at s 2)
       \<and> escape_base \<le> code3 (at s 0) (at s 1) (at s 2)
       \<and> code3 (at s 0) (at s 1) (at s 2) \<le> escape_base + 0xff"

function wtf8_decode_loop :: "bytes \<Rightarrow> bytes \<times> bool" where
  "wtf8_decode_loop [] = ([], False)"
| "wtf8_decode_loop (c # s) =
     (if is_escape (c # s) then
        let (out, encoded) = wtf8_decode_loop (drop 2 s)
        in (ucast (code3 c (at s 0) (at s 1) - escape_base) # out, True)
      else let (out, encoded) = wtf8_decode_loop s in (c # out, encoded))"
  by pat_completeness auto
termination by (relation "measure length") auto

definition s3fs_wtf8_decode :: "bytes \<Rightarrow> bytes" where
  "s3fs_wtf8_decode s = fst (wtf8_decode_loop (c_bytes s))"

section \<open>Sequences and leads\<close>

lemma at_Suc [simp]: "at (c # s) 0 = c" "at (c # s) (Suc i) = at s i"
  by (auto simp: at_def)

lemma at_numeral [simp]: "at (c # s) (numeral k) = at s (pred_numeral k)"
  by (simp add: numeral_eq_Suc)

lemma is_cont_at: "is_cont (at s i) \<Longrightarrow> i < length s"
  by (rule ccontr) (simp add: at_def is_cont_def)

lemma lead_bits:
  fixes c :: "8 word"
  assumes "c AND 0xf0 = 0xe0"
  shows "bit c 7" "bit c 6" "bit c 5" "\<not> bit c 4"
proof -
  have e: "bit (c AND 0xf0) n = bit (0xe0 :: 8 word) n" for n using assms by simp
  show "bit c 7" "bit c 6" "bit c 5" "\<not> bit c 4"
    using e [of 7] e [of 6] e [of 5] e [of 4] by (simp_all add: bit_and_iff)
qed

lemma cont_not_lead3: "is_cont b \<Longrightarrow> b AND 0xf0 \<noteq> 0xe0"
proof
  assume "is_cont b" and l: "b AND 0xf0 = 0xe0"
  then have "bit (b AND 0xc0) 6 = bit (0x80 :: 8 word) 6" by (simp add: is_cont_def)
  then show False using lead_bits(2) [OF l] by (simp add: bit_and_iff)
qed

lemma lead2_not_lead3: "(b :: 8 word) AND 0xe0 = 0xc0 \<Longrightarrow> b AND 0xf0 \<noteq> 0xe0"
proof
  assume e: "b AND 0xe0 = 0xc0" and l: "b AND 0xf0 = 0xe0"
  from e have "bit (b AND 0xe0) 5 = bit (0xc0 :: 8 word) 5" by simp
  then show False using lead_bits(3) [OF l] by (simp add: bit_and_iff)
qed

lemma lead4_not_lead3: "(b :: 8 word) AND 0xf8 = 0xf0 \<Longrightarrow> b AND 0xf0 \<noteq> 0xe0"
proof
  assume e: "b AND 0xf8 = 0xf0" and l: "b AND 0xf0 = 0xe0"
  from e have "bit (b AND 0xf8) 4 = bit (0xf0 :: 8 word) 4" by simp
  then show False using lead_bits(4) [OF l] by (simp add: bit_and_iff)
qed

lemma ascii_not_lead3: "(b :: 8 word) \<le> 0x7f \<Longrightarrow> b AND 0xf0 \<noteq> 0xe0"
proof
  assume e: "b \<le> 0x7f" and "b AND 0xf0 = 0xe0"
  then have "0xe0 \<le> b" by (metis word_and_le2)
  then have "(0xe0 :: 8 word) \<le> 0x7f" using e by (rule order_trans)
  then show False by simp
qed

lemma utf8_len_spec:
  "utf8_len (c # s) = 0 \<and> \<not> c \<le> 0x7f
   \<or> utf8_len (c # s) = 1 \<and> c \<le> 0x7f
   \<or> utf8_len (c # s) = 2 \<and> c AND 0xe0 = 0xc0 \<and> is_cont (at s 0)
   \<or> utf8_len (c # s) = 3 \<and> c AND 0xf0 = 0xe0 \<and> is_cont (at s 0) \<and> is_cont (at s 1)
   \<or> utf8_len (c # s) = 4 \<and> c AND 0xf8 = 0xf0 \<and> is_cont (at s 0) \<and> is_cont (at s 1)
       \<and> is_cont (at s 2)"
  by (simp add: utf8_len_def Let_def)

lemma cont_split:
  "is_cont (at s 0) \<Longrightarrow> \<exists>d t. s = d # t \<and> is_cont d"
  using is_cont_at [of s 0] by (cases s) auto

lemma cont_split2:
  "is_cont (at s 0) \<Longrightarrow> is_cont (at s 1) \<Longrightarrow> \<exists>d e t. s = d # e # t \<and> is_cont d \<and> is_cont e"
  using cont_split [of s] cont_split [of "tl s"] by auto

lemma cont_split3:
  "is_cont (at s 0) \<Longrightarrow> is_cont (at s 1) \<Longrightarrow> is_cont (at s 2) \<Longrightarrow>
   \<exists>d e f t. s = d # e # f # t \<and> is_cont d \<and> is_cont e \<and> is_cont f"
  using cont_split2 [of s] cont_split [of "tl (tl s)"] by auto

lemma utf8_len_cases:
  obtains (bad) "utf8_len (c # s) = 0" "\<not> c \<le> 0x7f"
  | (one) "utf8_len (c # s) = 1" "c \<le> 0x7f"
  | (two) d t where "utf8_len (c # s) = 2" "s = d # t" "c AND 0xe0 = 0xc0" "is_cont d"
  | (three) d e t where "utf8_len (c # s) = 3" "s = d # e # t" "c AND 0xf0 = 0xe0"
      "is_cont d" "is_cont e"
  | (four) d e f t where "utf8_len (c # s) = 4" "s = d # e # f # t" "c AND 0xf8 = 0xf0"
      "is_cont d" "is_cont e" "is_cont f"
  using utf8_len_spec [of c s] cont_split [of s] cont_split2 [of s] cont_split3 [of s] by metis

section \<open>Escapes\<close>

definition escape_ok :: "8 word \<Rightarrow> bool" where
  "escape_ok c \<longleftrightarrow>
     (case escape3 c of
        [x, y, z] \<Rightarrow> utf8_len [x, y, z] = 3 \<and> is_escape [x, y, z]
                     \<and> ucast (code3 x y z - escape_base) = c \<and> x \<noteq> 0 \<and> y \<noteq> 0 \<and> z \<noteq> 0
      | _ \<Rightarrow> False)"

lemmas escape_eval = escape_ok_def escape3_def escape_base_def code3_def is_escape_def
  utf8_len_def is_cont_def

lemma escape_ok_all: "list_all (\<lambda>n. escape_ok (of_nat n)) [128..<256]"
  by (simp add: escape_eval upt_rec_numeral)

lemma escape_ok: "\<not> c \<le> 0x7f \<Longrightarrow> escape_ok c"
proof -
  assume "\<not> c \<le> 0x7f"
  then have "128 \<le> unat c" by (simp add: word_le_nat_alt)
  moreover have "unat c < 256" using unsigned_less [of c, where ?'a = nat] by simp
  ultimately have "unat c \<in> set [128..<256]"
    by (simp only: set_upt atLeastLessThan_iff)
  with escape_ok_all have "escape_ok (of_nat (unat c))" unfolding list_all_iff by (rule bspec)
  then show ?thesis by simp
qed

text \<open>What both loops read of an escape does not depend on the bytes after it.\<close>

lemma utf8_len_three: "utf8_len [x, y, z] = 3 \<Longrightarrow> utf8_len (x # y # z # t) = 3"
  by (simp add: utf8_len_def Let_def split: if_splits)

lemma is_escape_three: "is_escape (x # y # z # t) = is_escape [x, y, z]"
  by (simp add: is_escape_def)

lemma escape3_obtain:
  assumes "\<not> c \<le> 0x7f"
  obtains x y z where "escape3 c = [x, y, z]" "\<And>t. utf8_len (x # y # z # t) = 3"
    "\<And>t. is_escape (x # y # z # t)" "ucast (code3 x y z - escape_base) = c"
    "x \<noteq> 0" "y \<noteq> 0" "z \<noteq> 0"
proof -
  obtain x y z where x: "escape3 c = [x, y, z]" by (simp add: escape3_def Let_def)
  have e: "utf8_len [x, y, z] = 3 \<and> is_escape [x, y, z]
      \<and> ucast (code3 x y z - escape_base) = c \<and> x \<noteq> 0 \<and> y \<noteq> 0 \<and> z \<noteq> 0"
    using escape_ok [OF assms] unfolding escape_ok_def x list.case .
  show thesis
  proof (rule that [OF x])
    fix t
    show "utf8_len (x # y # z # t) = 3" using e utf8_len_three by blast
    show "is_escape (x # y # z # t)" using e is_escape_three by blast
  qed (use e in blast)+
qed

section \<open>Round trip and idempotence\<close>

text \<open>
  The precondition of the round trip: no sequence that the encoder passes through is itself
  in the range of the escapes.
\<close>

function no_escapes :: "bytes \<Rightarrow> bool" where
  "no_escapes [] = True"
| "no_escapes (c # s) =
     (if utf8_len (c # s) = 0 then no_escapes s
      else \<not> (utf8_len (c # s) = 3 \<and> is_escape (c # s)) \<and> no_escapes (drop (utf8_len (c # s) - 1) s))"
  by pat_completeness auto
termination by (relation "measure length") auto

lemma decode_literal:
  "c AND 0xf0 \<noteq> 0xe0 \<Longrightarrow> fst (wtf8_decode_loop (c # s)) = c # fst (wtf8_decode_loop s)"
  by (simp add: is_escape_def split: prod.splits)

lemma decode_no_escape:
  "\<not> is_escape (c # s) \<Longrightarrow> fst (wtf8_decode_loop (c # s)) = c # fst (wtf8_decode_loop s)"
  by (simp split: prod.splits)

lemma decode_escape:
  "\<not> c \<le> 0x7f \<Longrightarrow> fst (wtf8_decode_loop (escape3 c @ s)) = c # fst (wtf8_decode_loop s)"
  by (erule escape3_obtain) (simp split: prod.splits)

lemma encode_True_Cons:
  "fst (wtf8_encode_loop True (c # s)) =
     (if utf8_len (c # s) = 0 then escape3 c @ fst (wtf8_encode_loop True s)
      else take (utf8_len (c # s)) (c # s)
             @ fst (wtf8_encode_loop True (drop (utf8_len (c # s) - 1) s)))"
  by (simp add: Let_def split: prod.splits)

lemma is_escape_same:
  "is_escape (c # d # e # t) \<longleftrightarrow> is_escape (c # d # e # u)"
  by (simp add: is_escape_def)

lemma decode_encode_loop:
  "no_escapes s \<Longrightarrow> fst (wtf8_decode_loop (fst (wtf8_encode_loop True s))) = s"
proof (induction s rule: no_escapes.induct)
  case 1
  then show ?case by simp
next
  case (2 c s)
  show ?case
  proof (cases rule: utf8_len_cases [where c = c and s = s])
    case bad
    then have "no_escapes s" using "2.prems" by simp
    then show ?thesis using 2 bad by (simp add: encode_True_Cons decode_escape del: wtf8_encode_loop.simps)
  next
    case one
    then have "no_escapes s" using "2.prems" by simp
    then show ?thesis using 2 one
      by (simp add: encode_True_Cons decode_literal ascii_not_lead3
          del: wtf8_encode_loop.simps wtf8_decode_loop.simps)
  next
    case (two d t)
    then have "no_escapes t" using "2.prems" by simp
    then show ?thesis using 2 two
      by (simp add: encode_True_Cons decode_literal lead2_not_lead3 cont_not_lead3
          del: wtf8_encode_loop.simps wtf8_decode_loop.simps)
  next
    case (three d e t)
    then have n: "no_escapes t" "\<not> is_escape (c # d # e # u)" for u
      using "2.prems" is_escape_same [of c d e t u] by simp_all
    then show ?thesis using 2 three
      by (simp add: encode_True_Cons decode_no_escape decode_literal cont_not_lead3
          numeral_3_eq_3 del: wtf8_encode_loop.simps wtf8_decode_loop.simps)
  next
    case (four d e f t)
    then have "no_escapes t" using "2.prems" by simp
    then show ?thesis using 2 four
      by (simp add: encode_True_Cons decode_literal lead4_not_lead3 cont_not_lead3
          del: wtf8_encode_loop.simps wtf8_decode_loop.simps)
  qed
qed

lemma utf8_len_two: "utf8_len (c # d # t) = 2 \<Longrightarrow> utf8_len (c # d # u) = 2"
  by (simp add: utf8_len_def Let_def split: if_splits)

lemma utf8_len_four: "utf8_len (c # d # e # f # t) = 4 \<Longrightarrow> utf8_len (c # d # e # f # u) = 4"
  by (simp add: utf8_len_def Let_def split: if_splits)

lemma utf8_len_three': "utf8_len (c # d # e # t) = 3 \<Longrightarrow> utf8_len (c # d # e # u) = 3"
  by (simp add: utf8_len_def Let_def split: if_splits)

lemma utf8_len_one: "c \<le> 0x7f \<Longrightarrow> utf8_len (c # u) = 1"
  by (simp add: utf8_len_def Let_def)

text \<open>A sequence the encoder passes through once is passed through again, unchanged.\<close>

lemma encode_pass:
  "0 < utf8_len (c # s) \<Longrightarrow>
   wtf8_encode_loop True (take (utf8_len (c # s)) (c # s) @ out) =
     (take (utf8_len (c # s)) (c # s) @ fst (wtf8_encode_loop True out),
      snd (wtf8_encode_loop True out))"
proof (cases rule: utf8_len_cases [where c = c and s = s])
  case bad
  assume "0 < utf8_len (c # s)"
  then show ?thesis using bad by simp
next
  case one
  then show ?thesis by (simp add: utf8_len_one split: prod.splits)
next
  case (two d t)
  then show ?thesis using utf8_len_two [of c d t out]
    by (simp add: Let_def split: prod.splits)
next
  case (three d e t)
  then show ?thesis using utf8_len_three' [of c d e t out]
    by (simp add: Let_def numeral_3_eq_3 split: prod.splits)
next
  case (four d e f t)
  then show ?thesis using utf8_len_four [of c d e f t out]
    by (simp add: Let_def eval_nat_numeral split: prod.splits)
qed

lemma encode_escaped:
  assumes "\<not> c \<le> 0x7f"
  shows "wtf8_encode_loop True (escape3 c @ out) =
    (escape3 c @ fst (wtf8_encode_loop True out), snd (wtf8_encode_loop True out))"
  using assms by (rule escape3_obtain) (simp add: Let_def eval_nat_numeral split: prod.splits)

lemma encode_encoded:
  "wtf8_encode_loop True (fst (wtf8_encode_loop True s)) = (fst (wtf8_encode_loop True s), False)"
proof (induction s rule: no_escapes.induct)
  case 1
  then show ?case by simp
next
  case (2 c s)
  show ?case
  proof (cases "utf8_len (c # s) = 0")
    case True
    then have "\<not> c \<le> 0x7f" using utf8_len_one by fastforce
    then show ?thesis using 2(1) True
      by (simp add: encode_True_Cons encode_escaped del: wtf8_encode_loop.simps)
  next
    case False
    then show ?thesis using 2(2)
      by (simp add: encode_True_Cons encode_pass del: wtf8_encode_loop.simps take_Cons')
  qed
qed

lemma encode_nonzero: "0 \<notin> set s \<Longrightarrow> 0 \<notin> set (fst (wtf8_encode_loop True s))"
proof (induction s rule: no_escapes.induct)
  case 1
  then show ?case by simp
next
  case (2 c s)
  show ?case
  proof (cases "utf8_len (c # s) = 0")
    case True
    then have "\<not> c \<le> 0x7f" using utf8_len_one by fastforce
    then have "0 \<notin> set (escape3 c)" by (rule escape3_obtain) simp
    then show ?thesis using 2 True by (simp add: encode_True_Cons del: wtf8_encode_loop.simps)
  next
    case False
    have "0 \<notin> set (drop (utf8_len (c # s) - 1) s)" "0 \<notin> set (take (utf8_len (c # s)) (c # s))"
      using 2(3) set_drop_subset set_take_subset by (metis list.set_intros(2) subsetD, metis subsetD)
    then show ?thesis using 2(2) False
      by (simp add: encode_True_Cons del: wtf8_encode_loop.simps take_Cons')
  qed
qed

lemma c_bytes_id: "0 \<notin> set s \<Longrightarrow> c_bytes s = s"
  by (auto simp: c_bytes_def takeWhile_eq_all_conv)

lemma c_bytes_nonzero: "0 \<notin> set (c_bytes s)"
  by (auto simp: c_bytes_def dest: set_takeWhileD)

section \<open>The flag without a result string\<close>

lemma cont_len: "is_cont b \<Longrightarrow> utf8_len (b # s) = 0"
proof -
  assume b: "is_cont b"
  have "b AND 0xc0 \<le> b" by (rule word_and_le2)
  with b have "0x80 \<le> b" by (simp add: is_cont_def)
  then have "\<not> b \<le> 0x7f" using order_trans [of "0x80 :: 8 word" b "0x7f"] by auto
  moreover have "b AND 0xe0 \<noteq> 0xc0"
  proof
    assume "b AND 0xe0 = 0xc0"
    then have "bit (b AND 0xe0) 6 = bit (0xc0 :: 8 word) 6" by simp
    moreover have "bit (b AND 0xc0) 6 = bit (0x80 :: 8 word) 6" using b by (simp add: is_cont_def)
    ultimately show False by (simp add: bit_and_iff)
  qed
  moreover have "b AND 0xf8 \<noteq> 0xf0"
  proof
    assume "b AND 0xf8 = 0xf0"
    then have "bit (b AND 0xf8) 6 = bit (0xf0 :: 8 word) 6" by simp
    moreover have "bit (b AND 0xc0) 6 = bit (0x80 :: 8 word) 6" using b by (simp add: is_cont_def)
    ultimately show False by (simp add: bit_and_iff)
  qed
  ultimately show ?thesis using cont_not_lead3 [OF b] utf8_len_spec [of b s] by auto
qed

lemma encode_False_Cons:
  "snd (wtf8_encode_loop False (c # s)) \<longleftrightarrow>
     utf8_len (c # s) = 0 \<or> snd (wtf8_encode_loop False s)"
  by (simp add: Let_def split: prod.splits)

lemma encode_flag_null:
  "snd (wtf8_encode_loop False s) \<longleftrightarrow> (\<exists>b \<in> set s. \<not> b \<le> 0x7f)"
proof (induction s)
  case Nil
  then show ?case by simp
next
  case (Cons c s)
  have lead: "\<not> c \<le> 0x7f \<Longrightarrow> utf8_len (c # s) \<noteq> 0 \<Longrightarrow> snd (wtf8_encode_loop False s)"
  proof -
    assume "\<not> c \<le> 0x7f" "utf8_len (c # s) \<noteq> 0"
    then obtain d t where "s = d # t" "is_cont d"
      by (cases rule: utf8_len_cases [where c = c and s = s]) auto
    then show ?thesis by (simp add: encode_False_Cons cont_len del: wtf8_encode_loop.simps)
  qed
  show ?case
  proof (cases "c \<le> 0x7f")
    case True
    then show ?thesis using Cons
      by (simp add: encode_False_Cons utf8_len_one del: wtf8_encode_loop.simps)
  next
    case False
    then show ?thesis using lead
      by (auto simp: encode_False_Cons simp del: wtf8_encode_loop.simps)
  qed
qed

interpretation wtf8: codec s3fs_wtf8_encode s3fs_wtf8_decode "\<lambda>s. 0 \<notin> set s \<and> no_escapes s"
  by unfold_locales
    (simp add: s3fs_wtf8_encode_def s3fs_wtf8_decode_def c_bytes_id encode_nonzero decode_encode_loop)

section \<open>Properties\<close>

text \<open>
  Escaping invalid UTF-8 with \<open>s3fs_wtf8_encode\<close> and decoding it with
  \<open>s3fs_wtf8_decode\<close> gives back the bytes of the name, for every name without NUL in
  which no sequence that is valid UTF-8 already lies in the escape range U+E000..U+E0FF.
\<close>

theorem wtf8_round_trip:
  "0 \<notin> set s \<Longrightarrow> no_escapes s \<Longrightarrow> s3fs_wtf8_decode (s3fs_wtf8_encode s) = s"
  by (rule wtf8.dec_enc) simp

theorem wtf8_round_trip_witness:
  "s3fs_wtf8_decode (s3fs_wtf8_encode [0x61, 0xe9, 0xc3, 0xa9]) = [0x61, 0xe9, 0xc3, 0xa9]"
proof (rule wtf8_round_trip)
  have u: "utf8_len [0x61, 0xe9, 0xc3, 0xa9] = 1" "utf8_len [0xe9, 0xc3, 0xa9] = 0"
    "utf8_len [0xc3, 0xa9] = 2"
    by (simp_all add: utf8_len_def is_cont_def)
  show "no_escapes [0x61, 0xe9, 0xc3, 0xa9]" by (simp add: u)
qed simp

text \<open>
  What \<open>s3fs_wtf8_encode\<close> produces is entirely valid for the encoder: encoding it
  again changes nothing and reports that no transform was needed.
\<close>

theorem wtf8_encode_idempotent:
  "s3fs_wtf8_encode (s3fs_wtf8_encode s) = s3fs_wtf8_encode s
   \<and> snd (wtf8_encode_loop True (s3fs_wtf8_encode s)) = False"
  by (simp add: s3fs_wtf8_encode_def c_bytes_id encode_nonzero c_bytes_nonzero encode_encoded)

text \<open>
  Called without a result string, the encoder reports a needed transform exactly for the
  names with a byte above 0x7f, valid UTF-8 or not: the loop does not skip continuation bytes.
\<close>

theorem wtf8_flag_without_result:
  "snd (wtf8_encode_loop False (c_bytes s)) = (\<exists>b \<in> set (c_bytes s). 0x7f < b)"
  by (auto simp: encode_flag_null not_le)

end
