(* ===== verification/Header_Stat.thy ===== *)
theory Header_Stat
  imports Ord_Map String_Util
begin

text \<open>
  The conversion of the HTTP headers of an object into file attributes: the functions
  \<open>get_mtime\<close> .. \<open>is_need_check_obj_detail\<close> of \<open>protocols/s3/s3fs_util.cpp\<close>
  and \<open>convert_header_to_stat\<close> of \<open>protocols/s3/cache.cpp\<close>. \<open>mode_t\<close>,
  \<open>uid_t\<close> and \<open>gid_t\<close> are 32-bit words, \<open>off_t\<close> and \<open>time_t\<close> integers (the
  only producer is \<open>s3fs_strtoofft\<close>, which stays inside 64 bits). What the functions
  read of the process (effective ids, the option \<open>complement_stat\<close>, the parser of RFC 822
  dates in the C library) is the record \<open>senv\<close>.
\<close>

unbundle bit_operations_syntax

type_synonym mode_t = "32 word"

record senv =
  complement_stat :: bool
  geteuid :: "32 word"
  getegid :: "32 word"
  parse_date :: "string \<Rightarrow> int"

abbreviation S_IFMT :: mode_t where "S_IFMT \<equiv> 0xF000"
abbreviation S_IFREG :: mode_t where "S_IFREG \<equiv> 0x8000"
abbreviation S_IFDIR :: mode_t where "S_IFDIR \<equiv> 0x4000"
abbreviation S_IFLNK :: mode_t where "S_IFLNK \<equiv> 0xA000"
abbreviation S_IRWXUGO :: mode_t where "S_IRWXUGO \<equiv> 0x1FF"
abbreviation S_IRUSR :: mode_t where "S_IRUSR \<equiv> 0x100"
abbreviation S_IXUSR :: mode_t where "S_IXUSR \<equiv> 0x40"

definition S_ISREG :: "mode_t \<Rightarrow> bool" where "S_ISREG m \<longleftrightarrow> m AND S_IFMT = S_IFREG"
definition S_ISDIR :: "mode_t \<Rightarrow> bool" where "S_ISDIR m \<longleftrightarrow> m AND S_IFMT = S_IFDIR"
definition S_ISLNK :: "mode_t \<Rightarrow> bool" where "S_ISLNK m \<longleftrightarrow> m AND S_IFMT = S_IFLNK"

section \<open>Times and sizes\<close>

definition get_mtime_str :: "string \<Rightarrow> strtoofft_error + int" where
  "get_mtime_str s = s3fs_strtoofft
     (case find_idx (\<lambda>c. c = CHR ''.'') s of Some pos \<Rightarrow> substr s 0 pos | None \<Rightarrow> s) False"

definition get_lastmodified :: "senv \<Rightarrow> headers \<Rightarrow> int" where
  "get_lastmodified env meta =
     (case hd_find ''Last-Modified'' meta of None \<Rightarrow> 0 | Some s \<Rightarrow> parse_date env (c_str s))"

definition get_time :: "senv \<Rightarrow> headers \<Rightarrow> bool \<Rightarrow> string \<Rightarrow> strtoofft_error + int" where
  "get_time env meta overcheck header =
     (case hd_find header meta of
        None \<Rightarrow> Inr (if overcheck then get_lastmodified env meta else 0)
      | Some v \<Rightarrow> get_mtime_str (c_str v))"

definition get_mtime :: "senv \<Rightarrow> headers \<Rightarrow> bool \<Rightarrow> strtoofft_error + int" where
  "get_mtime env meta overcheck = get_time env meta overcheck ''x-amz-meta-mtime''"

definition get_ctime :: "senv \<Rightarrow> headers \<Rightarrow> bool \<Rightarrow> strtoofft_error + int" where
  "get_ctime env meta overcheck = get_time env meta overcheck ''x-amz-meta-ctime''"

definition get_size_str :: "string \<Rightarrow> strtoofft_error + int" where
  "get_size_str s = s3fs_strtoofft s False"

definition get_size :: "headers \<Rightarrow> strtoofft_error + int" where
  "get_size meta =
     (case hd_find ''Content-Length'' meta of None \<Rightarrow> Inr 0 | Some s \<Rightarrow> get_size_str (c_str s))"

definition get_blocks :: "int \<Rightarrow> int" where
  "get_blocks sz = sz div 512 + 1"

section \<open>Modes and owners\<close>

definition get_mode_str :: "string \<Rightarrow> strtoofft_error + mode_t" where
  "get_mode_str s = ebind (s3fs_strtoofft s False) (\<lambda>n. Inr (word_of_int n))"

text \<open>The mode a header gives, with whether it is a header of \<open>s3sync\<close>.\<close>

definition header_mode :: "headers \<Rightarrow> string \<Rightarrow> strtoofft_error + mode_t \<times> bool" where
  "header_mode meta path =
     (case hd_find ''x-amz-meta-mode'' meta of
        Some v \<Rightarrow> ebind (get_mode_str (c_str v)) (\<lambda>m. Inr (m, False))
      | None \<Rightarrow>
         (case hd_find ''x-amz-meta-permissions'' meta of
            Some v \<Rightarrow> ebind (get_mode_str (c_str v)) (\<lambda>m. Inr (m, True))
          | None \<Rightarrow> Inr (if ends_with CHR ''/'' path then 0x1E8 else 0x1A0, False)))"

definition mime_of :: "string \<Rightarrow> string" where
  "mime_of s = (case find_idx (\<lambda>c. c = CHR '';'') s of Some pos \<Rightarrow> substr s 0 pos | None \<Rightarrow> s)"

text \<open>The type bit chosen for an object without one.\<close>

definition type_bit :: "senv \<Rightarrow> headers \<Rightarrow> string \<Rightarrow> bool \<Rightarrow> strtoofft_error + mode_t" where
  "type_bit env meta path forcedir =
     (if forcedir then Inr S_IFDIR
      else case hd_find ''Content-Type'' meta of
        None \<Rightarrow> Inr S_IFREG
      | Some v \<Rightarrow>
          (let strConType = mime_of v in
           if strConType = ''application/x-directory'' \<or> strConType = ''httpd/unix-directory''
           then Inr S_IFDIR
           else if ends_with CHR ''/'' path then
             (if strConType = ''binary/octet-stream'' \<or> strConType = ''application/octet-stream''
              then Inr S_IFDIR
              else if complement_stat env then
                ebind (get_size meta) (\<lambda>sz.
                  Inr (if strConType = ''text/plain'' \<and> (sz = 0 \<or> sz = 1)
                       then S_IFDIR else S_IFREG))
              else Inr S_IFREG)
           else Inr S_IFREG))"

definition complement_mode :: "senv \<Rightarrow> mode_t \<Rightarrow> mode_t" where
  "complement_mode env mode =
     (if complement_stat env \<and> mode AND S_IRWXUGO = 0
      then mode OR (S_IRUSR OR (if mode AND S_IFDIR = 0 then 0 else S_IXUSR)) else mode)"

definition get_mode ::
  "senv \<Rightarrow> headers \<Rightarrow> string \<Rightarrow> bool \<Rightarrow> bool \<Rightarrow> strtoofft_error + mode_t" where
  "get_mode env meta path checkdir forcedir =
     ebind (header_mode meta path) (\<lambda>(mode, isS3sync).
       if mode AND S_IFMT \<noteq> 0 then Inr mode
       else if isS3sync then
         Inr (if checkdir then mode else mode AND NOT S_IFDIR AND NOT S_IFREG)
       else if checkdir then
         ebind (type_bit env meta path forcedir) (\<lambda>b. Inr (complement_mode env (mode OR b)))
       else Inr (complement_mode env mode))"

definition get_id_str :: "string \<Rightarrow> strtoofft_error + 32 word" where
  "get_id_str s = ebind (s3fs_strtoofft s False) (\<lambda>n. Inr (word_of_int n))"

definition get_uid :: "senv \<Rightarrow> headers \<Rightarrow> strtoofft_error + 32 word" where
  "get_uid env meta =
     (case hd_find ''x-amz-meta-uid'' meta of
        Some v \<Rightarrow> get_id_str (c_str v)
      | None \<Rightarrow>
         (case hd_find ''x-amz-meta-owner'' meta of
            Some v \<Rightarrow> get_id_str (c_str v) | None \<Rightarrow> Inr (geteuid env)))"

definition get_gid :: "senv \<Rightarrow> headers \<Rightarrow> strtoofft_error + 32 word" where
  "get_gid env meta =
     (case hd_find ''x-amz-meta-gid'' meta of
        Some v \<Rightarrow> get_id_str (c_str v)
      | None \<Rightarrow>
         (case hd_find ''x-amz-meta-group'' meta of
            Some v \<Rightarrow> get_id_str (c_str v) | None \<Rightarrow> Inr (getegid env)))"

definition is_need_check_obj_detail :: "headers \<Rightarrow> strtoofft_error + bool" where
  "is_need_check_obj_detail meta =
     ebind (get_size meta) (\<lambda>sz. Inr (
       if sz \<noteq> 0 then False
       else if hd_find ''x-amz-meta-mode'' meta \<noteq> None
         \<or> hd_find ''x-amz-meta-mtime'' meta \<noteq> None
         \<or> hd_find ''x-amz-meta-uid'' meta \<noteq> None
         \<or> hd_find ''x-amz-meta-gid'' meta \<noteq> None
         \<or> hd_find ''x-amz-meta-owner'' meta \<noteq> None
         \<or> hd_find ''x-amz-meta-group'' meta \<noteq> None
         \<or> hd_find ''x-amz-meta-permissions'' meta \<noteq> None then False
       else case hd_find ''Content-Type'' meta of
         None \<Rightarrow> False
       | Some v \<Rightarrow> v \<noteq> ''application/x-directory''))"

section \<open>Attributes\<close>

record stat_t =
  st_mode :: mode_t
  st_nlink :: int
  st_uid :: "32 word"
  st_gid :: "32 word"
  st_size :: int
  st_blocks :: int
  st_blksize :: int
  st_mtime :: int
  st_ctime :: int

definition zero_stat :: stat_t where
  "zero_stat = \<lparr>st_mode = 0, st_nlink = 0, st_uid = 0, st_gid = 0, st_size = 0, st_blocks = 0,
     st_blksize = 0, st_mtime = 0, st_ctime = 0\<rparr>"

text \<open>
  \<open>convert_header_to_stat\<close> fills the structure in the order of the code: the block count is
  computed from \<open>st_size\<close> while that is still zero.
\<close>

definition convert_header_to_stat ::
  "senv \<Rightarrow> string \<Rightarrow> headers \<Rightarrow> bool \<Rightarrow> strtoofft_error + stat_t" where
  "convert_header_to_stat env path meta forcedir =
     (let st0 = zero_stat\<lparr>st_nlink := 1\<rparr> in
      ebind (get_mode env meta path True forcedir) (\<lambda>m.
      let st1 = st0\<lparr>st_mode := m\<rparr>;
          st2 = (if S_ISREG (st_mode st1) then st1\<lparr>st_blocks := get_blocks (st_size st1)\<rparr> else st1);
          st3 = st2\<lparr>st_blksize := 4096\<rparr> in
      ebind (get_mtime env meta True) (\<lambda>mt.
      ebind (get_ctime env meta True) (\<lambda>ct.
      ebind (get_size meta) (\<lambda>sz.
      ebind (get_uid env meta) (\<lambda>u.
      ebind (get_gid env meta) (\<lambda>g.
        Inr (st3\<lparr>st_mtime := mt, st_ctime := ct, st_size := sz, st_uid := u, st_gid := g\<rparr>))))))))"

end
