(* ===== verification/Object_Meta.thy ===== *)
theory Object_Meta
  imports Header_Stat
begin

text \<open>
  The headers with which \<open>create_file_object\<close> and \<open>create_directory_object\<close> of
  \<open>protocols/s3/s3fs.cpp\<close> store the attributes of a new object, with the MIME type chosen by
  \<open>S3fsCurl::LookupMimeType\<close> of \<open>protocols/s3/curl.cpp\<close>. The properties are the
  round trip with \<open>convert_header_to_stat\<close>: attributes that were stored are the attributes
  that are read back. The upload itself (\<open>PutRequest\<close>) is the S3 client's.
\<close>

unbundle bit_operations_syntax

section \<open>MIME types\<close>

type_synonym mimes = "(string, string) omap"

definition octet_stream :: string where
  "octet_stream = ''application/octet-stream''"

definition is_dot :: "char \<Rightarrow> bool" where
  "is_dot c \<longleftrightarrow> c = CHR ''.''"

definition LookupMimeType :: "mimes \<Rightarrow> string \<Rightarrow> string" where
  "LookupMimeType mimeTypes name =
     (case find_last_idx is_dot name of
        None \<Rightarrow> octet_stream
      | Some last_pos \<Rightarrow>
          (let ext = drop (1 + last_pos) name;
               ext2 =
                 (case find_idx is_dot name of
                    Some first_pos \<Rightarrow>
                      if first_pos < last_pos then
                        (let prefix = substr name 0 last_pos in
                         case find_last_idx is_dot prefix of
                           Some next_pos \<Rightarrow> drop (1 + next_pos) prefix | None \<Rightarrow> [])
                      else []
                  | None \<Rightarrow> [])
           in case hd_find ext mimeTypes of
                Some m \<Rightarrow> m
              | None \<Rightarrow>
                  if find_idx is_dot name = Some last_pos then octet_stream
                  else case hd_find ext2 mimeTypes of Some m \<Rightarrow> m | None \<Rightarrow> octet_stream))"

lemma find_last_idx_dot:
  "CHR ''.'' \<notin> set ext \<Longrightarrow> find_last_idx is_dot (base @ CHR ''.'' # ext) = Some (length base)"
  by (rule find_last_idx_last) (auto simp: is_dot_def)

lemma find_idx_dot:
  "CHR ''.'' \<notin> set base \<Longrightarrow> find_idx is_dot (base @ CHR ''.'' # ext) = Some (length base)"
  by (rule find_idx_first) (auto simp: is_dot_def)

text \<open>One extension: its own type; two extensions: the last that is known.\<close>

lemma LookupMimeType_one:
  assumes "CHR ''.'' \<notin> set base" "CHR ''.'' \<notin> set ext"
  shows "LookupMimeType mt (base @ CHR ''.'' # ext) =
    (case hd_find ext mt of Some m \<Rightarrow> m | None \<Rightarrow> octet_stream)"
  using assms
  by (simp add: LookupMimeType_def find_last_idx_dot find_idx_dot Let_def split: option.splits)

lemma LookupMimeType_two:
  assumes "CHR ''.'' \<notin> set base" "CHR ''.'' \<notin> set ext2" "CHR ''.'' \<notin> set ext"
  shows "LookupMimeType mt (base @ CHR ''.'' # ext2 @ CHR ''.'' # ext) =
    (case hd_find ext mt of Some m \<Rightarrow> m
     | None \<Rightarrow> (case hd_find ext2 mt of Some m \<Rightarrow> m | None \<Rightarrow> octet_stream))"
proof -
  let ?name = "base @ CHR ''.'' # ext2 @ CHR ''.'' # ext"
  have l: "find_last_idx is_dot ?name = Some (length base + 1 + length ext2)"
    using find_last_idx_dot [OF assms(3), of "base @ CHR ''.'' # ext2"] by simp
  have f: "find_idx is_dot ?name = Some (length base)"
    using assms(1) by (rule find_idx_dot)
  have p: "substr ?name 0 (length base + 1 + length ext2) = base @ CHR ''.'' # ext2"
    by (simp add: substr_def)
  have n: "find_last_idx is_dot (base @ CHR ''.'' # ext2) = Some (length base)"
    using assms(2) by (rule find_last_idx_dot)
  show ?thesis unfolding LookupMimeType_def l f
    by (simp add: p [simplified] n split: option.splits)
qed

section \<open>The headers of a new object\<close>

definition create_file_meta ::
  "mimes \<Rightarrow> string \<Rightarrow> mode_t \<Rightarrow> 32 word \<Rightarrow> 32 word \<Rightarrow> int \<Rightarrow> headers" where
  "create_file_meta mimeTypes path mode uid gid now =
     hd_set ''x-amz-meta-mtime'' (str now)
     (hd_set ''x-amz-meta-ctime'' (str now)
     (hd_set ''x-amz-meta-mode'' (str (uint mode))
     (hd_set ''x-amz-meta-gid'' (str (uint gid))
     (hd_set ''x-amz-meta-uid'' (str (uint uid))
     (hd_set ''Content-Type'' (LookupMimeType mimeTypes path) [])))))"

text \<open>\<open>create_directory_object\<close>: the name it stores under, and the headers.\<close>

definition create_directory_meta ::
  "string \<Rightarrow> mode_t \<Rightarrow> int \<Rightarrow> 32 word \<Rightarrow> 32 word \<Rightarrow> (string \<times> headers) option" where
  "create_directory_meta path mode time uid gid =
     (if path = [] then None
      else Some (if ends_with CHR ''/'' path then path else path @ ''/'',
        hd_set ''x-amz-meta-mtime'' (str time)
        (hd_set ''x-amz-meta-ctime'' (str time)
        (hd_set ''x-amz-meta-mode'' (str (uint mode))
        (hd_set ''x-amz-meta-gid'' (str (uint gid))
        (hd_set ''x-amz-meta-uid'' (str (uint uid))
        (hd_set ''Content-Type'' ''application/x-directory'' []))))))) "

text \<open>The attribute headers, over any content type.\<close>

definition attr_meta :: "string \<Rightarrow> mode_t \<Rightarrow> 32 word \<Rightarrow> 32 word \<Rightarrow> int \<Rightarrow> headers" where
  "attr_meta ctype mode uid gid time =
     [(''Content-Type'', ctype), (''x-amz-meta-ctime'', str time), (''x-amz-meta-gid'', str (uint gid)),
      (''x-amz-meta-mode'', str (uint mode)), (''x-amz-meta-mtime'', str time),
      (''x-amz-meta-uid'', str (uint uid))]"

text \<open>Header names are compared by evaluating the codes of their lower-case letters.\<close>

definition lower_code :: "char \<Rightarrow> nat" where
  "lower_code c = (if 65 \<le> (of_char c :: nat) \<and> (of_char c :: nat) \<le> 90
                   then of_char c + 32 else of_char c)"

lemma lower_code: "of_char (tolower c) = lower_code c"
  by (simp add: tolower_def lower_code_def)

lemma map_less_codes:
  "(map tolower xs < map tolower ys) = (map lower_code xs < map lower_code ys)"
proof (induction xs arbitrary: ys)
  case Nil
  then show ?case by (cases ys) auto
next
  case (Cons x xs)
  have "(tolower x < tolower y) = (lower_code x < lower_code y)"
    "(tolower x = tolower y) = (lower_code x = lower_code y)" for y
    by (simp_all add: less_char_def lower_code of_char_eq_iff [symmetric, where ?'a = nat]
        del: of_char_eq_iff)
  with Cons show ?case by (cases ys) auto
qed

lemma strcasecmp_codes:
  "strcasecmp_less a b = (map lower_code (c_str a) < map lower_code (c_str b))"
  by (simp add: strcasecmp_less_def map_less_codes)

lemmas name_eval = strcasecmp_codes c_str_def lower_code_def

lemma create_file_attr:
  "create_file_meta mt path mode uid gid now = attr_meta (LookupMimeType mt path) mode uid gid now"
  by (simp add: create_file_meta_def attr_meta_def name_eval)

lemma create_directory_attr:
  "path \<noteq> [] \<Longrightarrow> create_directory_meta path mode time uid gid =
     Some (if ends_with CHR ''/'' path then path else path @ ''/'',
           attr_meta ''application/x-directory'' mode uid gid time)"
  by (simp add: create_directory_meta_def attr_meta_def name_eval)

lemma attr_meta_find:
  "hd_find ''Content-Type'' (attr_meta c m u g t) = Some c"
  "hd_find ''Content-Length'' (attr_meta c m u g t) = None"
  "hd_find ''x-amz-meta-mode'' (attr_meta c m u g t) = Some (str (uint m))"
  "hd_find ''x-amz-meta-uid'' (attr_meta c m u g t) = Some (str (uint u))"
  "hd_find ''x-amz-meta-gid'' (attr_meta c m u g t) = Some (str (uint g))"
  "hd_find ''x-amz-meta-mtime'' (attr_meta c m u g t) = Some (str t)"
  "hd_find ''x-amz-meta-ctime'' (attr_meta c m u g t) = Some (str t)"
  by (simp_all add: attr_meta_def name_eval)

lemma c_str_str [simp]: "c_str (str n) = str n"
  by (auto simp: c_str_def takeWhile_eq_all_conv char_between_def dest!: str_chars)

lemma word_str: "s3fs_strtoofft (str (uint (w :: 32 word))) False = Inr (uint w)"
proof (rule strtoofft_str)
  show "LLONG_MIN \<le> uint w" by (rule order_trans [of _ 0]) (simp_all add: LLONG_MIN_def)
  have "uint w < 2 ^ 32" using unsigned_less [of w, where ?'a = int] by simp
  then show "uint w \<le> LLONG_MAX" by (simp add: LLONG_MAX_def)
qed

lemma mtime_str:
  "LLONG_MIN \<le> t \<Longrightarrow> t \<le> LLONG_MAX \<Longrightarrow> get_mtime_str (str t) = Inr t"
proof -
  assume b: "LLONG_MIN \<le> t" "t \<le> LLONG_MAX"
  have "find_idx (\<lambda>c. c = CHR ''.'') (str t) = None"
    by (rule find_idx_absent) (auto simp: char_between_def dest: str_chars)
  then show ?thesis using b by (simp add: get_mtime_str_def strtoofft_str)
qed

lemmas attr_eval = attr_meta_find word_str get_id_str_def get_mode_str_def get_uid_def get_gid_def
  get_time_def get_mtime_def get_ctime_def get_size_def

lemma attr_stat:
  assumes "get_mode env (attr_meta c m u g t) path True forcedir = Inr m'"
    and "LLONG_MIN \<le> t" "t \<le> LLONG_MAX"
  shows "convert_header_to_stat env path (attr_meta c m u g t) forcedir =
    Inr \<lparr>st_mode = m', st_nlink = 1, st_uid = u, st_gid = g, st_size = 0,
      st_blocks = (if S_ISREG m' then 1 else 0), st_blksize = 4096, st_mtime = t, st_ctime = t\<rparr>"
  using assms
  by (simp add: convert_header_to_stat_def attr_eval mtime_str zero_stat_def get_blocks_def)

lemma attr_mode_typed:
  "m AND S_IFMT \<noteq> 0 \<Longrightarrow> get_mode env (attr_meta c m u g t) path cd fd = Inr m"
  by (simp add: get_mode_def header_mode_def attr_eval)

lemma attr_mode_untyped:
  "m AND S_IFMT = 0 \<Longrightarrow> get_mode env (attr_meta ''application/x-directory'' m u g t) path True fd
     = Inr (complement_mode env (m OR S_IFDIR))"
  by (auto simp: get_mode_def header_mode_def attr_eval type_bit_def mime_of_def split: option.splits)

section \<open>Properties\<close>

text \<open>
  The attributes of a new file survive the round trip through its headers: converting the
  headers that \<open>create_file_object\<close> uploads gives exactly the mode, owner and times it was
  called with, for every mode with a file type and whatever the option \<open>complement_stat\<close>,
  the forced directory flag and the process' ids are.
\<close>

theorem create_file_stat_round_trip:
  assumes "mode AND S_IFMT \<noteq> 0" "LLONG_MIN \<le> now" "now \<le> LLONG_MAX"
  shows "convert_header_to_stat env path (create_file_meta mt path' mode uid gid now) forcedir =
    Inr \<lparr>st_mode = mode, st_nlink = 1, st_uid = uid, st_gid = gid, st_size = 0,
      st_blocks = (if S_ISREG mode then 1 else 0), st_blksize = 4096,
      st_mtime = now, st_ctime = now\<rparr>"
  unfolding create_file_attr using assms by (intro attr_stat attr_mode_typed)

theorem create_file_stat_round_trip_witness:
  "convert_header_to_stat \<lparr>complement_stat = True, geteuid = 0, getegid = 0, parse_date = \<lambda>_. 0\<rparr>
     ''/a.txt'' (create_file_meta [(''txt'', ''text/plain'')] ''/a.txt'' 0x81A4 1000 100 1577836800) False =
   Inr \<lparr>st_mode = 0x81A4, st_nlink = 1, st_uid = 1000, st_gid = 100, st_size = 0,
      st_blocks = 1, st_blksize = 4096, st_mtime = 1577836800, st_ctime = 1577836800\<rparr>"
  using create_file_stat_round_trip [of "0x81A4" 1577836800] 
  by (simp add: LLONG_MIN_def LLONG_MAX_def S_ISREG_def)

text \<open>
  A directory created with permission bits only is read back as a directory: its object is
  stored under a name ending in a slash, and converting its headers adds \<open>S_IFDIR\<close> to the
  mode and, with \<open>complement_stat\<close>, the owner's read and search bits where no permission was
  given.
\<close>

theorem create_directory_stat_round_trip:
  assumes "mode AND S_IFMT = 0" "LLONG_MIN \<le> time" "time \<le> LLONG_MAX" "path \<noteq> []"
  shows "\<exists>tpath meta st. create_directory_meta path mode time uid gid = Some (tpath, meta)
    \<and> ends_with CHR ''/'' tpath \<and> convert_header_to_stat env tpath meta forcedir = Inr st
    \<and> S_ISDIR (st_mode st) \<and> st_uid st = uid \<and> st_gid st = gid \<and> st_mtime st = time
    \<and> st_mode st = complement_mode env (mode OR S_IFDIR)"
proof -
  let ?m = "complement_mode env (mode OR S_IFDIR)"
  have "(mode OR S_IFDIR) AND S_IFMT = S_IFDIR" using assms(1) by (simp add: bit.conj_disj_distrib2)
  moreover have "(S_IRUSR OR S_IXUSR) AND S_IFMT = 0" "(S_IRUSR) AND S_IFMT = 0" by simp_all
  ultimately have "S_ISDIR ?m"
    by (simp add: complement_mode_def S_ISDIR_def bit.conj_disj_distrib2)
  moreover have "ends_with CHR ''/'' (if ends_with CHR ''/'' path then path else path @ ''/'')"
    by (simp add: ends_with_def)
  ultimately show ?thesis
    using create_directory_attr [OF assms(4)] attr_stat [OF attr_mode_untyped [OF assms(1)] assms(2,3)]
    by auto
qed

theorem create_directory_stat_round_trip_witness:
  "\<exists>tpath meta st. create_directory_meta ''/d'' 0x1ED 1577836800 1000 100 = Some (tpath, meta)
    \<and> ends_with CHR ''/'' tpath
    \<and> convert_header_to_stat \<lparr>complement_stat = False, geteuid = 0, getegid = 0, parse_date = \<lambda>_. 0\<rparr>
         tpath meta False = Inr st
    \<and> S_ISDIR (st_mode st) \<and> st_uid st = 1000 \<and> st_gid st = 100 \<and> st_mtime st = 1577836800
    \<and> st_mode st = complement_mode
        \<lparr>complement_stat = False, geteuid = 0, getegid = 0, parse_date = \<lambda>_. 0\<rparr> (0x1ED OR S_IFDIR)"
  by (rule create_directory_stat_round_trip) (simp_all add: LLONG_MIN_def LLONG_MAX_def)

text \<open>
  \<open>LookupMimeType\<close> of a name with two extensions is the type of the last one; where that
  is unknown, the type of the one before; and the default type where neither is known.
\<close>

theorem mime_of_two_extensions:
  assumes "CHR ''.'' \<notin> set base" "CHR ''.'' \<notin> set ext2" "CHR ''.'' \<notin> set ext"
  shows "LookupMimeType mt (base @ CHR ''.'' # ext2 @ CHR ''.'' # ext) =
    (case hd_find ext mt of Some m \<Rightarrow> m
     | None \<Rightarrow> (case hd_find ext2 mt of Some m \<Rightarrow> m | None \<Rightarrow> octet_stream))"
  using assms by (rule LookupMimeType_two)

theorem mime_of_two_extensions_witness:
  "LookupMimeType [(''tar'', ''application/x-tar'')] (''a'' @ CHR ''.'' # ''tar'' @ CHR ''.'' # ''zz'')
     = ''application/x-tar''"
  by (subst mime_of_two_extensions) (simp_all add: name_eval)

end
