(* ===== verification/Stat_Cache.thy ===== *)
theory Stat_Cache
  imports Header_Stat "HOL-Library.Product_Lexorder"
begin

text \<open>
  The stat cache, class \<open>StatCache\<close> of \<open>protocols/s3/cache.cpp\<close>: a map from object
  names to attributes and headers, with expiry, negative entries (\<open>noobjcache\<close>) and entries
  protected from truncation (\<open>notruncate\<close>). The singleton is the record \<open>stat_cache\<close>;
  each operation runs at one instant \<open>now\<close> of the monotonic clock. The mutex is not
  recursive: an operation that locks it while holding it returns \<open>Deadlock\<close>. Names come from
  C strings, so they hold no NUL.
\<close>

record timespec =
  tv_sec :: int
  tv_nsec :: int

record stat_cache_entry =
  stbuf :: stat_t
  hit_count :: nat
  cache_date :: timespec
  ent_meta :: headers
  isforce :: bool
  noobjcache :: bool
  notruncate :: nat

record stat_cache =
  entries :: "stat_cache_entry smap"
  IsExpireTime :: bool
  IsExpireIntervalType :: bool
  ExpireTime :: int
  CacheSize :: nat
  IsCacheNoObject :: bool

datatype 'a locked = Returns 'a | Deadlock

section \<open>Times\<close>

definition CompareStatCacheTime :: "timespec \<Rightarrow> timespec \<Rightarrow> int" where
  "CompareStatCacheTime ts1 ts2 =
     (if tv_sec ts1 < tv_sec ts2 then - 1
      else if tv_sec ts1 > tv_sec ts2 then 1
      else if tv_nsec ts1 < tv_nsec ts2 then - 1
      else if tv_nsec ts1 > tv_nsec ts2 then 1 else 0)"

definition IsExpireStatCacheTime :: "timespec \<Rightarrow> timespec \<Rightarrow> int \<Rightarrow> bool" where
  "IsExpireStatCacheTime now ts expire \<longleftrightarrow> tv_sec ts + expire < tv_sec now"

definition sort_statiterlist :: "stat_cache_entry \<Rightarrow> stat_cache_entry \<Rightarrow> bool" where
  "sort_statiterlist src1 src2 =
     (let result = CompareStatCacheTime (cache_date src1) (cache_date src2)
      in (if result = 0 \<and> hit_count src1 < hit_count src2 then - 1 else result) < 0)"

section \<open>Configuration\<close>

definition new_stat_cache :: stat_cache where
  "new_stat_cache = \<lparr>entries = [], IsExpireTime = False, IsExpireIntervalType = False,
     ExpireTime = 0, CacheSize = 100000, IsCacheNoObject = False\<rparr>"

definition SetCacheSize :: "stat_cache \<Rightarrow> nat \<Rightarrow> nat \<times> stat_cache" where
  "SetCacheSize c sz = (CacheSize c, c\<lparr>CacheSize := sz\<rparr>)"

definition GetExpireTime :: "stat_cache \<Rightarrow> int" where
  "GetExpireTime c = (if IsExpireTime c then ExpireTime c else - 1)"

definition SetExpireTime :: "stat_cache \<Rightarrow> int \<Rightarrow> bool \<Rightarrow> int \<times> stat_cache" where
  "SetExpireTime c expire is_interval =
     (ExpireTime c, c\<lparr>ExpireTime := expire, IsExpireTime := True, IsExpireIntervalType := is_interval\<rparr>)"

definition UnsetExpireTime :: "stat_cache \<Rightarrow> int \<times> stat_cache" where
  "UnsetExpireTime c =
     (if IsExpireTime c then ExpireTime c else - 1,
      c\<lparr>ExpireTime := 0, IsExpireTime := False, IsExpireIntervalType := False\<rparr>)"

definition SetCacheNoObject :: "stat_cache \<Rightarrow> bool \<Rightarrow> bool \<times> stat_cache" where
  "SetCacheNoObject c flag = (IsCacheNoObject c, c\<lparr>IsCacheNoObject := flag\<rparr>)"

definition Clear :: "stat_cache \<Rightarrow> stat_cache" where
  "Clear c = c\<lparr>entries := []\<rparr>"

section \<open>Deleting\<close>

text \<open>The other spelling of a directory name: with or without the final slash.\<close>

definition sibling :: "string \<Rightarrow> string" where
  "sibling key = (if ends_with CHR ''/'' key then butlast key else key @ ''/'')"

text \<open>\<open>in_lock\<close>: whether the calling thread holds the mutex.\<close>

definition DelStat :: "bool \<Rightarrow> stat_cache \<Rightarrow> string option \<Rightarrow> bool \<Rightarrow> (bool \<times> stat_cache) locked" where
  "DelStat in_lock c key lock_already_held =
     (case key of None \<Rightarrow> Returns (False, c)
      | Some k \<Rightarrow>
          if in_lock \<and> \<not> lock_already_held then Deadlock
          else
            (let es = sm_erase k (entries c);
                 es' = (if k \<noteq> [] \<and> k \<noteq> ''/'' then sm_erase (sibling k) es else es)
             in Returns (True, c\<lparr>entries := es'\<rparr>)))"

section \<open>Looking up\<close>

definition find_entry ::
  "stat_cache_entry smap \<Rightarrow> string \<Rightarrow> bool \<Rightarrow> string \<times> stat_cache_entry option" where
  "find_entry es key overcheck =
     (if overcheck \<and> \<not> ends_with CHR ''/'' key then
        (case sm_find (key @ ''/'') es of
           Some e \<Rightarrow> (key @ ''/'', Some e)
         | None \<Rightarrow> (key, sm_find key es))
      else (key, sm_find key es))"

definition fresh :: "stat_cache \<Rightarrow> timespec \<Rightarrow> stat_cache_entry \<Rightarrow> bool" where
  "fresh c now e \<longleftrightarrow>
     \<not> IsExpireTime c \<or> \<not> IsExpireStatCacheTime now (cache_date e) (ExpireTime c)"

definition etag_differs :: "stat_cache_entry \<Rightarrow> string option \<Rightarrow> bool" where
  "etag_differs e petag =
     (case petag of None \<Rightarrow> False
      | Some tag \<Rightarrow>
          (case find (\<lambda>(k, v). lower k = ''etag'') (ent_meta e) of
             None \<Rightarrow> False
           | Some (k, v) \<Rightarrow> tag \<noteq> [] \<and> tag \<noteq> c_str v))"

type_synonym stat_hit = "stat_t \<times> headers \<times> bool"

definition GetStat ::
  "stat_cache \<Rightarrow> timespec \<Rightarrow> string \<Rightarrow> bool \<Rightarrow> string option \<Rightarrow> (stat_hit option \<times> stat_cache) locked" where
  "GetStat c now key overcheck petag =
     (case find_entry (entries c) key overcheck of
        (strpath, None) \<Rightarrow> Returns (None, c)
      | (strpath, Some ent) \<Rightarrow>
          if fresh c now ent then
            (if noobjcache ent then
               (if \<not> IsCacheNoObject c then
                  (case DelStat True c (Some strpath) False of
                     Deadlock \<Rightarrow> Deadlock | Returns (_, c') \<Rightarrow> Returns (None, c'))
                else Returns (None, c))
             else if etag_differs ent petag then
               (case DelStat True c (Some strpath) True of
                  Deadlock \<Rightarrow> Deadlock | Returns (_, c') \<Rightarrow> Returns (None, c'))
             else
               (let ent' = ent\<lparr>hit_count := Suc (hit_count ent),
                      cache_date := (if IsExpireIntervalType c then now else cache_date ent)\<rparr>
                in Returns (Some (stbuf ent, ent_meta ent, isforce ent),
                     c\<lparr>entries := sm_set strpath ent' (entries c)\<rparr>)))
          else
            (case DelStat True c (Some strpath) True of
               Deadlock \<Rightarrow> Deadlock | Returns (_, c') \<Rightarrow> Returns (None, c')))"

definition IsNoObjectCache :: "stat_cache \<Rightarrow> timespec \<Rightarrow> string \<Rightarrow> bool \<Rightarrow> (bool \<times> stat_cache) locked" where
  "IsNoObjectCache c now key overcheck =
     (if \<not> IsCacheNoObject c then Returns (False, c)
      else case find_entry (entries c) key overcheck of
        (strpath, None) \<Rightarrow> Returns (False, c)
      | (strpath, Some ent) \<Rightarrow>
          if fresh c now ent then
            (if noobjcache ent then
               Returns (True, c\<lparr>entries := sm_set strpath (ent\<lparr>cache_date := now\<rparr>) (entries c)\<rparr>)
             else Returns (False, c))
          else
            (case DelStat True c (Some strpath) False of
               Deadlock \<Rightarrow> Deadlock | Returns (_, c') \<Rightarrow> Returns (False, c')))"

section \<open>Truncation\<close>

text \<open>
  \<open>std::sort\<close> by insertion; among entries of equal rank the order of the names is kept,
  which the C++ library leaves open.
\<close>

type_synonym cached = "string \<times> stat_cache_entry"

fun insert_cached :: "cached \<Rightarrow> cached list \<Rightarrow> cached list" where
  "insert_cached x [] = [x]"
| "insert_cached x (y # ys) =
     (if sort_statiterlist (snd y) (snd x) then y # insert_cached x ys else x # y # ys)"

fun sort_cached :: "cached list \<Rightarrow> cached list" where
  "sort_cached [] = []"
| "sort_cached (x # xs) = insert_cached x (sort_cached xs)"

text \<open>The loop over the map that collects \<open>erase_iters\<close>.\<close>

fun erase_loop :: "nat \<Rightarrow> cached list \<Rightarrow> cached list \<Rightarrow> cached list" where
  "erase_loop erase_count erase_iters [] = erase_iters"
| "erase_loop erase_count erase_iters (x # xs) =
     (let ec = (if 0 < notruncate (snd x) \<and> 0 < erase_count then erase_count - 1 else erase_count);
          its = sort_cached (erase_iters @ [x]);
          its' = (if ec < length its then butlast its else its)
      in erase_loop ec its' xs)"

definition TruncateCache :: "stat_cache \<Rightarrow> timespec \<Rightarrow> bool \<times> stat_cache" where
  "TruncateCache c now =
     (if entries c = [] then (True, c)
      else
        (let es = (if IsExpireTime c
               then filter (\<lambda>(k, e). \<not> (notruncate e = 0
                      \<and> IsExpireStatCacheTime now (cache_date e) (ExpireTime c))) (entries c)
               else entries c)
         in if length es < CacheSize c then (True, c\<lparr>entries := es\<rparr>)
            else
              (let its = erase_loop (length es - CacheSize c + 1) [] es
               in (True, c\<lparr>entries := foldl (\<lambda>m (k, e). sm_erase k m) es its\<rparr>))))"

section \<open>Adding\<close>

definition cached_headers :: "headers \<Rightarrow> headers" where
  "cached_headers meta =
     foldl (\<lambda>acc (k, v).
       let tag = lower k in
       if tag = ''content-type'' then hd_set k v acc
       else if tag = ''content-length'' then hd_set k v acc
       else if tag = ''etag'' then hd_set k v acc
       else if tag = ''last-modified'' then hd_set k v acc
       else if substr tag 0 5 = ''x-amz'' then hd_set tag v acc
       else acc) [] meta"

text \<open>The test both \<open>AddStat\<close> and \<open>AddNoObjectCache\<close> make before a new entry.\<close>

definition make_room :: "stat_cache \<Rightarrow> timespec \<Rightarrow> string \<Rightarrow> (bool \<times> stat_cache) locked" where
  "make_room c now key =
     (if sm_find key (entries c) \<noteq> None then
        (case DelStat False c (Some key) False of
           Deadlock \<Rightarrow> Deadlock | Returns (_, c') \<Rightarrow> Returns (True, c'))
      else if CacheSize c < length (entries c) then Returns (TruncateCache c now)
      else Returns (True, c))"

definition AddStat ::
  "senv \<Rightarrow> stat_cache \<Rightarrow> timespec \<Rightarrow> string \<Rightarrow> headers \<Rightarrow> bool \<Rightarrow> bool
   \<Rightarrow> ((strtoofft_error + bool) \<times> stat_cache) locked" where
  "AddStat env c now key meta forcedir no_truncate =
     (if \<not> no_truncate \<and> CacheSize c < 1 then Returns (Inr True, c)
      else case make_room c now key of
        Deadlock \<Rightarrow> Deadlock
      | Returns (ok, c1) \<Rightarrow>
          if \<not> ok then Returns (Inr False, c1)
          else
            (case convert_header_to_stat env key meta forcedir of
               Inl e \<Rightarrow> Returns (Inl e, c1)
             | Inr st \<Rightarrow>
                 (let ent = \<lparr>stbuf = st, hit_count = 0, cache_date = now,
                        ent_meta = cached_headers meta, isforce = forcedir, noobjcache = False,
                        notruncate = (if no_truncate then 1 else 0)\<rparr>
                  in Returns (Inr True,
                       c1\<lparr>entries := sm_set key ent (sm_erase key (entries c1))\<rparr>))))"

definition AddNoObjectCache :: "stat_cache \<Rightarrow> timespec \<Rightarrow> string \<Rightarrow> (bool \<times> stat_cache) locked" where
  "AddNoObjectCache c now key =
     (if \<not> IsCacheNoObject c then Returns (True, c)
      else if CacheSize c < 1 then Returns (True, c)
      else case make_room c now key of
        Deadlock \<Rightarrow> Deadlock
      | Returns (ok, c1) \<Rightarrow>
          if \<not> ok then Returns (False, c1)
          else
            (let ent = \<lparr>stbuf = zero_stat, hit_count = 0, cache_date = now, ent_meta = [],
                   isforce = False, noobjcache = True, notruncate = 0\<rparr>
             in Returns (True, c1\<lparr>entries := sm_set key ent (sm_erase key (entries c1))\<rparr>)))"

definition ChangeNoTruncateFlag :: "stat_cache \<Rightarrow> string \<Rightarrow> bool \<Rightarrow> stat_cache" where
  "ChangeNoTruncateFlag c key no_truncate =
     (case sm_find key (entries c) of
        None \<Rightarrow> c
      | Some ent \<Rightarrow>
          if no_truncate then
            c\<lparr>entries := sm_set key (ent\<lparr>notruncate := Suc (notruncate ent)\<rparr>) (entries c)\<rparr>
          else if 0 < notruncate ent then
            c\<lparr>entries := sm_set key (ent\<lparr>notruncate := notruncate ent - 1\<rparr>) (entries c)\<rparr>
          else c)"

section \<open>Maps of entries\<close>

lemma sm_erase_filter: "sm_sorted m \<Longrightarrow> sm_erase k m = filter (\<lambda>x. fst x \<noteq> k) m"
proof (induction m)
  case Nil
  then show ?case by simp
next
  case (Cons p m)
  obtain a b where p: "p = (a, b)" by (cases p)
  have m: "sm_sorted m" "\<forall>x \<in> set m. a < fst x" using Cons.prems p by (auto simp: om_sorted_Cons)
  then have "k \<le> a \<Longrightarrow> filter (\<lambda>x. fst x \<noteq> k) m = m" by (auto simp: filter_id_conv)
  then show ?case using Cons.IH [OF m(1)] p by auto
qed

lemma foldl_erase:
  "sm_sorted m \<Longrightarrow>
   foldl (\<lambda>m (k, e). sm_erase k m) m its = filter (\<lambda>x. fst x \<notin> fst ` set its) m"
proof (induction its arbitrary: m)
  case Nil
  then show ?case by simp
next
  case (Cons x its)
  then show ?case
    by (cases x) (simp add: smap.sorted_erase sm_erase_filter om_sorted_filter conj_commute)
qed

lemma sm_sorted_distinct: "sm_sorted m \<Longrightarrow> distinct (map fst m)"
  by (simp add: om_sorted_def strict_sorted_iff)

lemma sm_find_set: "sm_sorted m \<Longrightarrow> sm_find k' (sm_set k v m) = (if k = k' then Some v else sm_find k' m)"
  by (simp add: smap.find_set_lemma)

lemma sm_find_erase: "sm_sorted m \<Longrightarrow> sm_find k' (sm_erase k m) = (if k = k' then None else sm_find k' m)"
  by (simp add: smap.find_erase_lemma)

lemmas sm_laws = sm_find_set sm_find_erase smap.sorted_set smap.sorted_erase

section \<open>The order of eviction\<close>

definition rank :: "cached \<Rightarrow> int \<times> int \<times> nat" where
  "rank x = (tv_sec (cache_date (snd x)), tv_nsec (cache_date (snd x)), hit_count (snd x))"

lemma sort_statiterlist_rank: "sort_statiterlist (snd x) (snd y) \<longleftrightarrow> rank x < rank y"
  by (auto simp: sort_statiterlist_def CompareStatCacheTime_def rank_def less_prod_def' Let_def)

lemma insert_cached_insort: "insert_cached x ys = insort_key rank x ys"
  by (induction ys) (auto simp: sort_statiterlist_rank not_less)

lemma sort_cached_sort: "sort_cached xs = sort_key rank xs"
  by (induction xs) (simp_all add: insert_cached_insort sort_key_def)

lemma sorted_last: "sorted (xs :: 'a :: linorder list) \<Longrightarrow> \<forall>z \<in> set xs. z \<le> last xs"
  by (induction xs) auto

lemma set_butlast_distinct: "distinct xs \<Longrightarrow> xs \<noteq> [] \<Longrightarrow> set (butlast xs) = set xs - {last xs}"
  by (induction xs rule: rev_induct) auto

lemma erase_step:
  assumes its: "set its \<subseteq> set dn" "distinct its" "min ec (length dn) \<le> length its"
      "length its \<le> min E (length dn)" "ec' \<le> ec" "ec \<le> E"
    and old: "\<forall>y \<in> set dn - set its. \<forall>z \<in> set its. rank z \<le> rank y"
    and x: "x \<notin> set dn"
    and R: "R = (if ec' < length (sort_cached (its @ [x])) then butlast (sort_cached (its @ [x]))
                 else sort_cached (its @ [x]))"
  shows "set R \<subseteq> set (dn @ [x])" "distinct R" "min ec' (length (dn @ [x])) \<le> length R"
    "length R \<le> min E (length (dn @ [x]))"
    "\<forall>y \<in> set (dn @ [x]) - set R. \<forall>z \<in> set R. rank z \<le> rank y"
proof -
  let ?s = "sort_cached (its @ [x])"
  have s: "set ?s = insert x (set its)" "distinct ?s" "length ?s = Suc (length its)"
    "sorted (map rank ?s)"
    using its x by (auto simp: sort_cached_sort)
  have ne: "?s \<noteq> []" using s(3) by auto
  have sp: "set (butlast ?s) = set ?s - {last ?s}"
    using ne s(2) by (intro set_butlast_distinct)
  have top: "\<forall>z \<in> set ?s. rank z \<le> rank (last ?s)"
    using sorted_last [OF s(4)] ne by (simp add: last_map)
  show "set R \<subseteq> set (dn @ [x])" using R s(1) its(1) by (auto dest: in_set_butlastD)
  show "distinct R" using R s(2) by (simp add: distinct_butlast)
  show "min ec' (length (dn @ [x])) \<le> length R" using R s(3) its(3,5) by auto
  show "length R \<le> min E (length (dn @ [x]))" using R s(3) its(4-6) by auto
  show "\<forall>y \<in> set (dn @ [x]) - set R. \<forall>z \<in> set R. rank z \<le> rank y"
  proof (cases "ec' < length ?s")
    case False
    then have "length its < ec" using s(3) its(5) by simp
    then have "length its = length dn" using its(3,4) by auto
    then have "card (set dn) \<le> card (set its)"
      using distinct_card [OF its(2)] card_length [of dn] by simp
    then have "set its = set dn" using its(1) by (intro card_seteq) simp_all
    then show ?thesis using R False s(1) by auto
  next
    case True
    then have R': "set R = set ?s - {last ?s}" using R sp by simp
    show ?thesis
    proof (intro ballI)
      fix y z assume y: "y \<in> set (dn @ [x]) - set R" and z: "z \<in> set R"
      have zl: "rank z \<le> rank (last ?s)" using top z R' by blast
      show "rank z \<le> rank y"
      proof (cases "y = last ?s")
        case True
        then show ?thesis using zl by simp
      next
        case False
        then have "y \<in> set dn - set its" using y R' s(1) by auto
        then have *: "\<forall>w \<in> set its. rank w \<le> rank y" using old by blast
        show ?thesis
        proof (cases "z \<in> set its")
          case True
          then show ?thesis using * by blast
        next
          case False
          have zs: "z \<in> insert x (set its)" "z \<noteq> last ?s" using z unfolding R' s(1) by blast+
          then have "last ?s \<noteq> x" using False by (metis insertE)
          moreover have "last ?s \<in> insert x (set its)" using last_in_set [OF ne] unfolding s(1) .
          ultimately have "last ?s \<in> set its" by blast
          then have "rank (last ?s) \<le> rank y" using * by blast
          with zl show ?thesis by (rule order_trans)
        qed
      qed
    qed
  qed
qed

text \<open>
  The loop over all entries. An entry with a positive \<open>notruncate\<close> lowers the count and stays a
  candidate, and at most one candidate is dropped per entry, so that the list may stay longer than
  the lowered count.
\<close>

definition protected_entries :: "cached list \<Rightarrow> nat" where
  "protected_entries xs = length (filter (\<lambda>x. 0 < notruncate (snd x)) xs)"

lemma protected_entries_Cons:
  "protected_entries (x # xs) = (if 0 < notruncate (snd x) then 1 else 0) + protected_entries xs"
  by (simp add: protected_entries_def)

lemma erase_loop_spec:
  assumes "distinct (dn @ xs)" "set its \<subseteq> set dn" "distinct its" "min ec (length dn) \<le> length its"
    and "length its \<le> min E (length dn)" "ec \<le> E"
    and "\<forall>y \<in> set dn - set its. \<forall>z \<in> set its. rank z \<le> rank y"
  shows "set (erase_loop ec its xs) \<subseteq> set (dn @ xs) \<and> distinct (erase_loop ec its xs)
    \<and> min (ec - protected_entries xs) (length (dn @ xs)) \<le> length (erase_loop ec its xs)
    \<and> length (erase_loop ec its xs) \<le> min E (length (dn @ xs))
    \<and> (\<forall>y \<in> set (dn @ xs) - set (erase_loop ec its xs).
         \<forall>z \<in> set (erase_loop ec its xs). rank z \<le> rank y)"
  using assms
proof (induction xs arbitrary: ec its dn)
  case Nil
  then show ?case by (simp add: protected_entries_def)
next
  case (Cons x xs)
  define ec' where "ec' = (if 0 < notruncate (snd x) \<and> 0 < ec then ec - 1 else ec)"
  define R where "R = (if ec' < length (sort_cached (its @ [x])) then butlast (sort_cached (its @ [x]))
            else sort_cached (its @ [x]))"
  have x: "x \<notin> set dn" using Cons.prems(1) by auto
  have le: "ec' \<le> ec" "ec' \<le> E" using Cons.prems(6) by (auto simp: ec'_def)
  note st = erase_step [OF Cons.prems(2-5) le(1) Cons.prems(6,7) x R_def]
  have e: "erase_loop ec its (x # xs) = erase_loop ec' R xs" by (simp add: Let_def R_def ec'_def)
  have p: "ec - protected_entries (x # xs) \<le> ec' - protected_entries xs"
    by (auto simp: protected_entries_Cons ec'_def)
  have "distinct ((dn @ [x]) @ xs)" using Cons.prems(1) by auto
  note IH = Cons.IH [OF this st(1-4) le(2) st(5)]
  have "min (ec - protected_entries (x # xs)) (length (dn @ x # xs))
      \<le> min (ec' - protected_entries xs) (length ((dn @ [x]) @ xs))" using p by (intro min.mono) simp_all
  also have "\<dots> \<le> length (erase_loop ec' R xs)" using IH by blast
  finally show ?case using IH unfolding e by simp
qed

definition unprotected :: "stat_cache \<Rightarrow> bool" where
  "unprotected c \<longleftrightarrow> (\<forall>x \<in> set (entries c). notruncate (snd x) = 0)"

definition cache_sorted :: "stat_cache \<Rightarrow> bool" where
  "cache_sorted c \<longleftrightarrow> sm_sorted (entries c)"

text \<open>The entries that survive the removal of the expired ones.\<close>

definition survivors :: "stat_cache \<Rightarrow> timespec \<Rightarrow> stat_cache_entry smap" where
  "survivors c now =
     (if IsExpireTime c
      then filter (\<lambda>(k, e). \<not> (notruncate e = 0
             \<and> IsExpireStatCacheTime now (cache_date e) (ExpireTime c))) (entries c)
      else entries c)"

lemma survivors_sorted: "cache_sorted c \<Longrightarrow> sm_sorted (survivors c now)"
  by (auto simp: survivors_def cache_sorted_def om_sorted_filter)

lemma survivors_subset: "set (survivors c now) \<subseteq> set (entries c)"
  by (auto simp: survivors_def)

lemma Truncate_entries:
  "cache_sorted c \<Longrightarrow> entries (snd (TruncateCache c now)) =
    (if length (survivors c now) < CacheSize c then survivors c now
     else filter (\<lambda>x. fst x \<notin> fst ` set (erase_loop (length (survivors c now) - CacheSize c + 1) []
       (survivors c now))) (survivors c now))"
  using survivors_sorted [of c now]
  by (simp add: TruncateCache_def Let_def foldl_erase survivors_def [symmetric])
    (simp add: survivors_def)

lemma Truncate_subset:
  "cache_sorted c \<Longrightarrow> set (entries (snd (TruncateCache c now))) \<subseteq> set (entries c)"
  using survivors_subset [of c now] by (auto simp: Truncate_entries)

lemma Truncate_config [simp]:
  "fst (TruncateCache c now)"
  "IsCacheNoObject (snd (TruncateCache c now)) = IsCacheNoObject c"
  "CacheSize (snd (TruncateCache c now)) = CacheSize c"
  "IsExpireTime (snd (TruncateCache c now)) = IsExpireTime c"
  "ExpireTime (snd (TruncateCache c now)) = ExpireTime c"
  "IsExpireIntervalType (snd (TruncateCache c now)) = IsExpireIntervalType c"
  by (simp_all add: TruncateCache_def Let_def)

lemma Truncate_sorted: "cache_sorted c \<Longrightarrow> cache_sorted (snd (TruncateCache c now))"
  using survivors_sorted [of c now] unfolding cache_sorted_def [of "snd (TruncateCache c now)"]
  by (simp add: Truncate_entries om_sorted_filter)

text \<open>Filtering by the keys of a sublist is filtering out its elements.\<close>

lemma filter_keys:
  assumes "distinct (map fst m)" "set R \<subseteq> set m"
  shows "filter (\<lambda>x. fst x \<notin> fst ` set R) m = filter (\<lambda>x. x \<notin> set R) m"
  using assms by (intro filter_cong) (auto simp: distinct_map dest: inj_onD)

lemma length_filter_notin:
  assumes "distinct m" "distinct R" "set R \<subseteq> set m"
  shows "length (filter (\<lambda>x. x \<notin> set R) m) = length m - length R"
proof -
  have "set (filter (\<lambda>x. x \<notin> set R) m) = set m - set R" by auto
  moreover have "distinct (filter (\<lambda>x. x \<notin> set R) m)" using assms(1) by simp
  ultimately have "length (filter (\<lambda>x. x \<notin> set R) m) = card (set m - set R)"
    by (metis distinct_card)
  then show ?thesis using assms by (simp add: card_Diff_subset distinct_card)
qed

lemma Truncate_kept:
  assumes c: "cache_sorted c" and full: "CacheSize c \<le> length (survivors c now)"
  defines "kept \<equiv> entries (snd (TruncateCache c now))"
  shows "CacheSize c - 1 \<le> length kept"
    "length kept \<le> CacheSize c - 1 + protected_entries (survivors c now)"
    "set kept \<subseteq> set (survivors c now)"
    "\<forall>x \<in> set (survivors c now) - set kept. \<forall>y \<in> set kept. rank x \<le> rank y"
proof -
  let ?es = "survivors c now"
  let ?ec = "length ?es - CacheSize c + 1"
  let ?R = "erase_loop ?ec [] ?es"
  have d: "distinct (map fst ?es)" using survivors_sorted [OF c] by (rule sm_sorted_distinct)
  then have de: "distinct ?es" by (simp add: distinct_map)
  note R = erase_loop_spec [of "[]" ?es "[]" ?ec ?ec, simplified, OF de]
  have k: "kept = filter (\<lambda>x. x \<notin> set ?R) ?es"
    using filter_keys [OF d] R full by (simp add: kept_def Truncate_entries [OF c])
  show "set kept \<subseteq> set ?es" by (auto simp: k)
  have "length kept = length ?es - length ?R"
    unfolding k using R by (intro length_filter_notin [OF de]) simp_all
  moreover have "length ?R \<le> ?ec" "length ?R \<le> length ?es"
    "?ec - protected_entries ?es \<le> length ?R \<or> length ?es \<le> length ?R"
    using R by (simp_all add: min_le_iff_disj)
  ultimately show "CacheSize c - 1 \<le> length kept"
    "length kept \<le> CacheSize c - 1 + protected_entries ?es" using full by arith+
  show "\<forall>x \<in> set ?es - set kept. \<forall>y \<in> set kept. rank x \<le> rank y"
    using R by (auto simp: k)
qed

lemma Truncate_unprotected:
  assumes c: "cache_sorted c" "unprotected c" and full: "CacheSize c \<le> length (survivors c now)"
  shows "length (entries (snd (TruncateCache c now))) = CacheSize c - 1"
proof -
  have "protected_entries (survivors c now) = 0"
    using c(2) survivors_subset [of c now]
    by (auto simp: protected_entries_def unprotected_def filter_empty_conv)
  then show ?thesis using Truncate_kept(1,2) [OF c(1) full] by simp
qed

section \<open>What the operations do to the map\<close>

lemma DelStat_Returns:
  "\<not> in_lock \<or> held \<Longrightarrow> DelStat in_lock c (Some k) held =
     Returns (True, c\<lparr>entries := (if k \<noteq> [] \<and> k \<noteq> ''/'' then sm_erase (sibling k) (sm_erase k (entries c))
                              else sm_erase k (entries c))\<rparr>)"
  by (auto simp: DelStat_def)

lemma DelStat_Deadlock: "DelStat True c (Some k) False = Deadlock"
  by (simp add: DelStat_def)

lemma find_entry_cases:
  obtains (miss) p where "find_entry es key oc = (p, None)" "p = key" "sm_find key es = None"
    "oc \<Longrightarrow> \<not> ends_with CHR ''/'' key \<Longrightarrow> sm_find (key @ ''/'') es = None"
  | (hit) p e where "find_entry es key oc = (p, Some e)" "sm_find p es = Some e"
    "p = key \<or> oc \<and> \<not> ends_with CHR ''/'' key \<and> p = key @ ''/''"
proof (cases "oc \<and> \<not> ends_with CHR ''/'' key \<and> sm_find (key @ ''/'') es \<noteq> None")
  case True
  then obtain e where "sm_find (key @ ''/'') es = Some e" by auto
  with True show thesis by (intro hit [of "key @ ''/''" e]) (auto simp: find_entry_def)
next
  case False
  then have f: "find_entry es key oc = (key, sm_find key es)"
    by (auto simp: find_entry_def split: option.splits)
  show thesis
  proof (cases "sm_find key es")
    case None
    with f False show thesis by (intro miss [of key]) auto
  next
    case (Some e)
    with f show thesis by (intro hit [of key e]) auto
  qed
qed

text \<open>An entry predicate that every operation keeps is checked on the new entries only.\<close>

definition all_entries :: "(stat_cache_entry \<Rightarrow> bool) \<Rightarrow> stat_cache \<Rightarrow> bool" where
  "all_entries P c \<longleftrightarrow> (\<forall>x \<in> set (entries c). P (snd x))"

definition same_config :: "stat_cache \<Rightarrow> stat_cache \<Rightarrow> bool" where
  "same_config c c' \<longleftrightarrow> IsCacheNoObject c' = IsCacheNoObject c \<and> CacheSize c' = CacheSize c
     \<and> IsExpireTime c' = IsExpireTime c \<and> ExpireTime c' = ExpireTime c
     \<and> IsExpireIntervalType c' = IsExpireIntervalType c"

lemma all_entries_set:
  "all_entries P c \<Longrightarrow> P e \<Longrightarrow> all_entries P (c\<lparr>entries := sm_set k e (entries c)\<rparr>)"
  by (auto simp: all_entries_def dest!: om_set_elem)

lemma all_entries_erase:
  "all_entries P c \<Longrightarrow> all_entries P (c\<lparr>entries := sm_erase k (entries c)\<rparr>)"
  using om_erase_subset [of "(<)" k "entries c"] by (auto simp: all_entries_def)

lemma all_entries_find: "all_entries P c \<Longrightarrow> sm_find k (entries c) = Some e \<Longrightarrow> P e"
  using om_find_elem [of "(<)" k "entries c" e] by (auto simp: all_entries_def)

text \<open>\<open>keeps P\<close>: the operation returns a cache that is still sorted, with the same settings and
  all of whose entries satisfy \<open>P\<close>.\<close>

definition keeps :: "(stat_cache_entry \<Rightarrow> bool) \<Rightarrow> stat_cache \<Rightarrow> stat_cache \<Rightarrow> bool" where
  "keeps P c c' \<longleftrightarrow> cache_sorted c' \<and> same_config c c' \<and> all_entries P c'"

lemma keeps_refl: "cache_sorted c \<Longrightarrow> all_entries P c \<Longrightarrow> keeps P c c"
  by (simp add: keeps_def same_config_def)

lemma keeps_trans: "keeps P c c' \<Longrightarrow> keeps Q c' c'' \<Longrightarrow> keeps Q c c''"
  by (auto simp: keeps_def same_config_def)

lemma keeps_set:
  "cache_sorted c \<Longrightarrow> all_entries P c \<Longrightarrow> P e \<Longrightarrow> keeps P c (c\<lparr>entries := sm_set k e (entries c)\<rparr>)"
  using all_entries_set by (auto simp: keeps_def same_config_def cache_sorted_def smap.sorted_set)

lemma keeps_erase:
  "cache_sorted c \<Longrightarrow> all_entries P c \<Longrightarrow> keeps P c (c\<lparr>entries := sm_erase k (entries c)\<rparr>)"
  using all_entries_erase by (auto simp: keeps_def same_config_def cache_sorted_def smap.sorted_erase)

lemma keeps_DelStat:
  assumes "cache_sorted c" "all_entries P c" "DelStat l c (Some k) h = Returns (r, c')"
  shows "keeps P c c'"
proof -
  have 1: "keeps P c (c\<lparr>entries := sm_erase k (entries c)\<rparr>)" using assms(1,2) by (rule keeps_erase)
  then have "keeps P (c\<lparr>entries := sm_erase k (entries c)\<rparr>)
      (c\<lparr>entries := sm_erase (sibling k) (sm_erase k (entries c))\<rparr>)"
    using keeps_erase [of "c\<lparr>entries := sm_erase k (entries c)\<rparr>" P "sibling k"]
    by (simp add: keeps_def)
  with 1 show ?thesis
    using assms(3) keeps_trans by (auto simp: DelStat_def Let_def split: if_splits)
qed

lemma keeps_GetStat:
  assumes "cache_sorted c" "all_entries P c" "GetStat c now k oc tag = Returns (r, c')"
    and P: "\<And>e n d. P e \<Longrightarrow> P (e\<lparr>hit_count := n, cache_date := d\<rparr>)"
  shows "keeps P c c'"
proof (cases rule: find_entry_cases [of "entries c" k oc])
  case (miss p)
  then show ?thesis using assms keeps_refl by (auto simp: GetStat_def)
next
  case (hit p e)
  have "P e" using all_entries_find [OF assms(2) hit(2)] .
  then have "keeps P c (c\<lparr>entries := sm_set p (e\<lparr>hit_count := Suc (hit_count e),
      cache_date := (if IsExpireIntervalType c then now else cache_date e)\<rparr>) (entries c)\<rparr>)"
    by (intro keeps_set [OF assms(1,2)] P)
  then show ?thesis
    using assms(3) hit(1) keeps_refl [OF assms(1,2)] keeps_DelStat [OF assms(1,2)]
    by (auto simp: GetStat_def Let_def split: if_splits locked.splits)
qed

lemma keeps_IsNoObjectCache:
  assumes "cache_sorted c" "all_entries P c" "IsNoObjectCache c now k oc = Returns (r, c')"
    and P: "\<And>e d. P e \<Longrightarrow> P (e\<lparr>cache_date := d\<rparr>)"
  shows "keeps P c c'"
proof (cases rule: find_entry_cases [of "entries c" k oc])
  case (miss p)
  then show ?thesis using assms keeps_refl by (auto simp: IsNoObjectCache_def split: if_splits)
next
  case (hit p e)
  have "P e" using all_entries_find [OF assms(2) hit(2)] .
  then have "keeps P c (c\<lparr>entries := sm_set p (e\<lparr>cache_date := now\<rparr>) (entries c)\<rparr>)"
    by (intro keeps_set [OF assms(1,2)] P)
  then show ?thesis
    using assms(3) hit(1) keeps_refl [OF assms(1,2)] keeps_DelStat [OF assms(1,2)]
    by (auto simp: IsNoObjectCache_def Let_def split: if_splits locked.splits)
qed

lemma keeps_Truncate:
  "cache_sorted c \<Longrightarrow> all_entries P c \<Longrightarrow> keeps P c (snd (TruncateCache c now))"
  using Truncate_subset [of c now] Truncate_sorted [of c now]
  by (auto simp: keeps_def same_config_def all_entries_def)

lemma make_room_Returns:
  "\<exists>c'. make_room c now k = Returns (True, c')"
  by (cases "TruncateCache c now")
    (auto simp: make_room_def DelStat_Returns dest: arg_cong [where f = fst]
      intro: exI Truncate_config(1) [of c now, simplified])

lemma keeps_make_room:
  assumes "cache_sorted c" "all_entries P c" "make_room c now k = Returns (r, c')"
  shows "keeps P c c'"
  using assms keeps_refl [OF assms(1,2)] keeps_DelStat [OF assms(1,2)]
    keeps_Truncate [OF assms(1,2), of now]
  by (auto simp: make_room_def split: if_splits locked.splits dest: sym)

lemma keeps_put:
  assumes "keeps P c c1" "P e"
  shows "keeps P c (c1\<lparr>entries := sm_set k e (sm_erase k (entries c1))\<rparr>)"
proof -
  let ?c2 = "c1\<lparr>entries := sm_erase k (entries c1)\<rparr>"
  have 1: "keeps P c1 ?c2" using assms(1) by (intro keeps_erase) (auto simp: keeps_def)
  then have "keeps P ?c2 (?c2\<lparr>entries := sm_set k e (entries ?c2)\<rparr>)"
    by (intro keeps_set assms(2)) (auto simp: keeps_def)
  from keeps_trans [OF assms(1) keeps_trans [OF 1 this]] show ?thesis by simp
qed

lemma keeps_AddStat:
  assumes "cache_sorted c" "all_entries P c" "AddStat env c now k meta fd nt = Returns (r, c')"
    and P: "\<And>st n. P \<lparr>stbuf = st, hit_count = 0, cache_date = now, ent_meta = cached_headers meta,
      isforce = fd, noobjcache = False, notruncate = (if nt then 1 else 0)\<rparr>"
  shows "keeps P c c'"
proof (cases "\<not> nt \<and> CacheSize c < 1")
  case True
  then show ?thesis using assms keeps_refl by (auto simp: AddStat_def)
next
  case False
  obtain c1 where r: "make_room c now k = Returns (True, c1)" using make_room_Returns by blast
  then have "keeps P c c1" using keeps_make_room assms(1,2) by blast
  then show ?thesis using assms(3) False r keeps_put [OF \<open>keeps P c c1\<close>, OF P]
    by (auto simp: AddStat_def Let_def split: sum.splits)
qed

lemma keeps_AddNoObjectCache:
  assumes "cache_sorted c" "all_entries P c" "AddNoObjectCache c now k = Returns (r, c')"
    and P: "IsCacheNoObject c \<Longrightarrow> P \<lparr>stbuf = zero_stat, hit_count = 0, cache_date = now,
      ent_meta = [], isforce = False, noobjcache = True, notruncate = 0\<rparr>"
  shows "keeps P c c'"
proof (cases "IsCacheNoObject c \<and> 1 \<le> CacheSize c")
  case False
  then show ?thesis using assms keeps_refl by (auto simp: AddNoObjectCache_def split: if_splits)
next
  case True
  obtain c1 where r: "make_room c now k = Returns (True, c1)" using make_room_Returns by blast
  then have "keeps P c c1" using keeps_make_room assms(1,2) by blast
  then show ?thesis using assms(3) True r keeps_put [OF \<open>keeps P c c1\<close>, OF P]
    by (auto simp: AddNoObjectCache_def Let_def)
qed

lemma keeps_ChangeNoTruncateFlag:
  assumes "cache_sorted c" "all_entries P c" and P: "\<And>e n. P e \<Longrightarrow> P (e\<lparr>notruncate := n\<rparr>)"
  shows "keeps P c (ChangeNoTruncateFlag c k f)"
  using keeps_refl [OF assms(1,2)] keeps_set [OF assms(1,2) P [OF all_entries_find [OF assms(2)]]]
  by (auto simp: ChangeNoTruncateFlag_def split: option.splits)

section \<open>The life of the cache\<close>

text \<open>
  A run of the program calls the operations in any order; \<open>cache_reach env c0 c\<close>: the calls
  made from \<open>c0\<close> all returned and left \<open>c\<close>. The settings are made before the first call.
\<close>

datatype cache_op =
    Op_GetStat string bool "string option"
  | Op_IsNoObjectCache string bool
  | Op_AddStat string headers bool bool
  | Op_AddNoObjectCache string
  | Op_ChangeNoTruncateFlag string bool
  | Op_DelStat string
  | Op_Clear

fun map_locked :: "('a \<Rightarrow> 'b) \<Rightarrow> 'a locked \<Rightarrow> 'b locked" where
  "map_locked f (Returns x) = Returns (f x)"
| "map_locked f Deadlock = Deadlock"

fun cache_run :: "senv \<Rightarrow> timespec \<Rightarrow> cache_op \<Rightarrow> stat_cache \<Rightarrow> stat_cache locked" where
  "cache_run env now (Op_GetStat k oc tag) c = map_locked snd (GetStat c now k oc tag)"
| "cache_run env now (Op_IsNoObjectCache k oc) c = map_locked snd (IsNoObjectCache c now k oc)"
| "cache_run env now (Op_AddStat k m fd nt) c = map_locked snd (AddStat env c now k m fd nt)"
| "cache_run env now (Op_AddNoObjectCache k) c = map_locked snd (AddNoObjectCache c now k)"
| "cache_run env now (Op_ChangeNoTruncateFlag k f) c = Returns (ChangeNoTruncateFlag c k f)"
| "cache_run env now (Op_DelStat k) c = map_locked snd (DelStat False c (Some k) False)"
| "cache_run env now Op_Clear c = Returns (Clear c)"

inductive cache_reach :: "senv \<Rightarrow> stat_cache \<Rightarrow> stat_cache \<Rightarrow> bool" for env c0 where
  start: "cache_reach env c0 c0"
| call: "cache_reach env c0 c \<Longrightarrow> cache_run env now op c = Returns c' \<Longrightarrow> cache_reach env c0 c'"

inductive_cases cache_reachE: "cache_reach env c0 c"

lemma map_locked_Returns: "map_locked f x = Returns y \<longleftrightarrow> (\<exists>z. x = Returns z \<and> f z = y)"
  by (cases x) auto

text \<open>The invariant: negative entries exist only while they are enabled.\<close>

definition negative_ok :: "stat_cache \<Rightarrow> bool" where
  "negative_ok c \<longleftrightarrow>
     cache_sorted c \<and> all_entries (\<lambda>e. noobjcache e \<longrightarrow> IsCacheNoObject c) c"

lemma keeps_run:
  assumes c: "cache_sorted c" "all_entries P c" and r: "cache_run env now op c = Returns c'"
    and P: "\<And>e n d. P e \<Longrightarrow> P (e\<lparr>hit_count := n, cache_date := d\<rparr>)"
      "\<And>e d. P e \<Longrightarrow> P (e\<lparr>cache_date := d\<rparr>)" "\<And>e n. P e \<Longrightarrow> P (e\<lparr>notruncate := n\<rparr>)"
    and new: "\<And>e. noobjcache e \<longrightarrow> IsCacheNoObject c \<Longrightarrow> P e"
  shows "keeps P c c'"
proof (cases op)
  case (Op_GetStat k oc tag)
  then show ?thesis using r keeps_GetStat [OF c _ P(1)] by (auto simp: map_locked_Returns)
next
  case (Op_IsNoObjectCache k oc)
  then show ?thesis using r keeps_IsNoObjectCache [OF c _ P(2)] by (auto simp: map_locked_Returns)
next
  case (Op_AddStat k m fd nt)
  then show ?thesis using r keeps_AddStat [OF c _ new] by (auto simp: map_locked_Returns)
next
  case (Op_AddNoObjectCache k)
  then show ?thesis using r keeps_AddNoObjectCache [OF c _ new] by (auto simp: map_locked_Returns)
next
  case (Op_ChangeNoTruncateFlag k f)
  then show ?thesis using r keeps_ChangeNoTruncateFlag [OF c P(3)] by auto
next
  case (Op_DelStat k)
  then show ?thesis using r keeps_DelStat [OF c] by (auto simp: map_locked_Returns)
next
  case Op_Clear
  then show ?thesis using r
    by (auto simp: Clear_def keeps_def same_config_def cache_sorted_def all_entries_def)
qed

lemma negative_ok_run: "negative_ok c \<Longrightarrow> cache_run env now op c = Returns c' \<Longrightarrow> negative_ok c'"
  using keeps_run [of c "\<lambda>e. noobjcache e \<longrightarrow> IsCacheNoObject c" env now op c']
  by (auto simp: negative_ok_def keeps_def same_config_def)

lemma negative_ok_reach: "cache_reach env c0 c \<Longrightarrow> negative_ok c0 \<Longrightarrow> negative_ok c"
  by (induction rule: cache_reach.induct) (auto intro: negative_ok_run)

lemma negative_ok_empty: "entries c = [] \<Longrightarrow> negative_ok c"
  by (simp add: negative_ok_def cache_sorted_def all_entries_def)

section \<open>Deadlocks\<close>

lemma GetStat_Deadlock_iff:
  "GetStat c now k oc tag = Deadlock \<longleftrightarrow>
     (\<exists>p e. find_entry (entries c) k oc = (p, Some e) \<and> fresh c now e \<and> noobjcache e
        \<and> \<not> IsCacheNoObject c)"
  by (cases rule: find_entry_cases [of "entries c" k oc])
    (auto simp: GetStat_def DelStat_def Let_def)

lemma IsNoObjectCache_Deadlock_iff:
  "IsNoObjectCache c now k oc = Deadlock \<longleftrightarrow>
     IsCacheNoObject c \<and> (\<exists>p e. find_entry (entries c) k oc = (p, Some e) \<and> \<not> fresh c now e)"
  by (cases rule: find_entry_cases [of "entries c" k oc])
    (auto simp: IsNoObjectCache_def DelStat_def Let_def)

lemma GetStat_returns:
  assumes "negative_ok c"
  shows "GetStat c now k oc tag \<noteq> Deadlock"
  using assms by (cases rule: find_entry_cases [of "entries c" k oc])
    (auto simp: GetStat_Deadlock_iff negative_ok_def dest: all_entries_find)

section \<open>Lookups after updates\<close>

lemma sibling_slash: "sibling (k @ ''/'') = k"
  by (simp add: sibling_def ends_with_def)

lemma sibling_no_slash: "\<not> ends_with CHR ''/'' k \<Longrightarrow> sibling k = k @ ''/''"
  by (simp add: sibling_def)

lemma DelStat_find:
  assumes "cache_sorted c" "DelStat l c (Some k) h = Returns (r, c')"
  shows "sm_find k' (entries c') =
    (if k' = k \<or> k \<noteq> [] \<and> k \<noteq> ''/'' \<and> k' = sibling k then None else sm_find k' (entries c))"
  using assms by (auto simp: DelStat_def Let_def cache_sorted_def sm_laws split: if_splits)

lemma GetStat_miss_cases:
  assumes "negative_ok c" "GetStat c now k oc tag = Returns (None, c')"
  obtains (same) "c' = c" "\<And>p e. find_entry (entries c) k oc = (p, Some e) \<Longrightarrow> fresh c now e"
  | (deleted) p e where "find_entry (entries c) k oc = (p, Some e)"
      "DelStat True c (Some p) True = Returns (True, c')"
  using assms GetStat_returns [OF assms(1)]
  by (cases rule: find_entry_cases [of "entries c" k oc])
    (auto simp: GetStat_def DelStat_def Let_def split: if_splits)

lemma find_entry_deleted:
  assumes c: "cache_sorted c" and f: "find_entry (entries c) k oc = (p, Some e)"
    and d: "DelStat True c (Some p) True = Returns (True, c')"
    and k: "oc \<or> ends_with CHR ''/'' k" "k \<noteq> []"
  shows "find_entry (entries c') k True = (k, None)"
proof -
  note D = DelStat_find [OF c d]
  from f consider (own) "p = k" | (dir) "p = k @ ''/''" "\<not> ends_with CHR ''/'' k"
    by (auto simp: find_entry_def split: if_splits option.splits)
  then show ?thesis
  proof cases
    case own
    then have "sm_find k (entries c') = None" using D [of k] by simp
    moreover have "\<not> ends_with CHR ''/'' k \<Longrightarrow> sm_find (k @ ''/'') (entries c') = None"
      using D [of "k @ ''/''"] own k(2) sibling_no_slash [of k] by (auto simp: ends_with_def)
    ultimately show ?thesis by (auto simp: find_entry_def)
  next
    case dir
    then have "sm_find k (entries c') = None" "sm_find (k @ ''/'') (entries c') = None"
      using D [of k] D [of "k @ ''/''"] k(2) sibling_slash [of k] by auto
    then show ?thesis by (auto simp: find_entry_def)
  qed
qed

lemma find_entry_overcheck:
  "oc \<or> ends_with CHR ''/'' k \<Longrightarrow> find_entry es k True = find_entry es k oc"
  by (auto simp: find_entry_def)

lemma lookup_pair:
  assumes c: "negative_ok c" and g: "GetStat c now k oc tag = Returns (None, c')"
    and k: "oc \<or> ends_with CHR ''/'' k" "k \<noteq> []"
  shows "IsNoObjectCache c' now k True \<noteq> Deadlock"
  using c g
proof (cases rule: GetStat_miss_cases)
  case same
  then show ?thesis by (auto simp: IsNoObjectCache_Deadlock_iff find_entry_overcheck [OF k(1)])
next
  case (deleted p e)
  have "cache_sorted c" using c by (simp add: negative_ok_def)
  from find_entry_deleted [OF this deleted k] show ?thesis
    by (simp add: IsNoObjectCache_Deadlock_iff)
qed

lemma AddStat_entry:
  assumes c: "cache_sorted c" and a: "AddStat env c now k meta fd nt = Returns (Inr True, c')"
    and sz: "nt \<or> 1 \<le> CacheSize c"
  obtains st where "convert_header_to_stat env k meta fd = Inr st"
    "sm_find k (entries c') = Some \<lparr>stbuf = st, hit_count = 0, cache_date = now,
       ent_meta = cached_headers meta, isforce = fd, noobjcache = False,
       notruncate = (if nt then 1 else 0)\<rparr>"
proof -
  obtain c1 where r: "make_room c now k = Returns (True, c1)" using make_room_Returns by blast
  have "cache_sorted c1"
    using keeps_make_room [of c "\<lambda>_. True", OF c _ r] by (simp add: keeps_def all_entries_def)
  then show thesis using a sz r that
    by (auto simp: AddStat_def Let_def cache_sorted_def sm_laws split: sum.splits if_splits)
qed

lemma AddStat_config:
  "cache_sorted c \<Longrightarrow> AddStat env c now k meta fd nt = Returns (r, c') \<Longrightarrow> same_config c c'"
  using keeps_AddStat [of c "\<lambda>_. True"] by (auto simp: keeps_def all_entries_def)

lemma GetStat_hit:
  assumes "sm_find k (entries c) = Some e" "fresh c now e" "\<not> noobjcache e"
    and "\<not> oc \<or> ends_with CHR ''/'' k \<or> sm_find (k @ ''/'') (entries c) = None"
  shows "\<exists>c'. GetStat c now k oc None = Returns (Some (stbuf e, ent_meta e, isforce e), c')"
proof -
  have "find_entry (entries c) k oc = (k, Some e)"
    using assms(1,4) by (auto simp: find_entry_def split: option.splits)
  then show ?thesis using assms(2,3) by (simp add: GetStat_def etag_differs_def Let_def)
qed

lemma make_room_length:
  assumes c: "cache_sorted c" "unprotected c" and n: "length (entries c) \<le> CacheSize c + 1"
    and r: "make_room c now k = Returns (b, c1)"
  shows "length (sm_erase k (entries c1)) \<le> CacheSize c"
proof (cases "sm_find k (entries c)")
  case (Some e)
  have "length (sm_erase k (entries c)) = length (entries c) - 1"
    using Some by (simp add: om_erase_length_find)
  moreover have "length (entries c1) \<le> length (sm_erase k (entries c))"
    using Some r om_erase_length [of "(<)" "sibling k"] by (auto simp: make_room_def DelStat_def Let_def split: if_splits)
  ultimately show ?thesis using n om_erase_length [of "(<)" k "entries c1"] by linarith
next
  case None
  show ?thesis
  proof (cases "CacheSize c < length (entries c)")
    case False
    then show ?thesis using None r om_erase_length [of "(<)" k "entries c1"]
      by (simp add: make_room_def)
  next
    case True
    then have r': "c1 = snd (TruncateCache c now)" using None r by (simp add: make_room_def)
    have "length (entries c1) \<le> CacheSize c"
      using Truncate_unprotected [OF c, of now] Truncate_entries [OF c(1), of now] r'
      by (cases "CacheSize c \<le> length (survivors c now)") auto
    then show ?thesis using om_erase_length [of "(<)" k "entries c1"] by linarith
  qed
qed

section \<open>Properties\<close>

text \<open>
  C30: a lookup never deadlocks: in every state that the calls of a run can reach from an empty
  cache, with negative entries enabled or not, \<open>GetStat\<close> returns. The branch that deletes a
  negative entry without passing on that the mutex is held is never taken.
\<close>

theorem GetStat_never_deadlocks:
  assumes "entries c0 = []" "cache_reach env c0 c"
  shows "GetStat c now key overcheck petag \<noteq> Deadlock"
  using GetStat_returns negative_ok_reach [OF assms(2) negative_ok_empty [OF assms(1)]] by blast

theorem GetStat_never_deadlocks_witness:
  "GetStat (snd (SetCacheNoObject new_stat_cache True)) \<lparr>tv_sec = 5, tv_nsec = 0\<rparr> ''/a'' True None
     \<noteq> Deadlock"
  by (rule GetStat_never_deadlocks [OF _ cache_reach.start])
    (simp add: SetCacheNoObject_def new_stat_cache_def)

text \<open>
  The two lookups \<open>get_object_attribute\<close> makes for a path, \<open>GetStat\<close> and after a
  miss \<open>IsNoObjectCache\<close>, do not deadlock either: the entry whose expiry would send
  \<open>IsNoObjectCache\<close> into \<open>DelStat\<close> with the mutex held has been removed by the first
  lookup. It needs the first lookup to be made with \<open>overcheck\<close> or for a name ending in a slash.
\<close>

theorem miss_then_negative_lookup_returns:
  assumes "entries c0 = []" "cache_reach env c0 c"
    and "GetStat c now key overcheck petag = Returns (None, c')"
    and "overcheck \<or> ends_with CHR ''/'' key" "key \<noteq> []"
  shows "IsNoObjectCache c' now key True \<noteq> Deadlock"
  by (rule lookup_pair [OF negative_ok_reach [OF assms(2) negative_ok_empty [OF assms(1)]] assms(3-5)])

theorem miss_then_negative_lookup_returns_witness:
  "IsNoObjectCache (new_stat_cache\<lparr>IsCacheNoObject := True\<rparr>) \<lparr>tv_sec = 5, tv_nsec = 0\<rparr> ''/a'' True
     \<noteq> Deadlock"
  by (rule miss_then_negative_lookup_returns [where overcheck = True and petag = None
        and ?c0.0 = "new_stat_cache\<lparr>IsCacheNoObject := True\<rparr>", OF _ cache_reach.start])
    (simp_all add: GetStat_def find_entry_def new_stat_cache_def)

text \<open>
  C29: the law of the cache: attributes that were added are found, as
  \<open>convert_header_to_stat\<close> computed them and with the filtered headers, by a lookup of the
  same name before they expire, unless a directory entry of that name shadows it.
\<close>

theorem AddStat_then_GetStat:
  assumes "cache_sorted c" "AddStat env c now key meta forcedir no_truncate = Returns (Inr True, c')"
    and "no_truncate \<or> 1 \<le> CacheSize c"
    and "IsExpireTime c \<longrightarrow> tv_sec later \<le> tv_sec now + ExpireTime c"
    and "\<not> overcheck \<or> ends_with CHR ''/'' key \<or> sm_find (key @ ''/'') (entries c') = None"
  shows "\<exists>st c''. convert_header_to_stat env key meta forcedir = Inr st
    \<and> GetStat c' later key overcheck None = Returns (Some (st, cached_headers meta, forcedir), c'')"
proof -
  from AddStat_entry [OF assms(1-3)] obtain st where
    st: "convert_header_to_stat env key meta forcedir = Inr st"
    and e: "sm_find key (entries c') = Some \<lparr>stbuf = st, hit_count = 0, cache_date = now,
       ent_meta = cached_headers meta, isforce = forcedir, noobjcache = False,
       notruncate = (if no_truncate then 1 else 0)\<rparr>" by blast
  have "same_config c c'" using AddStat_config assms(1,2) by blast
  with GetStat_hit [OF e _ _ assms(5), of later] assms(4) st show ?thesis
    by (auto simp: fresh_def IsExpireStatCacheTime_def same_config_def)
qed

definition env_root :: senv where
  "env_root = \<lparr>complement_stat = False, geteuid = 0, getegid = 0, parse_date = \<lambda>_. 0\<rparr>"

lemma convert_root: "\<exists>st. convert_header_to_stat env_root ''/a'' [] False = Inr st"
  by (simp add: env_root_def convert_header_to_stat_def get_mode_def header_mode_def type_bit_def
      get_mtime_def get_ctime_def get_time_def get_lastmodified_def get_size_def get_uid_def
      get_gid_def ends_with_def Let_def)

theorem AddStat_then_GetStat_witness:
  "\<exists>st c''. convert_header_to_stat env_root ''/a'' [] False = Inr st
    \<and> GetStat (case AddStat env_root new_stat_cache \<lparr>tv_sec = 5, tv_nsec = 0\<rparr> ''/a'' [] False False of
          Returns (_, c') \<Rightarrow> c' | Deadlock \<Rightarrow> new_stat_cache)
        \<lparr>tv_sec = 9, tv_nsec = 0\<rparr> ''/a'' True None = Returns (Some (st, cached_headers [], False), c'')"
proof -
  obtain st where "convert_header_to_stat env_root ''/a'' [] False = Inr st" using convert_root by blast
  then show ?thesis
    by (intro AddStat_then_GetStat [where c = new_stat_cache and now = "\<lparr>tv_sec = 5, tv_nsec = 0\<rparr>"
        and no_truncate = False])
      (simp_all add: cache_sorted_def new_stat_cache_def AddStat_def make_room_def ends_with_def Let_def)
qed

text \<open>
  \<open>DelStat\<close> forgets an object under both spellings of its name, with and without the final
  slash, and touches no other entry; the root and the empty name have no second spelling.
\<close>

theorem DelStat_forgets_both_names:
  assumes "cache_sorted c" "DelStat in_lock c (Some key) held = Returns (r, c')"
  shows "cache_sorted c' \<and> sm_find k (entries c') =
    (if k = key \<or> key \<noteq> [] \<and> key \<noteq> ''/'' \<and> k = sibling key then None else sm_find k (entries c))"
  using DelStat_find [OF assms] keeps_DelStat [of c "\<lambda>_. True", OF assms(1) _ assms(2)] assms(1)
  by (simp add: keeps_def all_entries_def)

definition cached_at :: "int \<Rightarrow> nat \<Rightarrow> stat_cache_entry" where
  "cached_at t protection = \<lparr>stbuf = zero_stat, hit_count = 0, cache_date = \<lparr>tv_sec = t, tv_nsec = 0\<rparr>,
     ent_meta = [], isforce = False, noobjcache = False, notruncate = protection\<rparr>"

theorem DelStat_forgets_both_names_witness:
  "\<exists>c'. DelStat False (new_stat_cache\<lparr>entries := [(''/b'', cached_at 1 0)]\<rparr>) (Some ''/b/'') False
      = Returns (True, c') \<and> sm_find ''/b'' (entries c') = None"
proof -
  let ?c = "new_stat_cache\<lparr>entries := [(''/b'', cached_at 1 0)]\<rparr>"
  obtain c' where d: "DelStat False ?c (Some ''/b/'') False = Returns (True, c')"
    by (simp add: DelStat_def Let_def)
  have "cache_sorted ?c" by (simp add: cache_sorted_def om_sorted_def)
  from DelStat_forgets_both_names [OF this d, of "''/b''"] d show ?thesis
    by (auto simp: sibling_def ends_with_def)
qed

text \<open>
  C28: truncation of a cache that holds \<open>CacheSize\<close> or more unexpired entries evicts old ones:
  what it evicts is never newer (or as new and more often hit) than what it keeps, and it keeps at
  least \<open>CacheSize - 1\<close> entries and at most as many more as there are entries with a positive
  \<open>notruncate\<close> (exactly \<open>CacheSize - 1\<close> where there are none). Such an entry lowers the number
  of evictions, but it is not itself exempt: see \<open>TruncateCache_evicts_protected\<close>.
\<close>

theorem TruncateCache_keeps_newest:
  assumes "cache_sorted c" "CacheSize c \<le> length (survivors c now)"
    and "TruncateCache c now = (ok, c')"
  shows "ok \<and> CacheSize c - 1 \<le> length (entries c')
    \<and> length (entries c') \<le> CacheSize c - 1 + protected_entries (survivors c now)
    \<and> set (entries c') \<subseteq> set (survivors c now)
    \<and> (\<forall>x \<in> set (survivors c now) - set (entries c'). \<forall>y \<in> set (entries c').
         \<not> sort_statiterlist (snd y) (snd x))"
  using Truncate_kept [OF assms(1,2)] Truncate_config(1) [of c now] assms(3)
  by (auto simp: sort_statiterlist_rank not_less)

theorem TruncateCache_keeps_newest_witness:
  "1 \<le> length (entries (snd (TruncateCache
     (new_stat_cache\<lparr>entries := [(''/a'', cached_at 2 0), (''/b'', cached_at 1 1), (''/c'', cached_at 3 0)],
        CacheSize := 2\<rparr>) \<lparr>tv_sec = 5, tv_nsec = 0\<rparr>)))"
  using TruncateCache_keeps_newest [of
      "new_stat_cache\<lparr>entries := [(''/a'', cached_at 2 0), (''/b'', cached_at 1 1), (''/c'', cached_at 3 0)],
        CacheSize := 2\<rparr>"
      "\<lparr>tv_sec = 5, tv_nsec = 0\<rparr>", OF _ _ prod.collapse [symmetric]]
  by (simp add: cache_sorted_def om_sorted_def survivors_def new_stat_cache_def
      cached_at_def less_char_def)

text \<open>
  Without protected entries the cache never holds more than one entry above its size:
  \<open>AddStat\<close> keeps the bound, whether it replaces an entry, evicts or fails on a bad header.
\<close>

theorem AddStat_bounds_cache:
  assumes "cache_sorted c" "unprotected c" "length (entries c) \<le> CacheSize c + 1"
    and "AddStat env c now key meta forcedir False = Returns (r, c')"
  shows "length (entries c') \<le> CacheSize c' + 1 \<and> unprotected c'"
proof -
  have u: "all_entries (\<lambda>e. notruncate e = 0) c" using assms(2)
    by (simp add: all_entries_def unprotected_def)
  have k: "keeps (\<lambda>e. notruncate e = 0) c c'" using assms(1) u assms(4) by (rule keeps_AddStat) simp
  obtain c1 where m: "make_room c now key = Returns (True, c1)" using make_room_Returns by blast
  note l = make_room_length [OF assms(1-3) m]
  have "length (entries c1) \<le> length (sm_erase key (entries c1)) + 1"
    using om_erase_length_find [of "(<)" key "entries c1"] by (auto split: if_splits)
  then have "length (entries c') \<le> CacheSize c + 1"
    using l m assms(3,4) om_set_length [of "(<)" key _ "sm_erase key (entries c1)"]
    by (auto simp: AddStat_def Let_def split: if_splits sum.splits)
  with k show ?thesis by (auto simp: keeps_def same_config_def all_entries_def unprotected_def)
qed

theorem AddStat_bounds_cache_witness:
  "length (entries (case AddStat env_root new_stat_cache \<lparr>tv_sec = 5, tv_nsec = 0\<rparr> ''/a'' [] False False of
      Returns (_, c') \<Rightarrow> c' | Deadlock \<Rightarrow> new_stat_cache)) \<le> 100001"
proof -
  obtain st where "convert_header_to_stat env_root ''/a'' [] False = Inr st" using convert_root by blast
  then obtain r c' where a: "AddStat env_root new_stat_cache \<lparr>tv_sec = 5, tv_nsec = 0\<rparr> ''/a'' [] False False
      = Returns (r, c')" and "CacheSize c' = 100000"
    by (simp add: AddStat_def make_room_def new_stat_cache_def Let_def)
  then show ?thesis using AddStat_bounds_cache [OF _ _ _ a]
    by (simp add: cache_sorted_def unprotected_def new_stat_cache_def)
qed

text \<open>
  The protection from truncation is not absolute: an entry with a positive
  \<open>notruncate\<close> count, older than the others and visited after them, is the one that is
  evicted, although \<open>TruncateCache\<close> means to skip it.
\<close>

theorem TruncateCache_evicts_protected:
  "\<exists>c now. cache_sorted c \<and> IsExpireTime c = False
     \<and> sm_find ''/b'' (entries c) = Some (cached_at 1 1)
     \<and> sm_find ''/b'' (entries (snd (TruncateCache c now))) = None
     \<and> sm_find ''/a'' (entries (snd (TruncateCache c now))) = Some (cached_at 2 0)"
  by (rule exI [of _ "new_stat_cache\<lparr>entries := [(''/a'', cached_at 2 0), (''/b'', cached_at 1 1)],
        CacheSize := 2\<rparr>"], rule exI [of _ "\<lparr>tv_sec = 5, tv_nsec = 0\<rparr>"])
    (simp add: cache_sorted_def om_sorted_def new_stat_cache_def cached_at_def TruncateCache_def
      sort_statiterlist_def CompareStatCacheTime_def Let_def less_char_def)

end
