(* ===== verification/S3_Obj_List.thy ===== *)
theory S3_Obj_List
  imports Ord_Map
begin

text \<open>
  The listing of a directory: class \<open>S3ObjList\<close> of \<open>protocols/s3/s3fs_util.cpp\<close>, which
  collects the objects of a bucket listing under normalised names, and the list of moves
  \<open>add_mvnode\<close> that renames of a directory work through. \<open>s3obj_t\<close> is a
  \<open>std::map\<close>; the doubly linked list of \<open>MVNODE\<close> is a list.
\<close>

section \<open>Data\<close>

record s3obj_entry =
  normalname :: string
  orgname :: string
  etag :: string
  obj_is_dir :: bool

type_synonym s3obj = "s3obj_entry smap"

definition FOLDER :: string where
  "FOLDER = ''_$folder$''"

section \<open>Operations\<close>

text \<open>The normalised name and the directory flag that \<open>insert\<close> computes first.\<close>

definition normalize :: "string \<Rightarrow> bool \<Rightarrow> string \<times> bool" where
  "normalize org is_dir =
     (let (newname, is_dir) =
            (case find_sub FOLDER org of
               Some pos \<Rightarrow> (substr org 0 pos, True) | None \<Rightarrow> (org, is_dir))
      in if is_dir then (if ends_with CHR ''/'' newname then newname else newname @ ''/'', True)
         else (newname, ends_with CHR ''/'' newname))"

definition insert_normalized :: "s3obj \<Rightarrow> string \<Rightarrow> string \<Rightarrow> bool \<Rightarrow> bool \<times> s3obj" where
  "insert_normalized objects name normalized is_dir =
     (if name = [] \<or> normalized = [] then (False, objects)
      else if name = normalized then (True, objects)
      else case sm_find name objects of
        Some e \<Rightarrow> (True, sm_set name (e\<lparr>orgname := [], etag := [], normalname := normalized,
                     obj_is_dir := is_dir\<rparr>) objects)
      | None \<Rightarrow> (True, sm_set name \<lparr>normalname = normalized, orgname = [], etag = [],
                     obj_is_dir = is_dir\<rparr> objects))"

definition add_object :: "s3obj \<Rightarrow> string \<Rightarrow> string \<Rightarrow> string option \<Rightarrow> bool \<Rightarrow> s3obj" where
  "add_object objects newname org tag is_dir =
     (case sm_find newname objects of
        Some e \<Rightarrow>
          (let e1 = e\<lparr>normalname := [], orgname := org, obj_is_dir := is_dir\<rparr>
           in sm_set newname (case tag of Some t \<Rightarrow> e1\<lparr>etag := t\<rparr> | None \<Rightarrow> e1) objects)
      | None \<Rightarrow>
          sm_set newname \<lparr>normalname = [], orgname = org,
            etag = (case tag of Some t \<Rightarrow> t | None \<Rightarrow> []), obj_is_dir = is_dir\<rparr> objects)"

definition insert_obj :: "s3obj \<Rightarrow> string \<Rightarrow> string option \<Rightarrow> bool \<Rightarrow> bool \<times> s3obj" where
  "insert_obj objects name tag dir =
     (if name = [] then (False, objects)
      else
        (let (newname, is_dir) = normalize name dir
         in if is_dir then
              (let chkname = butlast newname;
                   objects1 = (if sm_find chkname objects \<noteq> None then sm_erase chkname objects
                               else objects)
               in insert_normalized (add_object objects1 newname name tag is_dir) name newname is_dir)
            else
              (let chkname = newname @ ''/''
               in if sm_find chkname objects \<noteq> None then insert_normalized objects name chkname True
                  else insert_normalized (add_object objects newname name tag is_dir)
                         name newname is_dir)))"

definition GetS3Obj :: "s3obj \<Rightarrow> string \<Rightarrow> s3obj_entry option" where
  "GetS3Obj objects name = (if name = [] then None else sm_find name objects)"

definition GetOrgName :: "s3obj \<Rightarrow> string \<Rightarrow> string" where
  "GetOrgName objects name =
     (case GetS3Obj objects name of None \<Rightarrow> [] | Some e \<Rightarrow> orgname e)"

definition GetNormalizedName :: "s3obj \<Rightarrow> string \<Rightarrow> string" where
  "GetNormalizedName objects name =
     (case GetS3Obj objects name of None \<Rightarrow> []
      | Some e \<Rightarrow> if normalname e = [] then name else normalname e)"

definition GetETag :: "s3obj \<Rightarrow> string \<Rightarrow> string" where
  "GetETag objects name = (case GetS3Obj objects name of None \<Rightarrow> [] | Some e \<Rightarrow> etag e)"

definition IsDir :: "s3obj \<Rightarrow> string \<Rightarrow> bool" where
  "IsDir objects name = (case GetS3Obj objects name of None \<Rightarrow> False | Some e \<Rightarrow> obj_is_dir e)"

definition listed_name :: "s3obj_entry \<Rightarrow> string" where
  "listed_name e = (if orgname e \<noteq> [] then orgname e else normalname e)"

definition GetLastName :: "s3obj \<Rightarrow> bool \<times> string" where
  "GetLastName objects =
     foldl (\<lambda>(result, lastname) (k, e).
       if lastname < listed_name e then (True, listed_name e) else (result, lastname))
       (False, []) objects"

definition cut_slash :: "string \<Rightarrow> string" where
  "cut_slash name = (if 1 < length name \<and> ends_with CHR ''/'' name then butlast name else name)"

definition GetNameList :: "s3obj \<Rightarrow> string list \<Rightarrow> bool \<Rightarrow> bool \<Rightarrow> string list" where
  "GetNameList objects list OnlyNormalized CutSlash =
     list @ map (\<lambda>(k, e). if CutSlash then cut_slash k else k)
       (filter (\<lambda>(k, e). \<not> (OnlyNormalized \<and> normalname e \<noteq> [])) objects)"

section \<open>Lost directories\<close>

definition parent :: "string \<Rightarrow> string option" where
  "parent s = (case find_last_idx (\<lambda>c. c = CHR ''/'') s of
     None \<Rightarrow> None | Some pos \<Rightarrow> Some (substr s 0 pos))"

lemma find_last_idx_less: "find_last_idx P s = Some pos \<Longrightarrow> pos < length s"
  by (auto simp: find_last_idx_def find_idx_Some)

function ancestors :: "string \<Rightarrow> bool smap \<Rightarrow> bool smap" where
  "ancestors strtmp h_map =
     (case parent strtmp of
        None \<Rightarrow> h_map
      | Some p \<Rightarrow>
          if p = [] \<or> p = ''/'' then h_map
          else ancestors p (if sm_find p h_map = None then sm_set p False h_map else h_map))"
  by pat_completeness auto
termination
  by (relation "measure (length \<circ> fst)")
    (auto simp: parent_def substr_def split: option.splits dest: find_last_idx_less)

declare ancestors.simps [simp del]

definition hierarchy :: "string list \<Rightarrow> bool smap" where
  "hierarchy list =
     foldl (\<lambda>h_map s. ancestors (cut_slash s) (sm_set (cut_slash s) True h_map)) [] list"

definition MakeHierarchizedList :: "string list \<Rightarrow> bool \<Rightarrow> string list" where
  "MakeHierarchizedList list haveSlash =
     list @ map (\<lambda>(k, b). if haveSlash then k @ ''/'' else k)
       (filter (\<lambda>(k, b). b = False) (hierarchy list))"

section \<open>Moves\<close>

record mvnode =
  old_path :: string
  new_path :: string
  mv_is_dir :: bool
  is_normdir :: bool

definition create_mvnode :: "string \<Rightarrow> string \<Rightarrow> bool \<Rightarrow> bool \<Rightarrow> mvnode" where
  "create_mvnode old new is_dir normdir =
     \<lparr>old_path = old, new_path = new, mv_is_dir = is_dir, is_normdir = normdir\<rparr>"

fun add_mvnode :: "mvnode list \<Rightarrow> string \<Rightarrow> string \<Rightarrow> bool \<Rightarrow> bool \<Rightarrow> mvnode list" where
  "add_mvnode [] old new is_dir normdir = [create_mvnode old new is_dir normdir]"
| "add_mvnode (cur # rest) old new is_dir normdir =
     (if mv_is_dir cur = is_dir then
        (if old_path cur = old then cur # rest
         else if old_path cur < old then cur # add_mvnode rest old new is_dir normdir
         else create_mvnode old new is_dir normdir # cur # rest)
      else cur # add_mvnode rest old new is_dir normdir)"

section \<open>The order of the moves\<close>

text \<open>The files and the directories of the list are each strictly ascending.\<close>

definition mv_sorted :: "mvnode list \<Rightarrow> bool" where
  "mv_sorted ms \<longleftrightarrow> (\<forall>d. sorted_wrt (<) (map old_path (filter (\<lambda>m. mv_is_dir m = d) ms)))"

lemma add_mvnode_set:
  "set (add_mvnode ms old new d n) \<subseteq> insert (create_mvnode old new d n) (set ms)"
  by (induction ms) auto

lemma add_mvnode_other:
  "d' \<noteq> d \<Longrightarrow> filter (\<lambda>m. mv_is_dir m = d') (add_mvnode ms old new d n) =
     filter (\<lambda>m. mv_is_dir m = d') ms"
  by (induction ms) (auto simp: create_mvnode_def)

lemma add_mvnode_same:
  "sorted_wrt (<) (map old_path (filter (\<lambda>m. mv_is_dir m = d) ms)) \<Longrightarrow>
   sorted_wrt (<) (map old_path (filter (\<lambda>m. mv_is_dir m = d) (add_mvnode ms old new d n)))"
proof (induction ms)
  case Nil
  then show ?case by (simp add: create_mvnode_def)
next
  case (Cons m ms)
  have "x \<in> set (add_mvnode ms old new d n) \<Longrightarrow> mv_is_dir x = d \<Longrightarrow> mv_is_dir m = d \<Longrightarrow>
      old_path m < old \<Longrightarrow> old_path m < old_path x" for x
    using Cons.prems add_mvnode_set [of ms old new d n] by (auto simp: create_mvnode_def)
  moreover have "\<not> old_path m < old \<Longrightarrow> old_path m \<noteq> old \<Longrightarrow> old < old_path m" by auto
  ultimately show ?case using Cons by (auto simp: create_mvnode_def intro: less_trans)
qed

lemma add_mvnode_sorted: "mv_sorted ms \<Longrightarrow> mv_sorted (add_mvnode ms old new d n)"
proof -
  assume s: "mv_sorted ms"
  have "sorted_wrt (<) (map old_path (filter (\<lambda>m. mv_is_dir m = d') (add_mvnode ms old new d n)))" for d'
  proof (cases "d' = d")
    case True
    then show ?thesis using s add_mvnode_same by (simp add: mv_sorted_def)
  next
    case False
    then show ?thesis using s unfolding mv_sorted_def add_mvnode_other [OF False] by blast
  qed
  then show ?thesis by (simp add: mv_sorted_def)
qed

lemma add_mvnode_subset: "set ms \<subseteq> set (add_mvnode ms old new d n)"
  by (induction ms) auto

lemma add_mvnode_mem:
  "\<exists>m \<in> set (add_mvnode ms old new d n). mv_is_dir m = d \<and> old_path m = old"
  by (induction ms) (auto simp: create_mvnode_def)

lemma add_mvnode_new:
  "mv_sorted ms \<Longrightarrow> \<forall>m \<in> set ms. \<not> (mv_is_dir m = d \<and> old_path m = old) \<Longrightarrow>
   set (add_mvnode ms old new d n) = insert (create_mvnode old new d n) (set ms)"
proof (induction ms)
  case Nil
  then show ?case by simp
next
  case (Cons m ms)
  then have "mv_sorted ms" by (auto simp: mv_sorted_def split: if_splits)
  with Cons show ?case by auto
qed

section \<open>Normalised names\<close>

lemma find_sub_None: "find_sub n xs = None \<longleftrightarrow> (\<forall>ys zs. xs \<noteq> ys @ n @ zs)"
proof (induction xs)
  case Nil
  then show ?case by auto
next
  case (Cons x xs)
  show ?case
  proof (cases "is_prefix n (x # xs)")
    case True
    then obtain zs where "x # xs = [] @ n @ zs" by (auto simp: is_prefix_iff)
    then have "\<not> (\<forall>ys zs. x # xs \<noteq> ys @ n @ zs)" by metis
    then show ?thesis using True by simp
  next
    case False
    then have "x # xs = ys @ n @ zs \<longleftrightarrow> (\<exists>ys'. ys = x # ys' \<and> xs = ys' @ n @ zs)" for ys zs
      by (cases ys) (auto simp: is_prefix_iff)
    then show ?thesis using False Cons by auto
  qed
qed

lemma find_sub_take:
  assumes "find_sub n s = Some p" "n \<noteq> []"
  shows "find_sub n (take p s) = None"
  using assms
proof (induction s arbitrary: p)
  case Nil
  then show ?case by (auto split: if_splits)
next
  case (Cons x s)
  show ?case
  proof (cases "is_prefix n (x # s)")
    case True
    then show ?thesis using Cons.prems by (cases n) auto
  next
    case False
    then obtain k where k: "find_sub n s = Some k" "p = Suc k" using Cons.prems by auto
    have "\<not> is_prefix n (x # take k s)"
    proof
      assume "is_prefix n (x # take k s)"
      then obtain zs where "x # take k s = n @ zs" by (auto simp: is_prefix_iff)
      then have "x # s = n @ zs @ drop k s" by (metis append.assoc append_Cons append_take_drop_id)
      then show False using False by (auto simp: is_prefix_iff)
    qed
    then show ?thesis using Cons.IH [OF k(1) Cons.prems(2)] k(2) by simp
  qed
qed

text \<open>The names without the folder suffix: adding a slash does not make one.\<close>

definition no_folder :: "string \<Rightarrow> bool" where
  "no_folder s \<longleftrightarrow> find_sub FOLDER s = None"

lemma FOLDER_split: "FOLDER = ''_$folder'' @ [CHR ''$'']" "FOLDER \<noteq> []"
  by (simp_all add: FOLDER_def)

lemma no_folder_slash: "no_folder s \<Longrightarrow> no_folder (s @ ''/'')"
  unfolding no_folder_def find_sub_None
proof (intro allI notI)
  fix ys zs assume a: "\<forall>ys zs. s \<noteq> ys @ FOLDER @ zs" and e: "s @ ''/'' = ys @ FOLDER @ zs"
  show False
  proof (cases zs rule: rev_exhaust)
    case Nil
    then have "last (s @ ''/'') = last FOLDER" using e FOLDER_split(2) by simp
    then show False by (simp add: FOLDER_def)
  next
    case (snoc zs' z)
    then have "s = ys @ FOLDER @ zs'" using e by (metis append.assoc append_same_eq butlast_snoc)
    then show False using a by blast
  qed
qed

lemma normalize_no_folder: "no_folder (fst (normalize org d))"
  using find_sub_take [of FOLDER org] FOLDER_split(2) no_folder_slash
  by (auto simp: normalize_def no_folder_def substr_def Let_def split: option.splits)

lemma normalize_dir:
  "snd (normalize org d) \<longleftrightarrow> ends_with CHR ''/'' (fst (normalize org d))"
  by (auto simp: normalize_def Let_def ends_with_def split: option.splits)

lemma normalize_nonempty: "org \<noteq> [] \<Longrightarrow> fst (normalize org d) \<noteq> []"
  by (auto simp: normalize_def Let_def ends_with_def split: option.splits)

lemma normalize_same: "no_folder org \<Longrightarrow> fst (normalize org d) = org \<or> fst (normalize org d) = org @ ''/''"
  by (auto simp: normalize_def no_folder_def Let_def)

section \<open>The invariant of the listing\<close>

text \<open>
  An alias (an entry with a normalised name) leads to an entry that is not an alias itself and is
  a directory; alias keys and their targets are told apart by their spelling.
\<close>

definition target_name :: "string \<Rightarrow> bool" where
  "target_name t \<longleftrightarrow> ends_with CHR ''/'' t \<and> no_folder t"

definition listing_ok :: "s3obj \<Rightarrow> bool" where
  "listing_ok m \<longleftrightarrow> sm_sorted m
     \<and> (\<forall>k e. sm_find k m = Some e \<longrightarrow> k \<noteq> [])
     \<and> (\<forall>k e. sm_find k m = Some e \<longrightarrow> normalname e \<noteq> [] \<longrightarrow>
          \<not> target_name k \<and> target_name (normalname e)
          \<and> (\<exists>e'. sm_find (normalname e) m = Some e' \<and> normalname e' = [] \<and> obj_is_dir e'))
     \<and> (\<forall>k e. sm_find k m = Some e \<longrightarrow> target_name k \<longrightarrow> obj_is_dir e)"

lemma listing_okI:
  assumes "sm_sorted m" "\<And>k e. sm_find k m = Some e \<Longrightarrow> k \<noteq> []"
    and "\<And>k e. sm_find k m = Some e \<Longrightarrow> normalname e \<noteq> [] \<Longrightarrow>
          \<not> target_name k \<and> target_name (normalname e) \<and> sm_find (normalname e) m \<noteq> None"
    and "\<And>k e. sm_find k m = Some e \<Longrightarrow> target_name k \<Longrightarrow> obj_is_dir e"
  shows "listing_ok m"
  unfolding listing_ok_def
proof (intro conjI allI impI)
  fix k e assume k: "sm_find k m = Some e" "normalname e \<noteq> []"
  then obtain e' where e': "sm_find (normalname e) m = Some e'" using assms(3) by blast
  then have "normalname e' = []" using assms(3) k by blast
  moreover have "obj_is_dir e'" using assms(3) [OF k] assms(4) [OF e'] by blast
  ultimately show "\<exists>e'. sm_find (normalname e) m = Some e' \<and> normalname e' = [] \<and> obj_is_dir e'"
    using e' by blast
qed (use assms in blast)+

lemma listing_okD:
  assumes "listing_ok m"
  shows "sm_sorted m" "sm_find k m = Some e \<Longrightarrow> k \<noteq> []"
    "sm_find k m = Some e \<Longrightarrow> normalname e \<noteq> [] \<Longrightarrow> \<not> target_name k"
    "sm_find k m = Some e \<Longrightarrow> normalname e \<noteq> [] \<Longrightarrow> target_name (normalname e)"
    "sm_find k m = Some e \<Longrightarrow> normalname e \<noteq> [] \<Longrightarrow> sm_find (normalname e) m \<noteq> None"
    "sm_find k m = Some e \<Longrightarrow> target_name k \<Longrightarrow> obj_is_dir e"
  using assms unfolding listing_ok_def by (blast, blast, blast, blast, fastforce, blast)

lemma find_set: "sm_sorted m \<Longrightarrow> sm_find k' (sm_set k v m) = (if k = k' then Some v else sm_find k' m)"
  by (simp add: smap.find_set_lemma)

lemma find_erase: "sm_sorted m \<Longrightarrow> sm_find k' (sm_erase k m) = (if k = k' then None else sm_find k' m)"
  by (simp add: smap.find_erase_lemma)

lemma listing_ok_set:
  assumes "listing_ok m" "k \<noteq> []" "normalname v = []" "target_name k \<Longrightarrow> obj_is_dir v"
  shows "listing_ok (sm_set k v m)"
proof -
  note D = listing_okD [OF assms(1)]
  show ?thesis
  proof (rule listing_okI)
    show "sm_sorted (sm_set k v m)" using D(1) by (rule smap.sorted_set)
  qed (use assms(2-4) in \<open>auto simp: find_set [OF D(1)] split: if_splits dest: D(2-6)\<close>)
qed

lemma listing_ok_alias:
  assumes "listing_ok m" "k \<noteq> []" "\<not> target_name k" "target_name (normalname v)"
    and "sm_find (normalname v) m \<noteq> None"
  shows "listing_ok (sm_set k v m)"
proof -
  note D = listing_okD [OF assms(1)]
  show ?thesis
  proof (rule listing_okI)
    show "sm_sorted (sm_set k v m)" using D(1) by (rule smap.sorted_set)
  qed (use assms(2-5) in \<open>auto simp: find_set [OF D(1)] split: if_splits dest: D(2-6)\<close>)
qed

lemma listing_ok_erase:
  assumes "listing_ok m" "\<not> target_name k"
  shows "listing_ok (sm_erase k m)"
proof -
  note D = listing_okD [OF assms(1)]
  show ?thesis
  proof (rule listing_okI)
    show "sm_sorted (sm_erase k m)" using D(1) by (rule smap.sorted_erase)
  qed (use assms(2) in \<open>auto simp: find_erase [OF D(1)] split: if_splits dest: D(2-6)\<close>)
qed

lemma listing_ok_add:
  assumes "listing_ok m" "k \<noteq> []" "target_name k \<Longrightarrow> d"
  shows "listing_ok (add_object m k org tag d)" "sm_find k (add_object m k org tag d) \<noteq> None"
  using assms listing_okD(1) [OF assms(1)]
  by (auto simp: add_object_def Let_def find_set split: option.splits intro!: listing_ok_set)

lemma listing_ok_normalized:
  assumes "listing_ok m" "name \<noteq> normalized \<Longrightarrow> \<not> target_name name"
    and "name \<noteq> normalized \<Longrightarrow> target_name normalized" "sm_find normalized m \<noteq> None"
  shows "listing_ok (snd (insert_normalized m name normalized d))"
  using assms listing_ok_alias [OF assms(1)]
  by (auto simp: insert_normalized_def split: option.splits)

lemma insert_obj_ok:
  assumes m: "listing_ok m" and s: "\<not> ends_with CHR ''/'' (butlast (fst (normalize name d)))"
  shows "listing_ok (snd (insert_obj m name tag d))"
proof (cases "name = []")
  case True
  then show ?thesis using m by (simp add: insert_obj_def)
next
  case False
  obtain nn dd where n: "normalize name d = (nn, dd)" by (cases "normalize name d")
  have nn: "no_folder nn" "nn \<noteq> []" "dd \<longleftrightarrow> ends_with CHR ''/'' nn"
    using normalize_no_folder [of name d] normalize_nonempty [OF False, of d] normalize_dir [of name d] n
    by simp_all
  have al: "name \<noteq> nn \<Longrightarrow> \<not> target_name name"
  proof
    assume ne: "name \<noteq> nn" and "target_name name"
    then have "no_folder name" "ends_with CHR ''/'' name" by (simp_all add: target_name_def)
    then show False using ne n by (auto simp: normalize_def no_folder_def Let_def split: if_splits)
  qed
  show ?thesis
  proof (cases dd)
    case True
    have "\<not> target_name (butlast nn)" using s n by (simp add: target_name_def)
    then have "listing_ok (if sm_find (butlast nn) m \<noteq> None then sm_erase (butlast nn) m else m)"
      using m listing_ok_erase by auto
    from listing_ok_add [OF this nn(2), of dd name tag] True nn al show ?thesis
      using False n by (auto simp: insert_obj_def Let_def target_name_def intro!: listing_ok_normalized)
  next
    case nd: False
    then have "name = nn" "\<not> target_name nn"
      using n nn(3) by (auto simp: normalize_def target_name_def Let_def split: option.splits if_splits)
    moreover have "target_name (nn @ ''/'')"
      using no_folder_slash [OF nn(1)] by (simp add: target_name_def ends_with_def)
    ultimately show ?thesis
      using False n nd listing_ok_add [OF m nn(2), of False name tag]
      by (auto simp: insert_obj_def Let_def intro!: listing_ok_normalized m)
  qed
qed

section \<open>The directories above a name\<close>

inductive ancestor :: "string \<Rightarrow> string \<Rightarrow> bool" where
  above: "parent s = Some p \<Longrightarrow> p \<noteq> [] \<Longrightarrow> p \<noteq> ''/'' \<Longrightarrow> ancestor s p"
| further: "parent s = Some p \<Longrightarrow> p \<noteq> [] \<Longrightarrow> p \<noteq> ''/'' \<Longrightarrow> ancestor p q \<Longrightarrow> ancestor s q"

inductive_cases ancestorE: "ancestor s q"

lemma ancestor_iff:
  "ancestor s q \<longleftrightarrow>
     (\<exists>p. parent s = Some p \<and> p \<noteq> [] \<and> p \<noteq> ''/'' \<and> (q = p \<or> ancestor p q))"
  by (auto intro: above further elim: ancestorE)

lemma ancestors_find:
  "sm_sorted h \<Longrightarrow> sm_sorted (ancestors s h) \<and> sm_find k (ancestors s h) =
     (case sm_find k h of Some b \<Rightarrow> Some b | None \<Rightarrow> if ancestor s k then Some False else None)"
proof (induction s h rule: ancestors.induct)
  case (1 s h)
  show ?case
  proof (cases "\<exists>p. parent s = Some p \<and> p \<noteq> [] \<and> p \<noteq> ''/''")
    case False
    then have "ancestors s h = h"
      by (subst ancestors.simps) (auto split: option.splits)
    moreover have "\<not> ancestor s k" using False by (subst ancestor_iff) blast
    ultimately show ?thesis using "1.prems" by (auto split: option.splits)
  next
    case True
    then obtain p where p: "parent s = Some p" "p \<noteq> []" "p \<noteq> ''/''" by blast
    let ?h = "if sm_find p h = None then sm_set p False h else h"
    have h: "sm_sorted ?h" using "1.prems" smap.sorted_set by auto
    have e: "ancestors s h = ancestors p ?h"
      using p by (subst ancestors.simps) simp
    have f: "sm_find k ?h = (if k = p \<and> sm_find p h = None then Some False else sm_find k h)"
      using "1.prems" by (auto simp: find_set)
    have a: "ancestor s k \<longleftrightarrow> k = p \<or> ancestor p k" using p by (subst ancestor_iff) auto
    have "sm_sorted (ancestors p ?h) \<and> sm_find k (ancestors p ?h) =
      (case sm_find k ?h of Some b \<Rightarrow> Some b | None \<Rightarrow> if ancestor p k then Some False else None)"
      using "1.IH" [OF p(1)] p h by blast
    then show ?thesis unfolding e f a by (auto split: option.splits)
  qed
qed

lemma hierarchy_find:
  "sm_sorted (hierarchy list) \<and> sm_find k (hierarchy list) =
     (if k \<in> cut_slash ` set list then Some True
      else if \<exists>n \<in> set list. ancestor (cut_slash n) k then Some False else None)"
proof (induction list rule: rev_induct)
  case Nil
  then show ?case by (simp add: hierarchy_def)
next
  case (snoc n list)
  let ?h = "sm_set (cut_slash n) True (hierarchy list)"
  have e: "hierarchy (list @ [n]) = ancestors (cut_slash n) ?h" by (simp add: hierarchy_def)
  have s: "sm_sorted ?h" by (rule smap.sorted_set [OF conjunct1 [OF snoc]])
  have f: "sm_find k ?h = (if k = cut_slash n then Some True else sm_find k (hierarchy list))"
    using find_set [OF conjunct1 [OF snoc], of k "cut_slash n" True] by metis
  note A = ancestors_find [OF s, of "cut_slash n" k]
  have IH: "sm_find k (hierarchy list) =
     (if k \<in> cut_slash ` set list then Some True
      else if \<exists>n \<in> set list. ancestor (cut_slash n) k then Some False else None)"
    using snoc by blast
  have "sm_find k (hierarchy (list @ [n])) =
     (if k \<in> cut_slash ` set (list @ [n]) then Some True
      else if \<exists>n \<in> set (list @ [n]). ancestor (cut_slash n) k then Some False else None)"
    unfolding e conjunct2 [OF A] f IH by simp
  then show ?case using conjunct1 [OF A] unfolding e by blast
qed

lemma hierarchy_mem:
  "(k, b) \<in> set (hierarchy list) \<longleftrightarrow> sm_find k (hierarchy list) = Some b"
  using smap.find_Some_iff [of "hierarchy list" k b] hierarchy_find [of list k] by simp

lemma MakeHierarchizedList_set:
  "set (MakeHierarchizedList list haveSlash) = set list
     \<union> (\<lambda>k. if haveSlash then k @ ''/'' else k) `
         {k. k \<notin> cut_slash ` set list \<and> (\<exists>n \<in> set list. ancestor (cut_slash n) k)}"
proof -
  have "{k. (k, False) \<in> set (hierarchy list)} =
      {k. k \<notin> cut_slash ` set list \<and> (\<exists>n \<in> set list. ancestor (cut_slash n) k)}"
    unfolding hierarchy_mem using hierarchy_find [of list] by auto
  moreover have "set (MakeHierarchizedList list haveSlash) = set list
     \<union> (\<lambda>k. if haveSlash then k @ ''/'' else k) ` {k. (k, False) \<in> set (hierarchy list)}"
    by (auto simp: MakeHierarchizedList_def image_iff)
  ultimately show ?thesis by simp
qed

section \<open>Lookups in a listing\<close>

lemma GetLastName_max:
  "snd (GetLastName m) = fold max (map (listed_name \<circ> snd) m) []"
proof (induction m rule: rev_induct)
  case Nil
  then show ?case by (simp add: GetLastName_def)
next
  case (snoc x m)
  then show ?case by (cases x) (auto simp: GetLastName_def max_def split: prod.splits)
qed

lemma fold_max_ge:
  fixes a :: "'a :: linorder"
  shows "a \<le> fold max xs a \<and> (\<forall>x \<in> set xs. x \<le> fold max xs a) \<and> fold max xs a \<in> insert a (set xs)"
proof (induction xs arbitrary: a)
  case Nil
  then show ?case by simp
next
  case (Cons x xs)
  let ?r = "fold max xs (max x a)"
  have m: "a \<le> max x a" "x \<le> max x a" by simp_all
  have IH: "max x a \<le> ?r" "\<forall>y \<in> set xs. y \<le> ?r" "?r = max x a \<or> ?r \<in> set xs"
    using Cons.IH [of "max x a"] by blast+
  have "a \<le> ?r" "x \<le> ?r" using m IH(1) by (blast intro: order_trans)+
  moreover have "?r \<in> insert a (set (x # xs))" using IH(3) by (auto simp: max_def)
  ultimately show ?case using IH(2) by simp
qed

text \<open>Insertions that start from the empty listing.\<close>

inductive listing :: "s3obj \<Rightarrow> bool" where
  empty: "listing []"
| insert: "listing m \<Longrightarrow> \<not> ends_with CHR ''/'' (butlast (fst (normalize name d))) \<Longrightarrow>
    listing (snd (insert_obj m name tag d))"

lemma listing_ok_Nil: "listing_ok []"
  by (simp add: listing_ok_def)

lemma listing_listing_ok: "listing m \<Longrightarrow> listing_ok m"
  by (induction rule: listing.induct) (rule listing_ok_Nil, rule insert_obj_ok)

section \<open>Properties\<close>

text \<open>
  Normalised names are final. In a listing built by \<open>insert\<close> from names without a double
  slash at the end, the normalised name of an alias is itself an entry, a directory, and its own
  normalised name; so looking a name up twice is looking it up once.
\<close>

theorem GetNormalizedName_idempotent:
  assumes "listing objects" "GetNormalizedName objects name = normalized" "normalized \<noteq> []"
  shows "GetNormalizedName objects normalized = normalized
    \<and> (normalized \<noteq> name \<longrightarrow> IsDir objects normalized \<and> ends_with CHR ''/'' normalized)"
proof -
  have ok: "listing_ok objects" using assms(1) by (rule listing_listing_ok)
  obtain e where e: "name \<noteq> []" "sm_find name objects = Some e"
    "normalized = (if normalname e = [] then name else normalname e)"
    using assms(2,3) by (auto simp: GetNormalizedName_def GetS3Obj_def split: option.splits if_splits)
  show ?thesis
  proof (cases "normalname e = []")
    case True
    then show ?thesis using e assms(2) by simp
  next
    case False
    then have n: "normalized = normalname e" using e(3) by simp
    then obtain e' where "sm_find normalized objects = Some e'" "normalname e' = []" "obj_is_dir e'"
      "target_name normalized"
      using ok [unfolded listing_ok_def] e(2) False by blast
    then show ?thesis using assms(3)
      by (simp add: GetNormalizedName_def GetS3Obj_def IsDir_def target_name_def)
  qed
qed

theorem GetNormalizedName_idempotent_witness:
  "GetNormalizedName (snd (insert_obj [] ''d_$folder$'' None False)) ''d/'' = ''d/''"
proof -
  have n: "normalize ''d_$folder$'' False = (''d/'', True)"
    by (simp add: normalize_def FOLDER_def substr_def ends_with_def)
  have "listing (snd (insert_obj [] ''d_$folder$'' None False))"
    by (rule listing.insert [OF listing.empty]) (simp add: n ends_with_def)
  moreover have "GetNormalizedName (snd (insert_obj [] ''d_$folder$'' None False)) ''d_$folder$'' = ''d/''"
    by (simp add: insert_obj_def n add_object_def insert_normalized_def GetNormalizedName_def
        GetS3Obj_def less_char_def)
  ultimately show ?thesis using GetNormalizedName_idempotent by blast
qed

text \<open>
  \<open>MakeHierarchizedList\<close> completes a listing: it appends exactly the directories above the
  listed names that are not listed themselves (apart from the root), each written with a slash when
  asked for, and keeps the names it was given.
\<close>

theorem MakeHierarchizedList_adds_lost_directories:
  "set (MakeHierarchizedList list haveSlash) = set list
     \<union> (\<lambda>k. if haveSlash then k @ ''/'' else k) `
         {k. k \<notin> cut_slash ` set list \<and> (\<exists>n \<in> set list. ancestor (cut_slash n) k)}"
  by (rule MakeHierarchizedList_set)

text \<open>
  \<open>GetLastName\<close>, the marker from which the next part of a listing is requested, is the
  greatest name of the listing: no entry's original (or normalised) name is greater, and it is one of
  them unless the listing has none.
\<close>

theorem GetLastName_greatest:
  "(\<forall>(k, e) \<in> set objects. listed_name e \<le> snd (GetLastName objects))
   \<and> snd (GetLastName objects) \<in> insert [] ((listed_name \<circ> snd) ` set objects)"
  unfolding GetLastName_max using fold_max_ge [of "[]" "map (listed_name \<circ> snd) objects"] by fastforce

theorem GetLastName_greatest_witness:
  "''b'' \<le> snd (GetLastName [(''b'', \<lparr>normalname = [], orgname = ''b'', etag = [], obj_is_dir = False\<rparr>)])"
  using GetLastName_greatest [of "[(''b'', \<lparr>normalname = [], orgname = ''b'', etag = [], obj_is_dir = False\<rparr>)]"]
  by (simp add: listed_name_def)

text \<open>
  The list of moves stays in order: \<open>add_mvnode\<close> keeps the files and the directories of the
  list strictly ascending by their old path, loses no move, and afterwards holds one move of that path
  and type, the new one unless there was one before.
\<close>

theorem add_mvnode_keeps_order:
  assumes "mv_sorted ms"
  shows "mv_sorted (add_mvnode ms old new d n) \<and> set ms \<subseteq> set (add_mvnode ms old new d n)
    \<and> (\<exists>m \<in> set (add_mvnode ms old new d n). mv_is_dir m = d \<and> old_path m = old)
    \<and> set (add_mvnode ms old new d n) \<subseteq> insert (create_mvnode old new d n) (set ms)"
  using assms by (intro conjI add_mvnode_sorted add_mvnode_subset add_mvnode_mem add_mvnode_set)

theorem add_mvnode_keeps_order_witness:
  "mv_sorted (add_mvnode [create_mvnode ''/a'' ''/b'' True False] ''/a/c'' ''/b/c'' False False)"
  using add_mvnode_keeps_order [of "[create_mvnode ''/a'' ''/b'' True False]" "''/a/c''" "''/b/c''" False False]
  by (simp add: mv_sorted_def create_mvnode_def)

end
