(* ===== verification/S3_Io.thy ===== *)
theory S3_Io
  imports Header_Stat
begin

text \<open>
  The file object of the S3 protocol, class \<open>S3Io\<close> of \<open>protocols/s3/s3io.cpp\<close>, and
  the placeholder objects \<open>FtpIo\<close> and \<open>SmbIo\<close>. Each method is a function of the
  object's record and of a state \<open>'w\<close> on which the file system layer below
  (\<open>s3fs_open\<close>, \<open>s3fs_read\<close>, .. of \<open>s3fs.cpp\<close>, with the handle it keeps in
  \<open>file_info\<close>) acts. That layer is the record of functions \<open>s3fs\<close>, an argument of the
  methods; a result is the C return code.
\<close>

unbundle bit_operations_syntax

record 'w s3fs =
  exe_link :: "string option"
  fs_init :: "string list \<Rightarrow> 'w \<Rightarrow> int \<times> 'w"
  fs_uninit :: "'w \<Rightarrow> int \<times> 'w"
  fs_connect :: "'w \<Rightarrow> 'w"
  fs_open :: "string \<Rightarrow> 32 word \<Rightarrow> mode_t \<Rightarrow> 'w \<Rightarrow> int \<times> 'w"
  fs_getattr :: "string \<Rightarrow> 'w \<Rightarrow> int \<times> stat_t \<times> 'w"
  fs_flush :: "string \<Rightarrow> 'w \<Rightarrow> int \<times> 'w"
  fs_read :: "string \<Rightarrow> nat \<Rightarrow> int \<Rightarrow> 'w \<Rightarrow> int \<times> 8 word list \<times> 'w"
  fs_write :: "string \<Rightarrow> 8 word list \<Rightarrow> int \<Rightarrow> 'w \<Rightarrow> int \<times> nat \<times> 'w"
  fs_unlink :: "string \<Rightarrow> 'w \<Rightarrow> int \<times> 'w"
  fs_truncate :: "string \<Rightarrow> int \<Rightarrow> 'w \<Rightarrow> int \<times> 'w"

record s3io =
  is_first_write :: bool
  open_success :: bool
  fi_flags :: "32 word"
  object_name :: string
  cache_size_m :: nat
  s3_cachepath :: string
  s3_debug_mark :: string

definition new_s3io :: s3io where
  "new_s3io = \<lparr>is_first_write = True, open_success = False, fi_flags = 0, object_name = [],
     cache_size_m = 0, s3_cachepath = [], s3_debug_mark = []\<rparr>"

abbreviation O_ACCMODE :: "32 word" where "O_ACCMODE \<equiv> 3"
abbreviation O_RDONLY :: "32 word" where "O_RDONLY \<equiv> 0"
abbreviation O_WRONLY :: "32 word" where "O_WRONLY \<equiv> 1"
abbreviation O_RDWR :: "32 word" where "O_RDWR \<equiv> 2"

section \<open>Names\<close>

definition get_current_name :: "string option \<Rightarrow> string" where
  "get_current_name link =
     (case link of None \<Rightarrow> []
      | Some dir \<Rightarrow>
          (case find_last_idx (\<lambda>c. c = CHR ''/'') dir of
             None \<Rightarrow> []
           | Some p \<Rightarrow> if length dir - p = 1 then [] else drop (Suc p) dir))"

text \<open>
  \<open>split_path\<close> pushes the arguments one by one and stops at the first part that is missing:
  the result is the arguments and, where the path is complete, the new \<open>object_name\<close>.
\<close>

definition split_object :: "string list \<Rightarrow> string \<Rightarrow> string list \<times> string option" where
  "split_object args path =
     (if path = [] then (args, None)
      else case find_idx (\<lambda>c. c = CHR ''/'') path of
        None \<Rightarrow> (args, None)
      | Some pos \<Rightarrow>
          (let strbucket = substr path 0 pos in
           if strbucket = [] then (args, None)
           else (args @ [''bucket_name='' @ strbucket], Some (drop pos path))))"

definition split_domain :: "string list \<Rightarrow> string \<Rightarrow> string list \<times> string option" where
  "split_domain args path =
     (if path = [] then (args, None)
      else case find_idx (\<lambda>c. c = CHR ''/'') path of
        None \<Rightarrow> (args, None)
      | Some pos \<Rightarrow>
          (let strurl = substr path 0 pos in
           if strurl = [] then (args, None)
           else split_object (args @ [''url=https://'' @ strurl]) (drop (pos + 1) path)))"

definition split_path :: "string option \<Rightarrow> string \<Rightarrow> string list \<times> string option" where
  "split_path link strpath =
     (let name = get_current_name link;
          args = (if name \<noteq> [] then [name] else [])
      in case find_sub ''//'' strpath of
           None \<Rightarrow> (args, None)
         | Some pos \<Rightarrow>
             (let path = drop (pos + 2) strpath in
              if path = [] then (args, None)
              else case find_idx (\<lambda>c. c = CHR ''@'') path of
                None \<Rightarrow> (args, None)
              | Some pos \<Rightarrow>
                  (let strask = substr path 0 pos in
                   if strask = [] then (args, None)
                   else split_domain (args @ [''ak_sk='' @ strask]) (drop (pos + 1) path))))"

definition open_args :: "s3io \<Rightarrow> string list \<Rightarrow> string list" where
  "open_args s vecret =
     vecret @ [''umask=0000'', ''check_cache_dir_exist'', ''del_cache'', ''-f'', ''connect_timeout=30'',
       ''no_check_certificate'', ''ssl_verify_hostname=0'', ''use_path_request_style'',
       ''readwrite_timeout=30'',
       (if s3_cachepath s \<noteq> [] then ''use_cache='' @ s3_cachepath s else ''use_cache=/tmp''),
       (if cache_size_m s \<noteq> 0 then ''ensure_diskfree='' @ str (int (cache_size_m s))
        else ''ensure_diskfree=4096'')]
     @ (if s3_debug_mark s \<noteq> [] then [''dbglevel='' @ s3_debug_mark s] else [])"

section \<open>Methods\<close>

text \<open>\<open>open\<close> returns the code and, where it succeeds, the size of the file.\<close>

definition s3_open ::
  "'w s3fs \<Rightarrow> s3io \<Rightarrow> mode_t \<Rightarrow> string option \<Rightarrow> 'w \<Rightarrow> int \<times> int option \<times> s3io \<times> 'w" where
  "s3_open fs s mode filepath w =
     (case filepath of None \<Rightarrow> (- 1, None, s, w)
      | Some path \<Rightarrow>
          (let s1 = s\<lparr>fi_flags := mode\<rparr>;
               (vecret, object) = split_path (exe_link fs) path;
               s2 = (case object of Some name \<Rightarrow> s1\<lparr>object_name := name\<rparr> | None \<Rightarrow> s1);
               (iret, w1) = fs_init fs (open_args s2 vecret) w
           in if iret = - 1 then (iret, None, s2, w1)
              else
                (let w2 = fs_connect fs w1;
                     (iret, w3) = fs_open fs (object_name s2) (fi_flags s2) mode w2
                 in if iret \<noteq> 0 then (iret, None, s2, w3)
                    else
                      (let (iret, stbuf, w4) = fs_getattr fs (object_name s2) w3
                       in if iret \<noteq> 0 then (iret, None, s2, w4)
                          else (0, Some (st_size stbuf), s2\<lparr>open_success := True\<rparr>, w4)))))"

definition s3_close :: "'w s3fs \<Rightarrow> s3io \<Rightarrow> 'w \<Rightarrow> int \<times> s3io \<times> 'w" where
  "s3_close fs s w =
     (if \<not> open_success s then (0, s, w)
      else
        (let (iret, w1) = fs_flush fs (object_name s) w
         in if iret = 0 then let (iret, w2) = fs_uninit fs w1 in (iret, s, w2)
            else (iret, s, w1)))"

definition may_read :: "32 word \<Rightarrow> bool" where
  "may_read flags \<longleftrightarrow> \<not> (flags AND O_ACCMODE \<noteq> O_RDONLY \<and> flags AND O_RDWR \<noteq> O_RDWR)"

definition may_write :: "32 word \<Rightarrow> bool" where
  "may_write flags \<longleftrightarrow> \<not> (flags AND O_ACCMODE \<noteq> O_WRONLY \<and> flags AND O_RDWR \<noteq> O_RDWR)"

definition s3_read ::
  "'w s3fs \<Rightarrow> s3io \<Rightarrow> nat \<Rightarrow> int \<Rightarrow> 'w \<Rightarrow> int \<times> 8 word list \<times> s3io \<times> 'w" where
  "s3_read fs s sz offset w =
     (if \<not> open_success s then (- 1, [], s, w)
      else if \<not> may_read (fi_flags s) then (- 1, [], s, w)
      else let (iret, buf, w1) = fs_read fs (object_name s) sz offset w in (iret, buf, s, w1))"

definition s3_write ::
  "'w s3fs \<Rightarrow> s3io \<Rightarrow> 8 word list \<Rightarrow> int \<Rightarrow> 'w \<Rightarrow> int \<times> nat \<times> s3io \<times> 'w" where
  "s3_write fs s buf offset w =
     (if \<not> open_success s then (- 1, 0, s, w)
      else if \<not> may_write (fi_flags s) then (- 1, 0, s, w)
      else if is_first_write s then
        (let (istat, stbuf, w1) = fs_getattr fs (object_name s) w
         in if istat = - 2 \<and> 0 < offset then (- 1, 0, s, w1)
            else
              (let (iret, n, w2) = fs_write fs (object_name s) buf offset w1
               in (iret, n, s\<lparr>is_first_write := False\<rparr>, w2)))
      else let (iret, n, w2) = fs_write fs (object_name s) buf offset w in (iret, n, s, w2))"

definition s3_remove :: "'w s3fs \<Rightarrow> s3io \<Rightarrow> string option \<Rightarrow> 'w \<Rightarrow> int \<times> s3io \<times> 'w" where
  "s3_remove fs s filepath w =
     (let (iret, s1, w1) =
            (if open_success s then (0, s, w)
             else case filepath of None \<Rightarrow> (- 1, s, w)
               | Some path \<Rightarrow> let (r, sz, s', w') = s3_open fs s 0 (Some path) w in (r, s', w'))
      in if iret \<noteq> 0 then (iret, s1, w1)
         else
           (let (iret, w2) = fs_unlink fs (object_name s1) w1
            in if open_success s1 then (iret, s1, w2)
               else let (r, s2, w3) = s3_close fs s1 w2 in (iret, s2, w3)))"

definition s3_flush :: "'w s3fs \<Rightarrow> s3io \<Rightarrow> 'w \<Rightarrow> int \<times> s3io \<times> 'w" where
  "s3_flush fs s w =
     (if \<not> open_success s then (- 1, s, w)
      else let (iret, w1) = fs_flush fs (object_name s) w in (iret, s, w1))"

definition s3_getstat ::
  "'w s3fs \<Rightarrow> s3io \<Rightarrow> string option \<Rightarrow> 'w \<Rightarrow> int \<times> stat_t \<times> s3io \<times> 'w" where
  "s3_getstat fs s filepath w =
     (let (iret, s1, w1) =
            (if open_success s then (0, s, w)
             else case filepath of None \<Rightarrow> (- 1, s, w)
               | Some path \<Rightarrow> let (r, sz, s', w') = s3_open fs s 0 (Some path) w in (r, s', w'))
      in if iret \<noteq> 0 then (iret, zero_stat, s1, w1)
         else
           (let (iret, stbuf, w2) = fs_getattr fs (object_name s1) w1
            in if open_success s1 then (iret, stbuf, s1, w2)
               else let (r, s2, w3) = s3_close fs s1 w2 in (iret, stbuf, s2, w3)))"

definition s3_truncate :: "'w s3fs \<Rightarrow> s3io \<Rightarrow> int \<Rightarrow> 'w \<Rightarrow> int \<times> s3io \<times> 'w" where
  "s3_truncate fs s sz w =
     (if \<not> open_success s then (- 1, s, w)
      else let (iret, w1) = fs_truncate fs (object_name s) sz w in (iret, s, w1))"

definition s3_config_cache :: "s3io \<Rightarrow> nat \<Rightarrow> string option \<Rightarrow> int \<times> s3io" where
  "s3_config_cache s size_m pcachepath =
     (0, case pcachepath of
           Some p \<Rightarrow> s\<lparr>cache_size_m := size_m, s3_cachepath := p\<rparr> | None \<Rightarrow> s\<lparr>cache_size_m := size_m\<rparr>)"

definition s3_log_level :: "s3io \<Rightarrow> string option \<Rightarrow> int \<times> s3io" where
  "s3_log_level s log_mark =
     (0, case log_mark of Some m \<Rightarrow> s\<lparr>s3_debug_mark := m\<rparr> | None \<Rightarrow> s)"

section \<open>The placeholder protocols\<close>

text \<open>
  Every method of \<open>FtpIo\<close> and \<open>SmbIo\<close> returns 0 and leaves its outputs alone;
  \<open>config_cache\<close> stores the path (it assigns its size parameter to itself).
\<close>

record stubio =
  stub_cachepath :: string

definition new_stubio :: stubio where
  "new_stubio = \<lparr>stub_cachepath = []\<rparr>"

definition stub_config_cache :: "stubio \<Rightarrow> nat \<Rightarrow> string option \<Rightarrow> stubio" where
  "stub_config_cache s size_m pcachepath =
     (case pcachepath of Some p \<Rightarrow> s\<lparr>stub_cachepath := p\<rparr> | None \<Rightarrow> s)"

section \<open>Paths\<close>

lemma find_slash: "CHR ''/'' \<notin> set s \<Longrightarrow> find_idx (\<lambda>c. c = CHR ''/'') (s @ CHR ''/'' # t) = Some (length s)"
  by (rule find_idx_first) auto

lemma find_at: "CHR ''@'' \<notin> set s \<Longrightarrow> find_idx (\<lambda>c. c = CHR ''@'') (s @ CHR ''@'' # t) = Some (length s)"
  by (rule find_idx_first) auto

lemma find_slashes:
  "CHR ''/'' \<notin> set s \<Longrightarrow> find_sub ''//'' (s @ CHR ''/'' # CHR ''/'' # t) = Some (length s)"
  by (induction s) (auto simp: neq_Nil_conv)

lemma split_path_complete:
  assumes "CHR ''/'' \<notin> set proto" "ak_sk \<noteq> []" "CHR ''@'' \<notin> set ak_sk"
    "domain \<noteq> []" "CHR ''/'' \<notin> set domain" "bucket \<noteq> []" "CHR ''/'' \<notin> set bucket"
  shows "split_path link (proto @ ''//'' @ ak_sk @ ''@'' @ domain @ ''/'' @ bucket @ ''/'' @ object) =
    ((if get_current_name link = [] then [] else [get_current_name link])
       @ [''ak_sk='' @ ak_sk, ''url=https://'' @ domain, ''bucket_name='' @ bucket],
     Some (CHR ''/'' # object))"
  using assms
  by (simp add: split_path_def split_domain_def split_object_def find_slashes find_at find_slash
      substr_def Let_def)

section \<open>Access modes\<close>

lemma low_two_bits: "(m :: 32 word) \<le> 3 \<Longrightarrow> m = 0 \<or> m = 1 \<or> m = 2 \<or> m = 3"
proof -
  assume "m \<le> 3"
  then have "unat m \<le> 3" by (simp add: word_le_nat_alt)
  then have "unat m = 0 \<or> unat m = 1 \<or> unat m = 2 \<or> unat m = 3" by arith
  then show ?thesis by (auto simp: word_unat_eq_iff)
qed

lemma access_bits:
  "flags AND O_ACCMODE = 0 \<or> flags AND O_ACCMODE = 1 \<or> flags AND O_ACCMODE = 2 \<or> flags AND O_ACCMODE = 3"
  by (rule low_two_bits) (rule word_and_le1)

lemma rdwr_bits: "flags AND O_RDWR = (flags AND O_ACCMODE) AND O_RDWR"
  by (simp add: and.assoc)

lemma may_read_iff: "may_read flags \<longleftrightarrow> flags AND O_ACCMODE \<noteq> O_WRONLY"
  using access_bits [of flags] unfolding may_read_def by (subst rdwr_bits) auto

lemma may_write_iff: "may_write flags \<longleftrightarrow> flags AND O_ACCMODE \<noteq> O_RDONLY"
  using access_bits [of flags] unfolding may_write_def by (subst rdwr_bits) auto

lemma s3_open_success:
  assumes "\<not> open_success s" "s3_open fs s mode p w = (r, sz, s', w')"
  shows "open_success s' \<longleftrightarrow> r = 0 \<and> sz \<noteq> None"
  using assms by (auto simp: s3_open_def Let_def split: option.splits prod.splits if_splits)

lemma s3_open_0: "s3_open fs s mode p w = (0, sz, s', w') \<Longrightarrow> open_success s' \<and> sz \<noteq> None"
  by (auto simp: s3_open_def Let_def split: option.splits prod.splits if_splits)

section \<open>Properties\<close>

text \<open>
  \<open>split_path\<close> takes a path \<open>protocol://ak:sk@domain/bucket/object\<close> apart into the
  arguments of the S3 layer and the object name, which keeps its leading slash; the object may contain
  any characters.
\<close>

theorem split_path_parts:
  assumes "CHR ''/'' \<notin> set proto" "ak_sk \<noteq> []" "CHR ''@'' \<notin> set ak_sk"
    "domain \<noteq> []" "CHR ''/'' \<notin> set domain" "bucket \<noteq> []" "CHR ''/'' \<notin> set bucket"
  shows "split_path link (proto @ ''//'' @ ak_sk @ ''@'' @ domain @ ''/'' @ bucket @ ''/'' @ object) =
    ((if get_current_name link = [] then [] else [get_current_name link])
       @ [''ak_sk='' @ ak_sk, ''url=https://'' @ domain, ''bucket_name='' @ bucket],
     Some (CHR ''/'' # object))"
  using assms by (rule split_path_complete)

theorem split_path_parts_witness:
  "split_path (Some ''/usr/bin/multifs'') (''s3:'' @ ''//'' @ ''k:s'' @ ''@'' @ ''h.com'' @ ''/'' @ ''b'' @ ''/'' @ ''d/o@x'') =
    ([''multifs'', ''ak_sk=k:s'', ''url=https://h.com'', ''bucket_name=b''], Some ''/d/o@x'')"
proof -
  have "get_current_name (Some ''/usr/bin/multifs'') = ''multifs''"
    by (simp add: get_current_name_def find_last_idx_def)
  then show ?thesis by (subst split_path_parts) simp_all
qed

text \<open>
  Access control of an open file: reading reaches the file system layer exactly when the object
  is open and its flags are not \<open>O_WRONLY\<close>; otherwise the call answers -1 with no effect.
\<close>

theorem s3_read_access:
  "s3_read fs s sz offset w =
    (if open_success s \<and> fi_flags s AND O_ACCMODE \<noteq> O_WRONLY
     then (fst (fs_read fs (object_name s) sz offset w),
           fst (snd (fs_read fs (object_name s) sz offset w)), s,
           snd (snd (fs_read fs (object_name s) sz offset w)))
     else (- 1, [], s, w))"
  by (simp add: s3_read_def may_read_iff split: prod.splits)

text \<open>
  The first write of a session is checked: at a positive offset of an object that does not exist
  it is refused before the write layer is called, and stays the first write; a write that passes the
  check is passed on unchanged, and later writes are not checked again.
\<close>

theorem s3_first_write_check:
  assumes "open_success s" "fi_flags s AND O_ACCMODE \<noteq> O_RDONLY"
    and "fs_getattr fs (object_name s) w = (istat, stbuf, w1)"
  shows "s3_write fs s buf offset w =
    (if is_first_write s \<and> istat = - 2 \<and> 0 < offset then (- 1, 0, s, w1)
     else let (r, n, w') = fs_write fs (object_name s) buf offset (if is_first_write s then w1 else w)
          in (r, n, s\<lparr>is_first_write := False\<rparr>, w'))"
proof (cases "is_first_write s")
  case True
  then show ?thesis using assms by (simp add: s3_write_def may_write_iff split: prod.splits)
next
  case False
  then have "s\<lparr>is_first_write := False\<rparr> = s" by simp
  then show ?thesis using assms False by (simp add: s3_write_def may_write_iff split: prod.splits)
qed

definition missing_object_fs :: "nat s3fs" where
  "missing_object_fs = \<lparr>exe_link = None, fs_init = \<lambda>_ w. (0, w), fs_uninit = \<lambda>w. (0, w),
     fs_connect = id, fs_open = \<lambda>_ _ _ w. (0, w), fs_getattr = \<lambda>_ w. (- 2, zero_stat, w),
     fs_flush = \<lambda>_ w. (0, w), fs_read = \<lambda>_ _ _ w. (0, [], w), fs_write = \<lambda>_ b _ w. (0, length b, Suc w),
     fs_unlink = \<lambda>_ w. (0, w), fs_truncate = \<lambda>_ _ w. (0, w)\<rparr>"

theorem s3_first_write_check_witness:
  "s3_write missing_object_fs (new_s3io\<lparr>open_success := True, fi_flags := 1\<rparr>) [1] 4 0 =
     (- 1, 0, new_s3io\<lparr>open_success := True, fi_flags := 1\<rparr>, 0)"
  using s3_first_write_check [of "new_s3io\<lparr>open_success := True, fi_flags := 1\<rparr>" missing_object_fs 0 "- 2" zero_stat 0 "[1]" 4]
  by (simp add: missing_object_fs_def new_s3io_def)

text \<open>
  \<open>getstat\<close> on an object that is not open opens it and leaves it open: the call to
  \<open>close\<close> that should match is guarded by a flag that the successful open has just set, so the
  flush and \<open>uninit\<close> of a close never run.
\<close>

theorem s3_getstat_leaves_open:
  assumes "\<not> open_success s" "s3_open fs s 0 (Some path) w = (0, sz, s1, w1)"
  shows "\<exists>r st w2. fs_getattr fs (object_name s1) w1 = (r, st, w2)
    \<and> s3_getstat fs s (Some path) w = (r, st, s1, w2) \<and> open_success s1"
  using assms s3_open_0 [OF assms(2)] by (simp add: s3_getstat_def split: prod.splits)

definition empty_object_fs :: "nat s3fs" where
  "empty_object_fs = missing_object_fs\<lparr>fs_getattr := \<lambda>_ w. (0, zero_stat, w), fs_uninit := \<lambda>w. (0, Suc w)\<rparr>"

theorem s3_getstat_leaves_open_witness:
  "\<exists>s1. s3_getstat empty_object_fs new_s3io (Some ''s3://k@h/b/o'') 7 = (0, zero_stat, s1, 7) \<and> open_success s1"
proof -
  obtain s1 where o: "s3_open empty_object_fs new_s3io 0 (Some ''s3://k@h/b/o'') 7 = (0, Some 0, s1, 7)"
    by (cases "split_path None ''s3://k@h/b/o''")
      (simp add: s3_open_def empty_object_fs_def missing_object_fs_def zero_stat_def Let_def)
  have "\<not> open_success new_s3io" by (simp add: new_s3io_def)
  from s3_getstat_leaves_open [OF this o] show ?thesis
    by (auto simp: empty_object_fs_def)
qed

end
