(* ===== verification/Dispatch.thy ===== *)
theory Dispatch
  imports S3_Io
begin

text \<open>
  The child process of multifs, \<open>main.cpp\<close>: it reads requests in the format of
  \<open>multifs_proto.h\<close> from a socket, performs them on its one file object (\<open>dspcmd\<close>) and
  writes one answer for each. Structures are read from the payload at the byte offsets of the packed
  layout; what is undefined behaviour in C++ (a null pointer followed, a buffer overrun, a stack object
  deleted) is a fault of the model. Allocations below 2^63 bytes succeed.
\<close>

section \<open>Little-endian fields\<close>

fun le_bytes :: "nat \<Rightarrow> nat \<Rightarrow> 8 word list" where
  "le_bytes 0 n = []"
| "le_bytes (Suc k) n = of_nat (n mod 256) # le_bytes k (n div 256)"

fun le_val :: "8 word list \<Rightarrow> nat" where
  "le_val [] = 0"
| "le_val (b # bs) = unat b + 256 * le_val bs"

definition field :: "8 word list \<Rightarrow> nat \<Rightarrow> nat \<Rightarrow> nat option" where
  "field buf off k = (if off + k \<le> length buf then Some (le_val (take k (drop off buf))) else None)"

text \<open>A C string inside a buffer whose last byte is a zero.\<close>

definition cstring_at :: "8 word list \<Rightarrow> nat \<Rightarrow> string option" where
  "cstring_at buf off =
     (if off < length buf then Some (map (\<lambda>b. char_of (unat b)) (takeWhile (\<lambda>b. b \<noteq> 0) (drop off buf)))
      else None)"

section \<open>The protocol\<close>

abbreviation MFS_OPEN :: "32 word" where "MFS_OPEN \<equiv> 0"
abbreviation MFS_CLOSE :: "32 word" where "MFS_CLOSE \<equiv> 1"
abbreviation MFS_REMOVE :: "32 word" where "MFS_REMOVE \<equiv> 2"
abbreviation MFS_READ :: "32 word" where "MFS_READ \<equiv> 3"
abbreviation MFS_WRITE :: "32 word" where "MFS_WRITE \<equiv> 4"
abbreviation MFS_FLUSH :: "32 word" where "MFS_FLUSH \<equiv> 5"
abbreviation MFS_TRUNCATE :: "32 word" where "MFS_TRUNCATE \<equiv> 6"
abbreviation MFS_STAT :: "32 word" where "MFS_STAT \<equiv> 7"
abbreviation MFS_CACHE :: "32 word" where "MFS_CACHE \<equiv> 8"
abbreviation MFS_LOG :: "32 word" where "MFS_LOG \<equiv> 9"
abbreviation OP_REQUEST :: "32 word" where "OP_REQUEST \<equiv> 1"
abbreviation OP_ANSWER :: "32 word" where "OP_ANSWER \<equiv> 2"
abbreviation MULTIFS_HEADER_MAGIC :: "32 word" where "MULTIFS_HEADER_MAGIC \<equiv> 0x0132DE42"
abbreviation MULTIFS_PROTO_VERSION :: "32 word" where "MULTIFS_PROTO_VERSION \<equiv> 1"
abbreviation PATH_MAX :: nat where "PATH_MAX \<equiv> 4096"

record header =
  h_magic :: "32 word"
  h_version :: "32 word"
  h_mode :: "32 word"
  h_command :: "32 word"
  h_payload :: "32 word"
  h_error :: "32 word"
  h_sequence :: "32 word"
  h_reserved :: "32 word"

definition sizeof_header :: nat where "sizeof_header = 32"
definition sizeof_stat :: nat where "sizeof_stat = 144"

definition header_bytes :: "header \<Rightarrow> 8 word list" where
  "header_bytes h = concat (map (\<lambda>w. le_bytes 4 (unat w))
     [h_magic h, h_version h, h_mode h, h_command h, h_payload h, h_error h, h_sequence h, h_reserved h])"

text \<open>A header read into a zeroed structure: bytes that did not arrive are zero.\<close>

definition header_field :: "8 word list \<Rightarrow> nat \<Rightarrow> 32 word" where
  "header_field bs i = of_nat (le_val (take 4 (drop (4 * i) (bs @ replicate sizeof_header 0))))"

definition parse_header :: "8 word list \<Rightarrow> header" where
  "parse_header bs = \<lparr>h_magic = header_field bs 0, h_version = header_field bs 1,
     h_mode = header_field bs 2, h_command = header_field bs 3, h_payload = header_field bs 4,
     h_error = header_field bs 5, h_sequence = header_field bs 6, h_reserved = header_field bs 7\<rparr>"

section \<open>The file object\<close>

datatype ifile = S3File s3io | FtpFile stubio | SmbFile stubio

definition get_tag_fs :: "ifile option \<Rightarrow> string option \<Rightarrow> ifile option" where
  "get_tag_fs file path =
     (case path of None \<Rightarrow> file
      | Some strpath \<Rightarrow>
          (case find_sub '':'' strpath of None \<Rightarrow> file
           | Some pos \<Rightarrow>
               (let strprotocol_type = substr strpath 0 pos in
                if strprotocol_type = [] then file
                else if strprotocol_type = ''s3'' then Some (S3File new_s3io)
                else if strprotocol_type = ''ftp'' then Some (FtpFile new_stubio)
                else if strprotocol_type = ''smb'' then Some (SmbFile new_stubio)
                else file)))"

fun if_config_cache :: "ifile \<Rightarrow> nat \<Rightarrow> string \<Rightarrow> ifile" where
  "if_config_cache (S3File s) n p = S3File (snd (s3_config_cache s n (Some p)))"
| "if_config_cache (FtpFile s) n p = FtpFile (stub_config_cache s n (Some p))"
| "if_config_cache (SmbFile s) n p = SmbFile (stub_config_cache s n (Some p))"

fun if_log_level :: "ifile \<Rightarrow> string \<Rightarrow> ifile" where
  "if_log_level (S3File s) m = S3File (snd (s3_log_level s (Some m)))"
| "if_log_level f m = f"

fun if_open :: "'w s3fs \<Rightarrow> ifile \<Rightarrow> mode_t \<Rightarrow> string option \<Rightarrow> 'w \<Rightarrow> int \<times> int option \<times> ifile \<times> 'w" where
  "if_open fs (S3File s) mode path w =
     (let (r, sz, s', w') = s3_open fs s mode path w in (r, sz, S3File s', w'))"
| "if_open fs f mode path w = (0, None, f, w)"

fun if_close :: "'w s3fs \<Rightarrow> ifile \<Rightarrow> 'w \<Rightarrow> int \<times> ifile \<times> 'w" where
  "if_close fs (S3File s) w = (let (r, s', w') = s3_close fs s w in (r, S3File s', w'))"
| "if_close fs f w = (0, f, w)"

fun if_remove :: "'w s3fs \<Rightarrow> ifile \<Rightarrow> string option \<Rightarrow> 'w \<Rightarrow> int \<times> ifile \<times> 'w" where
  "if_remove fs (S3File s) path w = (let (r, s', w') = s3_remove fs s path w in (r, S3File s', w'))"
| "if_remove fs f path w = (0, f, w)"

fun if_flush :: "'w s3fs \<Rightarrow> ifile \<Rightarrow> 'w \<Rightarrow> int \<times> ifile \<times> 'w" where
  "if_flush fs (S3File s) w = (let (r, s', w') = s3_flush fs s w in (r, S3File s', w'))"
| "if_flush fs f w = (0, f, w)"

fun if_getstat :: "'w s3fs \<Rightarrow> ifile \<Rightarrow> string option \<Rightarrow> 'w \<Rightarrow> int \<times> stat_t \<times> ifile \<times> 'w" where
  "if_getstat fs (S3File s) path w =
     (let (r, st, s', w') = s3_getstat fs s path w in (r, st, S3File s', w'))"
| "if_getstat fs f path w = (0, zero_stat, f, w)"

fun if_truncate :: "'w s3fs \<Rightarrow> ifile \<Rightarrow> int \<Rightarrow> 'w \<Rightarrow> int \<times> ifile \<times> 'w" where
  "if_truncate fs (S3File s) sz w = (let (r, s', w') = s3_truncate fs s sz w in (r, S3File s', w'))"
| "if_truncate fs f sz w = (0, f, w)"

fun if_read :: "'w s3fs \<Rightarrow> ifile \<Rightarrow> nat \<Rightarrow> int \<Rightarrow> 'w \<Rightarrow> int \<times> 8 word list \<times> ifile \<times> 'w" where
  "if_read fs (S3File s) sz off w = (let (r, b, s', w') = s3_read fs s sz off w in (r, b, S3File s', w'))"
| "if_read fs f sz off w = (0, [], f, w)"

fun if_write :: "'w s3fs \<Rightarrow> ifile \<Rightarrow> 8 word list \<Rightarrow> int \<Rightarrow> 'w \<Rightarrow> int \<times> nat \<times> ifile \<times> 'w" where
  "if_write fs (S3File s) b off w = (let (r, n, s', w') = s3_write fs s b off w in (r, n, S3File s', w'))"
| "if_write fs f b off w = (0, 0, f, w)"

section \<open>Commands\<close>

datatype fault = Null_pointer | Bad_free | Out_of_bounds

datatype body = Bytes "8 word list" | Stat stat_t

fun body_size :: "body \<Rightarrow> nat" where
  "body_size (Bytes b) = length b"
| "body_size (Stat st) = sizeof_stat"

record answer =
  a_header :: header
  a_body :: body

record 'w proc =
  p_file :: "ifile option"
  p_cache_size :: nat
  p_debug_mark :: string
  p_cachepath :: string
  p_sent :: "answer list"
  p_world :: 'w

text \<open>
  \<open>msg_out\<close>: the header and body it points to and whether that is a heap block; otherwise it is
  the header on the stack of \<open>main\<close>, which has no body.
\<close>

record msg =
  m_header :: header
  m_body :: body
  m_heap :: bool

definition on_stack :: "header \<Rightarrow> msg" where
  "on_stack h = \<lparr>m_header = h, m_body = Bytes [], m_heap = False\<rparr>"

definition on_heap :: "header \<Rightarrow> body \<Rightarrow> msg" where
  "on_heap h b = \<lparr>m_header = h, m_body = b, m_heap = True\<rparr>"

definition err :: "int \<Rightarrow> 32 word" where
  "err r = word_of_int r"

type_synonym 'w dsp = "(fault + msg) \<times> 'w proc"

definition dsp_open :: "'w s3fs \<Rightarrow> header \<Rightarrow> 8 word list \<Rightarrow> 'w proc \<Rightarrow> 'w dsp" where
  "dsp_open fs h0 data p =
     (let h = h0\<lparr>h_payload := 0\<rparr> in
      case (field data 0 4, cstring_at data 4) of
        (Some mode, Some path) \<Rightarrow>
          (case get_tag_fs (p_file p) (Some path) of
             None \<Rightarrow> (Inr (on_stack h), p)
           | Some f \<Rightarrow>
               (let f1 = if_log_level (if_config_cache f (p_cache_size p) (p_cachepath p)) (p_debug_mark p);
                    (r, sz, f2, w) = if_open fs f1 (of_nat mode) (Some path) (p_world p);
                    p1 = p\<lparr>p_file := Some f2, p_world := w\<rparr>;
                    h1 = h\<lparr>h_error := err r\<rparr>
                in if h_error h1 \<noteq> 0 then (Inr (on_stack h1), p1)
                   else (Inr (on_heap (h1\<lparr>h_payload := 8\<rparr>)
                          (Bytes (le_bytes 8 (case sz of Some n \<Rightarrow> nat (n mod 2 ^ 64) | None \<Rightarrow> 0)))), p1)))
      | _ \<Rightarrow> (Inl Out_of_bounds, p))"

definition dsp_close :: "'w s3fs \<Rightarrow> header \<Rightarrow> 'w proc \<Rightarrow> 'w dsp" where
  "dsp_close fs h p =
     (case p_file p of None \<Rightarrow> (Inl Null_pointer, p)
      | Some f \<Rightarrow>
          (let (r, f', w) = if_close fs f (p_world p)
           in (Inr (on_stack (h\<lparr>h_error := err r, h_payload := 0\<rparr>)),
               p\<lparr>p_file := Some f', p_world := w\<rparr>)))"

definition dsp_remove :: "'w s3fs \<Rightarrow> header \<Rightarrow> 8 word list \<Rightarrow> 'w proc \<Rightarrow> 'w dsp" where
  "dsp_remove fs h0 data p =
     (let h = h0\<lparr>h_payload := 0\<rparr> in
      case cstring_at data 0 of None \<Rightarrow> (Inl Out_of_bounds, p)
      | Some path \<Rightarrow>
          (case (if p_file p = None then get_tag_fs None (Some path) else p_file p) of
             None \<Rightarrow> (Inr (on_stack h), p)
           | Some f \<Rightarrow>
               (let (r, f', w) = if_remove fs f (Some path) (p_world p)
                in (Inr (on_stack (h\<lparr>h_error := err r\<rparr>)), p\<lparr>p_file := Some f', p_world := w\<rparr>))))"

text \<open>
  The answer to a read: the length is computed in an \<open>int\<close>, the payload in a
  \<open>uint32_t\<close>, and the bytes read are followed by zeros up to the size asked for.
\<close>

definition read_reply :: "header \<Rightarrow> nat \<Rightarrow> 8 word list \<Rightarrow> fault + msg" where
  "read_reply h sz buf =
     (let len = sint (of_nat (sz + sizeof_header + 8) :: 32 word) in
      if len < 0 then Inr (on_stack h)
      else if len + 1 < int (sizeof_header + 8 + length buf) then Inl Out_of_bounds
      else
        (let payload = (of_nat (sz + 8) :: 32 word)
         in Inr (on_heap (h\<lparr>h_payload := payload\<rparr>)
              (Bytes (take (unat payload)
                (le_bytes 8 (length buf) @ buf @ replicate (unat payload) 0))))))"

definition dsp_read :: "'w s3fs \<Rightarrow> header \<Rightarrow> 8 word list \<Rightarrow> 'w proc \<Rightarrow> 'w dsp" where
  "dsp_read fs h0 data p =
     (let h = h0\<lparr>h_payload := 0\<rparr> in
      case (field data 0 8, field data 8 8) of
        (Some off, Some sz) \<Rightarrow>
          if 2 ^ 63 \<le> sz then (Inr (on_stack h), p)
          else
            (case p_file p of None \<Rightarrow> (Inl Null_pointer, p)
             | Some f \<Rightarrow>
                 (let (r, buf, f', w) = if_read fs f sz (sint (of_nat off :: 64 word)) (p_world p);
                      p1 = p\<lparr>p_file := Some f', p_world := w\<rparr>;
                      h1 = h\<lparr>h_error := err r\<rparr>
                  in if h_error h1 = 0 then (read_reply h1 sz buf, p1)
                     else (Inr (on_stack h1), p1)))
      | _ \<Rightarrow> (Inl Out_of_bounds, p))"

definition dsp_write :: "'w s3fs \<Rightarrow> header \<Rightarrow> 8 word list \<Rightarrow> 'w proc \<Rightarrow> 'w dsp" where
  "dsp_write fs h0 data p =
     (let h = h0\<lparr>h_payload := 0\<rparr> in
      case (field data 0 8, field data 8 8) of
        (Some off, Some sz) \<Rightarrow>
          (case p_file p of None \<Rightarrow> (Inl Null_pointer, p)
           | Some f \<Rightarrow>
               if length data < 16 + sz then (Inl Out_of_bounds, p)
               else
                 (let (r, n, f', w) = if_write fs f (take sz (drop 16 data))
                        (sint (of_nat off :: 64 word)) (p_world p);
                      p1 = p\<lparr>p_file := Some f', p_world := w\<rparr>;
                      h1 = h\<lparr>h_error := err r\<rparr>
                  in if h_error h1 \<noteq> 0 then (Inr (on_stack h1), p1)
                     else (Inr (on_heap (h1\<lparr>h_payload := 8\<rparr>) (Bytes (le_bytes 8 n))), p1)))
      | _ \<Rightarrow> (Inl Out_of_bounds, p))"

definition dsp_flush :: "'w s3fs \<Rightarrow> header \<Rightarrow> 'w proc \<Rightarrow> 'w dsp" where
  "dsp_flush fs h p =
     (case p_file p of None \<Rightarrow> (Inl Null_pointer, p)
      | Some f \<Rightarrow>
          (let (r, f', w) = if_flush fs f (p_world p)
           in (Inr (on_stack (h\<lparr>h_error := err r, h_payload := 0\<rparr>)),
               p\<lparr>p_file := Some f', p_world := w\<rparr>)))"

definition dsp_truncate :: "'w s3fs \<Rightarrow> header \<Rightarrow> 8 word list \<Rightarrow> 'w proc \<Rightarrow> 'w dsp" where
  "dsp_truncate fs h data p =
     (case p_file p of None \<Rightarrow> (Inl Null_pointer, p)
      | Some f \<Rightarrow>
          (case field data 0 8 of None \<Rightarrow> (Inl Out_of_bounds, p)
           | Some sz \<Rightarrow>
               (let (r, f', w) = if_truncate fs f (sint (of_nat sz :: 64 word)) (p_world p)
                in (Inr (on_stack (h\<lparr>h_error := err r, h_payload := 0\<rparr>)),
                    p\<lparr>p_file := Some f', p_world := w\<rparr>))))"

definition dsp_stat :: "'w s3fs \<Rightarrow> header \<Rightarrow> 8 word list option \<Rightarrow> 'w proc \<Rightarrow> 'w dsp" where
  "dsp_stat fs h0 data p =
     (let path = (case data of None \<Rightarrow> None | Some d \<Rightarrow> cstring_at d 0) in
      case (if p_file p = None then get_tag_fs None path else p_file p) of
        None \<Rightarrow> (Inr (on_stack h0), p)
      | Some f \<Rightarrow>
          (let h = h0\<lparr>h_payload := 0\<rparr>;
               (r, st, f', w) = if_getstat fs f path (p_world p);
               p1 = p\<lparr>p_file := Some f', p_world := w\<rparr>;
               h1 = h\<lparr>h_error := err r\<rparr>
           in if h_error h1 \<noteq> 0 then (Inr (on_stack h1), p1)
              else (Inr (on_heap (h1\<lparr>h_payload := of_nat sizeof_stat\<rparr>) (Stat st)), p1)))"

definition dsp_cache :: "header \<Rightarrow> 8 word list \<Rightarrow> 'w proc \<Rightarrow> 'w dsp" where
  "dsp_cache h data p =
     (case (field data 0 8, cstring_at data 8) of
        (Some n, Some path) \<Rightarrow>
          if PATH_MAX \<le> length path then (Inl Out_of_bounds, p)
          else (Inr (on_stack (h\<lparr>h_payload := 0\<rparr>)), p\<lparr>p_cache_size := n, p_cachepath := path\<rparr>)
      | _ \<Rightarrow> (Inl Out_of_bounds, p))"

definition dsp_log :: "header \<Rightarrow> 8 word list \<Rightarrow> 'w proc \<Rightarrow> 'w dsp" where
  "dsp_log h data p =
     (case cstring_at data 0 of
        Some mark \<Rightarrow>
          if PATH_MAX \<le> length mark then (Inl Out_of_bounds, p)
          else (Inr (on_stack (h\<lparr>h_payload := 0\<rparr>)), p\<lparr>p_debug_mark := mark\<rparr>)
      | None \<Rightarrow> (Inl Out_of_bounds, p))"

text \<open>
  The switch. Without data only three commands are performed; the others leave the loop with
  \<open>msg_out\<close> still null.
\<close>

definition dsp_switch :: "'w s3fs \<Rightarrow> header \<Rightarrow> 8 word list option \<Rightarrow> 'w proc \<Rightarrow> 'w dsp" where
  "dsp_switch fs h data p =
     (if h_command h = MFS_CLOSE then dsp_close fs h p
      else if h_command h = MFS_FLUSH then dsp_flush fs h p
      else if h_command h = MFS_STAT then dsp_stat fs h data p
      else case data of
        None \<Rightarrow> (Inl Null_pointer, p)
      | Some d \<Rightarrow>
          if h_command h = MFS_OPEN then dsp_open fs h d p
          else if h_command h = MFS_REMOVE then dsp_remove fs h d p
          else if h_command h = MFS_READ then dsp_read fs h d p
          else if h_command h = MFS_WRITE then dsp_write fs h d p
          else if h_command h = MFS_TRUNCATE then dsp_truncate fs h d p
          else if h_command h = MFS_CACHE then dsp_cache h d p
          else if h_command h = MFS_LOG then dsp_log h d p
          else (Inr (on_stack h), p))"

text \<open>The end of \<open>dspcmd\<close>: the answer is sent, then the block of some commands is deleted.\<close>

definition dsp_answer :: "msg \<Rightarrow> 'w proc \<Rightarrow> (fault + int) \<times> 'w proc" where
  "dsp_answer m p =
     (let h = (m_header m)\<lparr>h_mode := OP_ANSWER, h_error := - h_error (m_header m)\<rparr> in
      if \<not> m_heap m \<and> h_payload h \<noteq> 0 then (Inl Out_of_bounds, p)
      else
        (let p1 = p\<lparr>p_sent := p_sent p @ [\<lparr>a_header = h, a_body = m_body m\<rparr>]\<rparr>;
             iret = sint (h_error h)
         in if h_command h = MFS_STAT \<or> h_command h = MFS_READ \<and> h_payload h \<noteq> 0 then
              (if m_heap m then (Inr iret, p1) else (Inl Bad_free, p1))
            else (Inr iret, p1)))"

definition dspcmd :: "'w s3fs \<Rightarrow> header \<Rightarrow> 8 word list option \<Rightarrow> 'w proc \<Rightarrow> (fault + int) \<times> 'w proc" where
  "dspcmd fs h data p =
     (case dsp_switch fs h data p of
        (Inl e, p1) \<Rightarrow> (Inl e, p1) | (Inr m, p1) \<Rightarrow> dsp_answer m p1)"

section \<open>The loop of the child\<close>

text \<open>
  What the socket delivers: an error, or bytes, of which one \<open>read\<close> takes no more than it asks
  for. Past the end of the input \<open>read\<close> returns 0 at once, for ever.
\<close>

datatype rd = Rerr | Rdata "8 word list"

fun rd_read :: "nat \<Rightarrow> rd list \<Rightarrow> 8 word list option \<times> rd list" where
  "rd_read n [] = (Some [], [])"
| "rd_read n (Rerr # r) = (None, r)"
| "rd_read n (Rdata b # r) = (if length b \<le> n then (Some b, r) else (Some (take n b), Rdata (drop n b) # r))"

datatype phase =
    Ph_header
  | Ph_payload header "8 word list"
  | Ph_exit int
  | Ph_fault fault

record 'w child =
  c_input :: "rd list"
  c_phase :: phase
  c_proc :: "'w proc"
  c_iret :: int

definition dispatched :: "'w s3fs \<Rightarrow> header \<Rightarrow> 8 word list option \<Rightarrow> 'w child \<Rightarrow> 'w child" where
  "dispatched fs h data c =
     (case dspcmd fs h data (c_proc c) of
        (Inl e, p) \<Rightarrow> c\<lparr>c_phase := Ph_fault e, c_proc := p\<rparr>
      | (Inr iret, p) \<Rightarrow>
          c\<lparr>c_proc := p, c_iret := iret, c_phase :=
            (if h_command h = MFS_CLOSE \<or> h_command h = MFS_REMOVE \<or> h_command h = MFS_OPEN \<and> iret \<noteq> 0
             then Ph_exit iret else if iret = - 1 then Ph_exit iret else Ph_header)\<rparr>)"

definition header_ok :: "header \<Rightarrow> bool" where
  "header_ok h \<longleftrightarrow> h_version h = MULTIFS_PROTO_VERSION \<and> h_magic h = MULTIFS_HEADER_MAGIC
     \<and> h_mode h = OP_REQUEST"

text \<open>One call of \<open>read\<close> and what is done with its result, up to the next call.\<close>

fun child_step :: "'w s3fs \<Rightarrow> 'w child \<Rightarrow> 'w child" where
  "child_step fs c =
     (case c_phase c of
        Ph_header \<Rightarrow>
          (let (got, input) = rd_read sizeof_header (c_input c); c1 = c\<lparr>c_input := input\<rparr>
           in case got of
                None \<Rightarrow> c1\<lparr>c_phase := Ph_exit (c_iret c)\<rparr>
              | Some bs \<Rightarrow>
                  (let h = parse_header bs in
                   if \<not> header_ok h then c1
                   else if h_payload h \<noteq> 0 then c1\<lparr>c_phase := Ph_payload h []\<rparr>
                   else dispatched fs h None c1))
      | Ph_payload h acc \<Rightarrow>
          (let (got, input) = rd_read (unat (h_payload h) - length acc) (c_input c);
               c1 = c\<lparr>c_input := input\<rparr>
           in case got of
                None \<Rightarrow> dispatched fs h None c1
              | Some bs \<Rightarrow>
                  (let acc' = acc @ bs in
                   if length acc' < unat (h_payload h) then c1\<lparr>c_phase := Ph_payload h acc'\<rparr>
                   else dispatched fs h (Some (acc' @ [0])) c1))
      | Ph_exit i \<Rightarrow> c
      | Ph_fault e \<Rightarrow> c)"

definition new_proc :: "'w \<Rightarrow> 'w proc" where
  "new_proc w = \<lparr>p_file = None, p_cache_size = 0, p_debug_mark = [], p_cachepath = [], p_sent = [],
     p_world = w\<rparr>"

definition new_child :: "rd list \<Rightarrow> 'w \<Rightarrow> 'w child" where
  "new_child input w = \<lparr>c_input = input, c_phase = Ph_header, c_proc = new_proc w, c_iret = 0\<rparr>"

declare child_step.simps [simp del]

inductive child_reach :: "'w s3fs \<Rightarrow> 'w child \<Rightarrow> 'w child \<Rightarrow> bool" for fs c0 where
  start: "child_reach fs c0 c0"
| step: "child_reach fs c0 c \<Longrightarrow> child_reach fs c0 (child_step fs c)"

section \<open>The wire format\<close>

lemma le_bytes_length [simp]: "length (le_bytes k n) = k"
  by (induction k arbitrary: n) auto

lemma le_val_bytes: "le_val (le_bytes k n) = n mod 256 ^ k"
proof (induction k arbitrary: n)
  case 0
  then show ?case by simp
next
  case (Suc k)
  have "n mod (256 * 256 ^ k) = n mod 256 + 256 * (n div 256 mod 256 ^ k)"
    by (simp add: mod_mult2_eq)
  moreover have "unat (of_nat (n mod 256) :: 8 word) = n mod 256"
    by (simp add: unat_of_nat)
  ultimately show ?case using Suc by simp
qed

lemma le_val_word: "of_nat (le_val (le_bytes 4 (unat (w :: 32 word)))) = w"
proof -
  have "unat w < 256 ^ 4" using unsigned_less [of w, where ?'a = nat] by simp
  then show ?thesis by (simp add: le_val_bytes)
qed

lemma header_bytes_length [simp]: "length (header_bytes h) = sizeof_header"
  by (simp add: header_bytes_def sizeof_header_def)

lemma take_record:
  assumes "\<And>w. length (f w) = n"
  shows "i < length ws \<Longrightarrow> take n (drop (n * i) (concat (map f ws) @ z)) = f (ws ! i)"
proof (induction ws arbitrary: i)
  case Nil
  then show ?case by simp
next
  case (Cons w ws)
  then show ?case by (cases i) (simp_all add: assms)
qed

lemma header_field_nth:
  assumes "i < 8"
  shows "header_field (header_bytes h) i =
    [h_magic h, h_version h, h_mode h, h_command h, h_payload h, h_error h, h_sequence h, h_reserved h] ! i"
proof -
  let ?ws = "[h_magic h, h_version h, h_mode h, h_command h, h_payload h, h_error h, h_sequence h, h_reserved h]"
  have "take 4 (drop (4 * i) (header_bytes h @ z)) = le_bytes 4 (unat (?ws ! i))" for z
    unfolding header_bytes_def using assms by (intro take_record) simp_all
  note t = this
  show ?thesis unfolding header_field_def t by (rule le_val_word)
qed

lemma parse_header_bytes: "parse_header (header_bytes h) = h"
  by (simp add: parse_header_def header_field_nth)

section \<open>Answers\<close>

text \<open>What every command keeps: the log of answers and the fields an answer echoes.\<close>

definition answers :: "header \<Rightarrow> 'w proc \<Rightarrow> 'w dsp \<Rightarrow> bool" where
  "answers h p r \<longleftrightarrow> (\<forall>m p1. r = (Inr m, p1) \<longrightarrow>
     p_sent p1 = p_sent p \<and> h_magic (m_header m) = h_magic h \<and> h_version (m_header m) = h_version h
     \<and> h_command (m_header m) = h_command h \<and> h_sequence (m_header m) = h_sequence h
     \<and> (m_heap m \<longrightarrow> body_size (m_body m) = unat (h_payload (m_header m)))
     \<and> (\<not> m_heap m \<longrightarrow> m_body m = Bytes []))"

lemma answersI:
  assumes "\<And>m p1. r = (Inr m, p1) \<Longrightarrow>
     p_sent p1 = p_sent p \<and> h_magic (m_header m) = h_magic h \<and> h_version (m_header m) = h_version h
     \<and> h_command (m_header m) = h_command h \<and> h_sequence (m_header m) = h_sequence h
     \<and> (m_heap m \<longrightarrow> body_size (m_body m) = unat (h_payload (m_header m)))
     \<and> (\<not> m_heap m \<longrightarrow> m_body m = Bytes [])"
  shows "answers h p r"
  unfolding answers_def using assms by blast

lemmas dsp_defs = on_stack_def on_heap_def Let_def

named_theorems answers_rules

lemma answers_open [answers_rules]: "answers h p (dsp_open fs h d p)"
  by (rule answersI) (simp add: dsp_open_def dsp_defs split: if_splits option.splits prod.splits; auto)

lemma answers_close [answers_rules]: "answers h p (dsp_close fs h p)"
  by (rule answersI) (auto simp: dsp_close_def dsp_defs split: option.splits prod.splits)

lemma answers_remove [answers_rules]: "answers h p (dsp_remove fs h d p)"
  by (rule answersI) (auto simp: dsp_remove_def dsp_defs split: if_splits option.splits prod.splits)

lemma read_reply_answers:
  "read_reply h sz buf = Inr m \<Longrightarrow>
     h_magic (m_header m) = h_magic h \<and> h_version (m_header m) = h_version h
     \<and> h_command (m_header m) = h_command h \<and> h_sequence (m_header m) = h_sequence h
     \<and> (m_heap m \<longrightarrow> body_size (m_body m) = unat (h_payload (m_header m)))
     \<and> (\<not> m_heap m \<longrightarrow> m_body m = Bytes [])"
  by (auto simp: read_reply_def dsp_defs split: if_splits)

lemma answers_read [answers_rules]: "answers h p (dsp_read fs h d p)"
  by (rule answersI)
    (auto simp: dsp_read_def dsp_defs split: if_splits option.splits prod.splits dest!: read_reply_answers)

lemma answers_write [answers_rules]: "answers h p (dsp_write fs h d p)"
  by (rule answersI) (auto simp: dsp_write_def dsp_defs split: if_splits option.splits prod.splits)

lemma answers_flush [answers_rules]: "answers h p (dsp_flush fs h p)"
  by (rule answersI) (auto simp: dsp_flush_def dsp_defs split: option.splits prod.splits)

lemma answers_truncate [answers_rules]: "answers h p (dsp_truncate fs h d p)"
  by (rule answersI) (auto simp: dsp_truncate_def dsp_defs split: option.splits prod.splits)

lemma answers_stat [answers_rules]: "answers h p (dsp_stat fs h d p)"
  by (rule answersI)
    (simp add: dsp_stat_def dsp_defs split: if_splits option.splits prod.splits; auto simp: sizeof_stat_def)

lemma answers_cache [answers_rules]: "answers h p (dsp_cache h d p)"
  by (rule answersI) (auto simp: dsp_cache_def dsp_defs split: if_splits option.splits)

lemma answers_log [answers_rules]: "answers h p (dsp_log h d p)"
  by (rule answersI) (auto simp: dsp_log_def dsp_defs split: if_splits option.splits)

lemma answers_other [answers_rules]: "answers h p (Inr (on_stack h), p)" "answers h p (Inl e, p)"
  by (simp_all add: answers_def on_stack_def)

lemma answers_switch: "answers h p (dsp_switch fs h data p)"
  by (cases data) (simp_all add: dsp_switch_def answers_rules)

lemma dsp_answer_Inr:
  assumes "dsp_answer m p = (Inr iret, p')"
  shows "\<exists>a. p' = p\<lparr>p_sent := p_sent p @ [a]\<rparr> \<and> a_body a = m_body m
    \<and> a_header a = (m_header m)\<lparr>h_mode := OP_ANSWER, h_error := - h_error (m_header m)\<rparr>
    \<and> iret = sint (h_error (a_header a)) \<and> (m_heap m \<or> h_payload (m_header m) = 0)"
  using assms by (auto simp: dsp_answer_def Let_def split: if_splits)

lemma step_phase_exit: "c_phase c = Ph_exit i \<Longrightarrow> child_step fs c = c"
  by (simp add: child_step.simps)

lemma header_zero_not_ok: "\<not> header_ok (parse_header [])"
  by (simp add: header_ok_def parse_header_def header_field_def sizeof_header_def numeral_eq_Suc)

lemma spin_step:
  assumes "c_input c = []"
    and "c_phase c = Ph_header \<or> (\<exists>h acc. c_phase c = Ph_payload h acc \<and> length acc < unat (h_payload h))"
  shows "child_step fs c = c"
proof -
  have "c\<lparr>c_input := []\<rparr> = c" using assms(1) by simp
  moreover have "c_phase c = Ph_payload h acc \<Longrightarrow> c\<lparr>c_input := [], c_phase := Ph_payload h acc\<rparr> = c" for h acc
    using assms(1) by simp
  ultimately show ?thesis using assms header_zero_not_ok by (auto simp: child_step.simps Let_def)
qed

text \<open>While a payload is read, fewer bytes have come than were announced.\<close>

definition child_ok :: "'w child \<Rightarrow> bool" where
  "child_ok c \<longleftrightarrow> (\<forall>h acc. c_phase c = Ph_payload h acc \<longrightarrow> length acc < unat (h_payload h))"

lemma dispatched_phase: "c_phase (dispatched fs h data c) \<noteq> Ph_payload h' acc"
  by (auto simp: dispatched_def split: prod.splits sum.splits if_splits)

lemma child_step_ok:
  assumes "child_ok c"
  shows "child_ok (child_step fs c)"
proof (cases "c_phase c")
  case Ph_header
  obtain got input where r: "rd_read sizeof_header (c_input c) = (got, input)" by fastforce
  show ?thesis
    using Ph_header
    by (cases got) (auto simp: child_step.simps child_ok_def r Let_def dispatched_phase unat_gt_0)
next
  case (Ph_payload h acc)
  obtain got input where r: "rd_read (unat (h_payload h) - length acc) (c_input c) = (got, input)"
    by fastforce
  show ?thesis
    using Ph_payload
    by (cases got) (auto simp: child_step.simps child_ok_def r Let_def dispatched_phase)
qed (use assms in \<open>auto simp: child_step.simps\<close>)

lemma child_reach_ok: "child_reach fs c0 c \<Longrightarrow> child_ok c0 \<Longrightarrow> child_ok c"
  by (induction rule: child_reach.induct) (auto intro: child_step_ok)

section \<open>Progress\<close>

fun input_size :: "rd list \<Rightarrow> nat" where
  "input_size [] = 0"
| "input_size (Rerr # r) = Suc (input_size r)"
| "input_size (Rdata b # r) = Suc (length b) + input_size r"

lemma rd_read_size:
  "0 < n \<Longrightarrow> input \<noteq> [] \<Longrightarrow> rd_read n input = (got, rest) \<Longrightarrow> input_size rest < input_size input"
  by (cases input; cases "hd input") (auto split: if_splits)

definition waiting :: "'w child \<Rightarrow> bool" where
  "waiting c \<longleftrightarrow> (case c_phase c of Ph_exit i \<Rightarrow> False | Ph_fault e \<Rightarrow> False | _ \<Rightarrow> True)"

lemma dispatched_input: "c_input (dispatched fs h data c) = c_input c"
  by (auto simp: dispatched_def split: prod.splits sum.splits)

lemma child_step_size:
  assumes "child_ok c" "waiting c" "c_input c \<noteq> []"
  shows "input_size (c_input (child_step fs c)) < input_size (c_input c)"
proof (cases "c_phase c")
  case Ph_header
  obtain got input where r: "rd_read sizeof_header (c_input c) = (got, input)" by fastforce
  then have "input_size input < input_size (c_input c)"
    using rd_read_size [OF _ assms(3) r] by (simp add: sizeof_header_def)
  then show ?thesis using Ph_header
    by (cases got) (simp_all add: child_step.simps r Let_def dispatched_input)
next
  case (Ph_payload h acc)
  obtain got input where r: "rd_read (unat (h_payload h) - length acc) (c_input c) = (got, input)"
    by fastforce
  have "0 < unat (h_payload h) - length acc" using assms(1) Ph_payload by (simp add: child_ok_def)
  then have "input_size input < input_size (c_input c)" using rd_read_size assms(3) r by blast
  then show ?thesis using Ph_payload
    by (cases got) (simp_all add: child_step.simps r Let_def dispatched_input)
qed (use assms(2) in \<open>simp_all add: waiting_def\<close>)

lemma child_settles:
  "child_ok c \<Longrightarrow> \<exists>n \<le> input_size (c_input c).
     \<not> waiting ((child_step fs ^^ n) c) \<or> c_input ((child_step fs ^^ n) c) = []"
proof (induction "input_size (c_input c)" arbitrary: c rule: less_induct)
  case less
  show ?case
  proof (cases "waiting c \<and> c_input c \<noteq> []")
    case False
    then show ?thesis by (intro exI [of _ 0]) auto
  next
    case True
    then have sz: "input_size (c_input (child_step fs c)) < input_size (c_input c)"
      using child_step_size less.prems by blast
    from less.hyps [OF this child_step_ok [OF less.prems]] obtain n where
      n: "n \<le> input_size (c_input (child_step fs c))"
      "\<not> waiting ((child_step fs ^^ n) (child_step fs c)) \<or> c_input ((child_step fs ^^ n) (child_step fs c)) = []"
      by blast
    have e: "(child_step fs ^^ Suc n) c = (child_step fs ^^ n) (child_step fs c)"
      by (simp add: funpow_swap1)
    show ?thesis by (rule exI [of _ "Suc n"]) (use n sz e in simp)
  qed
qed

lemma new_child_ok: "child_ok (new_child input w)"
  by (simp add: child_ok_def new_child_def)

section \<open>Properties\<close>

text \<open>
  The wire format: the 32 bytes of a header, little-endian words in the order of
  \<open>multifs_command_header\<close>, are read back as that header.
\<close>

theorem header_round_trip:
  "parse_header (header_bytes h) = h \<and> length (header_bytes h) = sizeof_header"
  by (simp add: parse_header_bytes)

text \<open>
  C19: a command that does not fault is answered once. The one answer that \<open>dspcmd\<close> appends to
  what was sent is marked as an answer, repeats the command and the sequence number of the request,
  carries as many bytes as its payload field says, and its error field is what \<open>dspcmd\<close> returns.
\<close>

theorem dspcmd_answers_once:
  assumes "dspcmd fs h data p = (Inr iret, p')"
  shows "\<exists>a. p_sent p' = p_sent p @ [a] \<and> h_mode (a_header a) = OP_ANSWER
    \<and> h_magic (a_header a) = h_magic h \<and> h_version (a_header a) = h_version h
    \<and> h_command (a_header a) = h_command h \<and> h_sequence (a_header a) = h_sequence h
    \<and> body_size (a_body a) = unat (h_payload (a_header a)) \<and> iret = sint (h_error (a_header a))"
proof -
  from assms obtain m p1 where m: "dsp_switch fs h data p = (Inr m, p1)" "dsp_answer m p1 = (Inr iret, p')"
    by (auto simp: dspcmd_def split: prod.splits sum.splits)
  note sw = answers_switch [of h p fs data, unfolded answers_def, rule_format, OF m(1)]
  from dsp_answer_Inr [OF m(2)] obtain a where
    a: "p' = p1\<lparr>p_sent := p_sent p1 @ [a]\<rparr>" "a_body a = m_body m"
    "a_header a = (m_header m)\<lparr>h_mode := OP_ANSWER, h_error := - h_error (m_header m)\<rparr>"
    "iret = sint (h_error (a_header a))" "m_heap m \<or> h_payload (m_header m) = 0" by blast
  have "body_size (m_body m) = unat (h_payload (m_header m))"
    using a(5) sw by (cases "m_heap m") simp_all
  then show ?thesis using a(1-4) sw by (intro exI [of _ a]) simp
qed

definition request :: "32 word \<Rightarrow> 32 word \<Rightarrow> header" where
  "request command payload = \<lparr>h_magic = MULTIFS_HEADER_MAGIC, h_version = MULTIFS_PROTO_VERSION,
     h_mode = OP_REQUEST, h_command = command, h_payload = payload, h_error = 0, h_sequence = 9,
     h_reserved = 0\<rparr>"

theorem dspcmd_answers_once_witness:
  "\<exists>a. p_sent (snd (dspcmd missing_object_fs (request MFS_FLUSH 0) None
           ((new_proc (0::nat))\<lparr>p_file := Some (FtpFile new_stubio)\<rparr>))) = [a]
     \<and> h_mode (a_header a) = OP_ANSWER"
  using dspcmd_answers_once [of missing_object_fs "request MFS_FLUSH 0" None
      "(new_proc (0::nat))\<lparr>p_file := Some (FtpFile new_stubio)\<rparr>" 0]
  by (simp add: dspcmd_def dsp_switch_def dsp_flush_def dsp_answer_def request_def new_proc_def
      on_stack_def err_def Let_def)

text \<open>
  A \<open>STAT\<close> that fails kills the child. The answer carries the error and is sent, but then
  \<open>dspcmd\<close> deletes \<open>msg_out\<close>, which still points to the header on the stack.
\<close>

theorem failed_stat_frees_stack:
  assumes "h_command h = MFS_STAT" "p_file p = Some f" "err r \<noteq> 0"
    and "if_getstat fs f (case data of None \<Rightarrow> None | Some d \<Rightarrow> cstring_at d 0) (p_world p) = (r, st, f', w)"
  shows "\<exists>p' a. dspcmd fs h data p = (Inl Bad_free, p') \<and> p_sent p' = p_sent p @ [a]
    \<and> h_error (a_header a) = - err r"
  using assms
  by (simp add: dspcmd_def dsp_switch_def dsp_stat_def dsp_answer_def on_stack_def Let_def)

theorem failed_stat_frees_stack_witness:
  "\<exists>p' a. dspcmd missing_object_fs (request MFS_STAT 0) None
      ((new_proc (0::nat))\<lparr>p_file := Some (S3File (new_s3io\<lparr>open_success := True\<rparr>))\<rparr>) = (Inl Bad_free, p')
    \<and> p_sent p' = p_sent (new_proc (0::nat)) @ [a] \<and> h_error (a_header a) = 2"
  using failed_stat_frees_stack [of "request MFS_STAT 0" "(new_proc (0::nat))\<lparr>p_file := Some (S3File (new_s3io\<lparr>open_success := True\<rparr>))\<rparr>"
      "S3File (new_s3io\<lparr>open_success := True\<rparr>)" "- 2" missing_object_fs None]
  by (simp add: request_def new_proc_def err_def s3_getstat_def missing_object_fs_def)

text \<open>
  Commands before the first \<open>OPEN\<close> follow a null pointer: the check for a missing file
  object in \<open>dspcmd\<close> has an empty body, so closing, reading, writing, flushing and truncating
  without a file fault and send no answer.
\<close>

theorem commands_before_open_fault:
  assumes "p_file p = None" "h_command h \<in> {MFS_CLOSE, MFS_READ, MFS_WRITE, MFS_FLUSH, MFS_TRUNCATE}"
    and "16 \<le> length d" "the (field d 8 8) < 2 ^ 63"
  shows "dspcmd fs h (Some d) p = (Inl Null_pointer, p)"
  using assms
  by (auto simp: dspcmd_def dsp_switch_def dsp_close_def dsp_read_def dsp_write_def dsp_flush_def
      dsp_truncate_def field_def Let_def)

theorem commands_before_open_fault_witness:
  "dspcmd missing_object_fs (request MFS_READ 16) (Some [0,0,0,0,0,0,0,0, 4,0,0,0,0,0,0,0, 0]) (new_proc (0::nat)) = (Inl Null_pointer, new_proc (0::nat))"
  by (rule commands_before_open_fault) (simp_all add: new_proc_def request_def field_def)

text \<open>
  An \<open>OPEN\<close> whose protocol is unknown is answered as a success: the error is compared
  where it should be assigned, so the answer has the error field of the request negated, and the child
  goes on without a file object.
\<close>

theorem open_unknown_protocol_succeeds:
  assumes "h_command h = MFS_OPEN" "p_file p = None" "4 \<le> length d" "field d 0 4 = Some mode"
    and "cstring_at d 4 = Some path" "get_tag_fs None (Some path) = None" "h_error h = 0"
  shows "\<exists>p' a. dspcmd fs h (Some d) p = (Inr 0, p') \<and> p_file p' = None
    \<and> p_sent p' = p_sent p @ [a] \<and> h_error (a_header a) = 0"
  using assms
  by (simp add: dspcmd_def dsp_switch_def dsp_open_def dsp_answer_def on_stack_def Let_def)

lemma path_h: "char_of (104 :: nat) = CHR ''h''" "char_of (58 :: nat) = CHR '':''"
  by code_simp+

theorem open_unknown_protocol_succeeds_witness:
  "\<exists>p' a. dspcmd missing_object_fs (request MFS_OPEN 6) (Some [0, 0, 0, 0, 104, 58, 0]) (new_proc (0::nat)) = (Inr 0, p')
    \<and> p_file p' = None \<and> p_sent p' = p_sent (new_proc (0::nat)) @ [a] \<and> h_error (a_header a) = 0"
  by (rule open_unknown_protocol_succeeds [where mode = 0 and path = "''h:''"])
    (simp_all add: request_def new_proc_def field_def cstring_at_def get_tag_fs_def substr_def path_h)

text \<open>
  The child works off its input: whatever the socket delivers, after at most as many reads as
  there are bytes and events the child has exited, faulted, or is at the end of the input.
\<close>

theorem child_consumes_input:
  "\<exists>n \<le> input_size input. \<not> (waiting ((child_step fs ^^ n) (new_child input w))
     \<and> c_input ((child_step fs ^^ n) (new_child input w)) \<noteq> [])"
  using child_settles [OF new_child_ok, of input w fs] by (simp add: new_child_def)

text \<open>
  At the end of the input the child does not stop: when the parent has closed the socket,
  \<open>read\<close> returns 0, which neither loop treats as an end, so a child that has not exited by
  then repeats the same state for ever.
\<close>

theorem child_spins_at_end_of_input:
  assumes "child_reach fs (new_child input w) c" "c_input c = []" "waiting c"
  shows "(child_step fs ^^ n) c = c"
proof -
  have "child_ok c" using child_reach_ok [OF assms(1) new_child_ok] .
  then have "child_step fs c = c"
    using assms(2,3) by (intro spin_step) (auto simp: waiting_def child_ok_def split: phase.splits)
  then show ?thesis by (induction n) simp_all
qed

theorem child_spins_at_end_of_input_witness:
  "(child_step missing_object_fs ^^ 5) (new_child [] 0) = new_child [] 0"
  by (rule child_spins_at_end_of_input [OF child_reach.start]) (simp_all add: new_child_def waiting_def)

text \<open>
  A \<open>CLOSE\<close> request ends the child: having read its header, the child closes the file
  and exits with the negated result of the close, whatever else the socket holds.
\<close>

theorem close_request_exits:
  assumes "c_phase c = Ph_header" "c_input c = Rdata (header_bytes h) # rest" "header_ok h"
    and "h_command h = MFS_CLOSE" "h_payload h = 0" "p_file (c_proc c) = Some f"
    and "if_close fs f (p_world (c_proc c)) = (r, f', w)"
  shows "c_phase (child_step fs c) = Ph_exit (sint (- err r)) \<and> p_file (c_proc (child_step fs c)) = Some f'"
  using assms
  by (simp add: child_step.simps parse_header_bytes dispatched_def dspcmd_def dsp_switch_def dsp_close_def
      dsp_answer_def on_stack_def Let_def)

theorem close_request_exits_witness:
  "c_phase (child_step missing_object_fs ((new_child [Rdata (header_bytes (request MFS_CLOSE 0))] 0)
      \<lparr>c_proc := (new_proc (0::nat))\<lparr>p_file := Some (FtpFile new_stubio)\<rparr>\<rparr>)) = Ph_exit 0"
  using close_request_exits [of "(new_child [Rdata (header_bytes (request MFS_CLOSE 0))] 0)
      \<lparr>c_proc := (new_proc (0::nat))\<lparr>p_file := Some (FtpFile new_stubio)\<rparr>\<rparr>" "request MFS_CLOSE 0" "[]"
      "FtpFile new_stubio" missing_object_fs 0 "FtpFile new_stubio" 0]
  by (simp add: new_child_def new_proc_def request_def header_ok_def err_def)

end
