(* ===== verification/Page_Store.thy ===== *)
theory Page_Store
  imports Page_List String_Util
begin

text \<open>
  The page list seen by its clients, and its text form in the cache's stat file
  (\<open>PageList::Serialize\<close> of \<open>protocols/s3/fdcache.cpp\<close>). The locale
  \<open>page_store\<close> is what the code that downloads a file relies on: asking for the missing areas
  and marking them, one after the other, leaves nothing missing. The page list is its interpretation.
  The stat file is the string it holds; opening and locking it is the operating system's.
\<close>

section \<open>The contract of a page store\<close>

locale page_store =
  fixes inv :: "'p \<Rightarrow> bool"
    and total :: "'p \<Rightarrow> int"
    and flag :: "'p \<Rightarrow> int \<Rightarrow> bool option"
    and mark :: "int \<Rightarrow> int \<Rightarrow> bool \<Rightarrow> 'p \<Rightarrow> 'p"
    and missing :: "'p \<Rightarrow> int \<Rightarrow> int \<Rightarrow> (int \<times> int) list"
  assumes mark_inv: "inv p \<Longrightarrow> 0 \<le> a \<Longrightarrow> 0 \<le> n \<Longrightarrow> inv (mark a n b p)"
    and mark_total: "inv p \<Longrightarrow> 0 \<le> a \<Longrightarrow> 0 \<le> n \<Longrightarrow> total (mark a n b p) = max (total p) (a + n)"
    and mark_flag: "inv p \<Longrightarrow> 0 \<le> a \<Longrightarrow> 0 \<le> n \<Longrightarrow> flag (mark a n b p) x =
      (if a \<le> x \<and> x < a + n then Some b else if x < total p then flag p x
       else if 0 \<le> x \<and> x < a then Some False else None)"
    and flag_dom: "inv p \<Longrightarrow> flag p x = None \<longleftrightarrow> x < 0 \<or> total p \<le> x"
    and missing_areas: "inv p \<Longrightarrow> 0 < total p \<Longrightarrow> 0 \<le> a \<Longrightarrow> 0 \<le> n \<Longrightarrow> (s, m) \<in> set (missing p a n) \<Longrightarrow>
      a \<le> s \<and> 0 < m \<and> s + m \<le> total p"
    and missing_all: "inv p \<Longrightarrow> 0 < total p \<Longrightarrow> 0 \<le> a \<Longrightarrow> 0 \<le> n \<Longrightarrow>
      (\<exists>(s, m) \<in> set (missing p a n). s \<le> x \<and> x < s + m) \<longleftrightarrow>
      a \<le> x \<and> (n = 0 \<or> x < a + n) \<and> flag p x = Some False"
begin

definition mark_all :: "(int \<times> int) list \<Rightarrow> 'p \<Rightarrow> 'p" where
  "mark_all as p = fold (\<lambda>(s, m). mark s m True) as p"

lemma mark_all_flag:
  assumes "inv p" "\<forall>(s, m) \<in> set as. 0 \<le> s \<and> 0 < m \<and> s + m \<le> total p"
  shows "inv (mark_all as p) \<and> total (mark_all as p) = total p \<and> flag (mark_all as p) x =
    (if \<exists>(s, m) \<in> set as. s \<le> x \<and> x < s + m then Some True else flag p x)"
  using assms
proof (induction as arbitrary: p)
  case Nil
  then show ?case by (simp add: mark_all_def)
next
  case (Cons sm as)
  obtain s m where sm: "sm = (s, m)" by (cases sm)
  let ?q = "mark s m True p"
  have b: "0 \<le> s" "0 < m" "s + m \<le> total p" using Cons.prems(2) sm by auto
  have q: "inv ?q" "total ?q = total p"
    using mark_inv mark_total Cons.prems(1) b by auto
  have f: "flag ?q x = (if s \<le> x \<and> x < s + m then Some True else flag p x)"
    using mark_flag [OF Cons.prems(1) b(1), of m True x] flag_dom [OF Cons.prems(1), of x] b by auto
  have e: "mark_all (sm # as) p = mark_all as ?q" by (simp add: mark_all_def sm)
  have "\<forall>(s, m) \<in> set as. 0 \<le> s \<and> 0 < m \<and> s + m \<le> total ?q" using Cons.prems(2) q(2) by auto
  from Cons.IH [OF q(1) this] show ?case unfolding e f q(2) using sm by auto
qed

text \<open>Loading every missing area of a range leaves all of it loaded, and changes nothing else.\<close>

theorem load_range:
  assumes "inv p" "0 < total p" "0 \<le> a" "0 \<le> n"
  shows "inv (mark_all (missing p a n) p) \<and> total (mark_all (missing p a n) p) = total p
    \<and> flag (mark_all (missing p a n) p) x =
        (if a \<le> x \<and> (n = 0 \<or> x < a + n) \<and> flag p x = Some False then Some True else flag p x)"
proof -
  have "\<forall>(s, m) \<in> set (missing p a n). 0 \<le> s \<and> 0 < m \<and> s + m \<le> total p"
    using missing_areas [OF assms] assms(3) by fastforce
  note mark_all_flag [OF assms(1) this, of x]
  then show ?thesis unfolding missing_all [OF assms, of x] .
qed

end

definition missing_pages :: "fdpage list \<Rightarrow> int \<Rightarrow> int \<Rightarrow> (int \<times> int) list" where
  "missing_pages pages a n =
     map (\<lambda>u. (pg_offset u, pg_bytes u)) (fst (pl_GetUnloadedPages [] a n pages))"

lemma covers_within:
  assumes c: "contig 0 pages" "0 \<le> a" "0 \<le> n" and u: "u \<in> set (fst (pl_GetUnloadedPages [] a n pages))"
  shows "a \<le> pg_offset u \<and> 0 < pg_bytes u \<and> pg_next u \<le> pl_Size pages"
proof -
  note G = GetUnloadedPages_spec [OF c]
  have pos: "0 < pg_bytes u" using G(1) u by (simp add: areas_def)
  have cov: "pg_offset u \<le> x \<and> x < pg_next u \<Longrightarrow> a \<le> x \<and> st_at pages x = Some False" for x
    using G(2) [of x] u by (auto simp: covers_def)
  have "st_at pages (pg_next u - 1) = Some False" using cov [of "pg_next u - 1"] pos by (simp add: pg_next_def)
  then have "pg_next u - 1 < pl_Size pages"
    using st_at_None_iff [of pages "pg_next u - 1"] c(1) by (auto simp: pl_inv_def)
  then show ?thesis using cov [of "pg_offset u"] pos by (simp add: pg_next_def)
qed

interpretation pages: page_store pl_inv pl_Size st_at "\<lambda>a n b. pl_SetPageLoadedStatus a n b True" missing_pages
proof unfold_locales
  fix p a n b x s m
  assume inv: "pl_inv p" and b: "0 \<le> (a::int)" "0 \<le> (n::int)"
  show "pl_inv (pl_SetPageLoadedStatus a n b True p)" using inv b by (rule SetPageLoadedStatus_inv)
  show "pl_Size (pl_SetPageLoadedStatus a n b True p) = max (pl_Size p) (a + n)"
    using inv b by (rule SetPageLoadedStatus_Size)
  show "st_at (pl_SetPageLoadedStatus a n b True p) x =
      (if a \<le> x \<and> x < a + n then Some b else if x < pl_Size p then st_at p x
       else if 0 \<le> x \<and> x < a then Some False else None)"
    using inv b by (rule SetPageLoadedStatus_st_at)
  assume "0 < pl_Size p"
  then have c: "contig 0 p" using inv pl_inv_contig by blast
  show "(\<exists>(s, m) \<in> set (missing_pages p a n). s \<le> x \<and> x < s + m) \<longleftrightarrow>
      a \<le> x \<and> (n = 0 \<or> x < a + n) \<and> st_at p x = Some False"
    using GetUnloadedPages_spec(2) [OF c b, of x]
    by (simp add: missing_pages_def covers_def pg_next_def)
  assume "(s, m) \<in> set (missing_pages p a n)"
  then obtain u where u: "u \<in> set (fst (pl_GetUnloadedPages [] a n p))" "s = pg_offset u" "m = pg_bytes u"
    by (auto simp: missing_pages_def)
  then show "a \<le> s \<and> 0 < m \<and> s + m \<le> pl_Size p"
    using covers_within [OF c b u(1)] by (simp add: pg_next_def)
next
  fix p x assume "pl_inv p"
  then show "st_at p x = None \<longleftrightarrow> x < 0 \<or> pl_Size p \<le> x" by (rule st_at_None_iff)
qed

section \<open>The stat file\<close>

definition newline :: char where "newline = CHR 0x0A"

definition page_line :: "fdpage \<Rightarrow> string" where
  "page_line p = str (pg_offset p) @ '':'' @ str (pg_bytes p) @ '':'' @ (if pg_loaded p then ''1'' else ''0'')"

definition serialize_text :: "fdpage list \<Rightarrow> string" where
  "serialize_text pages = str (pl_Size pages) @ concat (map (\<lambda>p. newline # page_line p) pages)"

text \<open>Output: \<open>pwrite\<close> at 0 over what the file holds; the file is not truncated first.\<close>

definition Serialize_out :: "fdpage list \<Rightarrow> string \<Rightarrow> string" where
  "Serialize_out pages file = serialize_text pages @ drop (length (serialize_text pages)) file"

text \<open>\<open>getline\<close>: the text up to the delimiter and what is left; it fails at the end.\<close>

definition getline :: "char \<Rightarrow> string \<Rightarrow> (string \<times> string) option" where
  "getline d s = (if s = [] then None
     else Some (takeWhile (\<lambda>c. c \<noteq> d) s, drop 1 (dropWhile (\<lambda>c. c \<noteq> d) s)))"

definition parse_line :: "string \<Rightarrow> strtoofft_error + (int \<times> int \<times> bool) option" where
  "parse_line line =
     (case getline CHR '':'' line of None \<Rightarrow> Inr None
      | Some (part1, rest1) \<Rightarrow> ebind (s3fs_strtoofft (c_str part1) False) (\<lambda>offset.
          case getline CHR '':'' rest1 of None \<Rightarrow> Inr None
          | Some (part2, rest2) \<Rightarrow> ebind (s3fs_strtoofft (c_str part2) False) (\<lambda>sz.
              case getline CHR '':'' rest2 of None \<Rightarrow> Inr None
              | Some (part3, rest3) \<Rightarrow> ebind (s3fs_strtoofft (c_str part3) False) (\<lambda>l.
                  Inr (Some (offset, sz, l = 1))))))"

lemma getline_length: "getline d s = Some (a, r) \<Longrightarrow> length r < length s"
proof -
  assume "getline d s = Some (a, r)"
  then have "s \<noteq> []" "r = drop 1 (dropWhile (\<lambda>c. c \<noteq> d) s)" by (auto simp: getline_def split: if_splits)
  then show ?thesis using length_dropWhile_le [of "\<lambda>c. c \<noteq> d" s] by (cases s) auto
qed

text \<open>The loop over the lines; a line without its three parts is an error (\<open>None\<close>).\<close>

function load_lines :: "string \<Rightarrow> fdpage list \<Rightarrow> strtoofft_error + fdpage list option" where
  "load_lines s pages =
     (case getline newline s of None \<Rightarrow> Inr (Some pages)
      | Some (line, rest) \<Rightarrow> ebind (parse_line line) (\<lambda>r.
          case r of None \<Rightarrow> Inr None
          | Some (offset, sz, is_loaded) \<Rightarrow>
              load_lines rest (pl_SetPageLoadedStatus offset sz is_loaded True pages)))"
  by pat_completeness auto
termination
  by (relation "measure (length \<circ> fst)") (auto dest: getline_length)

declare load_lines.simps [simp del]

definition Serialize_in :: "string \<Rightarrow> strtoofft_error + bool \<times> fdpage list" where
  "Serialize_in file =
     (if file = [] then Inr (True, pl_Init 0 False)
      else case getline newline (c_str file) of None \<Rightarrow> Inr (False, [])
      | Some (line, rest) \<Rightarrow> ebind (s3fs_strtoofft (c_str line) False) (\<lambda>total.
          ebind (load_lines rest []) (\<lambda>r.
            case r of None \<Rightarrow> Inr (False, [])
            | Some pages \<Rightarrow> Inr (if total \<noteq> pl_Size pages then (False, []) else (True, pages)))))"

section \<open>Reading back what was written\<close>

lemma str_no_sep: "c \<in> {newline, CHR '':'', CHR 0x00} \<Longrightarrow> c \<notin> set (str n)"
  by (auto simp: newline_def char_between_def dest: str_chars)

lemma takeWhile_free: "d \<notin> set s \<Longrightarrow> takeWhile (\<lambda>c. c \<noteq> d) (s @ d # t) = s"
  by (induction s) auto

lemma dropWhile_free: "d \<notin> set s \<Longrightarrow> dropWhile (\<lambda>c. c \<noteq> d) (s @ d # t) = d # t"
  by (induction s) auto

lemma getline_split: "d \<notin> set s \<Longrightarrow> getline d (s @ d # t) = Some (s, t)"
  by (simp add: getline_def takeWhile_free dropWhile_free)

lemma getline_last: "d \<notin> set s \<Longrightarrow> s \<noteq> [] \<Longrightarrow> getline d s = Some (s, [])"
proof -
  assume d: "d \<notin> set s" "s \<noteq> []"
  then have e: "takeWhile (\<lambda>c. c \<noteq> d) s = s" "dropWhile (\<lambda>c. c \<noteq> d) s = []" by auto
  show ?thesis unfolding getline_def e using d(2) by simp
qed

lemma c_str_free: "CHR 0x00 \<notin> set s \<Longrightarrow> c_str s = s"
  by (auto simp: c_str_def takeWhile_eq_all_conv)

definition small :: "int \<Rightarrow> bool" where
  "small n \<longleftrightarrow> 0 \<le> n \<and> n \<le> LLONG_MAX"

lemma strtoofft_small: "small n \<Longrightarrow> s3fs_strtoofft (c_str (str n)) False = Inr n"
  by (simp add: c_str_free str_no_sep strtoofft_str small_def LLONG_MIN_def)

lemma str_bit: "str 1 = ''1''" "str 0 = ''0''"
  by code_simp+

lemma parse_page_line:
  "small (pg_offset p) \<Longrightarrow> small (pg_bytes p) \<Longrightarrow>
   parse_line (page_line p) = Inr (Some (pg_offset p, pg_bytes p, pg_loaded p))"
proof -
  assume s: "small (pg_offset p)" "small (pg_bytes p)"
  have f: "getline CHR '':'' (if b then ''1'' else ''0'') = Some (if b then ''1'' else ''0'', [])" for b
    by (simp add: getline_def)
  have v: "s3fs_strtoofft (c_str (if b then ''1'' else ''0'')) False = Inr (if b then 1 else 0)" for b
    using strtoofft_small [of 1, unfolded str_bit] strtoofft_small [of 0, unfolded str_bit]
    by (simp add: small_def LLONG_MAX_def)
  have l1: "getline CHR '':'' (page_line p) = Some (str (pg_offset p),
      str (pg_bytes p) @ CHR '':'' # (if pg_loaded p then ''1'' else ''0''))"
    by (simp add: page_line_def getline_split str_no_sep)
  have l2: "getline CHR '':'' (str (pg_bytes p) @ CHR '':'' # (if pg_loaded p then ''1'' else ''0'')) =
      Some (str (pg_bytes p), if pg_loaded p then ''1'' else ''0'')"
    by (rule getline_split) (simp add: str_no_sep)
  show ?thesis
    unfolding parse_line_def l1 l2 by (simp add: strtoofft_small s l2 f v)
qed

lemma page_line_free: "newline \<notin> set (page_line p)" "CHR 0x00 \<notin> set (page_line p)" "page_line p \<noteq> []"
  using str_no_sep [of newline] str_no_sep [of "CHR 0x00"]
  by (auto simp: page_line_def newline_def)

lemma compress_loop_id: "alternating (b # ps) \<Longrightarrow> compress_loop b (pg_loaded b) ps = b # ps"
  by (induction ps arbitrary: b) auto

lemma Compress_id: "alternating ps \<Longrightarrow> pl_Compress ps = ps"
  by (cases ps) (auto simp: compress_loop_id)

lemma alternating_append: "alternating (ps @ qs) \<Longrightarrow> alternating ps"
  by (induction ps rule: alternating.induct) auto

text \<open>Adding a page at the end of an alternating list extends it by that page.\<close>

lemma add_page:
  assumes "contig 0 (ps @ [p])" "alternating (ps @ [p])"
  shows "pl_SetPageLoadedStatus (pg_offset p) (pg_bytes p) (pg_loaded p) True ps = ps @ [p]"
proof -
  have c: "contig 0 ps" "pg_offset p = limit 0 ps" "0 < pg_bytes p" using assms(1) by (auto simp: contig_append)
  have sz: "pl_Size ps = pg_offset p" using c(1,2) by (simp add: pl_Size_limit)
  have "pl_Resize (pg_offset p + pg_bytes p) (pg_loaded p) ps = ps @ [p]"
  proof (cases "pg_offset p = 0")
    case True
    then have "ps = []" using sz c(1) pl_Size_pos by fastforce
    then show ?thesis using True by (simp add: pl_Resize_def pl_Init_def)
  next
    case False
    have e: "\<lparr>pg_offset = pg_offset p, pg_bytes = pg_bytes p, pg_loaded = pg_loaded p\<rparr> = p" by simp
    show ?thesis using False sz c(3) Compress_id [OF assms(2)] by (simp add: pl_Resize_def Let_def e)
  qed
  then show ?thesis using sz Compress_id [OF assms(2)]
    by (simp add: pl_SetPageLoadedStatus_def Let_def)
qed

lemma load_lines_pages:
  assumes "contig 0 (ps @ qs)" "alternating (ps @ qs)" "\<forall>p \<in> set qs. small (pg_offset p) \<and> small (pg_bytes p)"
  shows "load_lines (drop 1 (concat (map (\<lambda>p. newline # page_line p) qs))) ps = Inr (Some (ps @ qs))"
  using assms
proof (induction qs arbitrary: ps)
  case Nil
  then show ?case by (subst load_lines.simps) (simp add: getline_def)
next
  case (Cons q qs)
  let ?rest = "concat (map (\<lambda>p. newline # page_line p) qs)"
  have g: "getline newline (page_line q @ ?rest) = Some (page_line q, drop 1 ?rest)"
    using page_line_free(1) [of q] page_line_free(3) [of q]
    by (cases qs) (simp_all add: getline_last getline_split)
  have "contig 0 (ps @ [q])" using Cons.prems(1) by (auto simp: contig_append)
  moreover have "alternating (ps @ [q])" using Cons.prems(2) alternating_append [of "ps @ [q]" qs] by simp
  ultimately have a: "pl_SetPageLoadedStatus (pg_offset q) (pg_bytes q) (pg_loaded q) True ps = ps @ [q]"
    by (rule add_page)
  have "load_lines (page_line q @ ?rest) ps = load_lines (drop 1 ?rest) (ps @ [q])"
    using Cons.prems(3) by (subst load_lines.simps) (simp add: g parse_page_line a)
  also have "\<dots> = Inr (Some ((ps @ [q]) @ qs))" by (rule Cons.IH) (use Cons.prems in auto)
  finally show ?case by simp
qed

lemma contig_bounds: "contig pos ps \<Longrightarrow> p \<in> set ps \<Longrightarrow> pos \<le> pg_offset p \<and> 0 < pg_bytes p \<and> pg_next p \<le> limit pos ps"
proof (induction ps arbitrary: pos)
  case Nil
  then show ?case by simp
next
  case (Cons q ps)
  have c: "contig (pg_next q) ps" "pos \<le> pg_offset q" "0 < pg_bytes q" using Cons.prems by auto
  have "pg_next q \<le> limit (pg_next q) ps" using c(1) by (rule limit_ge)
  moreover have "p \<in> set ps \<Longrightarrow> pg_next q \<le> pg_offset p \<and> 0 < pg_bytes p \<and> pg_next p \<le> limit (pg_next q) ps"
    using Cons.IH [OF c(1)] by blast
  ultimately show ?case using c Cons.prems(2) by (auto simp: pg_next_def)
qed

text \<open>
  The same for a list whose neighbours may have the same flag, which is read back in its compressed
  form: every line marks its range.
\<close>

lemma getline_pages:
  "getline newline (page_line q @ concat (map (\<lambda>p. newline # page_line p) qs)) =
    Some (page_line q, drop 1 (concat (map (\<lambda>p. newline # page_line p) qs)))"
  using page_line_free(1) [of q] page_line_free(3) [of q]
  by (cases qs) (simp_all add: getline_last getline_split)

lemma load_lines_Cons:
  "small (pg_offset q) \<Longrightarrow> small (pg_bytes q) \<Longrightarrow>
    load_lines (drop 1 (concat (map (\<lambda>p. newline # page_line p) (q # qs)))) ps =
    load_lines (drop 1 (concat (map (\<lambda>p. newline # page_line p) qs)))
      (pl_SetPageLoadedStatus (pg_offset q) (pg_bytes q) (pg_loaded q) True ps)"
  by (subst load_lines.simps) (simp add: getline_pages parse_page_line)

lemma load_lines_marks:
  assumes "contig pos qs" "pl_inv ps" "pl_Size ps = pos" "\<forall>p \<in> set qs. small (pg_offset p) \<and> small (pg_bytes p)"
  shows "\<exists>ps'. load_lines (drop 1 (concat (map (\<lambda>p. newline # page_line p) qs))) ps = Inr (Some ps')
    \<and> pl_inv ps' \<and> pl_Size ps' = limit pos qs \<and> (\<forall>x. st_at ps' x = (if x < pos then st_at ps x else st_at qs x))"
  using assms
proof (induction qs arbitrary: pos ps)
  case Nil
  then show ?case using st_at_None_iff [OF Nil.prems(2)]
    by (subst load_lines.simps) (auto simp: getline_def)
next
  case (Cons q qs)
  let ?ps = "pl_SetPageLoadedStatus (pg_offset q) (pg_bytes q) (pg_loaded q) True ps"
  have q: "pg_offset q = pos" "0 < pg_bytes q" "contig (pg_next q) qs" "0 \<le> pos"
    using Cons.prems(1,3) pl_Size_nonneg [OF Cons.prems(2)] by auto
  have i: "pl_inv ?ps" "pl_Size ?ps = pg_next q"
    using q Cons.prems(3) SetPageLoadedStatus_inv [OF Cons.prems(2)] SetPageLoadedStatus_Size [OF Cons.prems(2)]
    by (simp_all add: pg_next_def)
  have st: "st_at ?ps x = (if pos \<le> x \<and> x < pg_next q then Some (pg_loaded q)
      else if x < pos then st_at ps x else None)" for x
    using SetPageLoadedStatus_st_at [OF Cons.prems(2), of pos "pg_bytes q" "pg_loaded q" True x] q Cons.prems(3)
    by (simp add: pg_next_def)
  obtain ps' where "load_lines (drop 1 (concat (map (\<lambda>p. newline # page_line p) qs))) ?ps = Inr (Some ps')"
    "pl_inv ps'" "pl_Size ps' = limit (pg_next q) qs" "\<forall>x. st_at ps' x = (if x < pg_next q then st_at ?ps x else st_at qs x)"
    using Cons.IH [OF q(3) i] Cons.prems(4) by auto
  then show ?case using Cons.prems(4) load_lines_Cons [of q qs ps] st q by (auto simp: pg_next_def)
qed

definition reads_back :: "fdpage list \<Rightarrow> string \<Rightarrow> bool" where
  "reads_back pages file \<longleftrightarrow> (\<exists>pages'. Serialize_in file = Inr (True, pages') \<and> pl_inv pages'
     \<and> pl_Size pages' = pl_Size pages \<and> (\<forall>x. st_at pages' x = st_at pages x)
     \<and> (contig 0 pages \<and> alternating pages \<longrightarrow> pages' = pages))"

lemma Serialize_in_text:
  assumes "pl_inv pages" "pl_Size pages \<le> LLONG_MAX"
  shows "reads_back pages (serialize_text pages)"
proof -
  let ?lines = "concat (map (\<lambda>p. newline # page_line p) pages)"
  have sm: "small (pl_Size pages)" using assms by (simp add: small_def pl_Size_nonneg)
  have l: "\<exists>pages'. load_lines (drop 1 ?lines) [] = Inr (Some pages') \<and> pl_inv pages'
     \<and> pl_Size pages' = pl_Size pages \<and> (\<forall>x. st_at pages' x = st_at pages x)
     \<and> (contig 0 pages \<and> alternating pages \<longrightarrow> pages' = pages)"
  proof (cases "contig 0 pages")
    case True
    have b: "\<forall>p \<in> set pages. small (pg_offset p) \<and> small (pg_bytes p)"
      using contig_bounds [OF True] True assms(2)
      by (fastforce simp: small_def pg_next_def pl_Size_limit)
    have e: "pl_inv []" "pl_Size [] = 0" by (simp_all add: pl_inv_def pl_Size_def)
    have "x < 0 \<Longrightarrow> st_at [] x = st_at pages x" for x using st_at_None_iff [OF assms(1), of x] by simp
    moreover obtain pages' where "load_lines (drop 1 ?lines) [] = Inr (Some pages')" "pl_inv pages'"
      "pl_Size pages' = limit 0 pages" "\<forall>x. st_at pages' x = (if x < 0 then st_at [] x else st_at pages x)"
      using load_lines_marks [OF True e b] by blast
    ultimately show ?thesis
      using load_lines_pages [of "[]" pages] b True by (intro exI [of _ pages']) (auto simp: pl_Size_limit)
  next
    case False
    then obtain b where p: "pages = pl_Init 0 b" using assms(1) by (auto simp: pl_inv_def)
    let ?ps = "pl_SetPageLoadedStatus 0 0 b True []"
    have e: "pl_inv []" "pl_Size [] = 0" by (simp_all add: pl_inv_def pl_Size_def)
    have "load_lines (drop 1 ?lines) [] = load_lines [] ?ps"
      using load_lines_Cons [of "\<lparr>pg_offset = 0, pg_bytes = 0, pg_loaded = b\<rparr>" "[]" "[]"]
      by (simp add: p pl_Init_def small_def LLONG_MAX_def)
    also have "\<dots> = Inr (Some ?ps)" by (subst load_lines.simps) (simp add: getline_def)
    finally show ?thesis
      using SetPageLoadedStatus_inv [OF e(1)] SetPageLoadedStatus_Size [OF e(1)]
        SetPageLoadedStatus_st_at [OF e(1), of 0 0 b True] False e(2)
      by (intro exI [of _ ?ps]) (auto simp: p st_at_Init)
  qed
  have z: "c_str (serialize_text pages) = serialize_text pages"
    using page_line_free(2) str_no_sep [of "CHR 0x00"] by (intro c_str_free) (auto simp: serialize_text_def newline_def)
  have g: "getline newline (serialize_text pages) = Some (str (pl_Size pages), drop 1 ?lines)"
    using str_no_sep [of newline "pl_Size pages"]
    by (cases pages) (simp_all add: serialize_text_def getline_last getline_split)
  have ne: "serialize_text pages \<noteq> []" by (simp add: serialize_text_def)
  show ?thesis unfolding reads_back_def Serialize_in_def z g using ne l by (auto simp: strtoofft_small sm)
qed

section \<open>Properties\<close>

text \<open>
  The page list stays well formed: setting the flag of a range, which may lie inside, across or
  beyond the end, keeps the pages adjoining and non-empty, and the size grows to the end of the range
  where that is larger.
\<close>

theorem SetPageLoadedStatus_well_formed:
  assumes "pl_inv pages" "0 \<le> start" "0 \<le> sz"
  shows "pl_inv (pl_SetPageLoadedStatus start sz is_loaded is_compress pages)
    \<and> pl_Size (pl_SetPageLoadedStatus start sz is_loaded is_compress pages) = max (pl_Size pages) (start + sz)"
  using assms SetPageLoadedStatus_inv SetPageLoadedStatus_Size by blast

theorem SetPageLoadedStatus_well_formed_witness:
  "pl_Size (pl_SetPageLoadedStatus 5 10 True True (pl_Init 8 False)) = 15"
  using SetPageLoadedStatus_well_formed [of "pl_Init 8 False" 5 10 True True] by simp

text \<open>
  C26: setting the flag of a range changes exactly that range: every other byte of the file keeps its
  flag, and the bytes between the old end and the range become unloaded.
\<close>

theorem SetPageLoadedStatus_sets_range:
  assumes "pl_inv pages" "0 \<le> start" "0 \<le> sz"
  shows "st_at (pl_SetPageLoadedStatus start sz is_loaded is_compress pages) x =
    (if start \<le> x \<and> x < start + sz then Some is_loaded
     else if x < pl_Size pages then st_at pages x
     else if 0 \<le> x \<and> x < start then Some False else None)"
  using assms by (rule SetPageLoadedStatus_st_at)

theorem SetPageLoadedStatus_sets_range_witness:
  "st_at (pl_SetPageLoadedStatus 12 4 True True (pl_Init 8 True)) 10 = Some False"
  by (subst SetPageLoadedStatus_sets_range) simp_all

text \<open>
  \<open>Resize\<close> refines truncation and extension of the flags: below both sizes every byte
  keeps its flag, new bytes get the given one, and the size is the one asked for.
\<close>

theorem Resize_refines:
  assumes "pl_inv pages" "0 \<le> sz"
  shows "pl_inv (pl_Resize sz is_loaded pages) \<and> pl_Size (pl_Resize sz is_loaded pages) = sz
    \<and> st_at (pl_Resize sz is_loaded pages) x =
      (if 0 \<le> x \<and> x < sz then (if x < pl_Size pages then st_at pages x else Some is_loaded) else None)"
  using assms Resize_inv Resize_Size Resize_st_at by blast

theorem Resize_refines_witness:
  "st_at (pl_Resize 20 False (pl_Init 8 True)) 7 = Some True"
  using Resize_refines [of "pl_Init 8 True" 20 False 7] by (simp add: st_at_Init)

text \<open>
  A range counts as loaded exactly when no byte of it is unloaded; size 0 stands for the rest of
  the file.
\<close>

theorem IsPageLoaded_exact:
  assumes "contig 0 pages" "0 \<le> start" "0 \<le> sz"
  shows "pl_IsPageLoaded start sz pages \<longleftrightarrow>
    (\<forall>x. start \<le> x \<and> (sz = 0 \<or> x < start + sz) \<longrightarrow> st_at pages x \<noteq> Some False)"
  using assms by (rule IsPageLoaded_iff)

theorem IsPageLoaded_exact_witness:
  "pl_IsPageLoaded 2 3 (pl_Init 8 True) \<longleftrightarrow>
    (\<forall>x. 2 \<le> x \<and> ((3::int) = 0 \<or> x < 2 + 3) \<longrightarrow> st_at (pl_Init 8 True) x \<noteq> Some False)"
  by (rule IsPageLoaded_exact) (simp_all add: pl_Init_def)

text \<open>
  C27: loading is complete: if every area that \<open>GetUnloadedPages\<close> reports for a range is marked
  as loaded, one after the other as the download loops do, then all of the range is loaded, no other
  byte has changed its flag and the size is the same.
\<close>

theorem marking_unloaded_pages_loads_range:
  assumes "pl_inv pages" "0 < pl_Size pages" "0 \<le> start" "0 \<le> sz"
  shows "let pages' = fold (\<lambda>(s, m). pl_SetPageLoadedStatus s m True True) (missing_pages pages start sz) pages
    in pl_inv pages' \<and> pl_Size pages' = pl_Size pages \<and> st_at pages' x =
      (if start \<le> x \<and> (sz = 0 \<or> x < start + sz) \<and> st_at pages x = Some False
       then Some True else st_at pages x)"
  using pages.load_range [OF assms, of x] by (simp add: Let_def pages.mark_all_def)

theorem marking_unloaded_pages_loads_range_witness:
  "st_at (fold (\<lambda>(s, m). pl_SetPageLoadedStatus s m True True) (missing_pages (pl_Init 8 False) 2 3)
     (pl_Init 8 False)) 4 = Some True"
  using marking_unloaded_pages_loads_range [of "pl_Init 8 False" 2 3 4] by (simp add: Let_def st_at_Init)

text \<open>
  C31: the stat file is a faithful copy when it holds no longer text than the one written: reading
  what \<open>Serialize\<close> wrote over it gives the flag of every byte and the size back, for every
  well-formed page list whose size is an \<open>off_t\<close>, and the very same list where that is compressed.
\<close>

theorem Serialize_round_trip:
  assumes "pl_inv pages" "pl_Size pages \<le> LLONG_MAX" "length old \<le> length (serialize_text pages)"
  shows "\<exists>pages'. Serialize_in (Serialize_out pages old) = Inr (True, pages') \<and> pl_inv pages'
    \<and> pl_Size pages' = pl_Size pages \<and> (\<forall>x. st_at pages' x = st_at pages x)
    \<and> (contig 0 pages \<and> alternating pages \<longrightarrow> pages' = pages)"
  using Serialize_in_text [OF assms(1,2)] assms(3) by (simp add: Serialize_out_def reads_back_def)

theorem Serialize_round_trip_witness:
  "\<exists>pages'. Serialize_in (Serialize_out
     [\<lparr>pg_offset = 0, pg_bytes = 4, pg_loaded = True\<rparr>, \<lparr>pg_offset = 4, pg_bytes = 6, pg_loaded = False\<rparr>] ''10'') =
   Inr (True, pages') \<and> pages' =
     [\<lparr>pg_offset = 0, pg_bytes = 4, pg_loaded = True\<rparr>, \<lparr>pg_offset = 4, pg_bytes = 6, pg_loaded = False\<rparr>]"
  using Serialize_round_trip [of
     "[\<lparr>pg_offset = 0, pg_bytes = 4, pg_loaded = True\<rparr>, \<lparr>pg_offset = 4, pg_bytes = 6, pg_loaded = False\<rparr>]" "''10''"]
  by (simp add: pg_next_def pl_Size_def LLONG_MAX_def pl_inv_def serialize_text_def page_line_def)

text \<open>
  Over a longer stat file it is not: \<open>Serialize\<close> does not cut off what the file held, and
  the tail of the old text can turn an unloaded page into a loaded one. Here the state "ten bytes, none
  loaded" is written over "ten bytes, all but the first loaded" and read back as "ten bytes, all loaded".
\<close>

theorem Serialize_stale_tail:
  "Serialize_in (Serialize_out (pl_Init 10 False) (serialize_text
     [\<lparr>pg_offset = 0, pg_bytes = 1, pg_loaded = False\<rparr>, \<lparr>pg_offset = 1, pg_bytes = 9, pg_loaded = True\<rparr>])) =
   Inr (True, pl_Init 10 True)"
  by code_simp

end
