(* ===== verification/Fd_Data.thy ===== *)
theory Fd_Data
  imports Page_Store Header_Stat
begin

text \<open>
  The data path of a cached file, class \<open>FdEntity\<close> of \<open>protocols/s3/fdcache.cpp\<close>:
  loading missing pages from the object store, reading, writing, uploading, and the fallback to a
  multipart upload without a local copy when the disk is full. An entity is the record \<open>ent\<close>:
  its page list, the bytes of its open local file (\<open>None\<close> for \<open>fd == -1\<close>) and the
  values of an upload in progress. The local file is a byte string with the POSIX meaning of
  \<open>pread\<close>, \<open>pwrite\<close> and \<open>ftruncate\<close>. Whether a system call fails and how much
  a transfer moves is decided by \<open>sys\<close> of the environment record \<open>io\<close>; the requests to
  the object store (\<open>S3fsCurl\<close>), the free disk space and the clean-up of other files are its
  other functions. The multipart size it holds is positive: \<open>SetMultipartSize\<close> refuses less than
  5 MB.
\<close>

section \<open>Files\<close>

type_synonym filedata = "8 word list"

definition pwrite_at :: "filedata \<Rightarrow> nat \<Rightarrow> filedata \<Rightarrow> filedata" where
  "pwrite_at f off bs =
     (if bs = [] then f
      else take off (f @ replicate (off - length f) 0) @ bs @ drop (off + length bs) f)"

definition truncate_to :: "nat \<Rightarrow> filedata \<Rightarrow> filedata" where
  "truncate_to n f = take n f @ replicate (n - length f) 0"

lemma length_pwrite_at:
  "length (pwrite_at f off bs) = (if bs = [] then length f else max (length f) (off + length bs))"
  by (auto simp: pwrite_at_def)

lemma nth_pwrite_at:
  "x < length (pwrite_at f off bs) \<Longrightarrow> pwrite_at f off bs ! x =
     (if off \<le> x \<and> x < off + length bs then bs ! (x - off) else if x < length f then f ! x else 0)"
  by (auto simp: pwrite_at_def nth_append min_def)

lemma length_truncate_to [simp]: "length (truncate_to n f) = n"
  by (simp add: truncate_to_def)

lemma nth_truncate_to: "x < n \<Longrightarrow> truncate_to n f ! x = (if x < length f then f ! x else 0)"
  by (simp add: truncate_to_def nth_append)

lemma pwrite_at_twice:
  assumes "a = off + length bs"
  shows "pwrite_at (pwrite_at f off bs) a cs = pwrite_at f off (bs @ cs)"
proof (rule nth_equalityI)
  show "length (pwrite_at (pwrite_at f off bs) a cs) = length (pwrite_at f off (bs @ cs))"
    by (auto simp: length_pwrite_at assms max_def)
next
  fix i assume "i < length (pwrite_at (pwrite_at f off bs) a cs)"
  then show "pwrite_at (pwrite_at f off bs) a cs ! i = pwrite_at f off (bs @ cs) ! i"
    by (auto simp: nth_pwrite_at length_pwrite_at assms nth_append split: if_splits)
qed

section \<open>State and environment\<close>

datatype syscall =
    Ftruncate int | Pwrite nat | Pread nat | Fstat | Lseek | Tmpfile | Fsync | Futimes int
  | Utime string int | Unlink string | OpenRdwr string | OpenTrunc string | Fdopen

record 'w io =
  sys :: "syscall \<Rightarrow> 'w \<Rightarrow> (int + nat) \<times> 'w"
  get_object :: "bool \<Rightarrow> string \<Rightarrow> int \<Rightarrow> int \<Rightarrow> 'w \<Rightarrow> int \<times> filedata \<times> 'w"
  put_object :: "bool \<Rightarrow> string \<Rightarrow> headers \<Rightarrow> filedata \<Rightarrow> 'w \<Rightarrow> int \<times> 'w"
  mp_pre :: "string \<Rightarrow> headers \<Rightarrow> 'w \<Rightarrow> int \<times> string \<times> 'w"
  mp_upload :: "string \<Rightarrow> string \<Rightarrow> filedata \<Rightarrow> string list \<Rightarrow> 'w \<Rightarrow> int \<times> string list \<times> 'w"
  mp_complete :: "string \<Rightarrow> string \<Rightarrow> string list \<Rightarrow> 'w \<Rightarrow> int \<times> 'w"
  avail_space :: "'w \<Rightarrow> int"
  cleanup_cache :: "'w \<Rightarrow> 'w"
  leave_cache :: "string \<Rightarrow> 'w \<Rightarrow> 'w"
  to_temp_path :: "string \<Rightarrow> 'w \<Rightarrow> 'w"
  multipart_size :: int
  max_parallel :: int
  nomultipart :: bool
  is_cache_dir :: bool

record ent =
  e_path :: string
  e_file :: "filedata option"
  refcnt :: nat
  pagelist :: "fdpage list"
  orgmeta :: headers
  size_orgmeta :: int
  upload_id :: string
  etaglist :: "string list"
  mp_start :: int
  mp_size :: int
  is_modify :: bool
  cachepath :: string
  mirrorpath :: string

text \<open>The entity a method runs on, \<open>FdManager::free_disk_space\<close> and the environment's state.\<close>

record 'w fds =
  cur :: ent
  free_disk :: int
  world :: 'w

definition MIN_MULTIPART_SIZE :: int where "MIN_MULTIPART_SIZE = 5242880"
definition FIVE_GB :: int where "FIVE_GB = 5368709120"
definition MAX_MULTIPART_CNT :: int where "MAX_MULTIPART_CNT = 10000"

abbreviation EINVAL :: int where "EINVAL \<equiv> 22"

definition fdata :: "ent \<Rightarrow> filedata" where
  "fdata e = (case e_file e of Some f \<Rightarrow> f | None \<Rightarrow> [])"

definition do_sys :: "'w io \<Rightarrow> syscall \<Rightarrow> 'w fds \<Rightarrow> (int + nat) \<times> 'w fds" where
  "do_sys io c s = (let (r, w) = sys io c (world s) in (r, s\<lparr>world := w\<rparr>))"

text \<open>
  A transfer that does not fail moves at least one byte of those asked for, if there are any
  (a read at the end of the file moves none).
\<close>

definition moved :: "nat \<Rightarrow> nat \<Rightarrow> nat" where
  "moved n k = min n (max 1 k)"

lemma moved_le: "moved n k \<le> n" and moved_pos: "0 < n \<Longrightarrow> 0 < moved n k"
  by (auto simp: moved_def)

definition set_file :: "filedata \<Rightarrow> 'w fds \<Rightarrow> 'w fds" where
  "set_file f s = s\<lparr>cur := (cur s)\<lparr>e_file := Some f\<rparr>\<rparr>"

definition set_pages :: "fdpage list \<Rightarrow> 'w fds \<Rightarrow> 'w fds" where
  "set_pages ps s = s\<lparr>cur := (cur s)\<lparr>pagelist := ps\<rparr>\<rparr>"

definition set_modify :: "bool \<Rightarrow> 'w fds \<Rightarrow> 'w fds" where
  "set_modify b s = s\<lparr>cur := (cur s)\<lparr>is_modify := b\<rparr>\<rparr>"

definition do_ftruncate :: "'w io \<Rightarrow> int \<Rightarrow> 'w fds \<Rightarrow> int option \<times> 'w fds" where
  "do_ftruncate io n s =
     (if n < 0 then (Some EINVAL, s)
      else case do_sys io (Ftruncate n) s of
        (Inl err, s1) \<Rightarrow> (Some err, s1)
      | (Inr _, s1) \<Rightarrow> (None, set_file (truncate_to (nat n) (fdata (cur s1))) s1))"

section \<open>Filling and loading\<close>

text \<open>\<open>FillFile\<close>: \<open>rest\<close> is \<open>size - total\<close>, \<open>pos\<close> is \<open>start + total\<close>.\<close>

function fill_loop :: "'w io \<Rightarrow> 8 word \<Rightarrow> nat \<Rightarrow> nat \<Rightarrow> filedata \<Rightarrow> 'w \<Rightarrow> int \<times> filedata \<times> 'w" where
  "fill_loop io byte rest pos f w =
     (if rest = 0 then (0, f, w)
      else case sys io (Pwrite (min 32768 rest)) w of
        (Inl err, w1) \<Rightarrow> (- err, f, w1)
      | (Inr k, w1) \<Rightarrow>
          let onewrote = moved (min 32768 rest) k in
          fill_loop io byte (rest - onewrote) (pos + onewrote)
            (pwrite_at f pos (replicate onewrote byte)) w1)"
  by pat_completeness auto
termination by (relation "measure (\<lambda>(_, _, rest, _). rest)") (auto simp: moved_def min_def max_def)

declare fill_loop.simps [simp del]

definition FillFile :: "'w io \<Rightarrow> 8 word \<Rightarrow> int \<Rightarrow> int \<Rightarrow> filedata \<Rightarrow> 'w \<Rightarrow> int \<times> filedata \<times> 'w" where
  "FillFile io byte sz start f w = fill_loop io byte (nat sz) (nat start) f w"

text \<open>A request for a range of the object; what arrives is written to the file at its offset.\<close>

definition download :: "'w io \<Rightarrow> bool \<Rightarrow> int \<Rightarrow> int \<Rightarrow> 'w fds \<Rightarrow> int \<times> 'w fds" where
  "download io parallel off n s =
     (let (result, bs, w) = get_object io parallel (e_path (cur s)) off n (world s)
      in (result, set_file (pwrite_at (fdata (cur s)) (nat off) bs) (s\<lparr>world := w\<rparr>)))"

text \<open>The part of an area that the object has, the rest is filled with zeros.\<close>

definition need_load :: "int \<Rightarrow> fdpage \<Rightarrow> int" where
  "need_load orgsize u =
     (if pg_offset u < orgsize
      then (if pg_next u \<le> orgsize then pg_bytes u else orgsize - pg_offset u) else 0)"

definition load_area :: "'w io \<Rightarrow> fdpage \<Rightarrow> 'w fds \<Rightarrow> int \<times> 'w fds" where
  "load_area io u s =
     (let need_load_size = need_load (size_orgmeta (cur s)) u;
          over_size = pg_bytes u - need_load_size;
          (result, s1) =
            (if multipart_size io \<le> need_load_size \<and> \<not> nomultipart io
             then download io True (pg_offset u) need_load_size s
             else if 0 < need_load_size then download io False (pg_offset u) need_load_size s
             else (0, s))
      in if result \<noteq> 0 then (result, s1)
         else if 0 < over_size then
           (case FillFile io 0 over_size (pg_offset u + need_load_size) (fdata (cur s1)) (world s1) of
              (result, f, w) \<Rightarrow>
                let s2 = set_file f (s1\<lparr>world := w\<rparr>) in
                if result \<noteq> 0 then (result, s2) else (0, set_modify False s2))
         else (0, s1))"

fun load_areas :: "'w io \<Rightarrow> int \<Rightarrow> int \<Rightarrow> fdpage list \<Rightarrow> 'w fds \<Rightarrow> int \<times> 'w fds" where
  "load_areas io start sz [] s = (0, s)"
| "load_areas io start sz (u # us) s =
     (if sz \<noteq> 0 \<and> start + sz \<le> pg_offset u then (0, s)
      else case load_area io u s of
        (result, s1) \<Rightarrow>
          if result \<noteq> 0 then (result, s1)
          else load_areas io start sz us
                 (set_pages (pl_SetPageLoadedStatus (pg_offset u) (pg_bytes u) True True
                    (pagelist (cur s1))) s1))"

definition Load :: "'w io \<Rightarrow> int \<Rightarrow> int \<Rightarrow> 'w fds \<Rightarrow> int \<times> 'w fds" where
  "Load io start sz s =
     (if e_file (cur s) = None then (- EBADF, s)
      else load_areas io start sz (fst (pl_GetUnloadedPages [] start sz (pagelist (cur s)))) s)"

section \<open>Disk space\<close>

definition IsSafeDiskSpace :: "'w io \<Rightarrow> int \<Rightarrow> 'w fds \<Rightarrow> bool" where
  "IsSafeDiskSpace io sz s \<longleftrightarrow> sz + free_disk s \<le> avail_space io (world s)"

definition mgr_ReserveDiskSpace :: "'w io \<Rightarrow> int \<Rightarrow> 'w fds \<Rightarrow> bool \<times> 'w fds" where
  "mgr_ReserveDiskSpace io sz s =
     (if IsSafeDiskSpace io sz s then (True, s\<lparr>free_disk := free_disk s + sz\<rparr>) else (False, s))"

definition FreeReservedDiskSpace :: "int \<Rightarrow> 'w fds \<Rightarrow> 'w fds" where
  "FreeReservedDiskSpace sz s = s\<lparr>free_disk := free_disk s - sz\<rparr>"

definition drop_pages :: "'w io \<Rightarrow> 'w fds \<Rightarrow> bool \<times> 'w fds" where
  "drop_pages io s =
     (let total = pl_Size (pagelist (cur s));
          s1 = set_pages (pl_Init total False) s
      in case do_ftruncate io 0 s1 of
           (Some _, s2) \<Rightarrow> (False, s2)
         | (None, s2) \<Rightarrow>
             (case do_ftruncate io total s2 of (Some _, s3) \<Rightarrow> (False, s3) | (None, s3) \<Rightarrow> (True, s3)))"

definition ReserveDiskSpace :: "'w io \<Rightarrow> int \<Rightarrow> 'w fds \<Rightarrow> bool \<times> 'w fds" where
  "ReserveDiskSpace io sz s =
     (case mgr_ReserveDiskSpace io sz s of
        (True, s1) \<Rightarrow> (True, s1)
      | (False, s1) \<Rightarrow>
          let last_try = (\<lambda>s. mgr_ReserveDiskSpace io sz (s\<lparr>world := cleanup_cache io (world s)\<rparr>)) in
          if is_modify (cur s1) then last_try s1
          else
            (case drop_pages io s1 of
               (False, s2) \<Rightarrow> (False, s2)
             | (True, s2) \<Rightarrow>
                 (case mgr_ReserveDiskSpace io sz s2 of
                    (True, s3) \<Rightarrow> (True, s3) | (False, s3) \<Rightarrow> last_try s3)))"

section \<open>Reading\<close>

definition do_pread :: "'w io \<Rightarrow> nat \<Rightarrow> int \<Rightarrow> 'w fds \<Rightarrow> (int + filedata) \<times> 'w fds" where
  "do_pread io n start s =
     (if start < 0 then (Inl EINVAL, s)
      else case do_sys io (Pread n) s of
        (Inl err, s1) \<Rightarrow> (Inl err, s1)
      | (Inr k, s1) \<Rightarrow> (Inr (take (moved n k) (drop (nat start) (fdata (cur s1)))), s1))"

definition prefetch_size :: "'w io \<Rightarrow> int \<Rightarrow> int \<Rightarrow> int \<Rightarrow> int" where
  "prefetch_size io start sz fsize =
     (if start + sz < fsize then
        (let prefetch_max_size = max sz (multipart_size io * max_parallel io)
         in if start + prefetch_max_size < fsize then prefetch_max_size else fsize - start)
      else sz)"

text \<open>\<open>Read\<close> returns the result code and the bytes it put into the buffer.\<close>

definition read_load :: "'w io \<Rightarrow> int \<Rightarrow> int \<Rightarrow> 'w fds \<Rightarrow> int \<times> 'w fds" where
  "read_load io start sz s =
     (let load_size = prefetch_size io start sz (pl_Size (pagelist (cur s)));
          (reserved, load_size, s1) =
            (case ReserveDiskSpace io load_size s of
               (True, s1) \<Rightarrow> (True, load_size, s1)
             | (False, s1) \<Rightarrow> (case ReserveDiskSpace io sz s1 of (ok, s2) \<Rightarrow> (ok, sz, s2)))
      in if \<not> reserved then (- ENOSPC, s1)
         else
           (let (result, s2) = (if 0 < sz then Load io start load_size s1 else (0, s1));
                s3 = FreeReservedDiskSpace load_size s2
            in if result \<noteq> 0 then (- EIO, s3) else (0, s3)))"

definition Read :: "'w io \<Rightarrow> int \<Rightarrow> nat \<Rightarrow> bool \<Rightarrow> 'w fds \<Rightarrow> int \<times> filedata \<times> 'w fds" where
  "Read io start sz force_load s =
     (if e_file (cur s) = None then (- EBADF, [], s)
      else
        (let s1 = (if force_load
               then set_pages (pl_SetPageLoadedStatus start (int sz) False True (pagelist (cur s))) s
               else s);
             (result, s2) =
               (if 0 < pl_GetTotalUnloadedPageSize start (int sz) (pagelist (cur s1))
                then read_load io start (int sz) s1 else (0, s1))
         in if result \<noteq> 0 then (result, [], s2)
            else
              (case do_pread io sz start s2 of
                 (Inl err, s3) \<Rightarrow> (- err, [], s3) | (Inr bs, s3) \<Rightarrow> (0, bs, s3))))"

section \<open>Uploading in parts without a local copy\<close>

definition PreMultipartPost :: "'w io \<Rightarrow> 'w fds \<Rightarrow> int \<times> 'w fds" where
  "PreMultipartPost io s =
     (let (result, uid, w) = mp_pre io (e_path (cur s)) (orgmeta (cur s)) (world s)
      in (result, s\<lparr>cur := (cur s)\<lparr>upload_id := uid, etaglist := []\<rparr>, world := w\<rparr>))"

definition MultipartPost :: "'w io \<Rightarrow> filedata \<Rightarrow> int \<Rightarrow> int \<Rightarrow> 'w fds \<Rightarrow> int \<times> 'w fds" where
  "MultipartPost io f start sz s =
     (if upload_id (cur s) = [] then (- EIO, s)
      else
        (let (result, tags, w) =
               mp_upload io (upload_id (cur s)) (e_path (cur s)) (substr f (nat start) (nat sz))
                 (etaglist (cur s)) (world s)
         in (result, s\<lparr>cur := (cur s)\<lparr>etaglist := tags\<rparr>, world := w\<rparr>)))"

definition CompleteMultipartPost :: "'w io \<Rightarrow> 'w fds \<Rightarrow> int \<times> 'w fds" where
  "CompleteMultipartPost io s =
     (if upload_id (cur s) = [] \<or> etaglist (cur s) = [] then (- EIO, s)
      else
        (let (result, w) = mp_complete io (e_path (cur s)) (upload_id (cur s)) (etaglist (cur s)) (world s);
             s1 = s\<lparr>world := w\<rparr>
         in if result \<noteq> 0 then (result, s1)
            else (0, s1\<lparr>cur := (cur s1)\<lparr>upload_id := [], etaglist := [], mp_start := 0, mp_size := 0\<rparr>\<rparr>)))"

text \<open>The size of the next part of a page of which \<open>rest\<close> bytes are left.\<close>

definition part_size :: "int \<Rightarrow> int \<Rightarrow> int" where
  "part_size mps rest =
     (let oneread = min rest mps
      in if rest - oneread < MIN_MULTIPART_SIZE then (if FIVE_GB < rest then rest div 2 else rest)
         else oneread)"

text \<open>Fetching a part of an unloaded page into the temporary file.\<close>

definition fetch_part :: "'w io \<Rightarrow> int \<Rightarrow> int \<Rightarrow> 'w fds \<Rightarrow> int \<times> filedata \<times> 'w fds" where
  "fetch_part io offset oneread s =
     (let orgsize = size_orgmeta (cur s);
          need_load_size = (if orgsize \<le> offset then 0
            else if orgsize < offset + oneread then orgsize - offset else oneread);
          over_size = oneread - need_load_size
      in case do_sys io (Ftruncate 0) s of
           (Inl _, s1) \<Rightarrow> (- EIO, [], s1)
         | (Inr _, s1) \<Rightarrow>
             (case do_sys io (Ftruncate (offset + oneread)) s1 of
                (Inl _, s2) \<Rightarrow> (- EIO, [], s2)
              | (Inr _, s2) \<Rightarrow>
                  (let tmp = replicate (nat (offset + oneread)) 0;
                       (result, bs, w) =
                         (if 0 < need_load_size
                          then get_object io False (e_path (cur s2)) offset oneread (world s2)
                          else (0, [], world s2));
                       tmp1 = pwrite_at tmp (nat offset) bs;
                       s3 = s2\<lparr>world := w\<rparr>
                   in if result \<noteq> 0 then (result, tmp1, s3)
                      else if 0 < over_size then
                        (case FillFile io 0 over_size (offset + need_load_size) tmp1 (world s3) of
                           (result, tmp2, w) \<Rightarrow>
                             let s4 = s3\<lparr>world := w\<rparr> in
                             if result \<noteq> 0 then (result, tmp2, s4) else (0, tmp2, set_modify False s4))
                      else (0, tmp1, s3))))"

function post_parts :: "'w io \<Rightarrow> fdpage \<Rightarrow> int \<Rightarrow> 'w fds \<Rightarrow> int \<times> 'w fds" where
  "post_parts io u totalread s =
     (let rest = pg_bytes u - totalread; oneread = part_size (multipart_size io) rest in
      if rest \<le> 0 \<or> oneread \<le> 0 then (0, s)
      else
        (let offset = pg_offset u + totalread;
             (result, f, s1) =
               (if pg_loaded u then (0, fdata (cur s), s) else fetch_part io offset oneread s)
         in if result \<noteq> 0 then (result, s1)
            else
              (case MultipartPost io f offset oneread s1 of
                 (result, s2) \<Rightarrow>
                   if result \<noteq> 0 then (result, s2) else post_parts io u (totalread + oneread) s2)))"
  by pat_completeness auto
termination
  by (relation "measure (\<lambda>(io, u, totalread, s). nat (pg_bytes u - totalread))") (auto simp: Let_def)

declare post_parts.simps [simp del]

text \<open>How the pages of an unloaded page of which a range was posted are split.\<close>

definition split_posted :: "int \<Rightarrow> int \<Rightarrow> fdpage \<Rightarrow> fdpage list" where
  "split_posted start sz u =
     (if pg_loaded u then [u]
      else
        (let (before, u1) =
               (if pg_offset u < start
                then ([\<lparr>pg_offset = pg_offset u, pg_bytes = start - pg_offset u, pg_loaded = pg_loaded u\<rparr>],
                      u\<lparr>pg_bytes := pg_bytes u - (start - pg_offset u), pg_offset := start\<rparr>)
                else ([], u))
         in before @
            (if sz \<noteq> 0 \<and> start + sz < pg_next u1
             then [\<lparr>pg_offset = pg_offset u1, pg_bytes = start + sz - pg_offset u1, pg_loaded = True\<rparr>,
                   u1\<lparr>pg_bytes := pg_bytes u1 - (start + sz - pg_offset u1), pg_offset := start + sz\<rparr>]
             else [u1\<lparr>pg_loaded := True\<rparr>])))"

fun post_pages ::
  "'w io \<Rightarrow> int \<Rightarrow> int \<Rightarrow> fdpage list \<Rightarrow> 'w fds \<Rightarrow> int \<times> fdpage list \<times> 'w fds" where
  "post_pages io start sz [] s = (0, [], s)"
| "post_pages io start sz (u # us) s =
     (if pg_end u < start then
        (case post_pages io start sz us s of (result, ps, s1) \<Rightarrow> (result, u # ps, s1))
      else if sz \<noteq> 0 \<and> start + sz \<le> pg_offset u then (0, u # us, s)
      else case post_parts io u (if pg_offset u < start then start else 0) s of
        (result, s1) \<Rightarrow>
          if result \<noteq> 0 then (result, u # us, s1)
          else case post_pages io start sz us s1 of
            (result, ps, s2) \<Rightarrow> (result, split_posted start sz u @ ps, s2))"

definition NoCacheLoadAndPost :: "'w io \<Rightarrow> int \<Rightarrow> int \<Rightarrow> 'w fds \<Rightarrow> int \<times> 'w fds" where
  "NoCacheLoadAndPost io start sz s =
     (if e_file (cur s) = None then (- EBADF, s)
      else
        (let s1 = (if cachepath (cur s) \<noteq> []
               then s\<lparr>cur := (cur s)\<lparr>cachepath := [], mirrorpath := []\<rparr>,
                      world := leave_cache io (e_path (cur s)) (world s)\<rparr>
               else s);
             s2 = s1\<lparr>world := to_temp_path io (e_path (cur s1)) (world s1)\<rparr>
         in case do_sys io Tmpfile s2 of
              (Inl err, s3) \<Rightarrow> (if err = 0 then - EIO else - err, s3)
            | (Inr _, s3) \<Rightarrow>
                (case post_pages io start sz (pagelist (cur s3)) s3 of
                   (result, ps, s4) \<Rightarrow>
                     if result \<noteq> 0 then (result, set_pages ps s4)
                     else (0, snd (do_ftruncate io 0 (set_pages (pl_Compress ps) s4))))))"

section \<open>Uploading\<close>

definition upload_whole :: "'w io \<Rightarrow> string option \<Rightarrow> 'w fds \<Rightarrow> int \<times> 'w fds" where
  "upload_whole io tpath s =
     (if MAX_MULTIPART_CNT * multipart_size io < pl_Size (pagelist (cur s)) then (- ENOTSUP, s)
      else case do_sys io Lseek s of
        (Inl err, s1) \<Rightarrow> (- err, s1)
      | (Inr _, s1) \<Rightarrow>
          (let (st, s2) = do_sys io Fstat s1;
               orgsize = (case st of Inl _ \<Rightarrow> 0 | Inr _ \<Rightarrow> int (length (fdata (cur s2))));
               path = (case tpath of Some p \<Rightarrow> p | None \<Rightarrow> e_path (cur s2));
               parallel = (multipart_size io \<le> pl_Size (pagelist (cur s2)) \<and> \<not> nomultipart io);
               (result, w) = put_object io parallel path (orgmeta (cur s2)) (fdata (cur s2)) (world s2);
               s3 = s2\<lparr>world := w\<rparr>;
               (seek, s4) = (if result = 0 then do_sys io Lseek s3 else (Inr 0, s3))
           in case seek of
                Inl err \<Rightarrow> (- err, s4)
              | Inr _ \<Rightarrow>
                  (result, s4\<lparr>cur := (cur s4)\<lparr>size_orgmeta := orgsize,
                     is_modify := (if result = 0 then False else is_modify (cur s4))\<rparr>\<rparr>)))"

definition finish_parts :: "'w io \<Rightarrow> 'w fds \<Rightarrow> int \<times> 'w fds" where
  "finish_parts io s =
     (let (result, s1) =
            (if 0 < mp_size (cur s) then
               (case MultipartPost io (fdata (cur s)) (mp_start (cur s)) (mp_size (cur s)) s of
                  (result, s1) \<Rightarrow>
                    if result \<noteq> 0 then (result, s1)
                    else (0, s1\<lparr>cur := (cur s1)\<lparr>mp_start := 0, mp_size := 0\<rparr>\<rparr>))
             else (0, s))
      in if result \<noteq> 0 then (result, s1)
         else
           (case CompleteMultipartPost io s1 of
              (result, s2) \<Rightarrow>
                if result \<noteq> 0 then (result, s2)
                else (0, set_modify False (snd (do_ftruncate io 0 s2)))))"

definition load_rest :: "'w io \<Rightarrow> 'w fds \<Rightarrow> int \<times> 'w fds" where
  "load_rest io s =
     (let restsize = pl_GetTotalUnloadedPageSize 0 0 (pagelist (cur s))
      in if 0 < restsize \<and> upload_id (cur s) = [] then
           (case ReserveDiskSpace io restsize s of
              (True, s1) \<Rightarrow>
                (case Load io 0 0 s1 of (result, s2) \<Rightarrow> (result, FreeReservedDiskSpace restsize s2))
            | (False, s1) \<Rightarrow> NoCacheLoadAndPost io 0 0 s1)
         else (0, s))"

definition RowFlush :: "'w io \<Rightarrow> string option \<Rightarrow> bool \<Rightarrow> 'w fds \<Rightarrow> int \<times> 'w fds" where
  "RowFlush io tpath force_sync s =
     (if e_file (cur s) = None then (- EBADF, s)
      else if \<not> force_sync \<and> \<not> is_modify (cur s) then (0, s)
      else case load_rest io s of
        (result, s1) \<Rightarrow>
          if result \<noteq> 0 then (result, s1)
          else if upload_id (cur s1) = [] then upload_whole io tpath s1
          else finish_parts io s1)"

section \<open>Writing\<close>

definition grow_to :: "'w io \<Rightarrow> int \<Rightarrow> 'w fds \<Rightarrow> bool \<times> 'w fds" where
  "grow_to io start s =
     (let total = pl_Size (pagelist (cur s))
      in if total < start then
           (case do_ftruncate io start s of
              (Some _, s1) \<Rightarrow> (False, s1)
            | (None, s1) \<Rightarrow>
                (True, set_pages (pl_SetPageLoadedStatus total (start - total) False True
                         (pagelist (cur s1))) s1))
         else (True, s))"

text \<open>What comes before the write is loaded, or, where the disk is full, posted in parts.\<close>

definition prepare_write :: "'w io \<Rightarrow> int \<Rightarrow> int \<Rightarrow> 'w fds \<Rightarrow> int \<times> 'w fds" where
  "prepare_write io start sz s =
     (if upload_id (cur s) \<noteq> [] then (0, s)
      else
        (let restsize = pl_GetTotalUnloadedPageSize 0 start (pagelist (cur s)) + sz
         in case ReserveDiskSpace io restsize s of
              (True, s1) \<Rightarrow>
                (case (if 0 < start then Load io 0 start s1 else (0, s1)) of
                   (result, s2) \<Rightarrow> (result, FreeReservedDiskSpace restsize s2))
            | (False, s1) \<Rightarrow>
                (case PreMultipartPost io s1 of
                   (result, s2) \<Rightarrow>
                     if result \<noteq> 0 then (result, s2)
                     else
                       (case NoCacheLoadAndPost io 0 start s2 of
                          (result, s3) \<Rightarrow>
                            if result \<noteq> 0 then (result, s3)
                            else (0, s3\<lparr>cur := (cur s3)\<lparr>mp_start := start, mp_size := 0\<rparr>\<rparr>)))))"

definition do_pwrite :: "'w io \<Rightarrow> filedata \<Rightarrow> int \<Rightarrow> 'w fds \<Rightarrow> (int + nat) \<times> 'w fds" where
  "do_pwrite io bs start s =
     (if start < 0 then (Inl EINVAL, s)
      else case do_sys io (Pwrite (length bs)) s of
        (Inl err, s1) \<Rightarrow> (Inl err, s1)
      | (Inr k, s1) \<Rightarrow>
          let n = moved (length bs) k
          in (Inr n, set_file (pwrite_at (fdata (cur s1)) (nat start) (take n bs)) s1))"

definition post_written :: "'w io \<Rightarrow> nat \<Rightarrow> 'w fds \<Rightarrow> int \<times> 'w fds" where
  "post_written io wsize s =
     (if upload_id (cur s) = [] then (0, s)
      else
        (let s1 = s\<lparr>cur := (cur s)\<lparr>mp_size := mp_size (cur s) + int wsize\<rparr>\<rparr>; e = cur s1
         in if mp_size e < multipart_size io then (0, s1)
            else
              (case MultipartPost io (fdata e) (mp_start e) (mp_size e) s1 of
                 (result, s2) \<Rightarrow>
                   if result \<noteq> 0 then (result, s2)
                   else
                     (case do_ftruncate io 0 s2 of
                        (Some _, s3) \<Rightarrow> (- EIO, s3)
                      | (None, s3) \<Rightarrow>
                          (case do_ftruncate io (mp_start e + mp_size e) s3 of
                             (Some _, s4) \<Rightarrow> (- EIO, s4)
                           | (None, s4) \<Rightarrow>
                               (0, s4\<lparr>cur := (cur s4)\<lparr>mp_start := mp_start e + mp_size e,
                                                      mp_size := 0\<rparr>\<rparr>))))))"

text \<open>\<open>Write\<close> returns the result code and the number of bytes written.\<close>

definition write_bytes :: "'w io \<Rightarrow> filedata \<Rightarrow> int \<Rightarrow> 'w fds \<Rightarrow> int \<times> nat \<times> 'w fds" where
  "write_bytes io bs start s =
     (case do_pwrite io bs start s of
        (Inl err, s1) \<Rightarrow> (- err, 0, s1)
      | (Inr wsize, s1) \<Rightarrow>
          (let s2 = set_modify True s1;
               s3 = (if 0 < wsize
                 then set_pages (pl_SetPageLoadedStatus start (int wsize) True True (pagelist (cur s2))) s2
                 else s2);
               total = pl_Size (pagelist (cur s3));
               (result, s4) = (if start + int (length bs) < total
                 then Load io (start + int (length bs)) total s3 else (0, s3))
           in if result \<noteq> 0 then (result, wsize, s4)
              else (case post_written io wsize s4 of (result, s5) \<Rightarrow> (result, wsize, s5))))"

definition Write :: "'w io \<Rightarrow> filedata \<Rightarrow> int \<Rightarrow> 'w fds \<Rightarrow> int \<times> nat \<times> 'w fds" where
  "Write io bs start s =
     (if e_file (cur s) = None then (- EBADF, 0, s)
      else
        (let s1 = (if is_cache_dir io \<and> \<not> IsSafeDiskSpace io (int (length bs)) s
               then s\<lparr>world := cleanup_cache io (world s)\<rparr> else s)
         in case grow_to io start s1 of
              (False, s2) \<Rightarrow> (- EIO, 0, s2)
            | (True, s2) \<Rightarrow>
                (case prepare_write io start (int (length bs)) s2 of
                   (result, s3) \<Rightarrow>
                     if result \<noteq> 0 then (result, 0, s3) else write_bytes io bs start s3)))"

end
