(* ===== verification/Fd_Content.thy ===== *)
theory Fd_Content
  imports Fd_Data
begin

text \<open>
  What a cached file contains, and that the data path of \<open>FdEntity\<close> keeps it. The content is
  the byte string a client is to see: the local file where its pages are loaded, the object where they
  are not, zeros beyond the object. Loading does not change it, reading returns it, writing
  overwrites it, uploading stores it.
\<close>

section \<open>The content of an entity\<close>

definition remote_byte :: "filedata \<Rightarrow> ent \<Rightarrow> nat \<Rightarrow> 8 word" where
  "remote_byte obj e x = (if int x < size_orgmeta e then obj ! x else 0)"

definition view_byte :: "filedata \<Rightarrow> ent \<Rightarrow> nat \<Rightarrow> 8 word" where
  "view_byte obj e x =
     (if st_at (pagelist e) (int x) = Some True then fdata e ! x else remote_byte obj e x)"

definition content :: "filedata \<Rightarrow> ent \<Rightarrow> filedata" where
  "content obj e = map (view_byte obj e) [0..<nat (pl_Size (pagelist e))]"

definition ent_ok :: "filedata \<Rightarrow> ent \<Rightarrow> bool" where
  "ent_ok obj e \<longleftrightarrow> e_file e \<noteq> None \<and> pl_inv (pagelist e)
     \<and> length (fdata e) = nat (pl_Size (pagelist e))
     \<and> 0 \<le> size_orgmeta e \<and> size_orgmeta e \<le> int (length obj) \<and> size_orgmeta e \<le> pl_Size (pagelist e)"

text \<open>A file that was not modified holds nothing but the object's bytes.\<close>

definition clean :: "filedata \<Rightarrow> ent \<Rightarrow> bool" where
  "clean obj e \<longleftrightarrow> (\<not> is_modify e \<longrightarrow>
     (\<forall>x < nat (pl_Size (pagelist e)). st_at (pagelist e) (int x) = Some True \<longrightarrow>
        fdata e ! x = remote_byte obj e x))"

text \<open>
  The environment: a positive multipart size, failing system calls that report a positive error number, and a successful request
  for a range inside the object delivers it.
\<close>

definition io_ok :: "'w io \<Rightarrow> filedata \<Rightarrow> string \<Rightarrow> bool" where
  "io_ok io obj path \<longleftrightarrow> 0 < multipart_size io \<and>
     (\<forall>c w err w'. sys io c w = (Inl err, w') \<longrightarrow> 0 < err) \<and>
     (\<forall>par off n w bs w'. get_object io par path off n w = (0, bs, w') \<and> 0 \<le> off \<and> 0 < n
        \<and> off + n \<le> int (length obj) \<longrightarrow> bs = substr obj (nat off) (nat n))"

definition keeps_rest :: "ent \<Rightarrow> ent \<Rightarrow> bool" where
  "keeps_rest e e' \<longleftrightarrow> e_path e' = e_path e \<and> refcnt e' = refcnt e \<and> orgmeta e' = orgmeta e \<and> size_orgmeta e' = size_orgmeta e
     \<and> upload_id e' = upload_id e \<and> etaglist e' = etaglist e \<and> mp_start e' = mp_start e
     \<and> mp_size e' = mp_size e \<and> cachepath e' = cachepath e \<and> mirrorpath e' = mirrorpath e"

lemma keeps_rest_refl [simp]: "keeps_rest e e"
  by (simp add: keeps_rest_def)

lemma keeps_rest_trans: "keeps_rest a b \<Longrightarrow> keeps_rest b c \<Longrightarrow> keeps_rest a c"
  by (simp add: keeps_rest_def)

named_theorems fds_simps \<open>the setters of the data path\<close>
lemmas [fds_simps] = set_file_def set_pages_def set_modify_def fdata_def FreeReservedDiskSpace_def

lemma io_ok_sys: "io_ok io obj p \<Longrightarrow> sys io c w = (Inl err, w') \<Longrightarrow> 0 < err"
  unfolding io_ok_def by blast

lemma io_ok_size: "io_ok io obj p \<Longrightarrow> 0 < multipart_size io"
  unfolding io_ok_def by blast

lemma io_ok_get:
  "io_ok io obj p \<Longrightarrow> get_object io par p off n w = (0, bs, w') \<Longrightarrow> 0 \<le> off \<Longrightarrow> 0 < n \<Longrightarrow>
    off + n \<le> int (length obj) \<Longrightarrow> bs = substr obj (nat off) (nat n)"
  unfolding io_ok_def by blast

lemma length_content [simp]: "length (content obj e) = nat (pl_Size (pagelist e))"
  by (simp add: content_def)

lemma nth_content [simp]: "x < nat (pl_Size (pagelist e)) \<Longrightarrow> content obj e ! x = view_byte obj e x"
  by (simp add: content_def)

lemma content_eqI:
  assumes "pl_Size (pagelist e') = pl_Size (pagelist e)"
    and "\<And>x. x < nat (pl_Size (pagelist e)) \<Longrightarrow> view_byte obj e' x = view_byte obj e x"
  shows "content obj e' = content obj e"
  using assms by (intro nth_equalityI) simp_all

section \<open>Loading\<close>

lemma fill_loop_result:
  assumes ok: "io_ok io obj p" and "fill_loop io byte rest pos f w = (0, f', w')"
  shows "f' = pwrite_at f pos (replicate rest byte)"
  using assms(2)
proof (induction rest arbitrary: pos f w rule: less_induct)
  case (less rest)
  show ?case
  proof (cases "rest = 0")
    case True
    with less.prems show ?thesis by (simp add: fill_loop.simps pwrite_at_def)
  next
    case False
    let ?n = "min 32768 rest"
    from less.prems False io_ok_sys [OF ok] obtain k w1 where k: "sys io (Pwrite ?n) w = (Inr k, w1)"
      by (subst (asm) fill_loop.simps) (force split: prod.splits sum.splits)
    let ?m = "moved ?n k"
    have m: "0 < ?m" "?m \<le> rest" using False moved_pos [of ?n k] moved_le [of ?n k] by auto
    have "fill_loop io byte (rest - ?m) (pos + ?m) (pwrite_at f pos (replicate ?m byte)) w1 = (0, f', w')"
      using less.prems False k by (subst (asm) fill_loop.simps) (simp add: Let_def)
    from less.IH [OF _ this] m have
      "f' = pwrite_at (pwrite_at f pos (replicate ?m byte)) (pos + ?m) (replicate (rest - ?m) byte)" by simp
    then show ?thesis using m by (simp add: pwrite_at_twice flip: replicate_add)
  qed
qed

lemma download_result:
  assumes ok: "io_ok io obj (e_path (cur s))" and r: "download io par off n s = (0, s1)"
    and b: "0 \<le> off" "0 < n" "off + n \<le> int (length obj)"
  obtains w where "s1 = set_file (pwrite_at (fdata (cur s)) (nat off) (substr obj (nat off) (nat n)))
    (s\<lparr>world := w\<rparr>)"
proof -
  obtain result bs w where g: "get_object io par (e_path (cur s)) off n (world s) = (result, bs, w)"
    by (metis prod_cases3)
  with r have "result = 0" "s1 = set_file (pwrite_at (fdata (cur s)) (nat off) bs) (s\<lparr>world := w\<rparr>)"
    by (simp_all add: download_def)
  with io_ok_get [OF ok _ b] g that show thesis by blast
qed

text \<open>Loading one area: the file then holds the object's bytes there, zeros beyond its end.\<close>

lemma load_area_file:
  assumes ok: "io_ok io obj (e_path (cur s))" and e: "ent_ok obj (cur s)"
    and u: "0 \<le> pg_offset u" "0 < pg_bytes u" "pg_next u \<le> pl_Size (pagelist (cur s))"
    and r: "load_area io u s = (0, s1)"
  shows "keeps_rest (cur s) (cur s1) \<and> pagelist (cur s1) = pagelist (cur s) \<and> e_file (cur s1) \<noteq> None
    \<and> length (fdata (cur s1)) = length (fdata (cur s))
    \<and> free_disk s1 = free_disk s
    \<and> (\<forall>x < length (fdata (cur s)). fdata (cur s1) ! x =
        (if pg_offset u \<le> int x \<and> int x < pg_next u then remote_byte obj (cur s) x else fdata (cur s) ! x))"
proof -
  define f where "f = fdata (cur s)"
  define need where "need = need_load (size_orgmeta (cur s)) u"
  have len: "length f = nat (pl_Size (pagelist (cur s)))" and org: "size_orgmeta (cur s) \<le> int (length obj)"
    using e by (simp_all add: ent_ok_def f_def)
  have need: "0 \<le> need" "need \<le> pg_bytes u" "0 < need \<Longrightarrow> pg_offset u + need \<le> size_orgmeta (cur s)"
    "int x < pg_offset u + need \<longleftrightarrow> int x < size_orgmeta (cur s)"
    if "pg_offset u \<le> int x" "int x < pg_next u" for x
    using u that by (auto simp: need_def need_load_def pg_next_def)
  have n0: "0 \<le> need" "need \<le> pg_bytes u" "0 < need \<Longrightarrow> pg_offset u + need \<le> int (length obj)"
    using u org by (auto simp: need_def need_load_def pg_next_def)
  define bs where "bs = substr obj (nat (pg_offset u)) (nat need)"
  have bs: "length bs = nat need" "y < nat need \<Longrightarrow> bs ! y = obj ! (nat (pg_offset u) + y)" for y
  proof -
    have "need = 0 \<or> nat (pg_offset u) + nat need \<le> length obj" using n0 u by force
    then show "length bs = nat need" "y < nat need \<Longrightarrow> bs ! y = obj ! (nat (pg_offset u) + y)"
      by (auto simp: bs_def substr_def)
  qed
  define g where "g = pwrite_at f (nat (pg_offset u)) bs"
  have fits: "nat (pg_offset u) + nat need \<le> length f"
    using u n0 unfolding len pg_next_def by simp
  have glen: "length g = length f"
    using fits bs by (auto simp: g_def length_pwrite_at)
  have g: "x < length f \<Longrightarrow> g ! x = (if pg_offset u \<le> int x \<and> int x < pg_offset u + need then obj ! x else f ! x)" for x
    using u n0 glen bs by (auto simp: g_def nth_pwrite_at split: if_splits)
  obtain result t where t: "(if multipart_size io \<le> need \<and> \<not> nomultipart io
             then download io True (pg_offset u) need s
             else if 0 < need then download io False (pg_offset u) need s
             else (0, s)) = (result, t)" by fastforce
  have res: "result = 0" using r t by (auto simp: load_area_def need_def [symmetric] Let_def split: if_splits)
  have "\<exists>w. t = set_file g (s\<lparr>world := w\<rparr>)"
  proof (cases "0 < need")
    case True
    then obtain par where "download io par (pg_offset u) need s = (0, t)" using t res by (metis (full_types))
    from download_result [OF ok this u(1) True n0(3) [OF True]] show ?thesis
      unfolding g_def bs_def f_def by blast
  next
    case False
    then have "need = 0" using n0 by simp
    then have "g = f" using bs by (simp add: g_def pwrite_at_def)
    have "t = s" using t False io_ok_size [OF ok] \<open>need = 0\<close> by simp
    moreover have "set_file g (s\<lparr>world := world s\<rparr>) = s"
      using e \<open>g = f\<close> by (cases "e_file (cur s)") (auto simp: fds_simps f_def ent_ok_def)
    ultimately show ?thesis by metis
  qed
  then obtain w where tw: "t = set_file g (s\<lparr>world := w\<rparr>)" by blast
  have ft: "fdata (cur t) = g" "pagelist (cur t) = pagelist (cur s)" "keeps_rest (cur s) (cur t)"
    "free_disk t = free_disk s"
    by (simp_all add: tw fds_simps keeps_rest_def)
  show ?thesis
  proof (cases "0 < pg_bytes u - need")
    case False
    then have "s1 = t" using r t res by (simp add: load_area_def need_def [symmetric])
    then show ?thesis using ft glen g False n0 need
      by (auto simp: tw fds_simps remote_byte_def f_def pg_next_def)
  next
    case True
    define over where "over = replicate (nat (pg_bytes u - need)) (0::8 word)"
    define h where "h = pwrite_at g (nat (pg_offset u + need)) over"
    obtain f' w' where F: "FillFile io 0 (pg_bytes u - need) (pg_offset u + need) g (world t) = (0, f', w')"
      and s1: "s1 = set_modify False (set_file f' (t\<lparr>world := w'\<rparr>))"
      using r t res True ft(1)
      by (auto simp: load_area_def need_def [symmetric] Let_def split: prod.splits if_splits)
    have f': "f' = h" using fill_loop_result [OF ok F [unfolded FillFile_def]] by (simp add: h_def over_def)
    have fits2: "nat (pg_offset u + need) + length over \<le> length f"
      using u n0 True unfolding len pg_next_def over_def by simp
    have hlen: "length h = length f" using fits2 glen by (auto simp: h_def length_pwrite_at)
    have hx: "h ! x = (if pg_offset u + need \<le> int x \<and> int x < pg_next u then 0 else g ! x)"
      if x: "x < length f" for x
    proof -
      have "h ! x = (if nat (pg_offset u + need) \<le> x \<and> x < nat (pg_offset u + need) + length over
          then over ! (x - nat (pg_offset u + need)) else g ! x)"
        using nth_pwrite_at [of x g "nat (pg_offset u + need)" over] x hlen glen by (simp add: h_def)
      moreover have "nat (pg_offset u + need) \<le> x \<and> x < nat (pg_offset u + need) + length over
          \<longleftrightarrow> pg_offset u + need \<le> int x \<and> int x < pg_next u"
        using u n0 True by (auto simp: over_def pg_next_def)
      moreover have "k < length over \<Longrightarrow> over ! k = 0" for k by (simp add: over_def)
      ultimately show ?thesis by auto
    qed
    have "h ! x = (if pg_offset u \<le> int x \<and> int x < pg_next u then remote_byte obj (cur s) x else f ! x)"
      if "x < length f" for x
      using hx [OF that] g [OF that] n0 need [of x] by (auto simp: remote_byte_def pg_next_def)
    then show ?thesis using ft hlen unfolding s1 f' f_def
      by (auto simp: fds_simps keeps_rest_def)
  qed
qed

text \<open>What loading may change: the file and the flags, and it keeps the content.\<close>

definition loads :: "filedata \<Rightarrow> (int \<Rightarrow> bool) \<Rightarrow> 'w fds \<Rightarrow> 'w fds \<Rightarrow> bool" where
  "loads obj R s s' \<longleftrightarrow> ent_ok obj (cur s') \<and> keeps_rest (cur s) (cur s') \<and> free_disk s' = free_disk s
     \<and> pl_Size (pagelist (cur s')) = pl_Size (pagelist (cur s))
     \<and> content obj (cur s') = content obj (cur s)
     \<and> (\<forall>x. st_at (pagelist (cur s')) x =
          (if R x then Some True else st_at (pagelist (cur s)) x))"

lemma load_one:
  assumes ok: "io_ok io obj (e_path (cur s))" and e: "ent_ok obj (cur s)"
    and u: "0 \<le> pg_offset u" "0 < pg_bytes u" "pg_next u \<le> pl_Size (pagelist (cur s))"
    and un: "\<And>x. pg_offset u \<le> x \<Longrightarrow> x < pg_next u \<Longrightarrow> st_at (pagelist (cur s)) x = Some False"
    and r: "load_area io u s = (0, s1)"
  shows "loads obj (\<lambda>x. pg_offset u \<le> x \<and> x < pg_next u) s
    (set_pages (pl_SetPageLoadedStatus (pg_offset u) (pg_bytes u) True True (pagelist (cur s1))) s1)"
proof -
  define ps where "ps = pl_SetPageLoadedStatus (pg_offset u) (pg_bytes u) True True (pagelist (cur s))"
  note L = load_area_file [OF ok e u r]
  have inv: "pl_inv (pagelist (cur s))" and b: "0 \<le> pg_bytes u" using e u by (simp_all add: ent_ok_def)
  have Size: "pl_Size ps = pl_Size (pagelist (cur s))"
    using SetPageLoadedStatus_Size [OF inv u(1) b] u(3) by (simp add: ps_def pg_next_def)
  have st: "st_at ps x = (if pg_offset u \<le> x \<and> x < pg_next u then Some True else st_at (pagelist (cur s)) x)" for x
    using SetPageLoadedStatus_st_at [OF inv u(1) b, of True True x] st_at_None_iff [OF inv, of x] u(2,3)
    by (auto simp: ps_def pg_next_def)
  have ps': "pl_SetPageLoadedStatus (pg_offset u) (pg_bytes u) True True (pagelist (cur s1)) = ps"
    using L by (simp add: ps_def)
  have psinv: "pl_inv ps" unfolding ps_def by (rule SetPageLoadedStatus_inv [OF inv u(1) b])
  show ?thesis unfolding ps' loads_def
  proof (intro conjI)
    show "content obj (cur (set_pages ps s1)) = content obj (cur s)"
    proof (rule content_eqI)
      show "pl_Size (pagelist (cur (set_pages ps s1))) = pl_Size (pagelist (cur s))"
        using Size by (simp add: fds_simps)
      fix x assume "x < nat (pl_Size (pagelist (cur s)))"
      then have "x < length (fdata (cur s))" using e by (simp add: ent_ok_def)
      then show "view_byte obj (cur (set_pages ps s1)) x = view_byte obj (cur s) x"
        using L st [of "int x"] un [of "int x"]
        by (auto simp: view_byte_def remote_byte_def keeps_rest_def fds_simps)
    qed
    show "ent_ok obj (cur (set_pages ps s1))"
      using L e Size psinv by (auto simp: ent_ok_def keeps_rest_def fds_simps)
  qed (use L st Size in \<open>auto simp: keeps_rest_def fds_simps\<close>)
qed

lemma load_areas_spec:
  assumes "io_ok io obj (e_path (cur s))" "ent_ok obj (cur s)" "areas us"
    and "\<forall>u \<in> set us. 0 \<le> pg_offset u \<and> pg_next u \<le> pl_Size (pagelist (cur s))
           \<and> (sz = 0 \<or> pg_offset u < start + sz)"
    and "\<forall>x. covers us x \<longrightarrow> st_at (pagelist (cur s)) x = Some False"
    and "load_areas io start sz us s = (0, s')"
  shows "loads obj (covers us) s s'"
  using assms
proof (induction us arbitrary: s)
  case Nil
  then show ?case by (simp add: loads_def)
next
  case (Cons u us)
  have u: "0 \<le> pg_offset u" "0 < pg_bytes u" "pg_next u \<le> pl_Size (pagelist (cur s))"
    "sz = 0 \<or> pg_offset u < start + sz"
    using Cons.prems(3,4) by (auto simp: areas_def)
  have un: "st_at (pagelist (cur s)) x = Some False" if "pg_offset u \<le> x" "x < pg_next u" for x
    using Cons.prems(5) that by (auto simp: covers_def)
  obtain s1 where s1: "load_area io u s = (0, s1)"
    using Cons.prems(6) u(4) by (auto split: prod.splits if_splits)
  define s2 where "s2 = set_pages (pl_SetPageLoadedStatus (pg_offset u) (pg_bytes u) True True (pagelist (cur s1))) s1"
  have one: "loads obj (\<lambda>x. pg_offset u \<le> x \<and> x < pg_next u) s s2"
    unfolding s2_def by (rule load_one [OF Cons.prems(1,2) u(1-3) un s1])
  have cov: "covers us x \<Longrightarrow> pg_next u < x" for x
    using Cons.prems(3) by (fastforce simp: areas_def covers_def)
  have "loads obj (covers us) s2 s'"
  proof (rule Cons.IH)
    show "io_ok io obj (e_path (cur s2))" using one Cons.prems(1) by (simp add: loads_def keeps_rest_def)
    show "ent_ok obj (cur s2)" using one by (simp add: loads_def)
    show "areas us" using Cons.prems(3) by (simp add: areas_def)
    show "\<forall>u \<in> set us. 0 \<le> pg_offset u \<and> pg_next u \<le> pl_Size (pagelist (cur s2))
       \<and> (sz = 0 \<or> pg_offset u < start + sz)"
      using one Cons.prems(4) by (simp add: loads_def)
    show "\<forall>x. covers us x \<longrightarrow> st_at (pagelist (cur s2)) x = Some False"
    proof (intro allI impI)
      fix x assume c: "covers us x"
      then have "covers (u # us) x" by (auto simp: covers_def)
      then show "st_at (pagelist (cur s2)) x = Some False"
        using one Cons.prems(5) cov [OF c] by (simp add: loads_def)
    qed
    show "load_areas io start sz us s2 = (0, s')"
      using Cons.prems(6) u(4) s1 by (auto simp: s2_def)
  qed
  then show ?case using one by (auto simp: loads_def covers_def intro: keeps_rest_trans)
qed

lemma GetUnloadedPages_empty:
  "pl_inv pages \<Longrightarrow> pl_Size pages = 0 \<Longrightarrow> 0 \<le> a \<Longrightarrow> 0 \<le> n \<Longrightarrow> fst (pl_GetUnloadedPages [] a n pages) = []"
  unfolding pl_inv_def
proof (elim disjE exE)
  assume "contig 0 pages" "pl_Size pages = 0"
  then have "pages = []" using pl_Size_pos by fastforce
  then show "0 \<le> a \<Longrightarrow> 0 \<le> n \<Longrightarrow> fst (pl_GetUnloadedPages [] a n pages) = []"
    by (simp add: pl_GetUnloadedPages_def Let_def)
next
  fix b assume "pages = pl_Init 0 b"
  then show "0 \<le> a \<Longrightarrow> 0 \<le> n \<Longrightarrow> fst (pl_GetUnloadedPages [] a n pages) = []"
    by (simp add: pl_GetUnloadedPages_def Let_def pl_Init_def pg_next_def)
qed

lemma Load_spec:
  assumes ok: "io_ok io obj (e_path (cur s))" and e: "ent_ok obj (cur s)"
    and a: "0 \<le> start" "0 \<le> sz" and r: "Load io start sz s = (0, s')"
  shows "loads obj (\<lambda>x. start \<le> x \<and> (sz = 0 \<or> x < start + sz)
      \<and> st_at (pagelist (cur s)) x = Some False) s s'"
proof (cases "pl_Size (pagelist (cur s)) = 0")
  case True
  have inv: "pl_inv (pagelist (cur s))" using e by (simp add: ent_ok_def)
  then have "s' = s" using r GetUnloadedPages_empty [OF inv True a] e by (auto simp: Load_def ent_ok_def)
  moreover have "st_at (pagelist (cur s)) x \<noteq> Some False" for x
    using st_at_None_iff [OF inv, of x] True by auto
  ultimately show ?thesis using e by (simp add: loads_def)
next
  case False
  have inv: "pl_inv (pagelist (cur s))" using e by (simp add: ent_ok_def)
  have c: "contig 0 (pagelist (cur s))"
    using False pl_Size_nonneg [OF inv] by (intro pl_inv_contig [OF inv]) simp
  define us where "us = fst (pl_GetUnloadedPages [] start sz (pagelist (cur s)))"
  have ar: "areas us" and cov: "covers us x \<longleftrightarrow> start \<le> x \<and> (sz = 0 \<or> x < start + sz)
      \<and> st_at (pagelist (cur s)) x = Some False" for x
    using GetUnloadedPages_spec [OF c a] by (auto simp: us_def)
  have "loads obj (covers us) s s'"
  proof (rule load_areas_spec [OF ok e ar, of sz start])
    show "\<forall>u \<in> set us. 0 \<le> pg_offset u \<and> pg_next u \<le> pl_Size (pagelist (cur s))
        \<and> (sz = 0 \<or> pg_offset u < start + sz)"
    proof
      fix u assume u: "u \<in> set us"
      have "start \<le> pg_offset u \<and> 0 < pg_bytes u \<and> pg_next u \<le> pl_Size (pagelist (cur s))"
        using covers_within [OF c a] u by (simp add: us_def)
      moreover from this have "covers us (pg_offset u)" using u by (auto simp: covers_def pg_next_def)
      ultimately show "0 \<le> pg_offset u \<and> pg_next u \<le> pl_Size (pagelist (cur s))
        \<and> (sz = 0 \<or> pg_offset u < start + sz)" using cov a by auto
    qed
    show "\<forall>x. covers us x \<longrightarrow> st_at (pagelist (cur s)) x = Some False" using cov by simp
    show "load_areas io start sz us s = (0, s')" using r e by (auto simp: Load_def us_def ent_ok_def)
  qed
  moreover have "covers us = (\<lambda>x. start \<le> x \<and> (sz = 0 \<or> x < start + sz)
      \<and> st_at (pagelist (cur s)) x = Some False)" using cov by auto
  ultimately show ?thesis by simp
qed

text \<open>
  Loading areas inside the object fills nothing with zeros, so that the modified flag stays.
\<close>

lemma load_area_modify:
  assumes "0 < pg_bytes u" "pg_next u \<le> size_orgmeta (cur s)" "load_area io u s = (0, s1)"
  shows "is_modify (cur s1) = is_modify (cur s) \<and> size_orgmeta (cur s1) = size_orgmeta (cur s)"
  using assms
  by (auto simp: load_area_def need_load_def pg_next_def download_def set_file_def Let_def
      split: prod.splits if_splits)

lemma load_areas_modify:
  "\<forall>u \<in> set us. 0 < pg_bytes u \<and> pg_next u \<le> size_orgmeta (cur s) \<Longrightarrow>
    load_areas io start sz us s = (0, s') \<Longrightarrow> is_modify (cur s') = is_modify (cur s)"
proof (induction us arbitrary: s)
  case Nil
  then show ?case by simp
next
  case (Cons u us)
  show ?case
  proof (cases "sz \<noteq> 0 \<and> start + sz \<le> pg_offset u")
    case True
    then show ?thesis using Cons.prems(2) by simp
  next
    case False
    then obtain s1 where s1: "load_area io u s = (0, s1)" and
      r: "load_areas io start sz us (set_pages (pl_SetPageLoadedStatus (pg_offset u) (pg_bytes u) True True
            (pagelist (cur s1))) s1) = (0, s')"
      using Cons.prems(2) by (auto split: prod.splits if_splits)
    have m: "is_modify (cur s1) = is_modify (cur s) \<and> size_orgmeta (cur s1) = size_orgmeta (cur s)"
      using Cons.prems(1) by (intro load_area_modify [OF _ _ s1]) simp_all
    show ?thesis using Cons.IH [OF _ r] Cons.prems(1) m by (simp add: fds_simps)
  qed
qed

lemma Load_modify:
  assumes e: "ent_ok obj (cur s)" and a: "0 \<le> start" "0 \<le> sz"
    and un: "\<forall>x. start \<le> x \<and> st_at (pagelist (cur s)) x = Some False \<longrightarrow> x < size_orgmeta (cur s)"
    and r: "Load io start sz s = (0, s')"
  shows "is_modify (cur s') = is_modify (cur s)"
proof -
  have inv: "pl_inv (pagelist (cur s))" using e by (simp add: ent_ok_def)
  define us where "us = fst (pl_GetUnloadedPages [] start sz (pagelist (cur s)))"
  have "\<forall>u \<in> set us. 0 < pg_bytes u \<and> pg_next u \<le> size_orgmeta (cur s)"
  proof (cases "pl_Size (pagelist (cur s)) = 0")
    case True
    then show ?thesis using GetUnloadedPages_empty [OF inv True a] by (simp add: us_def)
  next
    case False
    then have c: "contig 0 (pagelist (cur s))"
      using pl_Size_nonneg [OF inv] by (intro pl_inv_contig [OF inv]) simp
    show ?thesis
    proof
      fix u assume u: "u \<in> set us"
      have b: "start \<le> pg_offset u \<and> 0 < pg_bytes u" using covers_within [OF c a] u by (simp add: us_def)
      then have "covers us (pg_next u - 1)" unfolding covers_def pg_next_def
        using u by (intro bexI [of _ u]) simp_all
      then have "pg_next u - 1 < size_orgmeta (cur s)"
        using GetUnloadedPages_spec [OF c a] un by (auto simp: us_def)
      then show "0 < pg_bytes u \<and> pg_next u \<le> size_orgmeta (cur s)" using b by simp
    qed
  qed
  moreover have "load_areas io start sz us s = (0, s')" using r e by (auto simp: Load_def us_def ent_ok_def)
  ultimately show ?thesis by (rule load_areas_modify)
qed

section \<open>Disk space\<close>

lemma free_disk_simps [simp]:
  "free_disk (set_file f s) = free_disk s" "free_disk (set_pages ps s) = free_disk s"
  "free_disk (set_modify b s) = free_disk s" "free_disk (FreeReservedDiskSpace n s) = free_disk s - n"
  by (simp_all add: fds_simps)

lemma free_disk_sys: "do_sys io c s = (r, s') \<Longrightarrow> free_disk s' = free_disk s"
  by (auto simp: do_sys_def split: prod.splits)

lemma free_disk_ftruncate: "do_ftruncate io n s = (r, s') \<Longrightarrow> free_disk s' = free_disk s"
  by (auto simp: do_ftruncate_def dest!: free_disk_sys split: prod.splits sum.splits if_splits)

lemma free_disk_area: "load_area io u s = (r, s') \<Longrightarrow> free_disk s' = free_disk s"
  by (auto simp: load_area_def Let_def download_def split: prod.splits if_splits)

lemma free_disk_areas: "load_areas io a n us s = (r, s') \<Longrightarrow> free_disk s' = free_disk s"
proof (induction us arbitrary: s)
  case (Cons u us)
  from Cons.prems free_disk_area [of io u s] Cons.IH show ?case
    by (fastforce split: prod.splits if_splits)
qed simp

lemma free_disk_Load: "Load io a n s = (r, s') \<Longrightarrow> free_disk s' = free_disk s"
  by (auto simp: Load_def dest: free_disk_areas split: if_splits)

text \<open>Reserving adds the size to what is to stay free exactly when it succeeds.\<close>

lemma free_disk_mgr:
  "mgr_ReserveDiskSpace io n s = (b, s') \<Longrightarrow> free_disk s' = free_disk s + (if b then n else 0)"
  by (auto simp: mgr_ReserveDiskSpace_def split: if_splits)

lemma free_disk_drop: "drop_pages io s = (b, s') \<Longrightarrow> free_disk s' = free_disk s"
  by (auto simp: drop_pages_def Let_def dest!: free_disk_ftruncate split: prod.splits option.splits)

lemma free_disk_Reserve:
  "ReserveDiskSpace io n s = (b, s') \<Longrightarrow> free_disk s' = free_disk s + (if b then n else 0)"
  by (auto simp: ReserveDiskSpace_def Let_def dest!: free_disk_mgr free_disk_drop
      split: prod.splits bool.splits if_splits)

lemma free_disk_post: "MultipartPost io f a n s = (r, s') \<Longrightarrow> free_disk s' = free_disk s"
  by (auto simp: MultipartPost_def Let_def split: prod.splits if_splits)

lemma free_disk_fetch: "fetch_part io a n s = (r, f, s') \<Longrightarrow> free_disk s' = free_disk s"
  by (auto simp: fetch_part_def Let_def dest!: free_disk_sys split: prod.splits sum.splits if_splits)

lemma free_disk_parts: "post_parts io u t s = (r, s') \<Longrightarrow> free_disk s' = free_disk s"
proof (induction "nat (pg_bytes u - t)" arbitrary: t s rule: less_induct)
  case less
  let ?one = "part_size (multipart_size io) (pg_bytes u - t)"
  let ?off = "pg_offset u + t"
  obtain r1 f s1 where f: "(if pg_loaded u then (0, fdata (cur s), s) else fetch_part io ?off ?one s) = (r1, f, s1)"
    by (metis prod_cases3)
  obtain r2 s2 where p: "MultipartPost io f ?off ?one s1 = (r2, s2)" by fastforce
  have 1: "free_disk s1 = free_disk s" using f free_disk_fetch by (auto split: if_splits)
  have 2: "free_disk s2 = free_disk s" using free_disk_post [OF p] 1 by simp
  show ?case
  proof (cases "pg_bytes u - t \<le> 0 \<or> ?one \<le> 0")
    case True
    with less.prems show ?thesis by (subst (asm) post_parts.simps) (simp add: Let_def)
  next
    case False
    then have dec: "nat (pg_bytes u - (t + ?one)) < nat (pg_bytes u - t)" by simp
    have "post_parts io u t s = (if r1 \<noteq> 0 then (r1, s1) else if r2 \<noteq> 0 then (r2, s2)
        else post_parts io u (t + ?one) s2)"
      unfolding post_parts.simps [of io u t s] Let_def using False f p by simp
    with less.prems less.hyps [OF dec, of s2] 1 2 show ?thesis by (auto split: if_splits)
  qed
qed

lemma free_disk_pages: "post_pages io a n us s = (r, ps, s') \<Longrightarrow> free_disk s' = free_disk s"
proof (induction us arbitrary: s ps)
  case (Cons u us)
  from Cons.prems free_disk_parts [of io u _ s] Cons.IH show ?case
    by (fastforce split: prod.splits if_splits)
qed simp

lemma free_disk_NoCache: "NoCacheLoadAndPost io a n s = (r, s') \<Longrightarrow> free_disk s' = free_disk s"
  by (auto simp: NoCacheLoadAndPost_def Let_def dest!: free_disk_sys free_disk_pages
      split: prod.splits sum.splits if_splits) (metis free_disk_ftruncate free_disk_simps(2) prod.collapse)+

lemma free_disk_Pre: "PreMultipartPost io s = (r, s') \<Longrightarrow> free_disk s' = free_disk s"
  and free_disk_Complete: "CompleteMultipartPost io s = (r, s') \<Longrightarrow> free_disk s' = free_disk s"
  by (auto simp: PreMultipartPost_def CompleteMultipartPost_def Let_def split: prod.splits if_splits)

lemma free_disk_grow: "grow_to io a s = (r, s') \<Longrightarrow> free_disk s' = free_disk s"
  by (auto simp: grow_to_def Let_def dest!: free_disk_ftruncate split: prod.splits option.splits if_splits)

lemma free_disk_pwrite: "do_pwrite io bs a s = (r, s') \<Longrightarrow> free_disk s' = free_disk s"
  by (auto simp: do_pwrite_def Let_def dest!: free_disk_sys split: prod.splits sum.splits if_splits)

lemma free_disk_pread: "do_pread io n a s = (r, s') \<Longrightarrow> free_disk s' = free_disk s"
  by (auto simp: do_pread_def dest!: free_disk_sys split: prod.splits sum.splits if_splits)

lemma free_disk_prepare: "prepare_write io a n s = (r, s') \<Longrightarrow> free_disk s' = free_disk s"
  by (auto simp: prepare_write_def Let_def dest!: free_disk_Reserve free_disk_Load free_disk_Pre free_disk_NoCache
      split: prod.splits bool.splits if_splits)

lemma free_disk_post_written: "post_written io n s = (r, s') \<Longrightarrow> free_disk s' = free_disk s"
  by (auto simp: post_written_def Let_def dest!: free_disk_ftruncate free_disk_post
      split: prod.splits option.splits if_splits)

lemma free_disk_write_bytes: "write_bytes io bs a s = (r, n, s') \<Longrightarrow> free_disk s' = free_disk s"
  by (auto simp: write_bytes_def Let_def dest!: free_disk_pwrite free_disk_Load free_disk_post_written
      split: prod.splits sum.splits if_splits)

lemma free_disk_Write: "Write io bs a s = (r, n, s') \<Longrightarrow> free_disk s' = free_disk s"
  by (auto simp: Write_def Let_def dest!: free_disk_grow free_disk_prepare free_disk_write_bytes
      split: prod.splits bool.splits if_splits)

lemma free_disk_read_load: "read_load io a n s = (r, s') \<Longrightarrow> free_disk s' = free_disk s"
  by (auto simp: read_load_def Let_def dest!: free_disk_Reserve free_disk_Load
      split: prod.splits bool.splits if_splits)

lemma free_disk_Read: "Read io a n b s = (r, bs, s') \<Longrightarrow> free_disk s' = free_disk s"
  by (auto simp: Read_def Let_def dest!: free_disk_read_load free_disk_pread
      split: prod.splits sum.splits if_splits)

lemma free_disk_upload: "upload_whole io t s = (r, s') \<Longrightarrow> free_disk s' = free_disk s"
  by (auto simp: upload_whole_def Let_def dest!: free_disk_sys split: prod.splits sum.splits if_splits)

lemma free_disk_finish: "finish_parts io s = (r, s') \<Longrightarrow> free_disk s' = free_disk s"
  by (auto simp: finish_parts_def Let_def dest!: free_disk_post free_disk_Complete
      split: prod.splits if_splits) (metis free_disk_ftruncate prod.collapse)+

lemma free_disk_load_rest: "load_rest io s = (r, s') \<Longrightarrow> free_disk s' = free_disk s"
  by (auto simp: load_rest_def Let_def dest!: free_disk_Reserve free_disk_Load free_disk_NoCache
      split: prod.splits bool.splits if_splits)

lemma free_disk_RowFlush: "RowFlush io t b s = (r, s') \<Longrightarrow> free_disk s' = free_disk s"
  by (auto simp: RowFlush_def dest!: free_disk_load_rest free_disk_upload free_disk_finish
      split: prod.splits if_splits)

text \<open>Giving up the local copy of an unmodified file keeps its content.\<close>

definition truncates :: "'w io \<Rightarrow> bool" where
  "truncates io \<longleftrightarrow> (\<forall>n w. \<exists>k w'. sys io (Ftruncate n) w = (Inr k, w'))"

definition keeps :: "filedata \<Rightarrow> 'w fds \<Rightarrow> 'w fds \<Rightarrow> bool" where
  "keeps obj s s' \<longleftrightarrow> ent_ok obj (cur s') \<and> keeps_rest (cur s) (cur s')
     \<and> is_modify (cur s') = is_modify (cur s) \<and> clean obj (cur s')
     \<and> pl_Size (pagelist (cur s')) = pl_Size (pagelist (cur s)) \<and> content obj (cur s') = content obj (cur s)"

lemma content_keeps_trans: "keeps obj a b \<Longrightarrow> keeps obj b c \<Longrightarrow> keeps obj a c"
  by (auto simp: keeps_def intro: keeps_rest_trans)

lemma content_keeps_refl: "ent_ok obj (cur s) \<Longrightarrow> clean obj (cur s) \<Longrightarrow> keeps obj s s"
  by (simp add: keeps_def)

lemma keeps_cur: "cur s' = cur s \<Longrightarrow> ent_ok obj (cur s) \<Longrightarrow> clean obj (cur s) \<Longrightarrow> keeps obj s s'"
  by (simp add: keeps_def)

lemma truncates_ftruncate:
  "truncates io \<Longrightarrow> 0 \<le> n \<Longrightarrow> \<exists>w. do_ftruncate io n s
     = (None, set_file (truncate_to (nat n) (fdata (cur s))) (s\<lparr>world := w\<rparr>))"
  unfolding truncates_def do_ftruncate_def do_sys_def
  by (drule spec [of _ n], drule spec [of _ "world s"]) (auto simp: Let_def)

lemma drop_pages_keeps:
  assumes t: "truncates io" and e: "ent_ok obj (cur s)" "clean obj (cur s)" "\<not> is_modify (cur s)"
    and d: "drop_pages io s = (b, s')"
  shows "b \<and> keeps obj s s'"
proof -
  let ?n = "pl_Size (pagelist (cur s))"
  have n: "0 \<le> ?n" using e(1) by (simp add: ent_ok_def pl_Size_nonneg)
  obtain w1 where 1: "do_ftruncate io 0 (set_pages (pl_Init ?n False) s) =
      (None, set_file [] (set_pages (pl_Init ?n False) s\<lparr>world := w1\<rparr>))"
    using truncates_ftruncate [OF t, of 0] by (fastforce simp: truncate_to_def)
  obtain w2 where 2: "do_ftruncate io ?n (set_file [] (set_pages (pl_Init ?n False) s\<lparr>world := w1\<rparr>)) =
      (None, set_file (truncate_to (nat ?n) []) (set_pages (pl_Init ?n False) s\<lparr>world := w2\<rparr>))"
    using truncates_ftruncate [OF t n, of "set_file [] (set_pages (pl_Init ?n False) s\<lparr>world := w1\<rparr>)"]
    by (auto simp: fds_simps)
  have s': "b" "s' = set_file (truncate_to (nat ?n) []) (set_pages (pl_Init ?n False) s\<lparr>world := w2\<rparr>)"
    using d 1 2 by (simp_all add: drop_pages_def Let_def)
  have "content obj (cur s') = content obj (cur s)"
  proof (rule content_eqI)
    show "pl_Size (pagelist (cur s')) = ?n" by (simp add: s' fds_simps)
    fix x assume x: "x < nat ?n"
    then show "view_byte obj (cur s') x = view_byte obj (cur s) x"
      using e(2,3) by (auto simp: s' clean_def view_byte_def fds_simps st_at_Init remote_byte_def)
  qed
  then show ?thesis using e n s'
    by (auto simp: keeps_def ent_ok_def clean_def keeps_rest_def fds_simps st_at_Init split: if_splits)
qed

lemma mgr_cur: "mgr_ReserveDiskSpace io n s = (b, s') \<Longrightarrow> cur s' = cur s"
  by (auto simp: mgr_ReserveDiskSpace_def split: if_splits)

lemma Reserve_keeps:
  assumes t: "truncates io" and e: "ent_ok obj (cur s)" "clean obj (cur s)"
    and r: "ReserveDiskSpace io n s = (b, s')"
  shows "keeps obj s s'"
proof -
  obtain b1 s1 where 1: "mgr_ReserveDiskSpace io n s = (b1, s1)" by fastforce
  note c1 = mgr_cur [OF 1]
  have last: "keeps obj s s'" if "keeps obj s t"
    "mgr_ReserveDiskSpace io n (t\<lparr>world := cleanup_cache io (world t)\<rparr>) = (b, s')" for t
    using mgr_cur [OF that(2)] that(1) by (simp add: keeps_def)
  show ?thesis
  proof (cases "b1 \<or> is_modify (cur s1)")
    case True
    then show ?thesis
      using r 1 c1 e last [of s1] keeps_cur [OF c1 e]
      by (auto simp: ReserveDiskSpace_def Let_def split: bool.splits)
  next
    case False
    then have b1: "\<not> b1" and m: "\<not> is_modify (cur s1)" by auto
    obtain b2 s2 where 2: "drop_pages io s1 = (b2, s2)" by fastforce
    have k: "b2 \<and> keeps obj s1 s2" using drop_pages_keeps [OF t _ _ m 2] e c1 by simp
    obtain b3 s3 where 3: "mgr_ReserveDiskSpace io n s2 = (b3, s3)" by fastforce
    have k3: "keeps obj s s3" using k mgr_cur [OF 3] c1 by (simp add: keeps_def)
    show ?thesis
      using r 1 2 3 b1 m k k3 last [OF k3]
      by (auto simp: ReserveDiskSpace_def Let_def split: bool.splits)
  qed
qed

lemma total_unloaded_zero:
  assumes inv: "pl_inv pages" and b: "0 \<le> a" "0 \<le> n" and z: "\<not> 0 < pl_GetTotalUnloadedPageSize a n pages"
    and x: "a \<le> x" "x < a + n"
  shows "st_at pages x \<noteq> Some False"
proof (cases "pl_Size pages = 0")
  case True
  then show ?thesis using st_at_None_iff [OF inv, of x] x b by simp
next
  case False
  then have c: "contig 0 pages" using pl_Size_nonneg [OF inv] by (intro pl_inv_contig [OF inv]) simp
  have "card {x. a \<le> x \<and> x < a + n \<and> st_at pages x = Some False} = 0"
    using z by (simp add: GetTotalUnloadedPageSize_card [OF c b(2)])
  then have "{x. a \<le> x \<and> x < a + n \<and> st_at pages x = Some False} = {}"
    using unloaded_finite by (simp add: card_eq_0_iff)
  then show ?thesis using x by blast
qed

lemma total_unloaded_le:
  assumes inv: "pl_inv pages" and b: "0 \<le> n"
  shows "pl_GetTotalUnloadedPageSize a n pages \<le> n"
proof (cases "pl_Size pages = 0")
  case True
  then consider "pages = []" | b where "pages = pl_Init 0 b"
    using inv pl_Size_pos by (fastforce simp: pl_inv_def)
  then show ?thesis using b
    by cases (auto simp: pl_GetTotalUnloadedPageSize_def pl_Init_def pg_next_def)
next
  case False
  then have c: "contig 0 pages" using pl_Size_nonneg [OF inv] by (intro pl_inv_contig [OF inv]) simp
  have "card {x. a \<le> x \<and> x < a + n \<and> st_at pages x = Some False} \<le> card {a..<a+n}"
    by (rule card_mono) auto
  then show ?thesis using b by (simp add: GetTotalUnloadedPageSize_card [OF c b])
qed

section \<open>Reading\<close>

lemma prefetch_size_ge: "sz \<le> prefetch_size io start sz fsize"
  by (simp add: prefetch_size_def Let_def)

lemma read_load_spec:
  assumes ok: "io_ok io obj (e_path (cur s))" "truncates io" and e: "ent_ok obj (cur s)" "clean obj (cur s)"
    and b: "0 \<le> start" "0 < n" and r: "read_load io start n s = (0, s')"
  shows "ent_ok obj (cur s') \<and> keeps_rest (cur s) (cur s')
    \<and> pl_Size (pagelist (cur s')) = pl_Size (pagelist (cur s)) \<and> content obj (cur s') = content obj (cur s)
    \<and> (\<forall>x. start \<le> x \<and> x < start + n \<longrightarrow> st_at (pagelist (cur s')) x \<noteq> Some False)"
proof -
  define p where "p = prefetch_size io start n (pl_Size (pagelist (cur s)))"
  have p: "n \<le> p" unfolding p_def by (rule prefetch_size_ge)
  obtain b1 s1 where 1: "ReserveDiskSpace io p s = (b1, s1)" by fastforce
  obtain b2 s2 where 2: "ReserveDiskSpace io n s1 = (b2, s2)" by fastforce
  note k1 = Reserve_keeps [OF ok(2) e 1]
  note k2 = Reserve_keeps [OF ok(2) _ _ 2, of obj]
  obtain t m where t: "n \<le> m" "keeps obj s t" "read_load io start n s =
      (let (result, u) = Load io start m t; v = FreeReservedDiskSpace m u
       in if result \<noteq> 0 then (- EIO, v) else (0, v))"
  proof (cases b1)
    case True
    show thesis
      by (rule that [OF p k1]) (simp add: read_load_def Let_def p_def [symmetric] 1 True b)
  next
    case False
    have k: "keeps obj s s2" using k1 k2 content_keeps_trans by (auto simp: keeps_def intro: keeps_rest_trans)
    have b2 using r False by (cases b2) (simp_all add: read_load_def Let_def p_def [symmetric] 1 2)
    show thesis
      by (rule that [OF order_refl k])
        (simp add: read_load_def Let_def p_def [symmetric] 1 2 False \<open>b2\<close> b)
  qed
  obtain u where u: "Load io start m t = (0, u)" "s' = FreeReservedDiskSpace m u"
    using r t(3) by (auto simp: Let_def split: prod.splits if_splits)
  have okt: "io_ok io obj (e_path (cur t))" and et: "ent_ok obj (cur t)"
    using t(2) ok(1) by (simp_all add: keeps_def keeps_rest_def)
  have "loads obj (\<lambda>x. start \<le> x \<and> (m = 0 \<or> x < start + m) \<and> st_at (pagelist (cur t)) x = Some False) t u"
    using Load_spec [OF okt et b(1) _ u(1)] t(1) b(2) by simp
  then show ?thesis using t u b
    by (auto simp: loads_def keeps_def fds_simps intro: keeps_rest_trans)
qed

lemma loaded_content:
  assumes e: "ent_ok obj e" and l: "\<And>x. a \<le> x \<Longrightarrow> x < a + int n \<Longrightarrow> st_at (pagelist e) x \<noteq> Some False"
    and a: "0 \<le> a" and k: "k \<le> n"
  shows "take k (drop (nat a) (fdata e)) = take k (drop (nat a) (content obj e))"
proof (rule nth_equalityI)
  show "length (take k (drop (nat a) (fdata e))) = length (take k (drop (nat a) (content obj e)))"
    using e by (simp add: ent_ok_def)
  fix i assume i: "i < length (take k (drop (nat a) (fdata e)))"
  then have x: "nat a + i < nat (pl_Size (pagelist e))"
    using e by (simp add: ent_ok_def less_diff_conv add.commute)
  have inv: "pl_inv (pagelist e)" using e by (simp add: ent_ok_def)
  have "st_at (pagelist e) (int (nat a + i)) \<noteq> Some False"
    using l [of "int (nat a + i)"] i k a by simp
  moreover have "st_at (pagelist e) (int (nat a + i)) \<noteq> None"
  proof -
    have "int (nat a + i) < pl_Size (pagelist e)" using x by linarith
    then show ?thesis using st_at_None_iff [OF inv, of "int (nat a + i)"] by linarith
  qed
  ultimately have "view_byte obj e (nat a + i) = fdata e ! (nat a + i)"
    by (auto simp: view_byte_def)
  then show "take k (drop (nat a) (fdata e)) ! i = take k (drop (nat a) (content obj e)) ! i"
    using i x e by (simp add: ent_ok_def)
qed

lemma Read_spec:
  assumes ok: "io_ok io obj (e_path (cur s))" "truncates io" and e: "ent_ok obj (cur s)" "clean obj (cur s)"
    and b: "0 \<le> start" and r: "Read io start n False s = (0, bs, s')"
  shows "(\<exists>k \<le> n. (0 < n \<longrightarrow> 0 < k) \<and> bs = take k (drop (nat start) (content obj (cur s))))
    \<and> ent_ok obj (cur s') \<and> content obj (cur s') = content obj (cur s) \<and> keeps_rest (cur s) (cur s')"
proof -
  let ?G = "pl_GetTotalUnloadedPageSize start (int n) (pagelist (cur s))"
  have inv: "pl_inv (pagelist (cur s))" using e by (simp add: ent_ok_def)
  have open': "e_file (cur s) \<noteq> None" using e by (simp add: ent_ok_def)
  obtain s1 where s1: "(if 0 < ?G then read_load io start (int n) s else (0, s)) = (0, s1)"
    and p: "\<exists>s2. do_pread io n start s1 = (Inr bs, s2) \<and> s' = s2"
  proof -
    obtain r1 s1 where *: "(if 0 < ?G then read_load io start (int n) s else (0, s)) = (r1, s1)" by fastforce
    obtain q s2 where **: "do_pread io n start s1 = (q, s2)" by fastforce
    have "q = Inl err \<Longrightarrow> 0 < err" for err
      using ** b io_ok_sys [OF ok(1)] by (auto simp: do_pread_def do_sys_def split: prod.splits sum.splits)
    then show thesis using r open' * ** that
      by (cases q) (force simp: Read_def split: if_splits)+
  qed
  have 1: "ent_ok obj (cur s1)" "content obj (cur s1) = content obj (cur s)" "keeps_rest (cur s) (cur s1)"
    "\<And>x. start \<le> x \<Longrightarrow> x < start + int n \<Longrightarrow> st_at (pagelist (cur s1)) x \<noteq> Some False"
  proof -
    have "0 < ?G \<Longrightarrow> 0 < int n" using total_unloaded_le [OF inv, of "int n" start] by simp
    then show "ent_ok obj (cur s1)" "content obj (cur s1) = content obj (cur s)" "keeps_rest (cur s) (cur s1)"
      "\<And>x. start \<le> x \<Longrightarrow> x < start + int n \<Longrightarrow> st_at (pagelist (cur s1)) x \<noteq> Some False"
      using s1 read_load_spec [OF ok e b, of "int n" s1] e total_unloaded_zero [OF inv b, of "int n"]
      by (auto split: if_splits)
  qed
  obtain k where "bs = take (moved n k) (drop (nat start) (fdata (cur s1)))" "cur s' = cur s1"
    using p b by (auto simp: do_pread_def do_sys_def split: prod.splits sum.splits)
  moreover have "take (moved n k) (drop (nat start) (fdata (cur s1)))
      = take (moved n k) (drop (nat start) (content obj (cur s1)))"
    by (rule loaded_content [OF 1(1) 1(4) b moved_le])
  ultimately show ?thesis using 1 moved_le [of n k] moved_pos [of n k] by auto
qed

section \<open>Writing\<close>

lemma grow_to_spec:
  assumes e: "ent_ok obj (cur s)" and b: "0 \<le> start" and r: "grow_to io start s = (True, s')"
  shows "ent_ok obj (cur s') \<and> keeps_rest (cur s) (cur s')
    \<and> pl_Size (pagelist (cur s')) = max start (pl_Size (pagelist (cur s)))
    \<and> content obj (cur s') = truncate_to (max (nat start) (length (content obj (cur s)))) (content obj (cur s))
    \<and> (\<forall>x \<ge> start. st_at (pagelist (cur s')) x = st_at (pagelist (cur s)) x)"
proof (cases "pl_Size (pagelist (cur s)) < start")
  case False
  then show ?thesis using e r
    by (auto simp: grow_to_def Let_def truncate_to_def)
next
  case True
  let ?n = "pl_Size (pagelist (cur s))"
  have inv: "pl_inv (pagelist (cur s))" and n: "0 \<le> ?n" using e by (simp_all add: ent_ok_def pl_Size_nonneg)
  define ps where "ps = pl_SetPageLoadedStatus ?n (start - ?n) False True (pagelist (cur s))"
  obtain w where s': "s' = set_pages ps (set_file (truncate_to (nat start) (fdata (cur s))) (s\<lparr>world := w\<rparr>))"
    using r True b by (auto simp: grow_to_def do_ftruncate_def do_sys_def ps_def fds_simps Let_def
        split: prod.splits sum.splits)
  have Size: "pl_Size ps = start" using SetPageLoadedStatus_Size [OF inv n] True by (simp add: ps_def)
  have st: "st_at ps x = (if x < ?n then st_at (pagelist (cur s)) x else if x < start then Some False else None)" for x
    using SetPageLoadedStatus_st_at [OF inv n, of "start - ?n" False True x] True n by (auto simp: ps_def)
  have len: "length (fdata (cur s)) = nat ?n" and org: "size_orgmeta (cur s) \<le> ?n" using e by (simp_all add: ent_ok_def)
  have "content obj (cur s') = truncate_to (nat start) (content obj (cur s))"
  proof (rule nth_equalityI)
    show "length (content obj (cur s')) = length (truncate_to (nat start) (content obj (cur s)))"
      by (simp add: s' fds_simps Size)
    fix i assume "i < length (content obj (cur s'))"
    then have i: "i < nat start" by (simp add: s' fds_simps Size)
    have small: "int i < ?n \<longleftrightarrow> i < nat ?n" using n by linarith
    show "content obj (cur s') ! i = truncate_to (nat start) (content obj (cur s)) ! i"
      using i st [of "int i"] small len org
      by (auto simp: s' fds_simps Size nth_truncate_to view_byte_def remote_byte_def)
  qed
  moreover have "st_at (pagelist (cur s')) x = st_at (pagelist (cur s)) x" if "start \<le> x" for x
    using st [of x] st_at_None_iff [OF inv, of x] True that by (simp add: s' fds_simps)
  ultimately show ?thesis using e True b n Size SetPageLoadedStatus_inv [OF inv n, of "start - ?n" False True]
    by (auto simp: s' ent_ok_def keeps_rest_def fds_simps ps_def [symmetric] max_def)
qed

text \<open>With room on the disk nothing is given up and no multipart upload is started.\<close>

lemma prepare_write_spec:
  assumes ok: "io_ok io obj (e_path (cur s))" and e: "ent_ok obj (cur s)" "upload_id (cur s) = []"
    and b: "0 \<le> start" "0 \<le> n" and room: "\<forall>w. free_disk s + start + n \<le> avail_space io w"
    and r: "prepare_write io start n s = (0, s')"
  shows "ent_ok obj (cur s') \<and> keeps_rest (cur s) (cur s')
    \<and> pl_Size (pagelist (cur s')) = pl_Size (pagelist (cur s)) \<and> content obj (cur s') = content obj (cur s)
    \<and> (\<forall>x < start. st_at (pagelist (cur s')) x \<noteq> Some False)
    \<and> (\<forall>x \<ge> start. st_at (pagelist (cur s')) x = st_at (pagelist (cur s)) x)"
proof -
  let ?rest = "pl_GetTotalUnloadedPageSize 0 start (pagelist (cur s)) + n"
  have "?rest \<le> start + n"
    using total_unloaded_le [of "pagelist (cur s)" start 0] e b by (simp add: ent_ok_def)
  then have safe: "IsSafeDiskSpace io ?rest s"
    unfolding IsSafeDiskSpace_def using room [THEN spec, of "world s"] by linarith
  define s1 where "s1 = s\<lparr>free_disk := free_disk s + ?rest\<rparr>"
  have res: "ReserveDiskSpace io ?rest s = (True, s1)"
    using safe by (simp add: ReserveDiskSpace_def mgr_ReserveDiskSpace_def s1_def)
  obtain s2 where s2: "(if 0 < start then Load io 0 start s1 else (0, s1)) = (0, s2)"
    "s' = FreeReservedDiskSpace ?rest s2"
    using r e(2) res by (auto simp: prepare_write_def Let_def split: prod.splits if_splits)
  have "loads obj (\<lambda>x. 0 < start \<and> 0 \<le> x \<and> (start = 0 \<or> x < 0 + start)
      \<and> st_at (pagelist (cur s1)) x = Some False) s1 s2"
  proof (cases "0 < start")
    case True
    then show ?thesis using Load_spec [of io obj s1 0 start s2] s2(1) ok e by (simp add: s1_def)
  next
    case False
    then show ?thesis using s2(1) e by (auto simp: loads_def s1_def)
  qed
  moreover have "x < 0 \<Longrightarrow> st_at (pagelist (cur s)) x \<noteq> Some False" for x
    using st_at_None_iff [of "pagelist (cur s)" x] e by (simp add: ent_ok_def)
  ultimately show ?thesis by (auto simp: s2(2) s1_def loads_def fds_simps)
qed

lemma pwrite_content:
  assumes e: "ent_ok obj (cur s)" and b: "0 \<le> start" "start \<le> pl_Size (pagelist (cur s))"
    and bs: "bs \<noteq> []" and f: "cur s' = (cur s)\<lparr>e_file := Some (pwrite_at (fdata (cur s)) (nat start) bs),
      is_modify := m, pagelist := pl_SetPageLoadedStatus start (int (length bs)) True True (pagelist (cur s))\<rparr>"
  shows "ent_ok obj (cur s') \<and> keeps_rest (cur s) (cur s')
    \<and> content obj (cur s') = pwrite_at (content obj (cur s)) (nat start) bs"
proof -
  define ps where "ps = pl_SetPageLoadedStatus start (int (length bs)) True True (pagelist (cur s))"
  have inv: "pl_inv (pagelist (cur s))" and n: "0 \<le> int (length bs)" using e by (simp_all add: ent_ok_def)
  have Size: "pl_Size ps = max (pl_Size (pagelist (cur s))) (start + int (length bs))"
    using SetPageLoadedStatus_Size [OF inv b(1) n] by (simp add: ps_def)
  have st: "st_at ps x = (if start \<le> x \<and> x < start + int (length bs) then Some True
      else if x < pl_Size (pagelist (cur s)) then st_at (pagelist (cur s)) x else None)" for x
    using SetPageLoadedStatus_st_at [OF inv b(1) n, of True True x] b(2) by (auto simp: ps_def)
  have len: "length (fdata (cur s)) = nat (pl_Size (pagelist (cur s)))" using e by (simp add: ent_ok_def)
  have e': "pagelist (cur s') = ps" "fdata (cur s') = pwrite_at (fdata (cur s)) (nat start) bs"
    "size_orgmeta (cur s') = size_orgmeta (cur s)" "e_file (cur s') \<noteq> None"
    by (simp_all add: f ps_def fdata_def)
  have lens: "nat (pl_Size ps) = max (nat (pl_Size (pagelist (cur s)))) (nat start + length bs)"
    unfolding Size using b by linarith
  have "content obj (cur s') = pwrite_at (content obj (cur s)) (nat start) bs"
  proof (rule nth_equalityI)
    show l: "length (content obj (cur s')) = length (pwrite_at (content obj (cur s)) (nat start) bs)"
      using bs lens by (simp add: e' length_pwrite_at)
    fix i assume i: "i < length (content obj (cur s'))"
    have fl: "length (pwrite_at (fdata (cur s)) (nat start) bs) = nat (pl_Size ps)"
      using bs lens len by (simp add: length_pwrite_at)
    have i1: "i < nat (pl_Size ps)" using i by (simp add: e')
    have in': "start \<le> int i \<and> int i < start + int (length bs) \<longleftrightarrow> nat start \<le> i \<and> i < nat start + length bs"
      using b by linarith
    have out: "i < nat (pl_Size (pagelist (cur s)))" if "\<not> (nat start \<le> i \<and> i < nat start + length bs)"
      using i1 that b(2) unfolding lens by linarith
    have sm: "i < nat (pl_Size (pagelist (cur s))) \<Longrightarrow> int i < pl_Size (pagelist (cur s))" by linarith
    have "pwrite_at (content obj (cur s)) (nat start) bs ! i =
        (if nat start \<le> i \<and> i < nat start + length bs then bs ! (i - nat start) else view_byte obj (cur s) i)"
      using nth_pwrite_at [of i "content obj (cur s)"] i out unfolding l by simp
    moreover have "view_byte obj (cur s') i =
        (if nat start \<le> i \<and> i < nat start + length bs then bs ! (i - nat start) else view_byte obj (cur s) i)"
      using nth_pwrite_at [of i "fdata (cur s)" "nat start" bs] i1 fl out sm in' len st [of "int i"]
      by (auto simp: view_byte_def remote_byte_def e')
    ultimately show "content obj (cur s') ! i = pwrite_at (content obj (cur s)) (nat start) bs ! i"
      using i by simp
  qed
  moreover have "ent_ok obj (cur s')"
    using e bs lens len SetPageLoadedStatus_inv [OF inv b(1) n, of True True] Size
    by (auto simp: ent_ok_def e' length_pwrite_at ps_def [symmetric])
  ultimately show ?thesis by (auto simp: keeps_rest_def f)
qed

text \<open>
  From a position on, all that is not loaded lies inside the object: nothing there is zero-filled.
\<close>

definition filled_from :: "int \<Rightarrow> ent \<Rightarrow> bool" where
  "filled_from start e \<longleftrightarrow> (\<forall>x. start \<le> x \<and> st_at (pagelist e) x = Some False \<longrightarrow> x < size_orgmeta e)"

lemma write_bytes_spec:
  assumes ok: "io_ok io obj (e_path (cur s))" and e: "ent_ok obj (cur s)" "upload_id (cur s) = []"
    and b: "0 \<le> start" "start \<le> pl_Size (pagelist (cur s))" and bs: "bs \<noteq> []"
    and r: "write_bytes io bs start s = (0, n, s')"
  shows "0 < n \<and> n \<le> length bs \<and> ent_ok obj (cur s') \<and> keeps_rest (cur s) (cur s')
    \<and> content obj (cur s') = pwrite_at (content obj (cur s)) (nat start) (take n bs)
    \<and> ((\<forall>x < start. st_at (pagelist (cur s)) x \<noteq> Some False) \<and> n = length bs \<longrightarrow>
        (\<forall>x. st_at (pagelist (cur s')) x \<noteq> Some False))
    \<and> (filled_from (start + int (length bs)) (cur s) \<longrightarrow> is_modify (cur s'))"
proof -
  obtain q s1 where 1: "do_pwrite io bs start s = (q, s1)" by fastforce
  have "q = Inl err \<Longrightarrow> 0 < err" for err
    using 1 b io_ok_sys [OF ok] by (auto simp: do_pwrite_def do_sys_def Let_def split: prod.splits sum.splits)
  then obtain k where q: "q = Inr k" using r 1 by (cases q) (force simp: write_bytes_def)+
  have k: "0 < k" "k \<le> length bs" and s1: "\<exists>w. s1 = set_file (pwrite_at (fdata (cur s)) (nat start) (take k bs)) (s\<lparr>world := w\<rparr>)"
    using 1 q b bs moved_pos [of "length bs"] moved_le [of "length bs"]
    by (auto simp: do_pwrite_def do_sys_def Let_def split: prod.splits sum.splits)
  define s3 where "s3 = set_pages (pl_SetPageLoadedStatus start (int k) True True
      (pagelist (cur (set_modify True s1)))) (set_modify True s1)"
  have "cur s3 = (cur s)\<lparr>e_file := Some (pwrite_at (fdata (cur s)) (nat start) (take k bs)), is_modify := True,
      pagelist := pl_SetPageLoadedStatus start (int (length (take k bs))) True True (pagelist (cur s))\<rparr>"
    using s1 k by (auto simp: s3_def fds_simps)
  from pwrite_content [OF e(1) b _ this] bs k
  have 3: "ent_ok obj (cur s3)" "keeps_rest (cur s) (cur s3)"
    "content obj (cur s3) = pwrite_at (content obj (cur s)) (nat start) (take k bs)" by auto
  let ?total = "pl_Size (pagelist (cur s3))"
  obtain s4 where s4: "(if start + int (length bs) < ?total
      then Load io (start + int (length bs)) ?total s3 else (0, s3)) = (0, s4)"
    and post: "post_written io k s4 = (0, s')" and n: "n = k"
    using r 1 q k by (auto simp: write_bytes_def Let_def s3_def [symmetric] split: prod.splits if_splits)
  have ok3: "io_ok io obj (e_path (cur s3))" using ok 3(2) by (simp add: keeps_rest_def)
  have 4: "ent_ok obj (cur s4) \<and> keeps_rest (cur s3) (cur s4) \<and> content obj (cur s4) = content obj (cur s3)"
    using s4 Load_spec [OF ok3 3(1), of "start + int (length bs)" ?total s4] b 3(1)
    by (auto simp: loads_def split: if_splits)
  have "upload_id (cur s4) = []" using 3(2) 4 e(2) by (simp add: keeps_rest_def)
  then have "s' = s4" using post by (simp add: post_written_def)
  moreover have "is_modify (cur s4)" if f: "filled_from (start + int (length bs)) (cur s)"
  proof -
    have "st_at (pagelist (cur s3)) x = (if start \<le> x \<and> x < start + int k then Some True
        else if x < pl_Size (pagelist (cur s)) then st_at (pagelist (cur s)) x else None)" for x
      using SetPageLoadedStatus_st_at [of "pagelist (cur s)" start "int k" True True x] b s1 e(1)
      by (auto simp: s3_def fds_simps ent_ok_def)
    then have "\<forall>x. start + int (length bs) \<le> x \<and> st_at (pagelist (cur s3)) x = Some False
        \<longrightarrow> x < size_orgmeta (cur s3)"
      using f 3(2) k by (auto simp: filled_from_def keeps_rest_def split: if_splits)
    moreover have "is_modify (cur s3)" by (simp add: s3_def fds_simps)
    ultimately show ?thesis
      using s4 Load_modify [OF 3(1), of "start + int (length bs)" ?total io s4] b pl_Size_nonneg 3(1)
      by (auto simp: ent_ok_def split: if_splits)
  qed
  moreover have "st_at (pagelist (cur s4)) x \<noteq> Some False"
    if "\<forall>x < start. st_at (pagelist (cur s)) x \<noteq> Some False" "k = length bs" for x
  proof -
    have inv: "pl_inv (pagelist (cur s))" and inv3: "pl_inv (pagelist (cur s3))" using e 3 by (simp_all add: ent_ok_def)
    have st3: "st_at (pagelist (cur s3)) y = (if start \<le> y \<and> y < start + int (length bs) then Some True
        else if y < pl_Size (pagelist (cur s)) then st_at (pagelist (cur s)) y else None)" for y
      using SetPageLoadedStatus_st_at [OF inv b(1), of "int k" True True y] b s1 that(2)
      by (auto simp: s3_def fds_simps)
    show ?thesis
    proof (cases "start + int (length bs) < ?total")
      case True
      then have "loads obj (\<lambda>x. start + int (length bs) \<le> x \<and> (?total = 0 \<or> x < start + int (length bs) + ?total)
          \<and> st_at (pagelist (cur s3)) x = Some False) s3 s4"
        using s4 Load_spec [OF ok3 3(1), of "start + int (length bs)" ?total s4] b by simp
      then show ?thesis using st3 [of x] that(1) st_at_None_iff [OF inv3, of x] True b
        by (auto simp: loads_def split: if_splits)
    next
      case False
      then show ?thesis using s4 st3 [of x] that(1) st_at_None_iff [OF inv3, of x] by (auto split: if_splits)
    qed
  qed
  ultimately show ?thesis using 3 4 k n by (auto intro: keeps_rest_trans)
qed

lemma Write_spec:
  assumes ok: "io_ok io obj (e_path (cur s))" and e: "ent_ok obj (cur s)" "upload_id (cur s) = []"
    and b: "0 \<le> start" and bs: "bs \<noteq> []"
    and room: "\<forall>w. free_disk s + start + int (length bs) \<le> avail_space io w"
    and r: "Write io bs start s = (0, n, s')"
  shows "0 < n \<and> n \<le> length bs \<and> ent_ok obj (cur s') \<and> keeps_rest (cur s) (cur s')
    \<and> content obj (cur s') = pwrite_at (content obj (cur s)) (nat start) (take n bs)
    \<and> (n = length bs \<longrightarrow> (\<forall>x. st_at (pagelist (cur s')) x \<noteq> Some False))
    \<and> (filled_from (start + int (length bs)) (cur s) \<longrightarrow> is_modify (cur s'))"
proof -
  define s1 where "s1 = (if is_cache_dir io \<and> \<not> IsSafeDiskSpace io (int (length bs)) s
      then s\<lparr>world := cleanup_cache io (world s)\<rparr> else s)"
  have s1: "cur s1 = cur s" "free_disk s1 = free_disk s" by (simp_all add: s1_def)
  obtain s2 where 2: "grow_to io start s1 = (True, s2)"
    using r e by (auto simp: Write_def Let_def s1_def [symmetric] ent_ok_def split: prod.splits bool.splits)
  obtain s3 where 3: "prepare_write io start (int (length bs)) s2 = (0, s3)"
    and 4: "write_bytes io bs start s3 = (0, n, s')"
    using r e 2 by (auto simp: Write_def Let_def s1_def [symmetric] ent_ok_def split: prod.splits if_splits)
  have g: "ent_ok obj (cur s2)" "keeps_rest (cur s) (cur s2)"
    "pl_Size (pagelist (cur s2)) = max start (pl_Size (pagelist (cur s)))"
    "content obj (cur s2) = truncate_to (max (nat start) (length (content obj (cur s)))) (content obj (cur s))"
    "\<forall>x \<ge> start. st_at (pagelist (cur s2)) x = st_at (pagelist (cur s)) x"
    using grow_to_spec [OF _ b 2, of obj] e s1 by auto
  have p: "ent_ok obj (cur s3)" "keeps_rest (cur s2) (cur s3)"
    "pl_Size (pagelist (cur s3)) = pl_Size (pagelist (cur s2))" "content obj (cur s3) = content obj (cur s2)"
    "\<forall>x < start. st_at (pagelist (cur s3)) x \<noteq> Some False"
    "\<forall>x \<ge> start. st_at (pagelist (cur s3)) x = st_at (pagelist (cur s2)) x"
    using prepare_write_spec [OF _ g(1) _ b _ _ 3] ok e g(2) room s1 free_disk_grow [OF 2]
    by (auto simp: keeps_rest_def)
  have w: "0 < n \<and> n \<le> length bs \<and> ent_ok obj (cur s') \<and> keeps_rest (cur s3) (cur s')
    \<and> content obj (cur s') = pwrite_at (content obj (cur s3)) (nat start) (take n bs)
    \<and> (n = length bs \<longrightarrow> (\<forall>x. st_at (pagelist (cur s')) x \<noteq> Some False))
    \<and> (filled_from (start + int (length bs)) (cur s3) \<longrightarrow> is_modify (cur s'))"
    using write_bytes_spec [OF _ p(1) _ b _ bs 4] ok e g p by (auto simp: keeps_rest_def)
  have "filled_from (start + int (length bs)) (cur s) \<longrightarrow> filled_from (start + int (length bs)) (cur s3)"
    using g(2,5) p(2,6) by (auto simp: filled_from_def keeps_rest_def)
  moreover have "pwrite_at (content obj (cur s3)) (nat start) (take n bs)
      = pwrite_at (content obj (cur s)) (nat start) (take n bs)"
  proof (rule nth_equalityI)
    show l: "length (pwrite_at (content obj (cur s3)) (nat start) (take n bs))
        = length (pwrite_at (content obj (cur s)) (nat start) (take n bs))"
      using w bs by (simp only: p(4) g(4) length_pwrite_at length_truncate_to) auto
    fix i assume i: "i < length (pwrite_at (content obj (cur s3)) (nat start) (take n bs))"
    show "pwrite_at (content obj (cur s3)) (nat start) (take n bs) ! i
        = pwrite_at (content obj (cur s)) (nat start) (take n bs) ! i"
      unfolding nth_pwrite_at [OF i] nth_pwrite_at [OF i [unfolded l]]
      by (simp only: p(4) g(4) length_truncate_to) (auto simp: nth_truncate_to simp del: nth_content length_content)
  qed
  ultimately show ?thesis using w g(2) p(2) by (auto intro: keeps_rest_trans)
qed

section \<open>Uploading\<close>

text \<open>
  \<open>RowFlush\<close> asks for the unloaded size of a range of length 0, which is never positive:
  it does not load what is missing.
\<close>

lemma load_rest_nothing: "pl_inv (pagelist (cur s)) \<Longrightarrow> load_rest io s = (0, s)"
  using total_unloaded_le [of "pagelist (cur s)" 0 0] by (simp add: load_rest_def)

lemma do_sys_cur: "do_sys io c s = (r, s') \<Longrightarrow> cur s' = cur s"
  by (auto simp: do_sys_def split: prod.splits)

lemma upload_whole_spec:
  assumes pos: "\<forall>c w err w'. sys io c w = (Inl err, w') \<longrightarrow> 0 < err" and r: "upload_whole io tpath s = (0, s')"
  shows "(\<exists>par w'. put_object io par (case tpath of Some p \<Rightarrow> p | None \<Rightarrow> e_path (cur s)) (orgmeta (cur s))
      (fdata (cur s)) (snd (sys io Fstat (snd (sys io Lseek (world s))))) = (0, w')
      \<and> world s' = snd (sys io Lseek w')) \<and> \<not> is_modify (cur s')"
proof -
  have err: "do_sys io c t = (Inl e, t') \<Longrightarrow> 0 < e" for c t e t'
    using pos by (auto simp: do_sys_def split: prod.splits)
  obtain q s1 where 1: "do_sys io Lseek s = (q, s1)" by fastforce
  obtain st s2 where 2: "do_sys io Fstat s1 = (st, s2)" by fastforce
  have c: "cur s2 = cur s" using do_sys_cur [OF 1] do_sys_cur [OF 2] by simp
  have lim: "\<not> MAX_MULTIPART_CNT * multipart_size io < pl_Size (pagelist (cur s))"
    using r by (auto simp: upload_whole_def)
  obtain k where q: "q = Inr k" using r 1 lim err [of Lseek s] by (cases q) (force simp: upload_whole_def)+
  define path where "path = (case tpath of Some p \<Rightarrow> p | None \<Rightarrow> e_path (cur s))"
  define par where "par = (multipart_size io \<le> pl_Size (pagelist (cur s)) \<and> \<not> nomultipart io)"
  obtain result w where p: "put_object io par path (orgmeta (cur s)) (fdata (cur s)) (world s2) = (result, w)"
    by fastforce
  obtain z s4 where 4: "do_sys io Lseek (s2\<lparr>world := w\<rparr>) = (z, s4)" by fastforce
  have w2: "world s2 = snd (sys io Fstat (snd (sys io Lseek (world s))))" and w4: "world s4 = snd (sys io Lseek w)"
    using 1 2 4 by (auto simp: do_sys_def split: prod.splits)
  have "result = 0 \<and> \<not> is_modify (cur s') \<and> world s' = world s4"
  proof (cases "result = 0")
    case True
    then have "(case z of Inl err \<Rightarrow> (- err, s4)
        | Inr _ \<Rightarrow> (0, s4\<lparr>cur := (cur s4)\<lparr>size_orgmeta := (case st of Inl _ \<Rightarrow> 0 | Inr _ \<Rightarrow> int (length (fdata (cur s)))),
            is_modify := False\<rparr>\<rparr>)) = (0, s')"
      using r lim 4 p [unfolded path_def par_def]
      by (cases tpath; cases z; cases st) (simp_all add: upload_whole_def Let_def 1 2 q c)
    then show ?thesis using True 4 err [of Lseek "s2\<lparr>world := w\<rparr>"] by (cases z) force+
  next
    case False
    then show ?thesis
      using r lim p [unfolded path_def par_def]
      by (cases tpath) (simp_all add: upload_whole_def Let_def 1 2 q c)
  qed
  then show ?thesis using p unfolding path_def w2 w4 by blast
qed

lemma RowFlush_upload:
  assumes pos: "\<forall>c w err w'. sys io c w = (Inl err, w') \<longrightarrow> 0 < err"
    and e: "pl_inv (pagelist (cur s))" "e_file (cur s) \<noteq> None" "upload_id (cur s) = []"
    and m: "force \<or> is_modify (cur s)" and r: "RowFlush io tpath force s = (0, s')"
  shows "(\<exists>par w'. put_object io par (case tpath of Some p \<Rightarrow> p | None \<Rightarrow> e_path (cur s)) (orgmeta (cur s))
      (fdata (cur s)) (snd (sys io Fstat (snd (sys io Lseek (world s))))) = (0, w')
      \<and> world s' = snd (sys io Lseek w')) \<and> \<not> is_modify (cur s')"
proof (rule upload_whole_spec [OF pos])
  show "upload_whole io tpath s = (0, s')"
    using r e m load_rest_nothing [OF e(1), of io] by (auto simp: RowFlush_def)
qed

lemma fully_loaded:
  assumes e: "ent_ok obj e" and l: "\<forall>x. st_at (pagelist e) x \<noteq> Some False"
  shows "fdata e = content obj e"
  using loaded_content [OF e, of 0 "length (fdata e)" "length (fdata e)"] l e by (simp add: ent_ok_def)

section \<open>An environment\<close>

text \<open>
  A faultless environment, for concrete runs: every call succeeds, the object \<open>obj\<close> is
  delivered as asked for, and the world is the list of what was stored.
\<close>

definition plain_io :: "filedata \<Rightarrow> filedata list io" where
  "plain_io obj = \<lparr>
     sys = (\<lambda>c w. (case c of Pwrite n \<Rightarrow> Inr n | Pread n \<Rightarrow> Inr n | _ \<Rightarrow> Inr 0, w)),
     get_object = (\<lambda>par path off n w. (0, substr obj (nat off) (nat n), w)),
     put_object = (\<lambda>par path meta f w. (0, w @ [f])),
     mp_pre = (\<lambda>path meta w. (0, ''id'', w)),
     mp_upload = (\<lambda>uid path f tags w. (0, tags @ [''tag''], w @ [f])),
     mp_complete = (\<lambda>path uid tags w. (0, w)),
     avail_space = (\<lambda>w. 1000000000), cleanup_cache = (\<lambda>w. w), leave_cache = (\<lambda>path w. w),
     to_temp_path = (\<lambda>path w. w), multipart_size = 10485760, max_parallel = 5,
     nomultipart = False, is_cache_dir = False\<rparr>"

definition plain_ent :: "filedata \<Rightarrow> fdpage list \<Rightarrow> int \<Rightarrow> ent" where
  "plain_ent f ps n = \<lparr>e_path = ''/f'', e_file = Some f, refcnt = 1, pagelist = ps, orgmeta = [], size_orgmeta = n,
     upload_id = [], etaglist = [], mp_start = 0, mp_size = 0, is_modify = False, cachepath = [],
     mirrorpath = []\<rparr>"

definition plain_fds :: "filedata \<Rightarrow> fdpage list \<Rightarrow> int \<Rightarrow> filedata list fds" where
  "plain_fds f ps n = \<lparr>cur = plain_ent f ps n, free_disk = 0, world = []\<rparr>"

lemma plain_io_ok: "io_ok (plain_io obj) obj p" and plain_truncates: "truncates (plain_io obj)"
  by (auto simp: io_ok_def truncates_def plain_io_def split: syscall.splits)

section \<open>The properties\<close>

lemmas plain_defs = plain_fds_def plain_ent_def

lemma plain_ok:
  "pl_inv ps \<Longrightarrow> length f = nat (pl_Size ps) \<Longrightarrow> 0 \<le> n \<Longrightarrow> n \<le> int (length obj) \<Longrightarrow> n \<le> pl_Size ps \<Longrightarrow>
    ent_ok obj (cur (plain_fds f ps n))"
  by (simp add: ent_ok_def plain_defs fdata_def)

text \<open>
  C3: reading returns the content: what a successful \<open>Read\<close> puts into the buffer is the content of
  the file at that offset, cut at its end, at least one byte unless there is none; pages are loaded, room
  is made by giving up pages, and the content stays what it was.
\<close>

theorem Read_returns_content:
  assumes "io_ok io obj (e_path (cur s))" "truncates io" "ent_ok obj (cur s)" "clean obj (cur s)" "0 \<le> start"
    and "Read io start n False s = (0, bs, s')"
  shows "(\<exists>k \<le> n. (0 < n \<longrightarrow> 0 < k) \<and> bs = take k (drop (nat start) (content obj (cur s))))
    \<and> ent_ok obj (cur s') \<and> content obj (cur s') = content obj (cur s)"
  using Read_spec [OF assms] by blast

theorem Read_returns_content_witness:
  "\<exists>bs s'. Read (plain_io [1, 2, 3, 4]) 1 2 False (plain_fds [0, 0, 0, 0] (pl_Init 4 False) 4) = (0, bs, s')
    \<and> (\<exists>k \<le> 2. 0 < k \<and> bs = take k [2, 3, 4])"
proof -
  let ?s = "plain_fds [0, 0, 0, 0] (pl_Init 4 False) 4" and ?io = "plain_io [1, 2, 3, 4]"
  have "fst (Read ?io 1 2 False ?s) = 0" by code_simp
  then obtain bs s' where r: "Read ?io 1 2 False ?s = (0, bs, s')" by (metis prod_cases3 fst_conv)
  have ok: "ent_ok [1, 2, 3, 4] (cur ?s)" by (rule plain_ok) simp_all
  have cl: "clean [1, 2, 3, 4] (cur ?s)" by (simp add: clean_def plain_defs st_at_Init)
  have c: "content [1, 2, 3, 4] (cur ?s) = [1, 2, 3, 4]" by code_simp
  from Read_returns_content [OF plain_io_ok plain_truncates ok cl _ r] show ?thesis
    using r by (auto simp: c)
qed

text \<open>
  C10: writing refines overwriting the content: with room on the disk a successful \<open>Write\<close> stores
  a non-empty prefix of the buffer at its offset, after filling a gap before it with zeros, and leaves every
  other byte of the content as it was.
\<close>

theorem Write_overwrites_content:
  assumes "io_ok io obj (e_path (cur s))" "ent_ok obj (cur s)" "upload_id (cur s) = []"
    and "0 \<le> start" "bs \<noteq> []" "\<forall>w. free_disk s + start + int (length bs) \<le> avail_space io w"
    and "Write io bs start s = (0, n, s')"
  shows "0 < n \<and> n \<le> length bs \<and> ent_ok obj (cur s')
    \<and> content obj (cur s') = pwrite_at (content obj (cur s)) (nat start) (take n bs)"
  using Write_spec [OF assms] by blast

theorem Write_overwrites_content_witness:
  "\<exists>n s'. Write (plain_io [1, 2, 3]) [9, 9] 5 (plain_fds [0, 0, 0] (pl_Init 3 False) 3) = (0, n, s')
    \<and> content [1, 2, 3] (cur s') = pwrite_at [1, 2, 3] 5 (take n [9, 9])"
proof -
  let ?s = "plain_fds [0, 0, 0] (pl_Init 3 False) 3" and ?io = "plain_io [1, 2, 3]"
  have "fst (Write ?io [9, 9] 5 ?s) = 0" by code_simp
  then obtain n s' where r: "Write ?io [9, 9] 5 ?s = (0, n, s')" by (metis prod_cases3 fst_conv)
  have ok: "ent_ok [1, 2, 3] (cur ?s)" by (rule plain_ok) simp_all
  have c: "content [1, 2, 3] (cur ?s) = [1, 2, 3]" by code_simp
  have up: "upload_id (cur ?s) = []" by (simp add: plain_defs)
  have room: "\<forall>w. free_disk ?s + 5 + int (length [9, 9::8 word]) \<le> avail_space ?io w"
    by (simp add: plain_defs plain_io_def)
  from Write_overwrites_content [OF plain_io_ok ok up _ _ room r] show ?thesis
    using r by (auto simp: c)
qed

text \<open>
  C1: a write followed by a flush stores the new content: if the whole buffer was written and the
  flush succeeds, then between its seeks it made one request, which succeeded and stored exactly the
  overwritten content under the file's name, and the file counts as unmodified. This holds for a
  forced flush of any file; for the default flush, if what lies behind the written range is either loaded
  or inside the object. (\<open>write_lost_by_zero_filling\<close> shows what happens to a file that was
  extended beyond the object and never loaded there.)
\<close>

theorem Write_then_flush_stores_content:
  assumes "io_ok io obj (e_path (cur s))" "ent_ok obj (cur s)" "upload_id (cur s) = []"
    and "0 \<le> start" "bs \<noteq> []" "\<forall>w. free_disk s + start + int (length bs) \<le> avail_space io w"
    and "force \<or> filled_from (start + int (length bs)) (cur s)"
    and "Write io bs start s = (0, length bs, s1)" "RowFlush io None force s1 = (0, s2)"
  shows "(\<exists>par w'. put_object io par (e_path (cur s)) (orgmeta (cur s)) (pwrite_at (content obj (cur s)) (nat start) bs)
        (snd (sys io Fstat (snd (sys io Lseek (world s1))))) = (0, w')
      \<and> world s2 = snd (sys io Lseek w')) \<and> \<not> is_modify (cur s2)"
proof -
  have W: "ent_ok obj (cur s1)" "keeps_rest (cur s) (cur s1)" "\<forall>x. st_at (pagelist (cur s1)) x \<noteq> Some False"
    "content obj (cur s1) = pwrite_at (content obj (cur s)) (nat start) bs" "force \<or> is_modify (cur s1)"
    using Write_spec [OF assms(1-6,8)] assms(7) by auto
  have pos: "\<forall>c w err w'. sys io c w = (Inl err, w') \<longrightarrow> 0 < err"
    using assms(1) by (auto dest: io_ok_sys)
  show ?thesis
    using RowFlush_upload [OF pos _ _ _ W(5) assms(9)] W fully_loaded [OF W(1,3)] assms(3)
    by (auto simp: ent_ok_def keeps_rest_def)
qed

theorem Write_then_flush_stores_content_witness:
  "\<exists>s1 s2. Write (plain_io [1, 2, 3]) [9, 9] 0 (plain_fds [0, 0, 0] (pl_Init 3 False) 3) = (0, 2, s1)
    \<and> RowFlush (plain_io [1, 2, 3]) None False s1 = (0, s2)
    \<and> world s2 = world s1 @ [[9, 9, 3]] \<and> \<not> is_modify (cur s2)"
proof -
  let ?s = "plain_fds [0, 0, 0] (pl_Init 3 False) 3" and ?io = "plain_io [1, 2, 3]"
  obtain n s1 where r: "Write ?io [9, 9] 0 ?s = (0, n, s1)" "n = length [9, 9::8 word]"
    and f: "fst (RowFlush ?io None False s1) = 0"
  proof (rule that)
    let ?W = "Write ?io [9, 9] 0 ?s"
    have "fst ?W = 0" "fst (snd ?W) = 2" by code_simp+
    then show "?W = (0, fst (snd ?W), snd (snd ?W))" by (metis prod.collapse)
    show "fst (snd ?W) = length [9, 9::8 word]" by code_simp
    show "fst (RowFlush ?io None False (snd (snd ?W))) = 0" by code_simp
  qed
  then obtain s2 where f: "RowFlush ?io None False s1 = (0, s2)" by (metis prod.collapse)
  have ok: "ent_ok [1, 2, 3] (cur ?s)" by (rule plain_ok) simp_all
  have c: "content [1, 2, 3] (cur ?s) = [1, 2, 3]" "pwrite_at [1, 2, 3] 0 [9, 9] = [9, 9, 3 :: 8 word]" by code_simp+
  have up: "upload_id (cur ?s) = []" "orgmeta (cur ?s) = []" "e_path (cur ?s) = ''/f''" by (simp_all add: plain_defs)
  have room: "\<forall>w. free_disk ?s + 0 + int (length [9, 9::8 word]) \<le> avail_space ?io w"
    by (simp add: plain_defs plain_io_def)
  have fill: "False \<or> filled_from (0 + int (length [9, 9::8 word])) (cur ?s)"
    by (auto simp: filled_from_def plain_defs pl_Init_def pg_next_def)
  from Write_then_flush_stores_content [OF plain_io_ok ok up(1) _ _ room fill r(1) [unfolded r(2)] f] show ?thesis
    using r f by (auto simp: c up numeral_2_eq_2 plain_io_def)
qed

text \<open>
  C32: what is reserved on the disk is released: whatever fails on the way, \<open>Read\<close>, \<open>Write\<close> and
  \<open>RowFlush\<close> leave the amount of space to be kept free as they found it.
\<close>

theorem reservations_released:
  "free_disk (snd (snd (Read io start n force_load s))) = free_disk s
    \<and> free_disk (snd (snd (Write io bs start s))) = free_disk s
    \<and> free_disk (snd (RowFlush io tpath force_sync s)) = free_disk s"
  by (metis free_disk_Read free_disk_Write free_disk_RowFlush prod.collapse)

text \<open>
  A flush does not load what is missing: for a file of which nothing was loaded yet, a forced flush
  stores zeros in place of the object.
\<close>

theorem forced_flush_stores_holes:
  "content [1, 2, 3] (cur (plain_fds [0, 0, 0] (pl_Init 3 False) 3)) = [1, 2, 3]
    \<and> (case RowFlush (plain_io [1, 2, 3]) None True (plain_fds [0, 0, 0] (pl_Init 3 False) 3) of
        (result, s') \<Rightarrow> result = 0 \<and> world s' = [[0, 0, 0]])"
  by code_simp

text \<open>
  A write can be lost: writing into a file that was extended beyond the object zero-fills the rest,
  which takes the modified flag back, so that the following flush stores nothing.
\<close>

theorem write_lost_by_zero_filling:
  "case Write (plain_io []) [7, 7] 0 (plain_fds (replicate 8 0) (pl_Init 8 False) 0) of
     (result, n, s1) \<Rightarrow> result = 0 \<and> n = 2 \<and> content [] (cur s1) = [7, 7, 0, 0, 0, 0, 0, 0]
       \<and> (case RowFlush (plain_io []) None False s1 of (result, s2) \<Rightarrow> result = 0 \<and> world s2 = [])"
  by code_simp

end
