(* ===== verification/Fd_Entity.thy ===== *)
theory Fd_Entity
  imports Fd_Data Object_Meta
begin

text \<open>
  The life of a cached file, class \<open>FdEntity\<close> of \<open>protocols/s3/fdcache.cpp\<close>: opening it
  (from the cache directory or as a temporary file), counting references, closing it, and keeping its
  attributes in the headers that a flush will store. What the cache directory holds is asked of the
  environment record \<open>disk\<close>; \<open>open_mirror\<close> is \<open>OpenMirrorFile\<close> past its test of the
  cache path (a random name in the mirror directory linked to the cache file). The methods are modelled
  for one thread, where a lock that is not held is free. An underflow of the reference count, at which
  \<open>Close\<close> aborts the process, is the result \<open>None\<close>.
\<close>

section \<open>Cache paths\<close>

text \<open>\<open>CacheFileStat::MakeCacheFileStatPath\<close> and \<open>FdManager::MakeCachePath\<close>; \<open>mkdirs\<close> is the result of \<open>mkdirp\<close>.\<close>

definition with_path :: "string \<Rightarrow> string option \<Rightarrow> string" where
  "with_path base path = (case path of None \<Rightarrow> base | Some p \<Rightarrow> if p = [] then base else base @ p)"

definition stat_top_path :: "string \<Rightarrow> string \<Rightarrow> string" where
  "stat_top_path cache_dir bucket = cache_dir @ ''/.'' @ bucket @ ''.stat''"

definition MakeCacheFileStatPath :: "string \<Rightarrow> string \<Rightarrow> (string \<Rightarrow> int) \<Rightarrow> string option \<Rightarrow> bool \<Rightarrow> string option" where
  "MakeCacheFileStatPath cache_dir bucket mkdirs path is_create_dir =
     (let top_path = stat_top_path cache_dir bucket in
      if is_create_dir \<and> mkdirs top_path \<noteq> 0 then None else Some (with_path top_path path))"

definition MakeCachePath ::
  "string \<Rightarrow> string \<Rightarrow> (string \<Rightarrow> int) \<Rightarrow> string option \<Rightarrow> bool \<Rightarrow> bool \<Rightarrow> string option" where
  "MakeCachePath cache_dir bucket mkdirs path is_create_dir is_mirror_path =
     (if cache_dir = [] then Some []
      else
        (let resolved_path = (if is_mirror_path then cache_dir @ ''/.'' @ bucket @ ''.mirror''
               else cache_dir @ ''/'' @ bucket)
         in if is_create_dir \<and> mkdirs resolved_path \<noteq> 0 then None
            else Some (with_path resolved_path path)))"

section \<open>The environment\<close>

record 'w disk =
  mtime_of :: "string \<Rightarrow> 'w \<Rightarrow> int option"
  data_of :: "string \<Rightarrow> 'w \<Rightarrow> filedata"
  stat_text :: "string \<Rightarrow> 'w \<Rightarrow> string option"
  save_stat :: "string \<Rightarrow> string \<Rightarrow> 'w \<Rightarrow> bool \<times> 'w"
  open_mirror :: "string \<Rightarrow> 'w \<Rightarrow> int option \<times> string \<times> 'w"
  drop_mirror :: "string \<Rightarrow> 'w \<Rightarrow> 'w"
  file_times :: "filedata \<Rightarrow> 'w \<Rightarrow> int \<times> int"

section \<open>References\<close>

definition new_entity :: "string \<Rightarrow> string \<Rightarrow> ent" where
  "new_entity tpath cpath = \<lparr>e_path = tpath, e_file = None, refcnt = 0, pagelist = pl_Init 0 False,
     orgmeta = [], size_orgmeta = 0, upload_id = [], etaglist = [], mp_start = 0, mp_size = 0,
     is_modify = False, cachepath = cpath, mirrorpath = []\<rparr>"

definition ent_IsOpen :: "ent \<Rightarrow> bool" where
  "ent_IsOpen e \<longleftrightarrow> e_file e \<noteq> None"

definition IsMultiOpened :: "ent \<Rightarrow> bool" where
  "IsMultiOpened e \<longleftrightarrow> 1 < refcnt e"

definition ent_Dup :: "ent \<Rightarrow> ent" where
  "ent_Dup e = (if e_file e \<noteq> None then e\<lparr>refcnt := refcnt e + 1\<rparr> else e)"

text \<open>What \<open>Close\<close> does when the last reference goes, and \<open>Clear\<close>.\<close>

definition release_file :: "'w disk \<Rightarrow> 'w fds \<Rightarrow> 'w fds" where
  "release_file d s =
     (let e = cur s;
          w1 = (if cachepath e \<noteq> [] then snd (save_stat d (e_path e) (serialize_text (pagelist e)) (world s))
                else world s);
          w2 = (if mirrorpath e \<noteq> [] then drop_mirror d (mirrorpath e) w1 else w1)
      in s\<lparr>cur := e\<lparr>e_file := None, mirrorpath := []\<rparr>, world := w2\<rparr>)"

definition ent_Close :: "'w disk \<Rightarrow> 'w fds \<Rightarrow> 'w fds option" where
  "ent_Close d s =
     (let e = cur s in
      if e_file e = None then Some s
      else if refcnt e = 0 then None
      else
        (let s1 = s\<lparr>cur := e\<lparr>refcnt := refcnt e - 1\<rparr>\<rparr>
         in Some (if refcnt (cur s1) = 0 then release_file d s1 else s1)))"

definition ent_Clear :: "'w disk \<Rightarrow> 'w fds \<Rightarrow> 'w fds" where
  "ent_Clear d s =
     (let s1 = (if e_file (cur s) \<noteq> None then release_file d s else s)
      in s1\<lparr>cur := (cur s1)\<lparr>pagelist := pl_Init 0 False, refcnt := 0, e_path := [], cachepath := [],
                           is_modify := False\<rparr>\<rparr>)"

section \<open>Attributes\<close>

definition set_meta :: "string \<Rightarrow> string \<Rightarrow> 'w fds \<Rightarrow> 'w fds" where
  "set_meta k v s = s\<lparr>cur := (cur s)\<lparr>orgmeta := hd_set k v (orgmeta (cur s))\<rparr>\<rparr>"

definition SetCtime :: "int \<Rightarrow> 'w fds \<Rightarrow> 'w fds" where
  "SetCtime t s = (if t = - 1 then s else set_meta ''x-amz-meta-ctime'' (str t) s)"

definition SetMtime :: "'w io \<Rightarrow> int \<Rightarrow> 'w fds \<Rightarrow> int \<times> 'w fds" where
  "SetMtime io t s =
     (if t = - 1 then (0, s)
      else
        (let (r, s1) =
               (if e_file (cur s) \<noteq> None then do_sys io (Futimes t) s
                else if cachepath (cur s) \<noteq> [] then do_sys io (Utime (cachepath (cur s)) t) s
                else (Inr 0, s))
         in case r of
              Inl err \<Rightarrow> (- err, s1)
            | Inr _ \<Rightarrow>
                (0, set_meta ''x-amz-meta-mtime'' (str t) (set_meta ''x-amz-meta-ctime'' (str t) s1))))"

text \<open>\<open>GetStats\<close>: the times \<open>(st_mtime, st_ctime)\<close> of the open file, if \<open>fstat\<close> works.\<close>

definition GetTimes :: "'w io \<Rightarrow> 'w disk \<Rightarrow> 'w fds \<Rightarrow> (int \<times> int) option \<times> 'w fds" where
  "GetTimes io d s =
     (case e_file (cur s) of
        None \<Rightarrow> (None, s)
      | Some f \<Rightarrow>
          (case do_sys io Fstat s of
             (Inl _, s1) \<Rightarrow> (None, s1) | (Inr _, s1) \<Rightarrow> (Some (file_times d f (world s1)), s1)))"

definition UpdateCtime :: "'w io \<Rightarrow> 'w disk \<Rightarrow> 'w fds \<Rightarrow> bool \<times> 'w fds" where
  "UpdateCtime io d s =
     (case GetTimes io d s of
        (None, s1) \<Rightarrow> (False, s1)
      | (Some (m, c), s1) \<Rightarrow> (True, set_meta ''x-amz-meta-ctime'' (str c) s1))"

definition UpdateMtime :: "'w io \<Rightarrow> 'w disk \<Rightarrow> 'w fds \<Rightarrow> bool \<times> 'w fds" where
  "UpdateMtime io d s =
     (case GetTimes io d s of
        (None, s1) \<Rightarrow> (False, s1)
      | (Some (m, c), s1) \<Rightarrow>
          (True, set_meta ''x-amz-meta-mtime'' (str m) (set_meta ''x-amz-meta-ctime'' (str c) s1)))"

definition GetSize :: "ent \<Rightarrow> int option" where
  "GetSize e = (if e_file e = None then None else Some (pl_Size (pagelist e)))"

definition SetMode :: "mode_t \<Rightarrow> 'w fds \<Rightarrow> 'w fds" where
  "SetMode mode s = set_meta ''x-amz-meta-mode'' (str (uint mode)) s"

definition SetUId :: "32 word \<Rightarrow> 'w fds \<Rightarrow> 'w fds" where
  "SetUId uid s = set_meta ''x-amz-meta-uid'' (str (uint uid)) s"

definition SetGId :: "32 word \<Rightarrow> 'w fds \<Rightarrow> 'w fds" where
  "SetGId gid s = set_meta ''x-amz-meta-gid'' (str (uint gid)) s"

definition SetContentType :: "mimes \<Rightarrow> string option \<Rightarrow> 'w fds \<Rightarrow> bool \<times> 'w fds" where
  "SetContentType mimeTypes path s =
     (case path of None \<Rightarrow> (False, s)
      | Some p \<Rightarrow> (True, set_meta ''Content-Type'' (LookupMimeType mimeTypes p) s))"

definition SetAllStatus :: "'w io \<Rightarrow> bool \<Rightarrow> 'w fds \<Rightarrow> bool \<times> 'w fds" where
  "SetAllStatus io is_loaded s =
     (case e_file (cur s) of
        None \<Rightarrow> (False, s)
      | Some f \<Rightarrow>
          (case do_sys io Fstat s of
             (Inl _, s1) \<Rightarrow> (False, s1)
           | (Inr _, s1) \<Rightarrow> (True, set_pages (pl_Init (int (length f)) is_loaded) s1)))"

definition CleanupCache :: "'w io \<Rightarrow> 'w fds \<Rightarrow> 'w fds" where
  "CleanupCache io s =
     (if is_modify (cur s) then s else s\<lparr>world := leave_cache io (e_path (cur s)) (world s)\<rparr>)"

section \<open>Opening\<close>

text \<open>\<open>0 == errno ? -EIO : -errno\<close>\<close>

definition err_or_EIO :: "int \<Rightarrow> int" where
  "err_or_EIO err = (if err = 0 then - EIO else - err)"

text \<open>An entity that is open already: one more reference, and the size where one is given.\<close>

definition reopen :: "'w io \<Rightarrow> headers option \<Rightarrow> int \<Rightarrow> 'w fds \<Rightarrow> (strtoofft_error + int) \<times> 'w fds" where
  "reopen io pmeta sz s =
     (let s1 = s\<lparr>cur := ent_Dup (cur s)\<rparr>;
          (ok, s2) =
            (if 0 \<le> sz \<and> pl_Size (pagelist (cur s1)) \<noteq> sz then
               (case do_ftruncate io sz s1 of
                  (Some _, s2) \<Rightarrow> (False, s2\<lparr>cur := (cur s2)\<lparr>refcnt := refcnt (cur s2) - 1\<rparr>\<rparr>)
                | (None, s2) \<Rightarrow> (True, set_pages (pl_Resize sz False (pagelist (cur s2))) s2))
             else (True, s1));
          shrink = (\<lambda>n s. if n < size_orgmeta (cur s) then s\<lparr>cur := (cur s)\<lparr>size_orgmeta := n\<rparr>\<rparr> else s)
      in if \<not> ok then (Inr (- EIO), s2)
         else
           (case pmeta of
              None \<Rightarrow> (Inr 0, shrink (if 0 \<le> sz then sz else size_orgmeta (cur s2)) s2)
            | Some meta \<Rightarrow>
                (let s3 = s2\<lparr>cur := (cur s2)\<lparr>orgmeta := meta\<rparr>\<rparr>
                 in case get_size meta of
                      Inl e \<Rightarrow> (Inl e, s3) | Inr n \<Rightarrow> (Inr 0, shrink n s3))))"

text \<open>
  The local file of a fresh entity: the code on failure, otherwise the size, and whether the stat file is
  to be saved and the local file truncated.
\<close>

type_synonym opened = "int + int \<times> bool \<times> bool"

definition remove_stale :: "'w io \<Rightarrow> 'w disk \<Rightarrow> int \<Rightarrow> 'w fds \<Rightarrow> int option \<times> 'w fds" where
  "remove_stale io d t s =
     (case mtime_of d (cachepath (cur s)) (world s) of
        None \<Rightarrow> (None, s)
      | Some m \<Rightarrow>
          if m < t then
            (case do_sys io (Unlink (cachepath (cur s))) s of
               (Inl err, s1) \<Rightarrow> (Some (err_or_EIO err), s1) | (Inr _, s1) \<Rightarrow> (None, s1))
          else (None, s))"

definition use_cached :: "'w io \<Rightarrow> int \<Rightarrow> filedata \<Rightarrow> fdpage list \<Rightarrow> 'w fds \<Rightarrow> opened \<times> 'w fds" where
  "use_cached io sz f ps s =
     (case do_sys io Fstat s of
        (Inl err, s1) \<Rightarrow> (Inl (err_or_EIO err), s1\<lparr>cur := (cur s1)\<lparr>pagelist := ps\<rparr>\<rparr>)
      | (Inr _, s1) \<Rightarrow>
          (let st_size = int (length f); want = (if sz = - 1 then st_size else sz);
               ps1 = (if want \<noteq> pl_Size ps then pl_Resize want False ps else ps)
           in (Inr (want, want \<noteq> pl_Size ps, want \<noteq> st_size),
               s1\<lparr>cur := (cur s1)\<lparr>e_file := Some f, pagelist := ps1\<rparr>\<rparr>)))"

definition fresh_pages :: "int \<Rightarrow> fdpage list \<Rightarrow> fdpage list" where
  "fresh_pages sz ps = (if sz = - 1 then pl_Init 0 False else pl_Resize sz False ps)"

definition create_cached :: "'w io \<Rightarrow> int \<Rightarrow> fdpage list \<Rightarrow> 'w fds \<Rightarrow> opened \<times> 'w fds" where
  "create_cached io sz ps s =
     (case do_sys io (OpenTrunc (cachepath (cur s))) s of
        (Inl err, s1) \<Rightarrow> (Inl (err_or_EIO err), s1\<lparr>cur := (cur s1)\<lparr>pagelist := ps\<rparr>\<rparr>)
      | (Inr _, s1) \<Rightarrow>
          (Inr (if sz = - 1 then 0 else sz, True, sz \<noteq> - 1),
           s1\<lparr>cur := (cur s1)\<lparr>e_file := Some [], pagelist := fresh_pages sz ps\<rparr>\<rparr>))"

text \<open>
  The mirror file is linked to the cache file, so it has its contents. Where it cannot be opened the
  code returns with \<open>fd\<close> still open and no reference counted.
\<close>

definition switch_to_mirror :: "'w io \<Rightarrow> 'w disk \<Rightarrow> opened \<Rightarrow> 'w fds \<Rightarrow> opened \<times> 'w fds" where
  "switch_to_mirror io d r s =
     (case open_mirror d (cachepath (cur s)) (world s) of
        (Some err, name, w) \<Rightarrow> (Inl (err_or_EIO err), s\<lparr>cur := (cur s)\<lparr>mirrorpath := name\<rparr>, world := w\<rparr>)
      | (None, name, w) \<Rightarrow>
          (case do_sys io Fdopen (s\<lparr>cur := (cur s)\<lparr>mirrorpath := name\<rparr>, world := w\<rparr>) of
             (Inl err, s1) \<Rightarrow> (Inl (err_or_EIO err), s1\<lparr>cur := (cur s1)\<lparr>e_file := None\<rparr>\<rparr>)
           | (Inr _, s1) \<Rightarrow> (r, s1)))"

definition open_local :: "'w io \<Rightarrow> 'w disk \<Rightarrow> int \<Rightarrow> 'w fds \<Rightarrow> (strtoofft_error + opened) \<times> 'w fds" where
  "open_local io d sz s =
     (let path = cachepath (cur s);
          init = (\<lambda>ps s. case create_cached io sz ps s of (r, s1) \<Rightarrow> (Inr r, s1))
      in case do_sys io (OpenRdwr path) s of
           (Inl _, s1) \<Rightarrow> init (pagelist (cur s1)) s1
         | (Inr _, s1) \<Rightarrow>
             (case stat_text d (e_path (cur s1)) (world s1) of
                None \<Rightarrow> init (pagelist (cur s1)) s1
              | Some text \<Rightarrow>
                  (case Serialize_in text of
                     Inl e \<Rightarrow> (Inl e, s1)
                   | Inr (loaded, ps) \<Rightarrow>
                       if loaded then
                         (case use_cached io sz (data_of d path (world s1)) ps s1 of (r, s2) \<Rightarrow> (Inr r, s2))
                       else init ps s1)))"

definition open_cached :: "'w io \<Rightarrow> 'w disk \<Rightarrow> int \<Rightarrow> int \<Rightarrow> 'w fds \<Rightarrow> (strtoofft_error + opened) \<times> 'w fds" where
  "open_cached io d sz t s =
     (case remove_stale io d t s of
        (Some err, s1) \<Rightarrow> (Inr (Inl err), s1)
      | (None, s1) \<Rightarrow>
          (case open_local io d sz s1 of
             (Inl e, s2) \<Rightarrow> (Inl e, s2)
           | (Inr (Inl err), s2) \<Rightarrow> (Inr (Inl err), s2)
           | (Inr (Inr x), s2) \<Rightarrow>
               (case switch_to_mirror io d (Inr x) s2 of (r, s3) \<Rightarrow> (Inr r, s3))))"

definition open_tmp :: "'w io \<Rightarrow> int \<Rightarrow> 'w fds \<Rightarrow> opened \<times> 'w fds" where
  "open_tmp io sz s =
     (case do_sys io Tmpfile s of
        (Inl err, s1) \<Rightarrow> (Inl (err_or_EIO err), s1)
      | (Inr _, s1) \<Rightarrow>
          (Inr (if sz = - 1 then 0 else sz, False, sz \<noteq> - 1),
           s1\<lparr>cur := (cur s1)\<lparr>e_file := Some [], pagelist := fresh_pages sz (pagelist (cur s1))\<rparr>\<rparr>))"

definition close_fd :: "'w fds \<Rightarrow> 'w fds" where
  "close_fd s = s\<lparr>cur := (cur s)\<lparr>e_file := None\<rparr>\<rparr>"

text \<open>After the local file is open: truncation, the stat file, the counters, headers and time.\<close>

definition finish_open ::
  "'w io \<Rightarrow> 'w disk \<Rightarrow> headers option \<Rightarrow> int \<Rightarrow> int \<times> bool \<times> bool \<Rightarrow> 'w fds
   \<Rightarrow> (strtoofft_error + int) \<times> 'w fds" where
  "finish_open io d pmeta t x s =
     (case x of (sz, need_save_csf, is_truncate) \<Rightarrow>
        (let (r, s1) =
               (if is_truncate then
                  (case do_ftruncate io sz s of
                     (Some err, s1) \<Rightarrow> (Some err, s1)
                   | (None, s1) \<Rightarrow>
                       (case do_sys io Fsync s1 of (Inl err, s2) \<Rightarrow> (Some err, s2) | (Inr _, s2) \<Rightarrow> (None, s2)))
                else (None, s))
         in case r of
              Some err \<Rightarrow> (Inr (err_or_EIO err), close_fd s1)
            | None \<Rightarrow>
                (let s2 = (if need_save_csf
                       then s1\<lparr>world := snd (save_stat d (e_path (cur s1)) (serialize_text (pagelist (cur s1))) (world s1))\<rparr>
                       else s1);
                     s3 = s2\<lparr>cur := (cur s2)\<lparr>refcnt := 1, is_modify := False\<rparr>\<rparr>;
                     (q, s4) =
                       (case pmeta of
                          Some meta \<Rightarrow>
                            (case get_size meta of
                               Inl e \<Rightarrow> (Inl e, s3\<lparr>cur := (cur s3)\<lparr>orgmeta := meta\<rparr>\<rparr>)
                             | Inr n \<Rightarrow> (Inr (), s3\<lparr>cur := (cur s3)\<lparr>orgmeta := meta, size_orgmeta := n\<rparr>\<rparr>))
                        | None \<Rightarrow> (Inr (), s3\<lparr>cur := (cur s3)\<lparr>orgmeta := [], size_orgmeta := 0\<rparr>\<rparr>))
                 in case q of
                      Inl e \<Rightarrow> (Inl e, s4)
                    | Inr _ \<Rightarrow>
                        (case SetMtime io t s4 of
                           (r, s5) \<Rightarrow> if r \<noteq> 0 then (Inr r, close_fd s5) else (Inr 0, s5)))))"

definition ent_Open ::
  "'w io \<Rightarrow> 'w disk \<Rightarrow> headers option \<Rightarrow> int \<Rightarrow> int \<Rightarrow> 'w fds \<Rightarrow> (strtoofft_error + int) \<times> 'w fds" where
  "ent_Open io d pmeta sz t s =
     (if e_file (cur s) \<noteq> None then reopen io pmeta sz s
      else
        (case (if cachepath (cur s) \<noteq> [] then open_cached io d sz t s
               else (case open_tmp io sz s of (r, s1) \<Rightarrow> (Inr r, s1))) of
           (Inl e, s1) \<Rightarrow> (Inl e, s1)
         | (Inr (Inl err), s1) \<Rightarrow> (Inr err, s1)
         | (Inr (Inr x), s1) \<Rightarrow> finish_open io d pmeta t x s1))"

text \<open>
  \<open>OpenAndLoadAll\<close> holds the entity's lock when it calls \<open>Open\<close>, which takes it again: for
  an entity that is not open it never returns (\<open>None\<close>).
\<close>

definition OpenAndLoadAll :: "'w io \<Rightarrow> bool \<Rightarrow> 'w fds \<Rightarrow> (int option \<times> 'w fds) option" where
  "OpenAndLoadAll io force_load s =
     (if e_file (cur s) = None then None
      else
        (let s1 = (if force_load then snd (SetAllStatus io False s) else s)
         in case Load io 0 0 s1 of
              (result, s2) \<Rightarrow>
                Some (if result \<noteq> 0 then (None, s2)
                      else (Some (pl_Size (pagelist (cur s2))), set_modify False s2))))"

section \<open>What opening establishes\<close>

definition errno_pos :: "'w io \<Rightarrow> bool" where
  "errno_pos io \<longleftrightarrow> (\<forall>c w err w'. sys io c w = (Inl err, w') \<longrightarrow> 0 < err)"

lemma do_sys_same: "do_sys io c s = (r, s') \<Longrightarrow> cur s' = cur s"
  by (auto simp: do_sys_def split: prod.splits)

lemma do_sysD:
  "errno_pos io \<Longrightarrow> do_sys io c s = (r, s') \<Longrightarrow> cur s' = cur s \<and> (\<forall>err. r = Inl err \<longrightarrow> 0 < err)"
  by (auto simp: do_sys_def errno_pos_def split: prod.splits)

lemma do_ftruncate_cur:
  "do_ftruncate io n s = (None, s') \<Longrightarrow> 0 \<le> n \<and> cur s' = (cur s)\<lparr>e_file := Some (truncate_to (nat n) (fdata (cur s)))\<rparr>"
  by (auto simp: do_ftruncate_def set_file_def dest: do_sys_same split: if_splits prod.splits sum.splits)

lemma do_ftruncate_fails: "do_ftruncate io n s = (Some err, s') \<Longrightarrow> cur s' = cur s"
  by (auto simp: do_ftruncate_def dest: do_sys_same split: if_splits prod.splits sum.splits)

text \<open>The parts of an entity that no opening changes.\<close>

definition same_names :: "ent \<Rightarrow> ent \<Rightarrow> bool" where
  "same_names e e' \<longleftrightarrow> e_path e' = e_path e \<and> cachepath e' = cachepath e"

lemma same_names_refl [simp]: "same_names e e"
  by (simp add: same_names_def)

lemma remove_stale_cur: "remove_stale io d t s = (r, s') \<Longrightarrow> cur s' = cur s"
  by (auto simp: remove_stale_def dest: do_sys_same split: option.splits if_splits prod.splits sum.splits)

lemma remove_stale_err: "errno_pos io \<Longrightarrow> remove_stale io d t s = (Some r, s') \<Longrightarrow> r < 0"
  by (auto simp: remove_stale_def err_or_EIO_def dest: do_sysD split: option.splits if_splits prod.splits sum.splits)

text \<open>
  \<open>opened_ok\<close>: the file is open, its pages are well-formed and have the size that is to be, which the
  file has too unless it is still to be truncated.
\<close>

definition opened_ok :: "int \<times> bool \<times> bool \<Rightarrow> ent \<Rightarrow> bool" where
  "opened_ok x e \<longleftrightarrow> (case x of (n, _, trunc) \<Rightarrow> 0 \<le> n \<and> e_file e \<noteq> None \<and> pl_inv (pagelist e)
     \<and> pl_Size (pagelist e) = n \<and> (\<not> trunc \<longrightarrow> length (fdata e) = nat n))"

lemma fresh_pages_ok:
  "pl_inv ps \<Longrightarrow> - 1 \<le> n \<Longrightarrow> pl_inv (fresh_pages n ps) \<and> pl_Size (fresh_pages n ps) = (if n = - 1 then 0 else n)"
  by (auto simp: fresh_pages_def Resize_inv Resize_Size)

definition open_result :: "'w fds \<Rightarrow> opened \<times> 'w fds \<Rightarrow> bool" where
  "open_result s q \<longleftrightarrow> (case q of (r, s') \<Rightarrow> same_names (cur s) (cur s')
     \<and> (case r of Inl err \<Rightarrow> err < 0 | Inr x \<Rightarrow> opened_ok x (cur s')))"

lemma create_cached_ok:
  assumes "errno_pos io" "pl_inv ps" "- 1 \<le> n" "create_cached io n ps s = (r, s')"
  shows "open_result s (r, s')"
  using assms fresh_pages_ok [of ps n]
  by (auto simp: create_cached_def err_or_EIO_def open_result_def opened_ok_def same_names_def fdata_def
      dest!: do_sysD [OF assms(1)] split: prod.splits sum.splits if_splits)

lemma use_cached_ok:
  assumes "errno_pos io" "pl_inv ps" "- 1 \<le> n" "use_cached io n f ps s = (r, s')"
  shows "open_result s (r, s')"
proof -
  let ?want = "if n = - 1 then int (length f) else n"
  have "0 \<le> ?want" using assms(3) by auto
  then show ?thesis using assms Resize_inv [of ps ?want False] Resize_Size [of ps ?want False]
    by (auto simp: use_cached_def Let_def err_or_EIO_def open_result_def opened_ok_def same_names_def fdata_def
        dest!: do_sysD [OF assms(1)] split: prod.splits sum.splits if_splits)
qed

lemma open_tmp_ok:
  assumes "errno_pos io" "pl_inv (pagelist (cur s))" "- 1 \<le> n" "open_tmp io n s = (r, s')"
  shows "open_result s (r, s')"
  using assms fresh_pages_ok [of "pagelist (cur s)" n]
  by (auto simp: open_tmp_def err_or_EIO_def open_result_def opened_ok_def same_names_def fdata_def
      dest!: do_sysD [OF assms(1)] split: prod.splits sum.splits if_splits)

definition mirror_errs :: "'w disk \<Rightarrow> bool" where
  "mirror_errs d \<longleftrightarrow> (\<forall>p w err name w'. open_mirror d p w = (Some err, name, w') \<longrightarrow> 0 \<le> err)"

lemma switch_to_mirror_ok:
  assumes "errno_pos io" "mirror_errs d" "opened_ok x (cur s)"
  shows "open_result s (switch_to_mirror io d (Inr x) s)"
proof -
  obtain r name w where 1: "open_mirror d (cachepath (cur s)) (world s) = (r, name, w)" by (metis prod_cases3)
  obtain q s1 where 2: "do_sys io Fdopen (s\<lparr>cur := (cur s)\<lparr>mirrorpath := name\<rparr>, world := w\<rparr>) = (q, s1)" by fastforce
  have "r = Some err \<Longrightarrow> err_or_EIO err < 0" for err
    using assms(2) 1 by (force simp: mirror_errs_def err_or_EIO_def)
  then show ?thesis using do_sysD [OF assms(1) 2] assms(3) 1 2
    by (cases r; cases q) (auto simp: open_result_def switch_to_mirror_def err_or_EIO_def opened_ok_def
        same_names_def fdata_def split: prod.splits)
qed

text \<open>Stat files that were written by \<open>Serialize\<close> hold well-formed page lists.\<close>

definition stat_files_ok :: "'w disk \<Rightarrow> bool" where
  "stat_files_ok d \<longleftrightarrow> (\<forall>p w text b ps. stat_text d p w = Some text \<and> Serialize_in text = Inr (b, ps) \<longrightarrow> pl_inv ps)"

lemma open_result_same: "cur s = cur t \<Longrightarrow> open_result s q = open_result t q"
  by (simp add: open_result_def)

lemma open_local_ok:
  assumes ok: "errno_pos io" "stat_files_ok d" and inv: "pl_inv (pagelist (cur s))" "- 1 \<le> n"
    and r: "open_local io d n s = (Inr r, s')"
  shows "open_result s (r, s')"
proof -
  obtain z s1 where 1: "do_sys io (OpenRdwr (cachepath (cur s))) s = (z, s1)" by fastforce
  note c = do_sys_same [OF 1]
  have create: "open_result s q" if "pl_inv ps" "create_cached io n ps s1 = q" for ps q
    using create_cached_ok [OF ok(1) that(1) inv(2)] that(2) c by (metis open_result_same prod.collapse)
  have use: "open_result s q" if "pl_inv ps" "use_cached io n f ps s1 = q" for ps f q
    using use_cached_ok [OF ok(1) that(1) inv(2)] that(2) c by (metis open_result_same prod.collapse)
  have "\<exists>ps. pl_inv ps \<and> (create_cached io n ps s1 = (r, s') \<or> (\<exists>f. use_cached io n f ps s1 = (r, s')))"
  proof (cases z)
    case (Inl err)
    then have "create_cached io n (pagelist (cur s)) s1 = (r, s')"
      using r 1 c by (auto simp: open_local_def Let_def split: prod.splits)
    then show ?thesis using inv(1) by blast
  next
    case (Inr k)
    show ?thesis
    proof (cases "stat_text d (e_path (cur s1)) (world s1)")
      case None
      then have "create_cached io n (pagelist (cur s)) s1 = (r, s')"
        using r 1 c Inr by (auto simp: open_local_def Let_def split: prod.splits)
      then show ?thesis using inv(1) by blast
    next
      case (Some tx)
      then obtain loaded ps where ps: "Serialize_in tx = Inr (loaded, ps)"
        using r 1 Inr by (cases "Serialize_in tx") (auto simp: open_local_def Let_def)
      have "pl_inv ps" using ok(2) Some ps unfolding stat_files_ok_def by blast
      moreover have "create_cached io n ps s1 = (r, s')
          \<or> use_cached io n (data_of d (cachepath (cur s)) (world s1)) ps s1 = (r, s')"
        using r 1 Inr Some ps by (cases loaded) (auto simp: open_local_def Let_def split: prod.splits)
      ultimately show ?thesis by blast
    qed
  qed
  then show ?thesis using create use by blast
qed

lemma open_cached_ok:
  assumes ok: "errno_pos io" "mirror_errs d" "stat_files_ok d" and inv: "pl_inv (pagelist (cur s))" "- 1 \<le> n"
    and r: "open_cached io d n t s = (Inr r, s')"
  shows "open_result s (r, s')"
proof -
  obtain q s1 where 1: "remove_stale io d t s = (q, s1)" by fastforce
  note c1 = remove_stale_cur [OF 1]
  show ?thesis
  proof (cases q)
    case (Some err)
    then show ?thesis using r 1 c1 remove_stale_err [OF ok(1), of d t s err s1]
      by (auto simp: open_cached_def open_result_def)
  next
    case None
    obtain L s2 where L: "open_local io d n s1 = (L, s2)" by fastforce
    then obtain r2 where 2: "open_local io d n s1 = (Inr r2, s2)"
      using r 1 None by (cases L) (simp_all add: open_cached_def)
    have R2: "open_result s (r2, s2)" using open_local_ok [OF ok(1,3) _ inv(2) 2] inv(1) c1
        open_result_same [OF c1, of "(r2, s2)"] by simp
    show ?thesis
    proof (cases r2)
      case (Inl err)
      then show ?thesis using r 1 2 None R2 by (simp add: open_cached_def)
    next
      case (Inr x)
      then have "open_result s2 (r, s')"
        using r 1 2 None R2 switch_to_mirror_ok [OF ok(1,2), of x s2]
        by (auto simp: open_cached_def open_result_def split: prod.splits)
      then show ?thesis using R2 by (auto simp: open_result_def same_names_def)
    qed
  qed
qed

text \<open>The last steps: the entity is open with one reference, or closed.\<close>

lemma SetMtime_cur:
  "errno_pos io \<Longrightarrow> SetMtime io t s = (r, s') \<Longrightarrow> e_file (cur s') = e_file (cur s) \<and> refcnt (cur s') = refcnt (cur s)
    \<and> pagelist (cur s') = pagelist (cur s) \<and> size_orgmeta (cur s') = size_orgmeta (cur s) \<and> r \<le> 0
    \<and> is_modify (cur s') = is_modify (cur s) \<and> same_names (cur s) (cur s') \<and> upload_id (cur s') = upload_id (cur s)"
  by (auto simp: SetMtime_def set_meta_def Let_def same_names_def dest: do_sysD split: prod.splits sum.splits if_splits)

definition entity_ok :: "ent \<Rightarrow> bool" where
  "entity_ok e \<longleftrightarrow> e_file e \<noteq> None \<and> pl_inv (pagelist e) \<and> length (fdata e) = nat (pl_Size (pagelist e))"

lemma finish_open_ok:
  assumes ok: "errno_pos io" and x: "opened_ok x (cur s)" and r: "finish_open io d pmeta t x s = (Inr r, s')"
  shows "same_names (cur s) (cur s') \<and>
    (if r = 0 then entity_ok (cur s') \<and> refcnt (cur s') = 1 \<and> \<not> is_modify (cur s') \<and> pl_Size (pagelist (cur s')) = fst x
      \<and> upload_id (cur s') = upload_id (cur s)
      \<and> Inr (size_orgmeta (cur s')) = (case pmeta of None \<Rightarrow> Inr 0 | Some meta \<Rightarrow> get_size meta)
     else e_file (cur s') = None)"
proof -
  obtain n sv tr where x': "x = (n, sv, tr)" by (cases x)
  obtain q s1 where 1: "(if tr then (case do_ftruncate io n s of (Some err, s1) \<Rightarrow> (Some err, s1)
        | (None, s1) \<Rightarrow> (case do_sys io Fsync s1 of (Inl err, s2) \<Rightarrow> (Some err, s2) | (Inr _, s2) \<Rightarrow> (None, s2)))
      else (None, s)) = (q, s1)" by fastforce
  show ?thesis
  proof (cases q)
    case (Some err)
    have "same_names (cur s) (cur s1)"
      using 1 Some by (auto simp: same_names_def dest!: do_ftruncate_cur do_ftruncate_fails do_sys_same
          split: if_splits prod.splits option.splits sum.splits)
    then show ?thesis using r 1 Some
      by (auto simp: finish_open_def x' close_fd_def err_or_EIO_def same_names_def split: if_splits)
  next
    case None
    have e1: "entity_ok (cur s1)" "pl_Size (pagelist (cur s1)) = n" "same_names (cur s) (cur s1)"
      "upload_id (cur s1) = upload_id (cur s)"
      using 1 None x
      by (auto simp: x' same_names_def entity_ok_def opened_ok_def fdata_def dest!: do_ftruncate_cur do_sys_same
          split: if_splits prod.splits option.splits sum.splits)
    define s2 where "s2 = (if sv then s1\<lparr>world := snd (save_stat d (e_path (cur s1))
        (serialize_text (pagelist (cur s1))) (world s1))\<rparr> else s1)"
    define s3 where "s3 = s2\<lparr>cur := (cur s2)\<lparr>refcnt := 1, is_modify := False\<rparr>\<rparr>"
    have c2: "cur s2 = cur s1" by (simp add: s2_def)
    obtain m k where mk: "Inr k = (case pmeta of None \<Rightarrow> Inr 0 | Some meta \<Rightarrow> get_size meta)"
      and eq: "finish_open io d pmeta t x s =
        (case SetMtime io t (s3\<lparr>cur := (cur s3)\<lparr>orgmeta := m, size_orgmeta := k\<rparr>\<rparr>) of
           (r, s5) \<Rightarrow> if r \<noteq> 0 then (Inr r, close_fd s5) else (Inr 0, s5))"
    proof (cases pmeta)
      case None
      then show thesis using that [of 0 "[]"] 1 \<open>q = None\<close>
        by (simp add: finish_open_def x' s2_def [symmetric] s3_def Let_def)
    next
      case (Some meta)
      show thesis
      proof (cases "get_size meta")
        case (Inl e)
        then show thesis using r 1 \<open>q = None\<close> Some
          by (simp add: finish_open_def x' s2_def [symmetric] s3_def Let_def)
      next
        case (Inr k)
        then show thesis using that [of k meta] 1 \<open>q = None\<close> Some
          by (simp add: finish_open_def x' s2_def [symmetric] s3_def Let_def)
      qed
    qed
    let ?s4 = "s3\<lparr>cur := (cur s3)\<lparr>orgmeta := m, size_orgmeta := k\<rparr>\<rparr>"
    obtain r5 s5 where 5: "SetMtime io t ?s4 = (r5, s5)" by fastforce
    note M = SetMtime_cur [OF ok 5]
    show ?thesis using r eq 5 M e1 mk
      by (auto simp: x' close_fd_def entity_ok_def same_names_def fdata_def s3_def c2 split: if_splits)
  qed
qed

lemma reopen_ok:
  assumes ok: "errno_pos io" and e: "e_file (cur s) \<noteq> None" and r: "reopen io pmeta n s = (Inr r, s')"
  shows "same_names (cur s) (cur s') \<and> e_file (cur s') \<noteq> None
    \<and> refcnt (cur s') = refcnt (cur s) + (if r = 0 then 1 else 0) \<and> r \<le> 0
    \<and> (entity_ok (cur s) \<longrightarrow> (r = 0 \<longrightarrow> entity_ok (cur s') \<and> (0 \<le> n \<longrightarrow> pl_Size (pagelist (cur s')) = n)))"
proof -
  define s1 where "s1 = s\<lparr>cur := ent_Dup (cur s)\<rparr>"
  have d: "ent_Dup (cur s) = (cur s)\<lparr>refcnt := refcnt (cur s) + 1\<rparr>" using e by (simp add: ent_Dup_def)
  show ?thesis
  proof (cases "0 \<le> n \<and> pl_Size (pagelist (cur s1)) \<noteq> n")
    case True
    obtain q s2 where 2: "do_ftruncate io n s1 = (q, s2)" by fastforce
    show ?thesis
    proof (cases q)
      case (Some err)
      then show ?thesis using r 2 True do_ftruncate_fails [of io n s1 err s2] e
        by (auto simp: reopen_def s1_def [symmetric] Let_def) (auto simp: s1_def d same_names_def)
    next
      case None
      have c: "cur s2 = (cur s1)\<lparr>e_file := Some (truncate_to (nat n) (fdata (cur s1)))\<rparr>"
        using do_ftruncate_cur [of io n s1 s2] 2 None by simp
      then show ?thesis using r 2 True None Resize_inv [of "pagelist (cur s)" n False]
          Resize_Size [of "pagelist (cur s)" n False]
        by (auto simp: reopen_def s1_def [symmetric] Let_def split: option.splits sum.splits)
          (auto simp: s1_def d same_names_def entity_ok_def fdata_def set_pages_def)
    qed
  next
    case False
    then show ?thesis using r e
      by (auto simp: reopen_def s1_def [symmetric] Let_def split: option.splits sum.splits)
        (auto simp: s1_def d same_names_def entity_ok_def fdata_def)
  qed
qed

lemma ent_Open_ok:
  assumes ok: "errno_pos io" "mirror_errs d" "stat_files_ok d" and n: "- 1 \<le> n"
    and e: "if e_file (cur s) = None then pl_inv (pagelist (cur s)) else entity_ok (cur s)"
    and r: "ent_Open io d pmeta n t s = (Inr r, s')"
  shows "same_names (cur s) (cur s') \<and>
    (r = 0 \<longrightarrow> entity_ok (cur s') \<and> (0 \<le> n \<longrightarrow> pl_Size (pagelist (cur s')) = n)
      \<and> refcnt (cur s') = (if e_file (cur s) = None then 1 else refcnt (cur s) + 1))
    \<and> (r \<noteq> 0 \<and> e_file (cur s) \<noteq> None \<longrightarrow> e_file (cur s') \<noteq> None \<and> refcnt (cur s') = refcnt (cur s))"
proof (cases "e_file (cur s) = None")
  case False
  then show ?thesis using reopen_ok [OF ok(1), of s pmeta n r s'] r e by (auto simp: ent_Open_def)
next
  case True
  define L where "L = (if cachepath (cur s) \<noteq> [] then open_cached io d n t s
               else (case open_tmp io n s of (r, s1) \<Rightarrow> (Inr r, s1)))"
  obtain l s1 where l: "L = (l, s1)" by fastforce
  obtain q where q: "l = Inr q" using r True l by (cases l) (simp_all add: ent_Open_def L_def [symmetric])
  have R: "open_result s (q, s1)"
    using open_cached_ok [OF ok _ n, of s t q s1] open_tmp_ok [OF ok(1) _ n, of s q s1] True e l q
    by (auto simp: L_def split: if_splits prod.splits)
  show ?thesis
  proof (cases q)
    case (Inl err)
    then show ?thesis using r True l q R by (auto simp: ent_Open_def L_def [symmetric] open_result_def)
  next
    case (Inr x)
    have f: "finish_open io d pmeta t x s1 = (Inr r, s')"
      using r True l q Inr by (simp add: ent_Open_def L_def [symmetric])
    have x: "opened_ok x (cur s1)" "same_names (cur s) (cur s1)" using R Inr by (simp_all add: open_result_def)
    have "fst x = (if n = - 1 then fst x else n)"
      using l q Inr unfolding L_def open_cached_def open_tmp_def open_local_def create_cached_def
        use_cached_def switch_to_mirror_def
      by (auto simp: Let_def split: if_splits prod.splits sum.splits option.splits)
    with finish_open_ok [OF ok(1) x(1) f] x(2) True n show ?thesis
      by (auto simp: same_names_def split: if_splits)
  qed
qed

section \<open>The property\<close>

text \<open>
  A successful \<open>Open\<close> leaves an open file with well-formed pages, whose local file has exactly
  their size, which is the size asked for; a file that was open counts one reference more, any other one.
  When opening an open file fails, it stays open and its count is as before.
\<close>

theorem Open_counts_and_sizes:
  assumes "errno_pos io" "mirror_errs d" "stat_files_ok d" "- 1 \<le> n"
    and "if e_file (cur s) = None then pl_inv (pagelist (cur s)) else entity_ok (cur s)"
    and "ent_Open io d pmeta n t s = (Inr r, s')"
  shows "(r = 0 \<longrightarrow> entity_ok (cur s') \<and> (0 \<le> n \<longrightarrow> pl_Size (pagelist (cur s')) = n)
      \<and> refcnt (cur s') = (if e_file (cur s) = None then 1 else refcnt (cur s) + 1))
    \<and> (r \<noteq> 0 \<and> e_file (cur s) \<noteq> None \<longrightarrow> e_file (cur s') \<noteq> None \<and> refcnt (cur s') = refcnt (cur s))"
  using ent_Open_ok [OF assms] by blast

definition open_io :: "unit io" where
  "open_io = \<lparr>sys = (\<lambda>c w. (Inr 0, w)),
     get_object = (\<lambda>par path off n w. (0, [], w)), put_object = (\<lambda>par path meta f w. (0, w)),
     mp_pre = (\<lambda>path meta w. (0, ''id'', w)), mp_upload = (\<lambda>uid path f tags w. (0, tags, w)),
     mp_complete = (\<lambda>path uid tags w. (0, w)), avail_space = (\<lambda>w. 1000000),
     cleanup_cache = (\<lambda>w. w), leave_cache = (\<lambda>path w. w), to_temp_path = (\<lambda>path w. w),
     multipart_size = 10485760, max_parallel = 5, nomultipart = False, is_cache_dir = False\<rparr>"

definition open_disk :: "unit disk" where
  "open_disk = \<lparr>mtime_of = (\<lambda>p w. None), data_of = (\<lambda>p w. []), stat_text = (\<lambda>p w. None),
     save_stat = (\<lambda>p text w. (True, w)), open_mirror = (\<lambda>p w. (None, ''/m'', w)),
     drop_mirror = (\<lambda>p w. w), file_times = (\<lambda>f w. (0, 0))\<rparr>"

theorem Open_counts_and_sizes_witness:
  "let s = \<lparr>cur = new_entity ''/f'' [], free_disk = 0, world = ()\<rparr> in
   case ent_Open open_io open_disk None 7 (- 1) s of
     (r, s') \<Rightarrow> r = Inr 0 \<and> entity_ok (cur s') \<and> pl_Size (pagelist (cur s')) = 7 \<and> refcnt (cur s') = 1"
proof -
  let ?s = "\<lparr>cur = new_entity ''/f'' [], free_disk = 0, world = ()\<rparr>"
  obtain q s' where o: "ent_Open open_io open_disk None 7 (- 1) ?s = (q, s')" by fastforce
  have "fst (ent_Open open_io open_disk None 7 (- 1) ?s) = Inr 0" by code_simp
  then have q: "q = Inr 0" using o by simp
  have "errno_pos open_io" "mirror_errs open_disk" "stat_files_ok open_disk"
    by (simp_all add: errno_pos_def mirror_errs_def stat_files_ok_def open_io_def open_disk_def)
  from Open_counts_and_sizes [OF this _ _ o [unfolded q]] o q show ?thesis
    by (simp add: new_entity_def)
qed

end
