(* ===== verification/Fd_Manager.thy ===== *)
theory Fd_Manager
  imports Fd_Entity
begin

text \<open>
  The table of open files, class \<open>FdManager\<close> of \<open>protocols/s3/fdcache.cpp\<close>: a map from
  paths to entities that are shared and counted. Entities are objects behind pointers: an address stands
  for a pointer, \<open>ents\<close> for the objects that are alive. The descriptor of an open entity is
  identified with its address. A method that does not return, as it takes a lock its own thread holds,
  aborts the process or, in the clean-up, lets an exception pass, is \<open>None\<close>; \<open>held\<close> is the entity whose data lock the calling thread holds.
\<close>

section \<open>State\<close>

record 'w mgr =
  fent :: "nat smap"
  ents :: "nat \<Rightarrow> ent option"
  next_id :: nat
  m_free :: int
  m_world :: 'w

text \<open>The settings the manager uses, and what the system gives it: directories and random numbers.\<close>

record 'w mgr_env =
  me_io :: "'w io"
  me_disk :: "'w disk"
  cache_dir :: string
  bucket :: string
  mkdirs :: "string \<Rightarrow> 'w \<Rightarrow> int"
  random :: "'w \<Rightarrow> nat"

definition ent_at :: "'w mgr \<Rightarrow> nat \<Rightarrow> ent" where
  "ent_at m a = the (ents m a)"

definition fd_of :: "'w mgr \<Rightarrow> nat \<Rightarrow> int" where
  "fd_of m a = (if ent_IsOpen (ent_at m a) then int a else - 1)"

definition enter :: "nat \<Rightarrow> 'w mgr \<Rightarrow> 'w fds" where
  "enter a m = \<lparr>cur = ent_at m a, free_disk = m_free m, world = m_world m\<rparr>"

definition leave :: "nat \<Rightarrow> 'w fds \<Rightarrow> 'w mgr \<Rightarrow> 'w mgr" where
  "leave a s m = m\<lparr>ents := (ents m)(a \<mapsto> cur s), m_free := free_disk s, m_world := world s\<rparr>"

definition update_ent :: "nat \<Rightarrow> (ent \<Rightarrow> ent) \<Rightarrow> 'w mgr \<Rightarrow> 'w mgr" where
  "update_ent a f m = m\<lparr>ents := (ents m)(a \<mapsto> f (ent_at m a))\<rparr>"

definition new_mgr :: "'w \<Rightarrow> 'w mgr" where
  "new_mgr w = \<lparr>fent = [], ents = (\<lambda>_. None), next_id = 0, m_free = 0, m_world = w\<rparr>"

section \<open>Keys\<close>

fun hex_digits :: "nat \<Rightarrow> string" where
  "hex_digits n =
     (let c = (''0123456789abcdef'' ! (n mod 16)) in if n < 16 then [c] else hex_digits (n div 16) @ [c])"

declare hex_digits.simps [simp del]

definition MakeRandomTempPath :: "nat \<Rightarrow> string option \<Rightarrow> string" where
  "MakeRandomTempPath r path =
     '' __S3FS_UNEXISTED_PATH_'' @ hex_digits r @ ''__ / '' @ (case path of None \<Rightarrow> [] | Some p \<Rightarrow> p)"

section \<open>Closing and looking up\<close>

definition mgr_Close :: "'w mgr_env \<Rightarrow> nat option \<Rightarrow> 'w mgr \<Rightarrow> (bool \<times> 'w mgr) option" where
  "mgr_Close env ent m =
     (case ent of None \<Rightarrow> Some (True, m)
      | Some a \<Rightarrow>
          if a \<notin> snd ` set (fent m) then Some (False, m)
          else
            (case ent_Close (me_disk env) (enter a m) of
               None \<Rightarrow> None
             | Some s \<Rightarrow>
                 (let m1 = leave a s m in
                  if ent_IsOpen (cur s) then Some (True, m1)
                  else Some (True, m1\<lparr>fent := filter (\<lambda>(k, b). b \<noteq> a) (fent m1),
                                      ents := (ents m1)(a := None)\<rparr>))))"

definition search_fent :: "(nat \<Rightarrow> bool) \<Rightarrow> 'w mgr \<Rightarrow> nat option" where
  "search_fent P m = map_option snd (List.find (\<lambda>(k, a). P a) (fent m))"

definition GetFdEntity :: "string \<Rightarrow> int \<Rightarrow> 'w mgr \<Rightarrow> nat option \<times> 'w mgr" where
  "GetFdEntity path existfd m =
     (if path = [] then (None, m)
      else
        (let by_fd =
               (if existfd \<noteq> - 1 then
                  (case search_fent (\<lambda>a. fd_of m a = existfd) m of
                     Some a \<Rightarrow> if e_path (ent_at m a) = path then (Some a, update_ent a ent_Dup m) else (None, m)
                   | None \<Rightarrow> (None, m))
                else (None, m))
         in case sm_find path (fent m) of
              Some a \<Rightarrow> if existfd = - 1 \<or> fd_of m a = existfd then (Some a, update_ent a ent_Dup m) else by_fd
            | None \<Rightarrow> by_fd))"

section \<open>Opening\<close>

definition IsCacheDir :: "'w mgr_env \<Rightarrow> bool" where
  "IsCacheDir env \<longleftrightarrow> cache_dir env \<noteq> []"

text \<open>The entity for a path: one that is in the table, or a new one entered under its key.\<close>

definition find_open :: "'w mgr_env \<Rightarrow> string \<Rightarrow> bool \<Rightarrow> 'w mgr \<Rightarrow> nat option" where
  "find_open env path force_tmpfile m =
     (case sm_find path (fent m) of
        Some a \<Rightarrow> Some a
      | None \<Rightarrow>
          if \<not> force_tmpfile \<and> \<not> IsCacheDir env
          then search_fent (\<lambda>a. ent_IsOpen (ent_at m a) \<and> e_path (ent_at m a) = path) m else None)"

definition cache_path_of :: "'w mgr_env \<Rightarrow> string \<Rightarrow> bool \<Rightarrow> 'w mgr \<Rightarrow> string option" where
  "cache_path_of env path force_tmpfile m =
     (if force_tmpfile then Some []
      else MakeCachePath (cache_dir env) (bucket env) (\<lambda>p. mkdirs env p (m_world m)) (Some path) True False)"

definition entity_key :: "'w mgr_env \<Rightarrow> string \<Rightarrow> string \<Rightarrow> 'w mgr \<Rightarrow> string" where
  "entity_key env path cache_path m =
     (if cache_path \<noteq> [] then path else MakeRandomTempPath (random env (m_world m)) (Some path))"

definition add_entity :: "'w mgr_env \<Rightarrow> string \<Rightarrow> string \<Rightarrow> 'w mgr \<Rightarrow> nat \<times> 'w mgr" where
  "add_entity env path cache_path m =
     (let a = next_id m
      in (a, m\<lparr>fent := sm_set (entity_key env path cache_path m) a (fent m),
              ents := (ents m)(a \<mapsto> new_entity path cache_path), next_id := Suc a\<rparr>))"

definition open_entity ::
  "'w mgr_env \<Rightarrow> headers option \<Rightarrow> int \<Rightarrow> int \<Rightarrow> nat \<Rightarrow> 'w mgr \<Rightarrow> (strtoofft_error + int) \<times> 'w mgr" where
  "open_entity env pmeta sz t a m =
     (case ent_Open (me_io env) (me_disk env) pmeta sz t (enter a m) of (r, s) \<Rightarrow> (r, leave a s m))"

definition mgr_Open ::
  "'w mgr_env \<Rightarrow> nat option \<Rightarrow> string \<Rightarrow> headers option \<Rightarrow> int \<Rightarrow> int \<Rightarrow> bool \<Rightarrow> bool \<Rightarrow> 'w mgr
   \<Rightarrow> ((strtoofft_error + nat option) \<times> 'w mgr) option" where
  "mgr_Open env held path pmeta sz t force_tmpfile is_create m =
     (if path = [] then Some (Inr None, m)
      else case find_open env path force_tmpfile m of
        Some a \<Rightarrow>
          if held = Some a then None
          else
            (case open_entity env pmeta sz t a (update_ent a ent_Dup m) of
               (Inl e, m1) \<Rightarrow> Some (Inl e, m1)
             | (Inr r, m1) \<Rightarrow>
                 (case ent_Close (me_disk env) (enter a m1) of
                    None \<Rightarrow> None
                  | Some s \<Rightarrow> Some (Inr (if r \<noteq> 0 then None else Some a), leave a s m1)))
      | None \<Rightarrow>
          if is_create then
            (case cache_path_of env path force_tmpfile m of
               None \<Rightarrow> Some (Inr None, m)
             | Some cache_path \<Rightarrow>
                 (case add_entity env path cache_path m of
                    (a, m1) \<Rightarrow>
                      (case open_entity env pmeta sz t a m1 of
                         (Inl e, m2) \<Rightarrow> Some (Inl e, m2)
                       | (Inr r, m2) \<Rightarrow> Some (Inr (if r \<noteq> 0 then None else Some a), m2))))
          else Some (Inr None, m))"

definition ExistOpen ::
  "'w mgr_env \<Rightarrow> string \<Rightarrow> int \<Rightarrow> bool \<Rightarrow> 'w mgr \<Rightarrow> ((strtoofft_error + nat option) \<times> 'w mgr) option" where
  "ExistOpen env path existfd ignore_existfd m =
     (case mgr_Open env None path None (- 1) (- 1) False False m of
        Some (Inr None, m1) \<Rightarrow>
          if ignore_existfd \<or> existfd \<noteq> - 1 then
            (case search_fent (\<lambda>a. ent_IsOpen (ent_at m1 a) \<and> (ignore_existfd \<or> fd_of m1 a = existfd)) m1 of
               Some a \<Rightarrow>
                 if e_path (ent_at m1 a) = path then Some (Inr (Some a), update_ent a ent_Dup m1)
                 else Some (Inr None, m1)
             | None \<Rightarrow> Some (Inr None, m1))
          else Some (Inr None, m1)
      | r \<Rightarrow> r)"

section \<open>Renaming\<close>

definition mgr_Rename :: "string \<Rightarrow> string \<Rightarrow> 'w mgr \<Rightarrow> 'w mgr" where
  "mgr_Rename from to m =
     (case sm_find from (fent m) of
        None \<Rightarrow> m
      | Some a \<Rightarrow>
          (update_ent a (\<lambda>e. e\<lparr>e_path := to\<rparr>) m)\<lparr>fent := sm_set to a (sm_erase from (fent m))\<rparr>)"

text \<open>
  \<open>ChangeEntityToTempPath\<close> runs through the map while it changes it: \<open>rest\<close> is what the iterator
  has still before it, and an entry put behind the iterator's place is met again, with the next random
  number. \<open>rs\<close> are the random numbers to come; \<open>None\<close>: they did not suffice.
\<close>

fun change_loop :: "nat \<Rightarrow> string \<Rightarrow> nat list \<Rightarrow> nat smap \<Rightarrow> nat smap \<Rightarrow> nat \<Rightarrow> nat smap option" where
  "change_loop a path rs m rest 0 = None"
| "change_loop a path rs m [] (Suc n) = Some m"
| "change_loop a path rs m ((k, b) # rest) (Suc n) =
     (if b \<noteq> a then change_loop a path rs m rest n
      else case rs of
        [] \<Rightarrow> None
      | r # rs' \<Rightarrow>
          (let m1 = sm_set (MakeRandomTempPath r (Some path)) a (sm_erase k m)
           in change_loop a path rs' m1
                (case rest of [] \<Rightarrow> [] | (k', _) # _ \<Rightarrow> dropWhile (\<lambda>(x, _). x < k') m1) n))"

definition ChangeEntityToTempPath :: "nat list \<Rightarrow> nat \<Rightarrow> string \<Rightarrow> 'w mgr \<Rightarrow> (bool \<times> 'w mgr) option" where
  "ChangeEntityToTempPath rs a path m =
     map_option (\<lambda>f. (False, m\<lparr>fent := f\<rparr>))
       (change_loop a path rs (fent m) (fent m) (Suc (length (fent m)) * Suc (length rs)))"

section \<open>Cleaning the cache directory\<close>

text \<open>What \<open>readdir\<close> and \<open>lstat\<close> give for the cache directory.\<close>

datatype dirent = Dfile (dname: string) | Ddir (dname: string) "dirent list"

fun cleanup_entry :: "'w mgr_env \<Rightarrow> nat option \<Rightarrow> string \<Rightarrow> dirent \<Rightarrow> 'w mgr \<Rightarrow> 'w mgr option"
  and cleanup_dir :: "'w mgr_env \<Rightarrow> nat option \<Rightarrow> string \<Rightarrow> dirent list \<Rightarrow> 'w mgr \<Rightarrow> 'w mgr option" where
  "cleanup_entry env held path (Ddir name ds) m = cleanup_dir env held (path @ ''/'' @ name) ds m"
| "cleanup_entry env held path (Dfile name) m =
     (case mgr_Open env held (path @ ''/'' @ name) None (- 1) (- 1) False True m of
        None \<Rightarrow> None
      | Some (Inl e, m1) \<Rightarrow> None
      | Some (Inr None, m1) \<Rightarrow> Some m1
      | Some (Inr (Some a), m1) \<Rightarrow>
          (let m2 = (if IsMultiOpened (ent_at m1 a) then m1
                 else leave a (CleanupCache (me_io env) (enter a m1)) m1)
           in map_option snd (mgr_Close env (Some a) m2)))"
| "cleanup_dir env held path [] m = Some m"
| "cleanup_dir env held path (d # ds) m =
     (if dname d = ''..'' \<or> dname d = ''.'' then cleanup_dir env held path ds m
      else case cleanup_entry env held path d m of
        None \<Rightarrow> None | Some m1 \<Rightarrow> cleanup_dir env held path ds m1)"

definition CleanupCacheDir :: "'w mgr_env \<Rightarrow> nat option \<Rightarrow> dirent list \<Rightarrow> 'w mgr \<Rightarrow> 'w mgr option" where
  "CleanupCacheDir env held listing m =
     (if \<not> IsCacheDir env then Some m else cleanup_dir env held [] listing m)"

section \<open>Who holds what\<close>

text \<open>
  \<open>h a\<close> is the number of references to entity \<open>a\<close> the program has been given and has not closed.
  The table is in order when every entity in it is alive, open and counts exactly these references, every
  entity that is alive is in it, under one key, and nothing else is referred to.
\<close>

definition mgr_ok :: "'w mgr \<Rightarrow> (nat \<Rightarrow> nat) \<Rightarrow> bool" where
  "mgr_ok m h \<longleftrightarrow> sm_sorted (fent m) \<and> distinct (map snd (fent m))
     \<and> (\<forall>a. ents m a \<noteq> None \<longleftrightarrow> a \<in> snd ` set (fent m))
     \<and> (\<forall>a. next_id m \<le> a \<longrightarrow> ents m a = None)
     \<and> (\<forall>a e. ents m a = Some e \<longrightarrow> entity_ok e \<and> refcnt e = h a \<and> 0 < h a)
     \<and> (\<forall>a. ents m a = None \<longrightarrow> h a = 0)"

definition env_ok :: "'w mgr_env \<Rightarrow> bool" where
  "env_ok env \<longleftrightarrow> errno_pos (me_io env) \<and> mirror_errs (me_disk env) \<and> stat_files_ok (me_disk env)"

lemma om_set_new:
  "om_find lt k m = None \<Longrightarrow> set (om_set lt k v m) = insert (k, v) (set m)
    \<and> (distinct (map snd (om_set lt k v m)) \<longleftrightarrow> v \<notin> snd ` set m \<and> distinct (map snd m))"
  by (induction lt k v m rule: om_set.induct) (force split: if_splits)+

lemma om_find_value: "om_find lt k m = Some v \<Longrightarrow> v \<in> snd ` set m"
  using om_find_elem by force

lemma om_erase_old:
  "om_find lt k m = Some v \<Longrightarrow> distinct (map snd m) \<Longrightarrow>
    snd ` set (om_erase lt k m) = snd ` set m - {v} \<and> distinct (map snd (om_erase lt k m))"
proof (induction lt k m rule: om_erase.induct)
  case (1 lt k)
  then show ?case by simp
next
  case (2 lt k a b m)
  show ?case
  proof (cases "lt a k")
    case True
    then have f: "om_find lt k m = Some v" using "2.prems"(1) by simp
    have d: "b \<notin> snd ` set m" "distinct (map snd m)" using "2.prems"(2) by auto
    have "b \<noteq> v" using om_find_value [OF f] d(1) by blast
    moreover note "2.IH" [OF True f d(2)]
    ultimately show ?thesis using True d by auto
  next
    case False
    then have "\<not> lt k a" "b = v" using "2.prems"(1) by (auto split: if_splits)
    then show ?thesis using False "2.prems"(2) by auto
  qed
qed

lemma search_fent_Some: "search_fent P m = Some a \<Longrightarrow> a \<in> snd ` set (fent m) \<and> P a"
proof -
  assume "search_fent P m = Some a"
  then obtain k where "List.find (\<lambda>(k, a). P a) (fent m) = Some (k, a)"
    by (auto simp: search_fent_def)
  then have "(k, a) \<in> set (fent m) \<and> P a" by (auto simp: find_Some_iff) (metis nth_mem)
  then show ?thesis by force
qed

lemma mgr_ok_new: "mgr_ok (new_mgr w) (\<lambda>_. 0)"
  by (simp add: mgr_ok_def new_mgr_def)

lemma mgr_ok_alive:
  assumes "mgr_ok m h" "a \<in> snd ` set (fent m)"
  shows "ents m a = Some (ent_at m a)" "entity_ok (ent_at m a)" "refcnt (ent_at m a) = h a" "0 < h a"
proof -
  obtain e where "ents m a = Some e" using assms unfolding mgr_ok_def by blast
  then show "ents m a = Some (ent_at m a)" "entity_ok (ent_at m a)" "refcnt (ent_at m a) = h a" "0 < h a"
    using assms(1) by (auto simp: mgr_ok_def ent_at_def)
qed

text \<open>One entity of the table is replaced by another state of it that counts \<open>n\<close> references.\<close>

lemma mgr_ok_update:
  assumes "mgr_ok m h" "a \<in> snd ` set (fent m)" "entity_ok e" "refcnt e = n" "0 < n"
    and "fent m' = fent m" "ents m' = (ents m)(a \<mapsto> e)" "next_id m' = next_id m"
  shows "mgr_ok m' (h(a := n))"
proof -
  have "a < next_id m" using assms(1,2) unfolding mgr_ok_def by (metis linorder_not_le)
  then show ?thesis using assms by (auto simp: mgr_ok_def)
qed

lemma mgr_ok_update_same:
  assumes "mgr_ok m h" "a \<in> snd ` set (fent m)" "entity_ok e" "refcnt e = h a"
    and "fent m' = fent m" "ents m' = (ents m)(a \<mapsto> e)" "next_id m' = next_id m"
  shows "mgr_ok m' h"
  using mgr_ok_update [OF assms(1-4) mgr_ok_alive(4) [OF assms(1,2)] assms(5-)] by simp

lemma Dup_ok:
  assumes "mgr_ok m h" "a \<in> snd ` set (fent m)"
  shows "mgr_ok (update_ent a ent_Dup m) (h(a := h a + 1))"
  by (rule mgr_ok_update [OF assms, of "ent_Dup (ent_at m a)"])
    (use mgr_ok_alive [OF assms] in \<open>auto simp: ent_Dup_def entity_ok_def update_ent_def fdata_def\<close>)

lemma GetFdEntity_ok:
  assumes "mgr_ok m h" "GetFdEntity path existfd m = (r, m')"
  shows "case r of None \<Rightarrow> m' = m | Some a \<Rightarrow> mgr_ok m' (h(a := h a + 1)) \<and> a \<in> snd ` set (fent m')"
proof -
  have "(r = None \<and> m' = m) \<or> (\<exists>a. r = Some a \<and> a \<in> snd ` set (fent m) \<and> m' = update_ent a ent_Dup m)"
  proof (cases "path \<noteq> [] \<and> (\<exists>a. sm_find path (fent m) = Some a \<and> (existfd = - 1 \<or> fd_of m a = existfd))")
    case True
    then obtain a where a: "sm_find path (fent m) = Some a" "existfd = - 1 \<or> fd_of m a = existfd" by blast
    then have "GetFdEntity path existfd m = (Some a, update_ent a ent_Dup m)"
      using True unfolding GetFdEntity_def by simp
    then show ?thesis using assms(2) om_find_value [OF a(1)] by simp
  next
    case False
    define S where "S = search_fent (\<lambda>a. fd_of m a = existfd) m"
    have S: "S = Some a \<Longrightarrow> a \<in> snd ` set (fent m)" for a
      using search_fent_Some [of "\<lambda>a. fd_of m a = existfd" m a] by (simp add: S_def)
    have "(if path \<noteq> [] \<and> existfd \<noteq> - 1 then
        (case S of Some a \<Rightarrow> if e_path (ent_at m a) = path then (Some a, update_ent a ent_Dup m) else (None, m)
         | None \<Rightarrow> (None, m)) else (None, m)) = (r, m')"
      using assms(2) False unfolding GetFdEntity_def Let_def S_def
      by (cases "sm_find path (fent m)") (auto split: if_splits)
    then show ?thesis using S by (cases S) (auto split: if_splits)
  qed
  then consider "r = None" "m' = m" | a where "r = Some a" "a \<in> snd ` set (fent m)" "m' = update_ent a ent_Dup m"
    by blast
  then show ?thesis
  proof cases
    case 2
    then show ?thesis using Dup_ok [OF assms(1) 2(2)] by (simp add: update_ent_def)
  qed simp
qed

lemma ent_Close_ok:
  assumes e: "entity_ok (cur s)" "0 < refcnt (cur s)"
  obtains s' where "ent_Close d s = Some s'" "refcnt (cur s') = refcnt (cur s) - 1"
    "if refcnt (cur s) = 1 then e_file (cur s') = None else entity_ok (cur s')" "e_path (cur s') = e_path (cur s)"
  using e by (auto simp: ent_Close_def Let_def entity_ok_def release_file_def fdata_def)

lemma mgr_Close_ok:
  assumes ok: "mgr_ok m h" and a: "0 < h a"
  shows "\<exists>m'. mgr_Close env (Some a) m = Some (True, m') \<and> mgr_ok m' (h(a := h a - 1))
    \<and> (ents m' a = None \<longleftrightarrow> h a = 1)"
proof -
  have in': "a \<in> snd ` set (fent m)" using ok a by (auto simp: mgr_ok_def)
  note A = mgr_ok_alive [OF ok in']
  have e: "entity_ok (cur (enter a m))" "refcnt (cur (enter a m)) = h a" using A by (simp_all add: enter_def)
  obtain s where s: "ent_Close (me_disk env) (enter a m) = Some s" "refcnt (cur s) = h a - 1"
    "if h a = 1 then e_file (cur s) = None else entity_ok (cur s)"
    using ent_Close_ok [OF e(1), of "me_disk env"] e(2) a by (metis (no_types, lifting))
  show ?thesis
  proof (cases "h a = 1")
    case False
    then have "mgr_ok (leave a s m) (h(a := h a - 1))"
      using s a by (intro mgr_ok_update [OF ok in', of "cur s"]) (auto simp: leave_def)
    then show ?thesis using s in' False by (auto simp: mgr_Close_def ent_IsOpen_def entity_ok_def Let_def leave_def)
  next
    case True
    let ?m = "(leave a s m)\<lparr>fent := filter (\<lambda>(k, b). b \<noteq> a) (fent m), ents := (ents m)(a := None)\<rparr>"
    have "mgr_ok ?m (h(a := h a - 1))"
      using ok True by (auto simp: mgr_ok_def leave_def om_sorted_filter distinct_map_filter)
    then show ?thesis using s in' True
      by (auto simp: mgr_Close_def ent_IsOpen_def Let_def leave_def)
  qed
qed

lemma find_open_in:
  "find_open env path b m = Some a \<Longrightarrow> a \<in> snd ` set (fent m)"
  using om_find_value [of "(<)" path "fent m" a] search_fent_Some [of _ m a]
  by (auto simp only: find_open_def split: option.splits if_splits)

text \<open>Opening an entity that is in the table: a reference more, or on failure the table as it was.\<close>

lemma open_existing_ok:
  assumes env: "env_ok env" and ok: "mgr_ok m h" and n: "- 1 \<le> n"
    and f: "path \<noteq> []" "find_open env path force m = Some a" "held \<noteq> Some a"
    and r: "mgr_Open env held path pmeta n t force create m = Some (Inr r, m')"
  shows "(r = Some a \<and> mgr_ok m' (h(a := h a + 1))) \<or> (r = None \<and> mgr_ok m' h)"
proof -
  have in': "a \<in> snd ` set (fent m)" using find_open_in [OF f(2)] .
  note A = mgr_ok_alive [OF ok in']
  define m1 where "m1 = update_ent a ent_Dup m"
  have e1: "entity_ok (cur (enter a m1))" "refcnt (cur (enter a m1)) = h a + 1" "e_file (cur (enter a m1)) \<noteq> None"
    using A by (auto simp: m1_def enter_def update_ent_def ent_at_def ent_Dup_def entity_ok_def fdata_def)
  obtain q s where o: "ent_Open (me_io env) (me_disk env) pmeta n t (enter a m1) = (q, s)" by fastforce
  obtain code where q: "q = Inr code"
    using r f o by (cases q) (simp_all add: mgr_Open_def open_entity_def m1_def [symmetric])
  have O: "entity_ok (cur s) \<or> code \<noteq> 0" "refcnt (cur s) = h a + 1 + (if code = 0 then 1 else 0)"
    "e_file (cur s) \<noteq> None"
    using ent_Open_ok [of "me_io env" "me_disk env" n "enter a m1" pmeta t code s] env n e1 o q
    by (auto simp: env_ok_def entity_ok_def)
  have O': "entity_ok (cur s)"
  proof (cases "code = 0")
    case False
    have ro: "reopen (me_io env) pmeta n (enter a m1) = (Inr code, s)"
      using o q e1(3) by (simp add: ent_Open_def)
    have "cur s = cur (enter a m1)"
      using ro e1(3) False
      by (auto simp: reopen_def Let_def ent_Dup_def dest!: do_ftruncate_fails split: option.splits sum.splits if_splits prod.splits)
    then show ?thesis using e1(1) by simp
  qed (use O in simp)
  let ?m2 = "leave a s m1"
  have e2: "entity_ok (cur (enter a ?m2))" "refcnt (cur (enter a ?m2)) = h a + 1 + (if code = 0 then 1 else 0)"
    using O' O(2) by (simp_all add: enter_def leave_def ent_at_def)
  obtain s' where c: "ent_Close (me_disk env) (enter a ?m2) = Some s'"
    "refcnt (cur s') = h a + (if code = 0 then 1 else 0)" "entity_ok (cur s')"
    using ent_Close_ok [OF e2(1), of "me_disk env"] e2(2) A(4) by (auto split: if_splits)
  have m': "m' = leave a s' ?m2" "r = (if code \<noteq> 0 then None else Some a)"
    using r f o q c(1) by (simp_all add: mgr_Open_def open_entity_def m1_def [symmetric])
  have up: "fent m' = fent m" "ents m' = (ents m)(a \<mapsto> cur s')" "next_id m' = next_id m"
    by (simp_all add: m' leave_def m1_def update_ent_def)
  show ?thesis
  proof (cases "code = 0")
    case True
    then show ?thesis using mgr_ok_update [OF ok in' c(3) _ _ up, of "h a + 1"] c(2) m' by simp
  next
    case False
    then show ?thesis using mgr_ok_update_same [OF ok in' c(3) _ up] c(2) m' by simp
  qed
qed

text \<open>A new entity, entered under a key that is not taken.\<close>

lemma open_new_ok:
  assumes env: "env_ok env" and ok: "mgr_ok m h" and n: "- 1 \<le> n"
    and f: "path \<noteq> []" "find_open env path force m = None" "create"
    and key: "cache_path_of env path force m = Some cp" "sm_find (entity_key env path cp m) (fent m) = None"
    and r: "mgr_Open env held path pmeta n t force create m = Some (Inr (Some a), m')"
  shows "a = next_id m \<and> mgr_ok m' (h(a := h a + 1))"
proof -
  define k where "k = entity_key env path cp m"
  define m1 where "m1 = m\<lparr>fent := sm_set k (next_id m) (fent m), ents := (ents m)(next_id m \<mapsto> new_entity path cp),
      next_id := Suc (next_id m)\<rparr>"
  obtain q s where o: "ent_Open (me_io env) (me_disk env) pmeta n t (enter (next_id m) m1) = (q, s)" by fastforce
  have add: "add_entity env path cp m = (next_id m, m1)" by (simp add: add_entity_def Let_def m1_def k_def)
  obtain code where q: "q = Inr code" and a: "code = 0" "a = next_id m" "m' = leave (next_id m) s m1"
    using r f key(1) o add by (cases q) (auto simp: mgr_Open_def open_entity_def split: if_splits)
  have "cur (enter (next_id m) m1) = new_entity path cp" by (simp add: enter_def ent_at_def m1_def)
  then have O: "entity_ok (cur s)" "refcnt (cur s) = 1"
    using ent_Open_ok [of "me_io env" "me_disk env" n "enter (next_id m) m1" pmeta t code s] env n o q a
    by (auto simp: env_ok_def new_entity_def)
  have fresh: "ents m (next_id m) = None" "next_id m \<notin> snd ` set (fent m)" "h (next_id m) = 0"
    using ok unfolding mgr_ok_def by (metis order_refl)+
  note S = om_set_new [OF key(2), of "next_id m", folded k_def]
  have "sm_sorted (sm_set k (next_id m) (fent m))"
    using ok by (intro smap.sorted_set) (simp add: mgr_ok_def)
  then have "mgr_ok m' (h(next_id m := 1))"
    using ok O S fresh by (auto simp: mgr_ok_def a leave_def m1_def)
  then show ?thesis using a fresh by simp
qed

lemma mgr_ok_fent:
  "mgr_ok m h \<Longrightarrow> sm_sorted f \<Longrightarrow> distinct (map snd f) \<Longrightarrow> snd ` set f = snd ` set (fent m) \<Longrightarrow>
    mgr_ok (m\<lparr>fent := f\<rparr>) h"
  by (simp add: mgr_ok_def)

lemma Rename_ok:
  assumes ok: "mgr_ok m h" and to: "sm_find to (sm_erase from (fent m)) = None"
  shows "mgr_ok (mgr_Rename from to m) h"
proof (cases "sm_find from (fent m)")
  case None
  then show ?thesis using ok by (simp add: mgr_Rename_def)
next
  case (Some a)
  have in': "a \<in> snd ` set (fent m)" using om_find_value [OF Some] .
  note A = mgr_ok_alive [OF ok in']
  have d: "distinct (map snd (fent m))" "sm_sorted (fent m)" using ok by (simp_all add: mgr_ok_def)
  note E = om_erase_old [OF Some d(1)]
  note S = om_set_new [OF to, of a]
  let ?f = "sm_set to a (sm_erase from (fent m))" and ?e = "(ent_at m a)\<lparr>e_path := to\<rparr>"
  let ?m = "update_ent a (\<lambda>e. e\<lparr>e_path := to\<rparr>) m"
  have "mgr_ok ?m h"
  proof (rule mgr_ok_update_same [OF ok in'])
    show "entity_ok ?e" "refcnt ?e = h a" using A by (auto simp: entity_ok_def fdata_def)
  qed (simp_all add: update_ent_def)
  then have "mgr_ok (?m\<lparr>fent := ?f\<rparr>) h"
  proof (rule mgr_ok_fent)
    show "sm_sorted ?f" by (intro smap.sorted_set smap.sorted_erase d(2))
    show "distinct (map snd ?f)" using S E by auto
    show "snd ` set ?f = snd ` set (fent ?m)" using S E in' by (auto simp: update_ent_def)
  qed
  then show ?thesis using Some by (simp add: mgr_Rename_def)
qed

end
