(* ===== verification/Fd_Refs.thy ===== *)
theory Fd_Refs
  imports Fd_Manager
begin

text \<open>
  The references to cached files over the life of the process: runs of the operations of
  \<open>FdManager\<close> as an inductive relation, the invariant that every reference handed out refers to a
  live, open entity which counts it, and what breaks it.
\<close>

lemma ExistOpen_ok:
  assumes env: "env_ok env" and ok: "mgr_ok m h" and p: "path \<noteq> []"
    and r: "ExistOpen env path existfd ign m = Some (Inr r, m')"
  shows "mgr_ok m' (case r of None \<Rightarrow> h | Some a \<Rightarrow> h(a := h a + 1))"
proof -
  obtain q m1 where o: "mgr_Open env None path None (- 1) (- 1) False False m = Some (q, m1)"
    using r by (cases "mgr_Open env None path None (- 1) (- 1) False False m") (auto simp: ExistOpen_def)
  have 1: "(\<exists>a. q = Inr (Some a) \<and> mgr_ok m1 (h(a := h a + 1))) \<or> (q = Inr None \<and> mgr_ok m1 h) \<or> (\<exists>e. q = Inl e)"
  proof (cases "find_open env path False m")
    case None
    then show ?thesis using o p ok by (simp add: mgr_Open_def)
  next
    case (Some a)
    show ?thesis
    proof (cases q)
      case (Inr c)
      then show ?thesis using open_existing_ok [OF env ok _ p Some, of "- 1" None None "- 1" False c m1] o by auto
    qed simp
  qed
  show ?thesis
  proof (cases "q = Inr None \<and> r \<noteq> None")
    case False
    then show ?thesis using r o 1 by (auto simp: ExistOpen_def split: if_splits option.splits sum.splits)
  next
    case True
    then obtain a where a: "r = Some a" "m' = update_ent a ent_Dup m1"
        "search_fent (\<lambda>a. ent_IsOpen (ent_at m1 a) \<and> (ign \<or> fd_of m1 a = existfd)) m1 = Some a"
      using r o by (auto simp: ExistOpen_def split: if_splits option.splits)
    have "mgr_ok m1 h" using 1 True by auto
    then show ?thesis using Dup_ok [of m1 h a] search_fent_Some [OF a(3)] a by simp
  qed
qed

text \<open>A reference is handed out, or given back.\<close>

definition gain :: "nat option \<Rightarrow> (nat \<Rightarrow> nat) \<Rightarrow> nat \<Rightarrow> nat" where
  "gain r h = (case r of None \<Rightarrow> h | Some a \<Rightarrow> h(a := h a + 1))"

lemma gain_None: "gain None h = h" and gain_Some: "gain (Some a) h = h(a := h a + 1)"
  unfolding gain_def option.case by (rule refl)+

definition give_back :: "nat \<Rightarrow> (nat \<Rightarrow> nat) \<Rightarrow> nat \<Rightarrow> nat" where
  "give_back a h = h(a := h a - 1)"

definition put_ent :: "nat \<Rightarrow> ent \<Rightarrow> 'w mgr \<Rightarrow> 'w mgr" where
  "put_ent a e m = m\<lparr>ents := (ents m)(a \<mapsto> e)\<rparr>"

definition move_world :: "'w \<Rightarrow> int \<Rightarrow> 'w mgr \<Rightarrow> 'w mgr" where
  "move_world w n m = m\<lparr>m_world := w, m_free := n\<rparr>"

text \<open>
  The first opening of a path succeeds, and the temporary names that are to come are not taken by others.
\<close>

definition first_opens :: "'w mgr_env \<Rightarrow> string \<Rightarrow> 'w mgr \<Rightarrow> bool" where
  "first_opens env path m \<longleftrightarrow> (find_open env path False m = None \<longrightarrow>
     (\<exists>a m1. mgr_Open env None path None (- 1) (- 1) False True m = Some (Inr (Some a), m1)))"

definition temps_free :: "nat list \<Rightarrow> nat \<Rightarrow> string \<Rightarrow> nat smap \<Rightarrow> bool" where
  "temps_free rs a path f \<longleftrightarrow> (\<forall>r \<in> set rs. \<forall>(k, b) \<in> set f. k = MakeRandomTempPath r (Some path) \<longrightarrow> b = a)"

text \<open>
  What a client does with the table: it opens, looks up, renames to a free name, moves an entity to a temporary name,
  closes what it has been given, uses an entity it holds in a way that keeps it in order, and cleans the cache
  directory, which is one step for each file in it; the rest of the world moves on. Two things the
  program can do are left out, and with them references do dangle: using a path again whose first opening has failed
  (\<open>open_after_failed_open_is_closed\<close>), and renaming onto a name that is in the table
  (\<open>rename_over_open_file_loses_it\<close>).
\<close>

inductive mgr_reach :: "'w mgr_env \<Rightarrow> 'w mgr \<Rightarrow> (nat \<Rightarrow> nat) \<Rightarrow> bool" for env where
  start: "mgr_reach env (new_mgr w) (\<lambda>_. 0)"
| open_found: "mgr_reach env m h \<Longrightarrow> path \<noteq> [] \<Longrightarrow> find_open env path force m = Some b \<Longrightarrow> - 1 \<le> n \<Longrightarrow>
    mgr_Open env None path pmeta n t force create m = Some (Inr r, m') \<Longrightarrow> mgr_reach env m' (gain r h)"
| open_new: "mgr_reach env m h \<Longrightarrow> path \<noteq> [] \<Longrightarrow> find_open env path force m = None \<Longrightarrow> - 1 \<le> n \<Longrightarrow>
    cache_path_of env path force m = Some cp \<Longrightarrow> sm_find (entity_key env path cp m) (fent m) = None \<Longrightarrow>
    mgr_Open env None path pmeta n t force True m = Some (Inr (Some a), m') \<Longrightarrow>
    mgr_reach env m' (gain (Some a) h)"
| exist_open: "mgr_reach env m h \<Longrightarrow> path \<noteq> [] \<Longrightarrow> ExistOpen env path existfd ign m = Some (Inr r, m') \<Longrightarrow>
    mgr_reach env m' (gain r h)"
| get: "mgr_reach env m h \<Longrightarrow> GetFdEntity path existfd m = (r, m') \<Longrightarrow> mgr_reach env m' (gain r h)"
| rename: "mgr_reach env m h \<Longrightarrow> sm_find to (sm_erase from (fent m)) = None \<Longrightarrow>
    mgr_reach env (mgr_Rename from to m) h"
| close: "mgr_reach env m h \<Longrightarrow> 0 < h a \<Longrightarrow> mgr_Close env (Some a) m = Some (b, m') \<Longrightarrow>
    mgr_reach env m' (give_back a h)"
| use_entity: "mgr_reach env m h \<Longrightarrow> 0 < h a \<Longrightarrow> entity_ok e \<Longrightarrow> refcnt e = refcnt (ent_at m a) \<Longrightarrow>
    mgr_reach env (put_ent a e m) h"
| change_to_temp: "mgr_reach env m h \<Longrightarrow> temps_free rs a path (fent m) \<Longrightarrow>
    ChangeEntityToTempPath rs a path m = Some (b, m') \<Longrightarrow> mgr_reach env m' h"
| clean: "mgr_reach env m h \<Longrightarrow> IsCacheDir env \<Longrightarrow> first_opens env (path @ ''/'' @ name) m \<Longrightarrow>
    cleanup_entry env None path (Dfile name) m = Some m' \<Longrightarrow> mgr_reach env m' h"
| elsewhere: "mgr_reach env m h \<Longrightarrow> mgr_reach env (move_world w n m) h"

lemma mgr_ok_pos: "mgr_ok m h \<Longrightarrow> ents m a = Some e \<Longrightarrow> 0 < h a"
  unfolding mgr_ok_def by (elim conjE) simp

lemma mgr_ok_dom: "mgr_ok m h \<Longrightarrow> ents m a \<noteq> None \<longleftrightarrow> a \<in> snd ` set (fent m)"
  unfolding mgr_ok_def by (elim conjE) (erule allE)

lemma held_in_table: "mgr_ok m h \<Longrightarrow> 0 < h a \<Longrightarrow> a \<in> snd ` set (fent m)"
proof -
  assume ok: "mgr_ok m h" and h: "0 < h a"
  have "ents m a \<noteq> None"
  proof
    assume "ents m a = None"
    then have "h a = 0" using ok unfolding mgr_ok_def by blast
    with h show False by simp
  qed
  then show ?thesis using ok unfolding mgr_ok_def by blast
qed

text \<open>
  The loop that moves an entity to a temporary name may meet it again, but puts it only where no other entity is.
\<close>

lemma change_step:
  assumes m: "sm_sorted m" "distinct (map snd m)" and k: "(k, a) \<in> set m" and free: "\<forall>b. (t, b) \<in> set m \<longrightarrow> b = a"
  defines "m1 \<equiv> sm_set t a (sm_erase k m)"
  shows "sm_sorted m1" "distinct (map snd m1)" "snd ` set m1 = snd ` set m" "set m1 \<subseteq> insert (t, a) (set m)"
proof -
  have f: "sm_find k m = Some a" using k by (simp add: smap.find_Some_iff [OF m(1)])
  have e: "snd ` set (sm_erase k m) = snd ` set m - {a}" "distinct (map snd (sm_erase k m))"
    using om_erase_old [OF f m(2)] by simp_all
  have sub: "set (sm_erase k m) \<subseteq> set m" by (rule om_erase_subset)
  have "sm_find t (sm_erase k m) = None"
  proof (cases "sm_find t (sm_erase k m)")
    case (Some b)
    then have "(t, b) \<in> set (sm_erase k m)" by (simp add: smap.find_Some_iff [OF smap.sorted_erase [OF m(1)]])
    then have "b = a" "b \<in> snd ` set (sm_erase k m)" using sub free by force+
    then show ?thesis using e(1) by simp
  qed
  note S = om_set_new [OF this, of a]
  show "sm_sorted m1" unfolding m1_def by (intro smap.sorted_set smap.sorted_erase m(1))
  show "distinct (map snd m1)" using S e by (simp add: m1_def)
  show "snd ` set m1 = snd ` set m" using S e om_find_value [OF f] by (auto simp: m1_def)
  show "set m1 \<subseteq> insert (t, a) (set m)" using S sub by (auto simp: m1_def)
qed

lemma temps_free_step:
  "temps_free (r # rs) a path m \<Longrightarrow> set m1 \<subseteq> insert (t, a) (set m) \<Longrightarrow> temps_free rs a path m1"
  unfolding temps_free_def by (fastforce dest: subsetD)

lemma change_loop_ok:
  assumes "change_loop a path rs m rest n = Some f" "sm_sorted m" "distinct (map snd m)" "set rest \<subseteq> set m"
    "temps_free rs a path m"
  shows "sm_sorted f \<and> distinct (map snd f) \<and> snd ` set f = snd ` set m"
  using assms
proof (induction a path rs m rest n rule: change_loop.induct)
  case (3 a path rs m k b rest n)
  show ?case
  proof (cases "b = a")
    case False
    then show ?thesis using 3 by simp
  next
    case True
    then obtain r rs' where rs: "rs = r # rs'" using "3.prems"(1) by (cases rs) simp_all
    let ?m = "sm_set (MakeRandomTempPath r (Some path)) a (sm_erase k m)"
    let ?rest = "case rest of [] \<Rightarrow> [] | (k', _) # _ \<Rightarrow> dropWhile (\<lambda>(x, _). x < k') ?m"
    have l: "change_loop a path rs' ?m ?rest n = Some f" using "3.prems"(1) True by (simp add: rs Let_def)
    have k: "(k, a) \<in> set m" using "3.prems"(4) True by simp
    have "\<forall>b. (MakeRandomTempPath r (Some path), b) \<in> set m \<longrightarrow> b = a"
      using "3.prems"(5) by (auto simp: temps_free_def rs)
    note S = change_step [OF "3.prems"(2,3) k this]
    have sub: "set ?rest \<subseteq> set ?m" by (auto split: list.splits dest: set_dropWhileD)
    have free: "temps_free rs' a path ?m" by (rule temps_free_step [OF "3.prems"(5) [unfolded rs] S(4)])
    have "\<not> b \<noteq> a" using True by simp
    from "3.IH"(2) [OF this rs refl l S(1,2) sub free] show ?thesis unfolding S(3) .
  qed
qed simp_all

lemma Change_ok:
  assumes ok: "mgr_ok m h" and f: "temps_free rs a path (fent m)" and r: "ChangeEntityToTempPath rs a path m = Some (b, m')"
  shows "mgr_ok m' h"
proof -
  obtain f where "change_loop a path rs (fent m) (fent m) (Suc (length (fent m)) * Suc (length rs)) = Some f"
    and m': "m' = m\<lparr>fent := f\<rparr>"
    using r unfolding ChangeEntityToTempPath_def by auto
  moreover have "sm_sorted (fent m)" "distinct (map snd (fent m))" using ok by (simp_all add: mgr_ok_def)
  ultimately show ?thesis unfolding m' using change_loop_ok f ok by (intro mgr_ok_fent) blast+
qed

text \<open>Cleaning one file opens it, leaves the cache to its entity and closes it.\<close>

lemma opened_ok:
  assumes env: "env_ok env" and ok: "mgr_ok m h" and c: "IsCacheDir env" and f: "first_opens env p m" "p \<noteq> []"
    and r: "mgr_Open env None p None (- 1) (- 1) False True m = Some (Inr r, m1)"
  shows "case r of None \<Rightarrow> mgr_ok m1 h | Some a \<Rightarrow> mgr_ok m1 (h(a := h a + 1))"
proof (cases "find_open env p False m")
  case (Some b)
  from open_existing_ok [OF env ok _ f(2) this _ r] show ?thesis by auto
next
  case None
  then obtain a where a: "r = Some a" using f(1) r by (auto simp: first_opens_def)
  obtain cp where cp: "cache_path_of env p False m = Some cp"
    using r None f(2) a by (auto simp: mgr_Open_def split: option.splits)
  then have "cp \<noteq> []" using c
    by (auto simp: cache_path_of_def MakeCachePath_def IsCacheDir_def with_path_def Let_def split: if_splits option.splits)
  then have "sm_find (entity_key env p cp m) (fent m) = None"
    using None by (auto simp: entity_key_def find_open_def split: option.splits)
  from open_new_ok [OF env ok _ f(2) None TrueI cp this r [unfolded a]] show ?thesis by (auto simp: a)
qed

lemma clean_ok:
  assumes env: "env_ok env" and ok: "mgr_ok m h" and c: "IsCacheDir env" "first_opens env (path @ ''/'' @ name) m"
    and r: "cleanup_entry env None path (Dfile name) m = Some m'"
  shows "mgr_ok m' h"
proof -
  obtain q m1 where o: "mgr_Open env None (path @ ''/'' @ name) None (- 1) (- 1) False True m = Some (Inr q, m1)"
    using r by (auto split: option.splits prod.splits sum.splits)
  have O: "case q of None \<Rightarrow> mgr_ok m1 h | Some a \<Rightarrow> mgr_ok m1 (h(a := h a + 1))"
    by (rule opened_ok [OF env ok c _ o]) simp
  show ?thesis
  proof (cases q)
    case None
    then show ?thesis using r o O by simp
  next
    case (Some a)
    define m2 where "m2 = (if IsMultiOpened (ent_at m1 a) then m1 else leave a (CleanupCache (me_io env) (enter a m1)) m1)"
    have ok1: "mgr_ok m1 (h(a := h a + 1))" using O Some by simp
    then have "ents m1 a = Some (ent_at m1 a)" by (intro mgr_ok_alive(1) [OF ok1] held_in_table [OF ok1]) simp
    then have "mgr_ok m2 (h(a := h a + 1))"
      using ok1 by (simp add: m2_def leave_def enter_def CleanupCache_def mgr_ok_def fun_upd_idem)
    from mgr_Close_ok [OF this, of a env] obtain m3 where
      "mgr_Close env (Some a) m2 = Some (True, m3)" "mgr_ok m3 (h(a := h a + 1, a := h a))" by auto
    moreover have "map_option snd (mgr_Close env (Some a) m2) = Some m'"
      using r o Some by (simp add: m2_def Let_def)
    ultimately show ?thesis by simp
  qed
qed

lemma mgr_reach_ok:
  assumes env: "env_ok env" and "mgr_reach env m h"
  shows "mgr_ok m h"
  using assms(2)
proof (induction rule: mgr_reach.induct)
  case (start w)
  show ?case by (rule mgr_ok_new)
next
  case (open_found m h path force b n pmeta t create r m')
  from open_existing_ok [OF env open_found.IH open_found.hyps(4,2,3) _ open_found.hyps(5)]
  have "r = Some b \<and> mgr_ok m' (h(b := h b + 1)) \<or> r = None \<and> mgr_ok m' h" by simp
  then show ?case by (elim disjE conjE) (simp_all only: gain_None gain_Some)
next
  case (open_new m h path force n cp pmeta t a m')
  from open_new_ok [OF env open_new.IH open_new.hyps(4,2,3) TrueI open_new.hyps(5,6,7)]
  show ?case unfolding gain_Some by (rule conjunct2)
next
  case (exist_open m h path existfd ign r m')
  from ExistOpen_ok [OF env exist_open.IH exist_open.hyps(2,3)] show ?case unfolding gain_def .
next
  case (get m h path existfd r m')
  from GetFdEntity_ok [OF get.IH get.hyps(2)] get.IH show ?case
    by (cases r) (simp_all only: gain_None gain_Some option.case)
next
  case (rename m h to "from")
  from Rename_ok [OF rename.IH rename.hyps(2)] show ?case .
next
  case (close m h a b m')
  from mgr_Close_ok [OF close.IH close.hyps(2), of env]
  obtain m'' where "mgr_Close env (Some a) m = Some (True, m'')" "mgr_ok m'' (h(a := h a - 1))" by blast
  moreover from this(1) close.hyps(3) have "m'' = m'" by simp
  ultimately show ?case unfolding give_back_def by (simp only:)
next
  case (use_entity m h a e)
  note in' = held_in_table [OF use_entity.IH use_entity.hyps(2)]
  have r: "refcnt e = h a"
    unfolding use_entity.hyps(4) by (rule mgr_ok_alive(3) [OF use_entity.IH in'])
  show ?case
    by (rule mgr_ok_update_same [OF use_entity.IH in' use_entity.hyps(3) r]) (simp_all add: put_ent_def)
next
  case (change_to_temp m h rs a path b m')
  from Change_ok [OF change_to_temp.IH change_to_temp.hyps(2,3)] show ?case .
next
  case (clean m h path name m')
  from clean_ok [OF env clean.IH clean.hyps(2-4)] show ?case .
next
  case (elsewhere m h w n)
  from elsewhere.IH show ?case unfolding mgr_ok_def move_world_def by simp
qed

section \<open>A concrete table\<close>

text \<open>
  An environment for concrete runs: every call succeeds except, while the world is \<open>True\<close>, the creation
  of a file; that one failure turns it to \<open>False\<close>.
\<close>

definition bare_env :: "string \<Rightarrow> bool mgr_env" where
  "bare_env dir = \<lparr>me_io = \<lparr>
     sys = (\<lambda>c w. if w \<and> c = OpenTrunc (dir @ ''/b/f'') then (Inl 28, False) else (Inr 0, w)),
     get_object = (\<lambda>par path off n w. (0, [], w)), put_object = (\<lambda>par path meta f w. (0, w)),
     mp_pre = (\<lambda>path meta w. (0, ''id'', w)), mp_upload = (\<lambda>uid path f tags w. (0, tags, w)),
     mp_complete = (\<lambda>path uid tags w. (0, w)), avail_space = (\<lambda>w. 1000000),
     cleanup_cache = (\<lambda>w. w), leave_cache = (\<lambda>path w. w), to_temp_path = (\<lambda>path w. w),
     multipart_size = 10485760, max_parallel = 5, nomultipart = False, is_cache_dir = (dir \<noteq> [])\<rparr>,
   me_disk = \<lparr>mtime_of = (\<lambda>p w. None), data_of = (\<lambda>p w. []), stat_text = (\<lambda>p w. None),
     save_stat = (\<lambda>p text w. (True, w)), open_mirror = (\<lambda>p w. (None, ''/m'', w)),
     drop_mirror = (\<lambda>p w. w), file_times = (\<lambda>f w. (0, 0))\<rparr>,
   cache_dir = dir, bucket = ''b'', mkdirs = (\<lambda>p w. 0), random = (\<lambda>w. 31)\<rparr>"

lemma bare_env_ok: "env_ok (bare_env dir)"
  by (simp add: env_ok_def errno_pos_def mirror_errs_def stat_files_ok_def bare_env_def)

definition run_open :: "bool mgr_env \<Rightarrow> string \<Rightarrow> bool mgr \<Rightarrow> nat option \<times> bool mgr" where
  "run_open env path m =
     (case mgr_Open env None path None (- 1) (- 1) False True m of
        Some (Inr r, m1) \<Rightarrow> (r, m1) | Some (Inl _, m1) \<Rightarrow> (None, m1) | None \<Rightarrow> (None, m))"

section \<open>The properties\<close>




text \<open>
  Nothing leaks: when every reference has been given back, the table is empty and no entity is alive.
\<close>

theorem all_closed_table_empty:
  assumes "env_ok env" "mgr_reach env m h" "\<forall>a. h a = 0"
  shows "fent m = [] \<and> (\<forall>a. ents m a = None)"
proof -
  have ok: "mgr_ok m h" by (rule mgr_reach_ok [OF assms(1,2)])
  have dead: "ents m a = None" for a
  proof (cases "ents m a")
    case (Some e)
    then show ?thesis using mgr_ok_pos [OF ok Some] assms(3) by simp
  qed simp
  have "x \<notin> set (fent m)" for x
    using mgr_ok_dom [OF ok, of "snd x"] dead [of "snd x"] by auto
  then have "fent m = []" by (cases "fent m") (simp, metis list.set_intros(1))
  then show ?thesis using dead by simp
qed

theorem all_closed_table_empty_witness:
  "fent (new_mgr False) = [] \<and> (\<forall>a. ents (new_mgr False) a = None)"
  by (rule all_closed_table_empty [OF bare_env_ok [of "''/c''"] mgr_reach.start]) simp

text \<open>
  The clean-up waits for its own thread: when a thread that holds the data lock of a cached file, as
  reading, writing and flushing do while they reserve disk space, cleans the cache directory, it reaches the
  file itself, opens it and takes the same lock again.
\<close>

theorem cleanup_under_own_lock_never_returns:
  assumes "IsCacheDir env" "sm_find (''/'' @ name) (fent m) = Some a" "name \<notin> {''.'', ''..''}"
  shows "CleanupCacheDir env (Some a) (Dfile name # ds) m = None"
  using assms by (simp add: CleanupCacheDir_def mgr_Open_def find_open_def)

theorem cleanup_under_own_lock_never_returns_witness:
  "CleanupCacheDir (bare_env ''/c'') (Some 0) [Dfile ''g'']
     (snd (run_open (bare_env ''/c'') ''/g'' (new_mgr False))) = None"
proof (rule cleanup_under_own_lock_never_returns)
  have "sm_find ''/g'' (fent (snd (run_open (bare_env ''/c'') ''/g'' (new_mgr False)))) = Some 0" by code_simp
  then show "sm_find (''/'' @ ''g'') (fent (snd (run_open (bare_env ''/c'') ''/g'' (new_mgr False)))) = Some 0" by simp
qed (simp_all add: IsCacheDir_def bare_env_def)

text \<open>
  An entity whose first opening failed stays in the table, and the next successful \<open>Open\<close> of its
  path returns it closed: the reference that \<open>Open\<close> gives back at its end is the only one.
\<close>

theorem open_after_failed_open_is_closed:
  "case run_open (bare_env ''/c'') ''/f'' (new_mgr True) of
     (r1, m1) \<Rightarrow> r1 = None \<and> (case run_open (bare_env ''/c'') ''/f'' m1 of
       (r2, m2) \<Rightarrow> r2 = Some 0 \<and> \<not> ent_IsOpen (ent_at m2 0))"
  by code_simp

text \<open>
  Renaming onto a file that is open drops it from the table while a reference to it is held:
  closing that reference then finds nothing, and the entity stays open.
\<close>

theorem rename_over_open_file_loses_it:
  "case run_open (bare_env ''/c'') ''/g'' (new_mgr False) of
     (r1, m1) \<Rightarrow> r1 = Some 0 \<and> (case run_open (bare_env ''/c'') ''/h'' m1 of
       (r2, m2) \<Rightarrow> r2 = Some 1 \<and>
         (case mgr_Close (bare_env ''/c'') (Some 1) (mgr_Rename ''/g'' ''/h'' m2) of
            Some (found, m3) \<Rightarrow> \<not> found \<and> ent_IsOpen (ent_at m3 1) | None \<Rightarrow> False))"
  by code_simp

end
