(* ===== verification/Curl_Slist.thy ===== *)
theory Curl_Slist
  imports String_Util Ord_Map
begin

text \<open>
  The request header list of \<open>protocols/s3/curl.cpp\<close>: \<open>curl_slist_sort_insert\<close> keeps a
  \<open>curl_slist\<close> sorted by header name, because the signature of a request covers the headers in that
  order; \<open>get_sorted_header_keys\<close>, \<open>get_canonical_headers\<close> and \<open>get_header_value\<close> read
  it. The list is the list of its strings; a pointer that may be \<open>NULL\<close> is an option, and what a
  \<open>const char*\<close> points to is read up to its NUL. Memory allocation succeeds.
\<close>

section \<open>Insertion\<close>

abbreviation is_colon :: "char \<Rightarrow> bool" where
  "is_colon \<equiv> (=) CHR '':''"

definition header_key :: "string \<Rightarrow> string" where
  "header_key h = (case find_idx is_colon h of None \<Rightarrow> h | Some p \<Rightarrow> take p h)"

fun slist_place :: "string \<Rightarrow> string \<Rightarrow> string list \<Rightarrow> string list" where
  "slist_place strkey strnew [] = [strnew]"
| "slist_place strkey strnew (cur # list) =
     (if nocase_eq strkey (header_key cur) then strnew # list
      else if strcasecmp_less strkey (header_key cur) then strnew # cur # list
      else cur # slist_place strkey strnew list)"

definition slist_sort_insert :: "string list \<Rightarrow> string option \<Rightarrow> string option \<Rightarrow> string list" where
  "slist_sort_insert list key val =
     (case key of None \<Rightarrow> list
      | Some k \<Rightarrow>
          (let strval = trim (case val of None \<Rightarrow> [] | Some v \<Rightarrow> c_str v) SPACES
           in slist_place (trim (c_str k) SPACES) (c_str k @ '': '' @ strval) list))"

definition slist_sort_insert_data :: "string list \<Rightarrow> string option \<Rightarrow> string list" where
  "slist_sort_insert_data list data =
     (case data of None \<Rightarrow> list
      | Some d \<Rightarrow>
          (let strkey = c_str d;
               (strkey, strval) = (case find_idx is_colon strkey of
                   None \<Rightarrow> (strkey, []) | Some pos \<Rightarrow> (take pos strkey, drop (pos + 1) strkey))
           in slist_sort_insert list (Some strkey) (Some strval)))"

text \<open>The calls with a literal name.\<close>

abbreviation put_header :: "string \<Rightarrow> string \<Rightarrow> string list \<Rightarrow> string list" where
  "put_header k v list \<equiv> slist_sort_insert list (Some k) (Some v)"

section \<open>Reading\<close>

fun get_sorted_header_keys :: "string list \<Rightarrow> string" where
  "get_sorted_header_keys list = foldl (\<lambda>sorted_headers strkey.
     (let add = (\<lambda>k. (if 0 < length sorted_headers then sorted_headers @ '';'' else sorted_headers) @ lower k)
      in case find_idx is_colon strkey of
           None \<Rightarrow> add strkey
         | Some pos \<Rightarrow>
             if trim (drop (pos + 1) strkey) SPACES = [] then sorted_headers else add (take pos strkey))) [] list"

fun get_header_value :: "string list \<Rightarrow> string \<Rightarrow> string" where
  "get_header_value [] key = []"
| "get_header_value (h # list) key =
     (case find_idx is_colon h of
        None \<Rightarrow> get_header_value list key
      | Some pos \<Rightarrow>
          if nocase_eq (trim (take pos h) SPACES) key then trim (drop (pos + 1) h) SPACES
          else get_header_value list key)"

definition canonical_line :: "string \<Rightarrow> string option" where
  "canonical_line strhead =
     (case find_idx is_colon strhead of
        None \<Rightarrow> Some (trim (lower strhead) SPACES)
      | Some pos \<Rightarrow>
          (let strkey = trim (lower (take pos strhead)) SPACES; strval = trim (drop (pos + 1) strhead) SPACES
           in if strval = [] then None else Some (strkey @ '':'' @ strval)))"

definition canonical_headers_if :: "(string \<Rightarrow> bool) \<Rightarrow> string list \<Rightarrow> string" where
  "canonical_headers_if P list =
     (if list = [] then [CHR 0x0A]
      else concat (map (\<lambda>h. case canonical_line h of
             None \<Rightarrow> [] | Some l \<Rightarrow> if P l then l @ [CHR 0x0A] else []) list))"

definition get_canonical_headers :: "string list \<Rightarrow> string" where
  "get_canonical_headers list = canonical_headers_if (\<lambda>_. True) list"

definition get_canonical_headers_amz :: "string list \<Rightarrow> bool \<Rightarrow> string" where
  "get_canonical_headers_amz list only_amz =
     canonical_headers_if (\<lambda>l. \<not> (only_amz \<and> substr l 0 5 \<noteq> ''x-amz'')) list"

section \<open>Lists made of well-formed headers\<close>

text \<open>A header name without colon, NUL and surrounding blanks, as every caller in the program passes.\<close>

definition key_ok :: "string \<Rightarrow> bool" where
  "key_ok k \<longleftrightarrow> k \<noteq> [] \<and> trim k SPACES = k \<and> CHR '':'' \<notin> set k \<and> CHR 0x00 \<notin> set k"

definition header_val :: "string \<Rightarrow> string" where
  "header_val h = (case find_idx is_colon h of None \<Rightarrow> [] | Some p \<Rightarrow> trim (drop (p + 1) h) SPACES)"

definition slist_ok :: "string list \<Rightarrow> bool" where
  "slist_ok l \<longleftrightarrow> sorted_wrt strcasecmp_less (map header_key l)
     \<and> (\<forall>h \<in> set l. key_ok (header_key h) \<and> find_idx is_colon h \<noteq> None)"

lemma c_str_id: "CHR 0x00 \<notin> set s \<Longrightarrow> c_str s = s"
  unfolding c_str_def by (induction s) auto

lemma trim_Cons: "c \<in> set t \<Longrightarrow> trim (c # s) t = trim s t"
proof (cases "\<forall>x \<in> set s. x \<in> set t")
  case True
  then have "dropWhile (\<lambda>x. x \<in> set t) (rev s) = []" by (simp add: dropWhile_eq_Nil_conv)
  with True show "c \<in> set t \<Longrightarrow> ?thesis"
    by (simp only: trim_def trim_left_dropWhile trim_right_dropWhile) (simp add: dropWhile_append)
next
  case False
  then show "c \<in> set t \<Longrightarrow> ?thesis"
    by (simp only: trim_def trim_left_dropWhile trim_right_dropWhile) (auto simp: dropWhile_append)
qed

lemma trim_Cons_space: "trim (CHR '' '' # s) SPACES = trim s SPACES"
  by (rule trim_Cons) (simp add: SPACES_def)

lemma find_colon_new: "CHR '':'' \<notin> set k \<Longrightarrow> find_idx is_colon (k @ CHR '':'' # v) = Some (length k)"
  by (rule find_idx_first) auto

lemma new_header [simp]:
  assumes "key_ok k"
  shows "header_key (k @ CHR '':'' # v) = k" "header_val (k @ CHR '':'' # CHR '' '' # w) = trim w SPACES"
    "find_idx is_colon (k @ CHR '':'' # v) = Some (length k)"
  using assms find_colon_new [of k] trim_Cons_space by (auto simp: key_ok_def header_key_def header_val_def)

lemma insert_place:
  "key_ok k \<Longrightarrow> put_header k v l = slist_place k (k @ '': '' @ trim (c_str v) SPACES) l"
  by (simp add: slist_sort_insert_def key_ok_def c_str_id)

lemma place_keys: "set (map header_key (slist_place k new l)) \<subseteq> insert (header_key new) (set (map header_key l))"
  by (induction l) auto

lemma nocase_less:
  "nocase_eq a b \<Longrightarrow> strcasecmp_less a c = strcasecmp_less b c"
  "nocase_eq a b \<Longrightarrow> strcasecmp_less c a = strcasecmp_less c b"
  by (auto simp: nocase_eq_def strcasecmp_less_def)

lemma nocase_total: "\<not> nocase_eq a b \<Longrightarrow> \<not> strcasecmp_less a b \<Longrightarrow> strcasecmp_less b a"
  by (auto simp: nocase_eq_def strcasecmp_less_def)

lemma slist_ok_Cons:
  "slist_ok (h # l) \<longleftrightarrow> (\<forall>x \<in> set l. strcasecmp_less (header_key h) (header_key x)) \<and> key_ok (header_key h)
     \<and> find_idx is_colon h \<noteq> None \<and> slist_ok l"
  by (auto simp: slist_ok_def)

lemma place_set: "x \<in> set (slist_place k new l) \<Longrightarrow> x = new \<or> x \<in> set l"
  by (induction l) (auto split: if_splits)

lemma place_ok:
  "slist_ok l \<Longrightarrow> key_ok k \<Longrightarrow> header_key new = k \<Longrightarrow> find_idx is_colon new \<noteq> None \<Longrightarrow> slist_ok (slist_place k new l)"
proof (induction l)
  case Nil
  then show ?case by (simp add: slist_ok_def)
next
  case (Cons h l)
  show ?case
  proof (cases "nocase_eq k (header_key h)")
    case True
    with Cons.prems show ?thesis using nocase_less(1) [OF True] by (auto simp: slist_ok_Cons)
  next
    case False
    show ?thesis
    proof (cases "strcasecmp_less k (header_key h)")
      case True
      with Cons.prems False show ?thesis using hmap.trans by (auto simp: slist_ok_Cons)
    next
      case less: False
      have "strcasecmp_less (header_key h) k" by (rule nocase_total [OF False less])
      then have "\<forall>x \<in> set (slist_place k new l). strcasecmp_less (header_key h) (header_key x)"
        using Cons.prems place_set by (fastforce simp: slist_ok_Cons)
      with Cons False less show ?thesis by (auto simp: slist_ok_Cons)
    qed
  qed
qed

lemma get_header_Cons:
  "find_idx is_colon h \<noteq> None \<Longrightarrow> key_ok (header_key h) \<Longrightarrow>
   get_header_value (h # l) k = (if nocase_eq (header_key h) k then header_val h else get_header_value l k)"
  by (auto simp: header_key_def header_val_def key_ok_def)

lemma get_header_less:
  "slist_ok l \<Longrightarrow> \<forall>x \<in> set l. strcasecmp_less k (header_key x) \<Longrightarrow> get_header_value l k = []"
proof (induction l)
  case (Cons h l)
  then have h: "find_idx is_colon h \<noteq> None" "key_ok (header_key h)" by (auto simp: slist_ok_Cons)
  have "\<not> nocase_eq (header_key h) k" using Cons.prems by (auto simp: nocase_eq_def strcasecmp_less_def)
  then show ?case using Cons by (simp add: get_header_Cons [OF h] slist_ok_Cons del: get_header_value.simps)
qed simp

lemma place_get:
  assumes new: "key_ok k" "header_key new = k" "find_idx is_colon new \<noteq> None" "slist_ok l"
  shows "get_header_value (slist_place k new l) k' =
    (if nocase_eq k k' then header_val new else get_header_value l k')"
  using new(4)
proof (induction l)
  case Nil
  then show ?case using get_header_Cons [OF new(3), of "[]" k'] new by (simp del: get_header_value.simps(2))
next
  case (Cons h l)
  note g = get_header_Cons
  have h: "find_idx is_colon h \<noteq> None" "key_ok (header_key h)" "slist_ok l"
    using Cons.prems by (auto simp: slist_ok_Cons)
  have n: "find_idx is_colon new \<noteq> None" "key_ok (header_key new)" using new by simp_all
  have sub: "nocase_eq k (header_key h) \<Longrightarrow> nocase_eq (header_key h) k' = nocase_eq k k'"
    by (auto simp: nocase_eq_def)
  have less: "strcasecmp_less (header_key h) k \<Longrightarrow> nocase_eq (header_key h) k' \<Longrightarrow> \<not> nocase_eq k k'"
    by (auto simp: nocase_eq_def strcasecmp_less_def)
  show ?case
    using Cons.IH [OF h(3)] sub less nocase_total [of k "header_key h"] new(2)
    by (auto simp: g [OF h(1,2)] g [OF n] simp del: get_header_value.simps)
qed

section \<open>The canonical form\<close>

text \<open>The headers that count: those with a value.\<close>

definition signed_pairs :: "string list \<Rightarrow> (string \<times> string) list" where
  "signed_pairs l = filter (\<lambda>(k, v). v \<noteq> []) (map (\<lambda>h. (lower (header_key h), header_val h)) l)"

fun join_with :: "string \<Rightarrow> string list \<Rightarrow> string" where
  "join_with sep [] = []"
| "join_with sep [s] = s"
| "join_with sep (s # t # ss) = s @ sep @ join_with sep (t # ss)"

lemma join_snoc: "ss \<noteq> [] \<Longrightarrow> join_with sep (ss @ [s]) = join_with sep ss @ sep @ s"
proof (induction sep ss rule: join_with.induct)
  case (3 sep a b ss)
  then show ?case by simp
qed simp_all

lemma join_empty: "\<forall>s \<in> set ss. s \<noteq> [] \<Longrightarrow> join_with sep ss = [] \<longleftrightarrow> ss = []"
  by (induction sep ss rule: join_with.induct) auto

lemma tolower_space [simp]: "tolower c \<in> set SPACES \<longleftrightarrow> c \<in> set SPACES"
proof -
  have "\<forall>c \<in> set Enum.enum. tolower c \<in> set SPACES \<longleftrightarrow> c \<in> set SPACES" by code_simp
  then show ?thesis by (simp add: enum_UNIV)
qed

lemma lower_dropWhile:
  "dropWhile (\<lambda>c. c \<in> set SPACES) (map tolower s) = map tolower (dropWhile (\<lambda>c. c \<in> set SPACES) s)"
  by (induction s) auto

lemma lower_trim: "trim (lower s) SPACES = lower (trim s SPACES)"
  by (simp add: trim_def trim_left_dropWhile trim_right_dropWhile lower_def lower_dropWhile rev_map)

lemma key_ok_lower: "key_ok k \<Longrightarrow> trim (lower k) SPACES = lower k"
  by (simp add: lower_trim key_ok_def)

lemma signed_pairs_Cons:
  "signed_pairs (h # l) = (if header_val h = [] then [] else [(lower (header_key h), header_val h)]) @ signed_pairs l"
  by (simp add: signed_pairs_def)

lemma canonical_line_ok:
  "find_idx is_colon h \<noteq> None \<Longrightarrow> key_ok (header_key h) \<Longrightarrow>
   canonical_line h = (if header_val h = [] then None else Some (lower (header_key h) @ '':'' @ header_val h))"
  using key_ok_lower [of "header_key h"]
  by (auto simp: canonical_line_def header_key_def header_val_def)

lemma canonical_pairs:
  "slist_ok l \<Longrightarrow> l \<noteq> [] \<Longrightarrow>
   get_canonical_headers l = concat (map (\<lambda>(k, v). k @ '':'' @ v @ [CHR 0x0A]) (signed_pairs l))"
proof -
  have "slist_ok l \<Longrightarrow> concat (map (\<lambda>h. case canonical_line h of None \<Rightarrow> [] | Some l \<Rightarrow> l @ [CHR 0x0A]) l) =
      concat (map (\<lambda>(k, v). k @ '':'' @ v @ [CHR 0x0A]) (signed_pairs l))"
  proof (induction l)
    case (Cons h l)
    then show ?case by (simp add: slist_ok_Cons canonical_line_ok signed_pairs_Cons)
  qed (simp add: signed_pairs_def)
  then show "slist_ok l \<Longrightarrow> l \<noteq> [] \<Longrightarrow> ?thesis"
    by (simp add: get_canonical_headers_def canonical_headers_if_def cong: option.case_cong)
qed

lemma signed_keys_nonempty: "slist_ok l \<Longrightarrow> \<forall>s \<in> set (map fst (signed_pairs l)). s \<noteq> []"
  by (auto simp: signed_pairs_def slist_ok_def key_ok_def lower_def)

lemma sorted_keys_join: "slist_ok l \<Longrightarrow> get_sorted_header_keys l = join_with '';'' (map fst (signed_pairs l))"
proof (induction l rule: rev_induct)
  case Nil
  then show ?case by (simp add: signed_pairs_def)
next
  case (snoc h l)
  have l: "slist_ok l" and h: "find_idx is_colon h \<noteq> None" "key_ok (header_key h)"
    using snoc.prems by (auto simp: slist_ok_def sorted_wrt_append)
  obtain p where p: "find_idx is_colon h = Some p" using h by blast
  have k: "take p h = header_key h" "trim (drop (p + 1) h) SPACES = header_val h"
    using p by (simp_all add: header_key_def header_val_def)
  have s: "signed_pairs (l @ [h]) = signed_pairs l @ (if header_val h = [] then [] else [(lower (header_key h), header_val h)])"
    by (simp add: signed_pairs_def)
  have e: "get_sorted_header_keys l = [] \<longleftrightarrow> signed_pairs l = []"
    using join_empty [OF signed_keys_nonempty [OF l]] snoc.IH [OF l] by simp
  have step: "get_sorted_header_keys (l @ [h]) =
     (if header_val h = [] then get_sorted_header_keys l
      else (if get_sorted_header_keys l = [] then [] else get_sorted_header_keys l @ '';'') @ lower (header_key h))"
    using p k by (simp add: Let_def)
  show ?case
    unfolding step s using snoc.IH [OF l] e
    by (auto simp: join_snoc simp del: get_sorted_header_keys.simps)
qed

lemma signed_keys_sorted: "slist_ok l \<Longrightarrow> sorted_wrt (<) (map fst (signed_pairs l))"
proof (induction l)
  case (Cons h l)
  have c: "key_ok k \<Longrightarrow> c_str k = k" for k by (simp add: key_ok_def c_str_id)
  have "\<forall>x \<in> set l. lower (header_key h) < lower (header_key x)"
    using Cons.prems c by (auto simp: slist_ok_def strcasecmp_less_def lower_def)
  then have "\<forall>x \<in> set (signed_pairs l). lower (header_key h) < fst x" by (auto simp: signed_pairs_def)
  with Cons show ?case by (auto simp: signed_pairs_Cons slist_ok_Cons)
qed (simp add: signed_pairs_def)

lemma put_header_get:
  assumes "slist_ok l" "key_ok k"
  shows "slist_ok (put_header k v l)"
    "get_header_value (put_header k v l) k' = (if nocase_eq k k' then trim (c_str v) SPACES else get_header_value l k')"
  using place_ok [OF assms(1,2), of "k @ '': '' @ trim (c_str v) SPACES"]
    place_get [OF assms(2) _ _ assms(1), of "k @ '': '' @ trim (c_str v) SPACES"] assms(2)
  by (simp_all add: insert_place trim_idem)

section \<open>Properties\<close>

text \<open>
  C21: The header list is a map from names to values, ignoring the case of names: after an insertion the
  value of the inserted name is the given one without surrounding blanks, every other name keeps its value,
  and the list stays sorted by name with one entry per name.
\<close>

theorem slist_insert_is_map_update:
  assumes "slist_ok l" "key_ok k"
  shows "slist_ok (put_header k v l)
    \<and> (\<forall>k'. get_header_value (put_header k v l) k' =
         (if nocase_eq k k' then trim (c_str v) SPACES else get_header_value l k'))"
  using put_header_get [OF assms] by blast

theorem slist_insert_is_map_update_witness:
  "get_header_value (put_header ''Date'' '' now '' (put_header ''host'' ''h'' [])) ''date'' = ''now''
    \<and> get_header_value (put_header ''Date'' '' now '' (put_header ''host'' ''h'' [])) ''Host'' = ''h''"
proof -
  have ok: "slist_ok []" "key_ok ''Date''" "key_ok ''host''" by code_simp+
  note h = slist_insert_is_map_update [OF ok(1,3), of "''h''"]
  have e: "nocase_eq ''Date'' ''date''" "\<not> nocase_eq ''Date'' ''Host''" "nocase_eq ''host'' ''Host''"
    "trim (c_str '' now '') SPACES = ''now''" "trim (c_str ''h'') SPACES = ''h''" by code_simp+
  show ?thesis
    using slist_insert_is_map_update [OF conjunct1 [OF h] ok(2), of "'' now ''"] h
    by (simp only: e if_True if_False)
qed

text \<open>
  C12: The signature of a request covers what it names: the signed header names are exactly the names of the
  canonical header lines, in the same order, in lower case and strictly ascending in byte order, which is
  the form the signature algorithm demands.
\<close>

theorem signed_headers_match_canonical:
  assumes "slist_ok l" "l \<noteq> []"
  shows "\<exists>ps. get_sorted_header_keys l = join_with '';'' (map fst ps)
    \<and> get_canonical_headers l = concat (map (\<lambda>(k, v). k @ '':'' @ v @ [CHR 0x0A]) ps)
    \<and> sorted_wrt (<) (map fst ps) \<and> (\<forall>(k, v) \<in> set ps. k = lower k \<and> v \<noteq> [])"
  using sorted_keys_join [OF assms(1)] canonical_pairs [OF assms] signed_keys_sorted [OF assms(1)]
  by (intro exI [of _ "signed_pairs l"]) (auto simp: signed_pairs_def lower_def)

theorem signed_headers_match_canonical_witness:
  "\<exists>ps. get_sorted_header_keys [''Host: h'', ''x-amz-date: d''] = join_with '';'' (map fst ps)
    \<and> get_canonical_headers [''Host: h'', ''x-amz-date: d''] = concat (map (\<lambda>(k, v). k @ '':'' @ v @ [CHR 0x0A]) ps)"
proof -
  have "slist_ok [''Host: h'', ''x-amz-date: d'']" by code_simp
  from signed_headers_match_canonical [OF this] show ?thesis by blast
qed

end
