(* ===== verification/Curl_State.thy ===== *)
theory Curl_State
  imports Curl_Slist Codecs
begin

text \<open>
  The data of the S3 client, class \<open>S3fsCurl\<close> of \<open>protocols/s3/curl.h\<close>: its class variables and the
  globals it reads are the record \<open>cconf\<close>, an instance is the record \<open>s3curl\<close>. What is set on a
  curl handle with \<open>curl_easy_setopt\<close> is the list of the options set, \<open>curlopt\<close>, latest last. A
  \<open>BodyData\<close> is its contents, a \<open>NULL\<close> pointer an option; files are numbers.
\<close>

section \<open>Class variables\<close>

datatype storage_class_t = STANDARD | STANDARD_IA | ONEZONE_IA | REDUCED_REDUNDANCY

datatype sse_type_t = SSE_DISABLE | SSE_S3 | SSE_C | SSE_KMS

record cconf =
  is_cert_check :: bool
  is_dns_cache :: bool
  is_ssl_session_cache :: bool
  connect_timeout :: int
  readwrite_timeout :: int
  retries :: int
  is_public_bucket :: bool
  default_acl :: string
  storage_class :: storage_class_t
  sseckeys :: "(string \<times> string) list"
  ssekmsid :: string
  ssetype :: sse_type_t
  is_content_md5 :: bool
  is_verbose :: bool
  AWSAccessKeyId :: string
  AWSSecretAccessKey :: string
  AWSAccessToken :: string
  AWSAccessTokenExpire :: int
  is_ecs :: bool
  is_use_session_token :: bool
  is_ibm_iam_auth :: bool
  IAM_cred_url :: string
  IAM_field_count :: nat
  IAM_token_field :: string
  IAM_expiry_field :: string
  IAM_role :: string
  ssl_verify_hostname :: int
  max_parallel_cnt :: int
  max_multireq :: int
  c_multipart_size :: int
  is_sigv4 :: bool
  is_ua :: bool
  userAgent :: string
  curl_ca_bundle :: string
  has_share :: bool
  g_foreground :: bool
  cipher_suites :: string
  g_bucket :: string
  g_host :: string
  g_endpoint :: string
  service_path :: string
  mount_prefix :: string
  pathrequeststyle :: bool

text \<open>Their initial values; the globals of \<open>s3fs.cpp\<close> are those before any option was read.\<close>

definition initial_conf :: cconf where
  "initial_conf = \<lparr>is_cert_check = True, is_dns_cache = True, is_ssl_session_cache = True,
     connect_timeout = 300, readwrite_timeout = 120, retries = 5, is_public_bucket = False,
     default_acl = ''private'', storage_class = STANDARD, sseckeys = [], ssekmsid = [], ssetype = SSE_DISABLE,
     is_content_md5 = False, is_verbose = False, AWSAccessKeyId = [], AWSSecretAccessKey = [],
     AWSAccessToken = [], AWSAccessTokenExpire = 0, is_ecs = False, is_use_session_token = False,
     is_ibm_iam_auth = False,
     IAM_cred_url = ''http://169.254.169.254/latest/meta-data/iam/security-credentials/'',
     IAM_field_count = 4, IAM_token_field = ''Token'', IAM_expiry_field = ''Expiration'', IAM_role = [],
     ssl_verify_hostname = 1, max_parallel_cnt = 5, max_multireq = 20, c_multipart_size = 10485760,
     is_sigv4 = True, is_ua = True, userAgent = [], curl_ca_bundle = [], has_share = False,
     g_foreground = False, cipher_suites = [], g_bucket = [], g_host = ''https://s3.amazonaws.com'',
     g_endpoint = ''us-east-1'', service_path = ''/'', mount_prefix = [], pathrequeststyle = False\<rparr>"

section \<open>Requests and handles\<close>

datatype reqtype =
    REQTYPE_UNSET | REQTYPE_DELETE | REQTYPE_HEAD | REQTYPE_PUTHEAD | REQTYPE_PUT | REQTYPE_GET
  | REQTYPE_CHKBUCKET | REQTYPE_LISTBUCKET | REQTYPE_PREMULTIPOST | REQTYPE_COMPLETEMULTIPOST
  | REQTYPE_UPLOADMULTIPOST | REQTYPE_COPYMULTIPOST | REQTYPE_MULTILIST | REQTYPE_IAMCRED
  | REQTYPE_ABORTMULTIUPLOAD | REQTYPE_IAMROLE

datatype callback =
    WriteMemoryCallback | ReadCallback | HeaderCallback | UploadReadCallback | DownloadWriteCallback
  | CurlProgress | CurlDebugFunc

text \<open>What a data option of a handle points to.\<close>

datatype sink = Body | Head | RespHeaders | This

datatype curlopt =
    O_NOSIGNAL int | O_FOLLOWLOCATION bool | O_CONNECTTIMEOUT int | O_NOPROGRESS int
  | O_PROGRESSFUNCTION callback | O_PROGRESSDATA | O_TCP_KEEPALIVE int | O_SSL_ENABLE_ALPN int
  | O_KEEP_SENDING_ON_ERROR int | O_SSL_VERIFYHOST int | O_CAINFO string | O_SHARE
  | O_SSL_VERIFYPEER bool | O_VERBOSE bool | O_DEBUGFUNCTION callback | O_SSL_CIPHER_LIST string
  | O_URL string | O_CUSTOMREQUEST string | O_HTTPHEADER "string list" | O_NOBODY bool | O_FILETIME bool
  | O_HEADERDATA sink | O_HEADERFUNCTION callback | O_UPLOAD bool | O_WRITEDATA sink
  | O_WRITEFUNCTION callback | O_INFILESIZE int | O_INFILESIZE_LARGE int | O_INFILE int | O_POST bool
  | O_POSTFIELDSIZE int | O_READDATA sink | O_READFUNCTION callback | O_USERAGENT string

record filepart =
  uploaded :: bool
  etag :: string
  fp_fd :: int
  startpos :: int
  fp_size :: int
  etagpos :: int

definition new_filepart :: filepart where
  "new_filepart = \<lparr>uploaded = False, etag = [], fp_fd = - 1, startpos = 0, fp_size = - 1, etagpos = - 1\<rparr>"

text \<open>\<open>add_etag_list\<close> appends an empty tag to the list of the upload and remembers its place.\<close>

definition add_etag_list :: "string list \<Rightarrow> filepart \<Rightarrow> string list \<times> filepart" where
  "add_etag_list list p = (list @ [[]], p\<lparr>etagpos := int (length list)\<rparr>)"

datatype lazy_setup = PreHead | PreGetObject | UploadMultipartPost | CopyMultipartPost

record s3curl =
  hCurl :: "curlopt list option"
  rtype :: reqtype
  c_path :: string
  base_path :: string
  saved_path :: string
  url :: string
  requestHeaders :: "string list"
  responseHeaders :: headers
  bodydata :: "string option"
  headdata :: "string option"
  LastResponseCode :: int
  postdata :: "string option"
  postdata_remaining :: int
  partdata :: filepart
  is_use_ahbe :: bool
  retry_count :: int
  b_infile :: "int option"
  b_postdata :: "string option"
  b_postdata_remaining :: int
  b_partdata_startpos :: int
  b_partdata_size :: int
  b_ssekey_pos :: int
  b_ssevalue :: string
  b_ssetype :: sse_type_t
  op :: string
  query_string :: string
  fpLazySetup :: "lazy_setup option"

text \<open>The constructor.\<close>

definition new_s3curl :: "bool \<Rightarrow> s3curl" where
  "new_s3curl ahbe = \<lparr>hCurl = None, rtype = REQTYPE_UNSET, c_path = [], base_path = [], saved_path = [], url = [],
     requestHeaders = [], responseHeaders = [], bodydata = None, headdata = None, LastResponseCode = - 1,
     postdata = None, postdata_remaining = 0, partdata = new_filepart, is_use_ahbe = ahbe, retry_count = 0,
     b_infile = None, b_postdata = None, b_postdata_remaining = 0, b_partdata_startpos = 0,
     b_partdata_size = 0, b_ssekey_pos = - 1, b_ssevalue = [], b_ssetype = SSE_DISABLE, op = [],
     query_string = [], fpLazySetup = None\<rparr>"

definition ClearInternalData :: "s3curl \<Rightarrow> s3curl" where
  "ClearInternalData c = c\<lparr>rtype := REQTYPE_UNSET, c_path := [], base_path := [], saved_path := [], url := [],
     op := [], query_string := [], requestHeaders := [], responseHeaders := [], bodydata := None,
     headdata := None, LastResponseCode := - 1, postdata := None, postdata_remaining := 0,
     retry_count := 0, b_infile := None, b_postdata := None, b_postdata_remaining := 0,
     b_partdata_startpos := 0, b_partdata_size := 0, partdata := new_filepart, fpLazySetup := None\<rparr>"

text \<open>Adding a header to the request.\<close>

definition add_header :: "string \<Rightarrow> string \<Rightarrow> s3curl \<Rightarrow> s3curl" where
  "add_header k v c = c\<lparr>requestHeaders := put_header k v (requestHeaders c)\<rparr>"

definition add_no_header :: "string \<Rightarrow> s3curl \<Rightarrow> s3curl" where
  "add_no_header k c = c\<lparr>requestHeaders := slist_sort_insert (requestHeaders c) (Some k) None\<rparr>"

end
