(* ===== verification/Curl_Sign.thy ===== *)
theory Curl_Sign
  imports Curl_State
begin

text \<open>
  Addresses and signatures of requests, \<open>protocols/s3/curl.cpp\<close>: \<open>MakeUrlResource\<close>,
  \<open>prepare_url\<close>, \<open>CalcSignatureV2\<close>, \<open>CalcSignature\<close> (version 4) and the functions that put
  the \<open>Authorization\<close> header on a request. The digests, the clock and the digest of a file are
  functions of the record \<open>signenv\<close>.
\<close>

record signenv =
  hmac :: "bytes \<Rightarrow> bytes \<Rightarrow> bytes"
  hmac256 :: "bytes \<Rightarrow> bytes \<Rightarrow> bytes"
  sha256 :: "bytes \<Rightarrow> bytes"
  strdate :: string
  date8601 :: string
  date_rfc850 :: string
  file_sha256sum :: "int \<Rightarrow> int \<Rightarrow> int \<Rightarrow> string"

definition bytes_of :: "string \<Rightarrow> bytes" where
  "bytes_of s = map byte_of s"

definition newline :: string where "newline = [CHR 0x0A]"

section \<open>Addresses\<close>

definition get_realpath :: "cconf \<Rightarrow> string \<Rightarrow> string" where
  "get_realpath cf path = mount_prefix cf @ path"

text \<open>The resource and the address.\<close>

definition MakeUrlResource :: "cconf \<Rightarrow> string option \<Rightarrow> (string \<times> string) option" where
  "MakeUrlResource cf realpath =
     (case realpath of None \<Rightarrow> None
      | Some p \<Rightarrow>
          (let resourcepath = urlEncode (service_path cf @ g_bucket cf @ c_str p)
           in Some (resourcepath, g_host cf @ resourcepath)))"

text \<open>\<open>strncasecmp\<close> with the first characters of an address.\<close>

definition starts_nocase :: "string \<Rightarrow> string \<Rightarrow> bool" where
  "starts_nocase p s \<longleftrightarrow> map tolower (take (length p) s) = map tolower p"

text \<open>
  \<open>prepare_url\<close> moves the bucket name into the host name, or in front of the path. The position of the
  bucket is an \<open>int\<close>, \<open>-1\<close> when it is not found; \<open>substr\<close> throws for a start behind the end
  (\<open>None\<close>) and a negative length takes the rest. In \<open>part[0]\<close> an empty string has a NUL.
\<close>

definition substr_rest :: "string \<Rightarrow> nat \<Rightarrow> int \<Rightarrow> string" where
  "substr_rest s pos n = (if n < 0 then drop pos s else substr s pos (nat n))"

definition prepare_url :: "cconf \<Rightarrow> string \<Rightarrow> string option" where
  "prepare_url cf url_str =
     (let token = ''/'' @ g_bucket cf;
          bucket_pos = (case find_sub token url_str of Some p \<Rightarrow> int p | None \<Rightarrow> - 1);
          bucket_length = int (length token);
          uri_length = (if starts_nocase ''https://'' url_str then 8
                        else if starts_nocase ''http://'' url_str then 7 else 0);
          uri = take uri_length url_str;
          host_part = substr_rest url_str uri_length (bucket_pos - int uri_length);
          after = bucket_pos + bucket_length
      in if length url_str < uri_length \<or> int (length url_str) < after then None
         else
           (let rest = drop (nat after) url_str
            in if \<not> pathrequeststyle cf then Some (uri @ (g_bucket cf @ ''.'' @ host_part) @ rest)
               else
                 (let part = (if rest = [] \<or> hd rest \<noteq> CHR ''/'' then ''/'' @ rest else rest)
                  in Some (uri @ host_part @ (''/'' @ g_bucket cf @ part)))))"

text \<open>\<open>url_to_host\<close> aborts for an address of another protocol (\<open>None\<close>).\<close>

definition url_to_host :: "string \<Rightarrow> string option" where
  "url_to_host u =
     (let cut = (\<lambda>hostname. case find_idx ((=) CHR ''/'') hostname of Some idx \<Rightarrow> take idx hostname | None \<Rightarrow> hostname)
      in if take 7 u = ''http://'' then Some (cut (drop 7 u))
         else if take 8 u = ''https://'' then Some (cut (drop 8 u)) else None)"

definition get_bucket_host :: "cconf \<Rightarrow> string option" where
  "get_bucket_host cf =
     map_option (\<lambda>h. if pathrequeststyle cf then h else g_bucket cf @ ''.'' @ h) (url_to_host (g_host cf))"

section \<open>Signatures\<close>

definition uses_token :: "cconf \<Rightarrow> bool" where
  "uses_token cf \<longleftrightarrow> IAM_role cf \<noteq> [] \<or> is_ecs cf \<or> is_use_session_token cf"

definition add_token :: "cconf \<Rightarrow> s3curl \<Rightarrow> s3curl" where
  "add_token cf c = (if uses_token cf then add_header ''x-amz-security-token'' (AWSAccessToken cf) c else c)"

definition string_to_sign_v2 :: "string list \<Rightarrow> string \<Rightarrow> string \<Rightarrow> string \<Rightarrow> string \<Rightarrow> string \<Rightarrow> string" where
  "string_to_sign_v2 hs meth strMD5 content_type date resource =
     meth @ newline @ strMD5 @ newline @ content_type @ newline @ date @ newline
       @ get_canonical_headers_amz hs True @ resource"

definition CalcSignatureV2 ::
  "signenv \<Rightarrow> cconf \<Rightarrow> string \<Rightarrow> string \<Rightarrow> string \<Rightarrow> string \<Rightarrow> string \<Rightarrow> s3curl \<Rightarrow> string \<times> s3curl" where
  "CalcSignatureV2 en cf meth strMD5 content_type date resource c =
     (let c1 = add_token cf c;
          md = hmac en (bytes_of (AWSSecretAccessKey cf))
                 (bytes_of (string_to_sign_v2 (requestHeaders c1) meth strMD5 content_type date resource))
      in (case s3fs_base64 (Some md) of None \<Rightarrow> [] | Some s \<Rightarrow> c_str s, c1))"

text \<open>
  The signing key starts from \<open>"AWS4"\<close> and the secret in a buffer of 128 bytes; \<open>snprintf\<close> cuts it
  off but returns the length of the whole: the key of 128 bytes ends with the NUL, a longer one is read
  beyond the buffer (\<open>None\<close>).
\<close>

definition kSecret :: "cconf \<Rightarrow> bytes option" where
  "kSecret cf =
     (let s = bytes_of (''AWS4'' @ c_str (AWSSecretAccessKey cf))
      in if length s < 128 then Some s else if length s = 128 then Some (take 127 s @ [0]) else None)"

definition canonical_path :: "string \<Rightarrow> string \<Rightarrow> string" where
  "canonical_path meth canonical_uri =
     (let uriencode = urlEncode canonical_uri in
      if meth \<in> {''HEAD'', ''PUT'', ''DELETE''} then uriencode @ newline
      else if meth = ''GET'' \<and> uriencode = [] then ''/'' @ newline
      else if meth = ''GET'' \<and> hd uriencode = CHR ''/'' then uriencode @ newline
      else if meth = ''GET'' then ''/'' @ newline @ urlEncode2 canonical_uri @ newline
      else if meth = ''POST'' then uriencode @ newline else [])"

definition canonical_request :: "string list \<Rightarrow> string \<Rightarrow> string \<Rightarrow> string \<Rightarrow> string \<Rightarrow> string" where
  "canonical_request hs meth canonical_uri query payload_hash =
     meth @ newline @ canonical_path meth canonical_uri @ urlEncode2 query @ newline
       @ get_canonical_headers hs @ newline @ get_sorted_header_keys hs @ newline @ payload_hash"

definition signature_v4 :: "signenv \<Rightarrow> cconf \<Rightarrow> bytes \<Rightarrow> string \<Rightarrow> string" where
  "signature_v4 en cf key StringCQ =
     (let kDate = hmac256 en key (bytes_of (strdate en));
          kRegion = hmac256 en kDate (bytes_of (g_endpoint cf));
          kService = hmac256 en kRegion (bytes_of ''s3'');
          kSigning = hmac256 en kService (bytes_of ''aws4_request'');
          StringToSign = ''AWS4-HMAC-SHA256'' @ newline @ date8601 en @ newline
            @ strdate en @ ''/'' @ g_endpoint cf @ ''/s3/aws4_request'' @ newline
            @ s3fs_hex (sha256 en (bytes_of StringCQ))
      in s3fs_hex (hmac256 en kSigning (bytes_of StringToSign)))"

definition CalcSignature ::
  "signenv \<Rightarrow> cconf \<Rightarrow> string \<Rightarrow> string \<Rightarrow> string \<Rightarrow> string \<Rightarrow> s3curl \<Rightarrow> (string \<times> s3curl) option" where
  "CalcSignature en cf meth canonical_uri query payload_hash c =
     (let c1 = add_token cf c
      in case kSecret cf of None \<Rightarrow> None
       | Some key \<Rightarrow>
           Some (signature_v4 en cf key
                   (canonical_request (requestHeaders c1) meth canonical_uri query payload_hash), c1))"

section \<open>Authorization\<close>

definition empty_payload_hash :: string where
  "empty_payload_hash = ''e3b0c44298fc1c149afbf4c8996fb92427ae41e4649b934ca495991b7852b855''"

definition server_path :: "s3curl \<Rightarrow> string" where
  "server_path c = (if rtype c = REQTYPE_LISTBUCKET then ''/'' else c_path c)"

definition payload_hash_of :: "signenv \<Rightarrow> s3curl \<Rightarrow> string" where
  "payload_hash_of en c =
     (case rtype c of
        REQTYPE_PUT \<Rightarrow> file_sha256sum en (case b_infile c of None \<Rightarrow> - 1 | Some f \<Rightarrow> f) 0 (- 1)
      | REQTYPE_COMPLETEMULTIPOST \<Rightarrow>
          s3fs_hex (sha256 en (bytes_of (c_str (case b_postdata c of None \<Rightarrow> [] | Some p \<Rightarrow> p))))
      | REQTYPE_UPLOADMULTIPOST \<Rightarrow>
          file_sha256sum en (fp_fd (partdata c)) (startpos (partdata c)) (fp_size (partdata c))
      | _ \<Rightarrow> [])"

definition auth_v4 :: "signenv \<Rightarrow> cconf \<Rightarrow> string list \<Rightarrow> string \<Rightarrow> string" where
  "auth_v4 en cf hs signature =
     ''AWS4-HMAC-SHA256 Credential='' @ AWSAccessKeyId cf @ ''/'' @ strdate en @ ''/'' @ g_endpoint cf
       @ ''/s3/aws4_request, SignedHeaders='' @ get_sorted_header_keys hs @ '', Signature='' @ signature"

text \<open>The headers of every request of version 4, then the signature over all of them.\<close>

definition v4_headers :: "signenv \<Rightarrow> string \<Rightarrow> string \<Rightarrow> s3curl \<Rightarrow> s3curl" where
  "v4_headers en bucket_host contentSHA256 c =
     add_header ''x-amz-date'' (date8601 en)
       (add_header ''x-amz-content-sha256'' contentSHA256 (add_header ''host'' bucket_host c))"

definition insertV4Headers :: "signenv \<Rightarrow> cconf \<Rightarrow> s3curl \<Rightarrow> s3curl option" where
  "insertV4Headers en cf c =
     (let payload_hash = payload_hash_of en c;
          contentSHA256 = (if payload_hash = [] then empty_payload_hash else payload_hash);
          realpath = (if pathrequeststyle cf then ''/'' @ g_bucket cf @ server_path c else server_path c)
      in case get_bucket_host cf of None \<Rightarrow> None
       | Some bucket_host \<Rightarrow>
           (let c1 = v4_headers en bucket_host contentSHA256 c
            in if is_public_bucket cf then Some c1
               else case CalcSignature en cf (op c1) realpath
                      (query_string c1 @ (if rtype c1 \<in> {REQTYPE_PREMULTIPOST, REQTYPE_MULTILIST} then ''='' else []))
                      contentSHA256 c1 of
                 None \<Rightarrow> None
               | Some (signature, c2) \<Rightarrow>
                   Some (add_header ''Authorization'' (auth_v4 en cf (requestHeaders c2) signature) c2)))"

definition insertV2Headers :: "signenv \<Rightarrow> cconf \<Rightarrow> s3curl \<Rightarrow> s3curl" where
  "insertV2Headers en cf c =
     (let resource = (case MakeUrlResource cf (Some (server_path c)) of Some (r, _) \<Rightarrow> r | None \<Rightarrow> []);
          resource = (if query_string c \<noteq> [] \<and> rtype c \<noteq> REQTYPE_LISTBUCKET
            then resource @ ''?'' @ query_string c else resource);
          date = date_rfc850 en;
          c1 = add_header ''Date'' date c;
          c2 = (if op c1 \<noteq> ''PUT'' \<and> op c1 \<noteq> ''POST'' then add_no_header ''Content-Type'' c1 else c1)
      in if is_public_bucket cf then c2
         else case CalcSignatureV2 en cf (op c2) (get_header_value (requestHeaders c2) ''Content-MD5'')
                     (get_header_value (requestHeaders c2) ''Content-Type'') date resource c2 of
           (signature, c3) \<Rightarrow>
             add_header ''Authorization'' (''AWS '' @ AWSAccessKeyId cf @ '':'' @ signature) c3)"

definition insertIBMIAMHeaders :: "cconf \<Rightarrow> s3curl \<Rightarrow> s3curl" where
  "insertIBMIAMHeaders cf c =
     (let c1 = add_header ''Authorization'' (''Bearer '' @ AWSAccessToken cf) c
      in if op c1 = ''PUT'' \<and> c_path c1 = mount_prefix cf @ ''/''
         then add_header ''ibm-service-instance-id'' (AWSAccessKeyId cf) c1 else c1)"

section \<open>What is signed is what is sent\<close>

lemma add_header_simps [simp]:
  "requestHeaders (add_header k v c) = put_header k v (requestHeaders c)"
  "op (add_header k v c) = op c" "query_string (add_header k v c) = query_string c"
  "rtype (add_header k v c) = rtype c" "c_path (add_header k v c) = c_path c"
  by (simp_all add: add_header_def)

lemma std_keys [simp]:
  "key_ok ''host''" "key_ok ''x-amz-content-sha256''" "key_ok ''x-amz-date''" "key_ok ''x-amz-security-token''"
  "key_ok ''Authorization''" "key_ok ''Date''" "key_ok ''Content-Type''"
  by code_simp+

lemma put_ok: "slist_ok l \<Longrightarrow> key_ok k \<Longrightarrow> slist_ok (put_header k v l)"
  and put_get: "slist_ok l \<Longrightarrow> key_ok k \<Longrightarrow> get_header_value (put_header k v l) k' =
         (if nocase_eq k k' then trim (c_str v) SPACES else get_header_value l k')"
  using place_ok [of l k "k @ '': '' @ trim (c_str v) SPACES"]
    place_get [of k "k @ '': '' @ trim (c_str v) SPACES" l k']
  by (simp_all add: insert_place trim_idem)

lemma add_token_simps [simp]:
  "slist_ok (requestHeaders c) \<Longrightarrow> slist_ok (requestHeaders (add_token cf c))"
  "op (add_token cf c) = op c"
  by (simp_all add: add_token_def put_ok)

lemma add_token_get:
  "slist_ok (requestHeaders c) \<Longrightarrow> \<not> nocase_eq ''x-amz-security-token'' k \<Longrightarrow>
   get_header_value (requestHeaders (add_token cf c)) k = get_header_value (requestHeaders c) k"
  by (simp add: add_token_def put_get)

lemma v4_headers_ok:
  "slist_ok (requestHeaders c) \<Longrightarrow> slist_ok (requestHeaders (v4_headers en h sha c))"
  "op (v4_headers en h sha c) = op c" "query_string (v4_headers en h sha c) = query_string c"
  "rtype (v4_headers en h sha c) = rtype c"
  by (simp_all add: v4_headers_def put_ok)

lemma v4_headers_get:
  "slist_ok (requestHeaders c) \<Longrightarrow> get_header_value (requestHeaders (v4_headers en h sha c)) k =
    (if nocase_eq ''x-amz-date'' k then trim (c_str (date8601 en)) SPACES
     else if nocase_eq ''x-amz-content-sha256'' k then trim (c_str sha) SPACES
     else if nocase_eq ''host'' k then trim (c_str h) SPACES
     else get_header_value (requestHeaders c) k)"
  by (simp add: v4_headers_def put_ok put_get)

lemma std_names:
  "nocase_eq ''Authorization'' ''authorization''" "\<not> nocase_eq ''x-amz-security-token'' ''host''"
  "\<not> nocase_eq ''x-amz-security-token'' ''x-amz-content-sha256''"
  "\<not> nocase_eq ''x-amz-security-token'' ''x-amz-date''"
  "\<not> nocase_eq ''x-amz-date'' ''host''" "\<not> nocase_eq ''x-amz-content-sha256'' ''host''"
  "\<not> nocase_eq ''x-amz-date'' ''x-amz-content-sha256''"
  "nocase_eq ''host'' ''host''" "nocase_eq ''x-amz-date'' ''x-amz-date''"
  "nocase_eq ''x-amz-content-sha256'' ''x-amz-content-sha256''"
  by code_simp+

text \<open>
  C9: A request of signature version 4 is sent as it was signed: there is a header list, with the host, the
  date and the digest of the payload in it, such that the \<open>Authorization\<close> header of the request carries
  the signature of the canonical request made from this list together with the names of this list, and every
  other header of the request is as in this list.
\<close>

theorem insertV4_sends_what_it_signs:
  assumes "slist_ok (requestHeaders c)" "\<not> is_public_bucket cf" "insertV4Headers en cf c = Some c'"
  shows "\<exists>hs key uri query sha bucket_host.
    slist_ok (requestHeaders c') \<and> kSecret cf = Some key \<and> get_bucket_host cf = Some bucket_host
    \<and> get_header_value hs ''host'' = trim (c_str bucket_host) SPACES
    \<and> get_header_value hs ''x-amz-content-sha256'' = trim (c_str sha) SPACES
    \<and> get_header_value hs ''x-amz-date'' = trim (c_str (date8601 en)) SPACES
    \<and> get_header_value (requestHeaders c') ''authorization''
        = trim (c_str (auth_v4 en cf hs (signature_v4 en cf key (canonical_request hs (op c) uri query sha)))) SPACES
    \<and> (\<forall>k. \<not> nocase_eq ''Authorization'' k \<longrightarrow> get_header_value (requestHeaders c') k = get_header_value hs k)"
proof -
  define sha where "sha = (if payload_hash_of en c = [] then empty_payload_hash else payload_hash_of en c)"
  from assms obtain h key where h: "get_bucket_host cf = Some h" and key: "kSecret cf = Some key"
    by (auto simp: insertV4Headers_def CalcSignature_def Let_def split: option.splits)
  define c1 where "c1 = v4_headers en h sha c"
  define c2 where "c2 = add_token cf c1"
  have ok: "slist_ok (requestHeaders c1)" "slist_ok (requestHeaders c2)" and o: "op c1 = op c"
    using assms(1) by (simp_all add: c1_def c2_def v4_headers_ok)
  obtain uri query where c': "c' = add_header ''Authorization''
      (auth_v4 en cf (requestHeaders c2)
        (signature_v4 en cf key (canonical_request (requestHeaders c2) (op c) uri query sha))) c2"
    using assms(2,3) h key o
    by (auto simp: insertV4Headers_def CalcSignature_def Let_def c1_def c2_def sha_def)
  have g: "get_header_value (requestHeaders c2) ''host'' = trim (c_str h) SPACES"
    "get_header_value (requestHeaders c2) ''x-amz-content-sha256'' = trim (c_str sha) SPACES"
    "get_header_value (requestHeaders c2) ''x-amz-date'' = trim (c_str (date8601 en)) SPACES"
    unfolding c2_def by (simp_all add: add_token_get ok std_names) (simp_all add: c1_def v4_headers_get assms(1) std_names)
  show ?thesis
    unfolding c' using g ok key h
    by (intro exI [of _ "requestHeaders c2"] exI [of _ key] exI [of _ uri] exI [of _ query] exI [of _ sha] exI [of _ h])
      (simp add: put_ok put_get std_names)
qed

lemma insertV4_returns:
  "get_bucket_host cf = Some h \<Longrightarrow> kSecret cf = Some key \<Longrightarrow> \<exists>c'. insertV4Headers en cf c = Some c'"
  by (simp add: insertV4Headers_def CalcSignature_def Let_def)

text \<open>An environment whose digests keep their input, for a concrete run.\<close>

definition plain_sign :: signenv where
  "plain_sign = \<lparr>hmac = (\<lambda>k d. d), hmac256 = (\<lambda>k d. take 2 d), sha256 = (\<lambda>d. take 2 d), strdate = ''20200101'',
     date8601 = ''20200101T000000Z'', date_rfc850 = ''Wed, 01 Jan 2020 00:00:00 GMT'',
     file_sha256sum = (\<lambda>f off n. [])\<rparr>"

theorem insertV4_sends_what_it_signs_witness:
  "\<exists>c'. insertV4Headers plain_sign (initial_conf\<lparr>g_bucket := ''b''\<rparr>) ((new_s3curl False)\<lparr>op := ''GET''\<rparr>) = Some c'
    \<and> slist_ok (requestHeaders c') \<and> get_header_value (requestHeaders c') ''host'' = ''b.s3.amazonaws.com''"
proof -
  let ?cf = "initial_conf\<lparr>g_bucket := ''b''\<rparr>" and ?c = "(new_s3curl False)\<lparr>op := ''GET''\<rparr>"
  have h: "get_bucket_host ?cf = Some ''b.s3.amazonaws.com''" "trim (c_str ''b.s3.amazonaws.com'') SPACES = ''b.s3.amazonaws.com''"
    "\<not> nocase_eq ''Authorization'' ''host''" by code_simp+
  have k: "kSecret ?cf = Some (bytes_of ''AWS4'')" by code_simp
  from insertV4_returns [OF h(1) this]
  obtain c' where r: "insertV4Headers plain_sign ?cf ?c = Some c'" ..
  have "slist_ok (requestHeaders ?c)" "\<not> is_public_bucket ?cf"
    by (simp_all add: new_s3curl_def slist_ok_def initial_conf_def)
  from insertV4_sends_what_it_signs [OF this r] 
  obtain hs bh where s: "slist_ok (requestHeaders c')" "get_bucket_host ?cf = Some bh"
    "get_header_value hs ''host'' = trim (c_str bh) SPACES"
    "\<forall>k. \<not> nocase_eq ''Authorization'' k \<longrightarrow> get_header_value (requestHeaders c') k = get_header_value hs k"
    by blast
  have "get_header_value (requestHeaders c') ''host'' = ''b.s3.amazonaws.com''"
    using s(2,3) h(1,2) s(4) [rule_format, OF h(3)] by (simp only: option.inject)
  with s(1) r show ?thesis by blast
qed

end
