(* ===== verification/Curl_Transfer.thy ===== *)
theory Curl_Transfer
  imports Curl_State Fd_Data
begin

text \<open>
  What libcurl calls back, \<open>protocols/s3/curl.cpp\<close>: the buffer a response body is collected in
  (\<open>BodyData\<close>), the callbacks that deliver the data of a request and store those of a response, and the
  pool of curl handles. A block of memory is a list of cells, \<open>None\<close> where nothing was written yet; an
  access outside a block is \<open>None\<close>. Sizes stay below \<open>2 ^ 63\<close>.
\<close>

section \<open>Response bodies\<close>

type_synonym memory = "8 word option list"

record body =
  b_text :: "memory option"
  lastpos :: nat
  bufsize :: nat

definition new_body :: body where
  "new_body = \<lparr>b_text = None, lastpos = 0, bufsize = 0\<rparr>"

definition IsSafeSize :: "nat \<Rightarrow> body \<Rightarrow> bool" where
  "IsSafeSize addbytes b \<longleftrightarrow> \<not> bufsize b < lastpos b + addbytes + 1"

definition adjust_block :: "nat \<Rightarrow> nat \<Rightarrow> nat" where
  "adjust_block n block = (n div block + (if n mod block \<noteq> 0 then 1 else 0)) * block"

definition grow_size :: "nat \<Rightarrow> body \<Rightarrow> nat" where
  "grow_size addbytes b =
     (let need_size = adjust_block (lastpos b + addbytes + 1 - bufsize b) 8 in
      if 10485760 < bufsize b then max need_size 10485760
      else if 1048576 < bufsize b then max need_size 1048576
      else if 1024 < bufsize b then max need_size (bufsize b * 2)
      else max need_size 1024)"

text \<open>\<open>alloc n\<close>: whether \<open>realloc\<close> has \<open>n\<close> bytes.\<close>

definition Resize :: "(nat \<Rightarrow> bool) \<Rightarrow> nat \<Rightarrow> body \<Rightarrow> bool \<times> body" where
  "Resize alloc addbytes b =
     (if IsSafeSize addbytes b then (True, b)
      else
        (let n = bufsize b + grow_size addbytes b in
         if \<not> alloc n then (False, b\<lparr>b_text := None\<rparr>)
         else (True, b\<lparr>b_text := Some (case b_text b of None \<Rightarrow> replicate n None
                                        | Some t \<Rightarrow> t @ replicate (n - length t) None),
                       bufsize := n\<rparr>)))"

definition body_Clear :: "body \<Rightarrow> body" where
  "body_Clear b = b\<lparr>b_text := None, lastpos := 0, bufsize := 0\<rparr>"

definition memcpy :: "memory \<Rightarrow> nat \<Rightarrow> 8 word list \<Rightarrow> memory option" where
  "memcpy t pos bs =
     (if length t < pos + length bs then None
      else Some (take pos t @ map Some bs @ drop (pos + length bs) t))"

definition Append :: "(nat \<Rightarrow> bool) \<Rightarrow> filedata option \<Rightarrow> body \<Rightarrow> (bool \<times> body) option" where
  "Append alloc ptr b =
     (case ptr of None \<Rightarrow> Some (False, b)
      | Some bs \<Rightarrow>
          if bs = [] then Some (True, b)
          else case Resize alloc (length bs) b of
            (False, b1) \<Rightarrow> Some (False, b1)
          | (True, b1) \<Rightarrow>
              (case b_text b1 of None \<Rightarrow> None
               | Some t \<Rightarrow>
                   (case memcpy t (lastpos b1) (bs @ [0]) of None \<Rightarrow> None
                    | Some t1 \<Rightarrow> Some (True, b1\<lparr>b_text := Some t1, lastpos := lastpos b1 + length bs\<rparr>))))"

text \<open>\<open>str\<close>: the C string in the buffer; \<open>None\<close> when no NUL ends it inside the written part.\<close>

fun read_c_string :: "memory \<Rightarrow> filedata option" where
  "read_c_string [] = None"
| "read_c_string (c # t) =
     (case c of None \<Rightarrow> None
      | Some x \<Rightarrow> if x = 0 then Some [] else map_option (Cons x) (read_c_string t))"

definition body_str :: "body \<Rightarrow> filedata option" where
  "body_str b = (case b_text b of None \<Rightarrow> Some [] | Some t \<Rightarrow> read_c_string t)"

text \<open>The state of a buffer that holds \<open>bs\<close>.\<close>

definition holds :: "filedata \<Rightarrow> body \<Rightarrow> bool" where
  "holds bs b \<longleftrightarrow> lastpos b = length bs
     \<and> (case b_text b of None \<Rightarrow> bs = [] \<and> bufsize b = 0
        | Some t \<Rightarrow> length t = bufsize b \<and> length bs < bufsize b \<and> take (length bs + 1) t = map Some bs @ [Some 0])"

lemma adjust_block_ge: "n \<le> adjust_block n 8"
  unfolding adjust_block_def by presburger

lemma grow_size_ge: "lastpos b + addbytes + 1 \<le> bufsize b + grow_size addbytes b"
proof -
  have "lastpos b + addbytes + 1 - bufsize b \<le> grow_size addbytes b"
    using adjust_block_ge [of "lastpos b + addbytes + 1 - bufsize b"]
    by (auto simp: grow_size_def Let_def max_def)
  then show ?thesis by linarith
qed

lemma Append_holds:
  assumes h: "holds xs b" and bs: "bs \<noteq> []"
  shows "\<exists>b'. Append (\<lambda>_. True) (Some bs) b = Some (True, b') \<and> holds (xs @ bs) b'"
proof -
  obtain b1 t where r: "Resize (\<lambda>_. True) (length bs) b = (True, b1)" and t: "b_text b1 = Some t" "length t = bufsize b1"
    and room: "lastpos b1 + length bs + 1 \<le> bufsize b1" and pre: "take (length xs) t = map Some xs"
    and l: "lastpos b1 = length xs"
  proof (cases "IsSafeSize (length bs) b")
    case True
    then have "b_text b \<noteq> None" using h by (cases "b_text b") (auto simp: holds_def IsSafeSize_def)
    then obtain t where t: "b_text b = Some t" by blast
    have "take (length xs) (take (length xs + 1) t) = map Some xs" using h t by (simp add: holds_def)
    then have "take (length xs) t = map Some xs" by (simp add: min_def)
    with True t h that [of b t] show ?thesis by (simp add: Resize_def holds_def IsSafeSize_def)
  next
    case False
    define n where "n = bufsize b + grow_size (length bs) b"
    define t where "t = (case b_text b of None \<Rightarrow> replicate n None | Some t \<Rightarrow> t @ replicate (n - length t) None)"
    have len: "length t = n" using h by (auto simp: t_def n_def holds_def split: option.splits)
    have "take (length xs) t = map Some xs"
    proof (cases "b_text b")
      case None
      then show ?thesis using h by (simp add: holds_def)
    next
      case (Some u)
      have "take (length xs) (take (length xs + 1) u) = map Some xs" using h Some by (simp add: holds_def)
      moreover have "length xs < length u" using h Some by (simp add: holds_def)
      ultimately show ?thesis by (simp add: t_def Some min_def)
    qed
    moreover have "Resize (\<lambda>_. True) (length bs) b = (True, b\<lparr>b_text := Some t, bufsize := n\<rparr>)"
      unfolding t_def n_def using False by (simp add: Resize_def Let_def)
    ultimately show ?thesis
      using len h grow_size_ge [of b "length bs"] that [of "b\<lparr>b_text := Some t, bufsize := n\<rparr>" t]
      by (simp add: n_def holds_def)
  qed
  have lt: "length xs + length bs < length t" using room l t(2) by simp
  define t1 where "t1 = take (length xs) t @ map Some (bs @ [0]) @ drop (length xs + length (bs @ [0])) t"
  have c: "memcpy t (lastpos b1) (bs @ [0]) = Some t1" using lt by (simp add: memcpy_def t1_def l)
  have "length t1 = length t" using lt by (simp add: t1_def)
  moreover have "take (length (xs @ bs) + 1) t1 = map Some (xs @ bs) @ [Some 0]"
    using lt pre by (simp add: t1_def)
  ultimately have "holds (xs @ bs) (b1\<lparr>b_text := Some t1, lastpos := lastpos b1 + length bs\<rparr>)"
    using lt l t(2) by (simp add: holds_def)
  then show ?thesis using bs r t(1) c by (auto simp: Append_def)
qed

lemma read_c_string_prefix:
  "take (Suc (length bs)) t = map Some bs @ [Some 0] \<Longrightarrow> read_c_string t = Some (takeWhile (\<lambda>x. x \<noteq> 0) bs)"
proof (induction bs arbitrary: t)
  case Nil
  then show ?case by (cases t) auto
next
  case (Cons b bs)
  then show ?case by (cases t) auto
qed

lemma holds_str: "holds bs b \<Longrightarrow> body_str b = Some (takeWhile (\<lambda>x. x \<noteq> 0) bs)"
  using read_c_string_prefix [of bs] by (auto simp: holds_def body_str_def split: option.splits)

text \<open>\<open>WriteMemoryCallback\<close>: the result is the number of bytes taken, \<open>-1\<close> (as \<open>size_t\<close>) on failure.\<close>

definition write_memory :: "(nat \<Rightarrow> bool) \<Rightarrow> filedata \<Rightarrow> body \<Rightarrow> (int \<times> body) option" where
  "write_memory alloc bs b =
     (case Append alloc (Some bs) b of None \<Rightarrow> None
      | Some (ok, b1) \<Rightarrow> Some (if ok then int (length bs) else 2 ^ 64 - 1, b1))"

fun collect :: "(nat \<Rightarrow> bool) \<Rightarrow> filedata list \<Rightarrow> body \<Rightarrow> body option" where
  "collect alloc [] b = Some b"
| "collect alloc (bs # bss) b =
     (case write_memory alloc bs b of None \<Rightarrow> None | Some (n, b1) \<Rightarrow> collect alloc bss b1)"

lemma collect_holds:
  "holds xs b \<Longrightarrow> \<exists>b'. collect (\<lambda>_. True) bss b = Some b' \<and> holds (xs @ concat bss) b'"
proof (induction bss arbitrary: xs b)
  case (Cons bs bss)
  show ?case
  proof (cases "bs = []")
    case True
    then show ?thesis using Cons by (simp add: write_memory_def Append_def)
  next
    case False
    from Append_holds [OF Cons.prems False] obtain b' where
      "Append (\<lambda>_. True) (Some bs) b = Some (True, b')" "holds (xs @ bs) b'" by blast
    with Cons.IH [of "xs @ bs" b'] Cons.prems show ?thesis by (simp add: write_memory_def)
  qed
qed simp

section \<open>Request data\<close>

text \<open>
  \<open>ReadCallback\<close>: the bytes for a buffer of \<open>n\<close> bytes. The product of the sizes is converted to
  \<open>int\<close>; \<open>None\<close> when \<open>memcpy\<close> gets a negative count.
\<close>

definition read_callback :: "nat \<Rightarrow> s3curl \<Rightarrow> (string \<times> s3curl) option" where
  "read_callback n c =
     (if n < 1 \<or> postdata_remaining c \<le> 0 then Some ([], c)
      else
        (let copysize = min (sint (of_nat n :: 32 word)) (postdata_remaining c);
             data = (case postdata c of None \<Rightarrow> [] | Some d \<Rightarrow> d)
         in if copysize < 0 then None
            else Some (take (nat copysize) data,
                       c\<lparr>postdata_remaining := (if copysize < postdata_remaining c
                            then postdata_remaining c - copysize else 0),
                         postdata := Some (drop (nat copysize) data)\<rparr>)))"

text \<open>
  \<open>UploadReadCallback\<close> for a buffer of \<open>n\<close> bytes: \<open>f\<close> is the file, \<open>osc\<close> decides what
  \<open>pread\<close> does.
\<close>

function upload_loop ::
  "(syscall \<Rightarrow> 'w \<Rightarrow> (int + nat) \<times> 'w) \<Rightarrow> filedata \<Rightarrow> nat \<Rightarrow> nat \<Rightarrow> 'w \<Rightarrow> filedata option \<times> 'w" where
  "upload_loop osc f pos copysize w =
     (if copysize = 0 then (Some [], w)
      else case osc (Pread copysize) w of
        (Inl err, w1) \<Rightarrow> (None, w1)
      | (Inr k, w1) \<Rightarrow>
          (let bs = take (moved copysize k) (drop pos f) in
           if bs = [] then (Some [], w1)
           else case upload_loop osc f (pos + length bs) (copysize - length bs) w1 of
             (r, w2) \<Rightarrow> (map_option ((@) bs) r, w2)))"
  by pat_completeness auto
termination
  by (relation "measure (\<lambda>(_, _, _, copysize, _). copysize)") (auto simp: moved_def)

declare upload_loop.simps [simp del]

definition upload_read_callback ::
  "(syscall \<Rightarrow> 'w \<Rightarrow> (int + nat) \<times> 'w) \<Rightarrow> filedata \<Rightarrow> nat \<Rightarrow> s3curl \<Rightarrow> 'w \<Rightarrow> filedata \<times> s3curl \<times> 'w" where
  "upload_read_callback osc f n c w =
     (let p = partdata c in
      if n < 1 \<or> fp_fd p = - 1 \<or> fp_size p \<le> 0 then ([], c, w)
      else
        (case upload_loop osc f (nat (startpos p)) (nat (min (int n) (fp_size p))) w of
           (None, w1) \<Rightarrow> ([], c, w1)
         | (Some bs, w1) \<Rightarrow>
             (bs, c\<lparr>partdata := p\<lparr>startpos := startpos p + int (length bs),
                                   fp_size := fp_size p - int (length bs)\<rparr>\<rparr>, w1)))"

text \<open>\<open>DownloadWriteCallback\<close> for the block \<open>bs\<close>; a \<open>pwrite\<close> that writes nothing ends it.\<close>

function download_loop ::
  "(syscall \<Rightarrow> 'w \<Rightarrow> (int + nat) \<times> 'w) \<Rightarrow> filedata \<Rightarrow> nat \<Rightarrow> filedata \<Rightarrow> 'w \<Rightarrow> (int + nat) \<times> filedata \<times> 'w" where
  "download_loop osc bs pos f w =
     (if bs = [] then (Inr 0, f, w)
      else case osc (Pwrite (length bs)) w of
        (Inl err, w1) \<Rightarrow> (Inl err, f, w1)
      | (Inr k, w1) \<Rightarrow>
          (let n = min k (length bs) in
           if n = 0 then (Inr 0, f, w1)
           else case download_loop osc (drop n bs) (pos + n) (pwrite_at f pos (take n bs)) w1 of
             (Inl err, r) \<Rightarrow> (Inl err, r) | (Inr m, r) \<Rightarrow> (Inr (n + m), r)))"
  by pat_completeness auto
termination
  by (relation "measure (\<lambda>(_, bs, _, _, _). length bs)") auto

declare download_loop.simps [simp del]

definition download_write_callback ::
  "(syscall \<Rightarrow> 'w \<Rightarrow> (int + nat) \<times> 'w) \<Rightarrow> filedata \<Rightarrow> s3curl \<Rightarrow> filedata \<Rightarrow> 'w
   \<Rightarrow> nat \<times> s3curl \<times> filedata \<times> 'w" where
  "download_write_callback osc bs c f w =
     (let p = partdata c in
      if length bs < 1 \<or> fp_fd p = - 1 \<or> fp_size p \<le> 0 then (0, c, f, w)
      else
        (case download_loop osc (take (nat (fp_size p)) bs) (nat (startpos p)) f w of
           (Inl err, f1, w1) \<Rightarrow> (0, c, f1, w1)
         | (Inr n, f1, w1) \<Rightarrow>
             (n, c\<lparr>partdata := p\<lparr>startpos := startpos p + int n, fp_size := fp_size p - int n\<rparr>\<rparr>, f1, w1)))"

section \<open>Response headers\<close>

text \<open>\<open>HeaderCallback\<close> for one header line.\<close>

definition until :: "char \<Rightarrow> string \<Rightarrow> string \<times> string" where
  "until c s = (case find_idx ((=) c) s of None \<Rightarrow> (s, []) | Some p \<Rightarrow> (take p s, drop (p + 1) s))"

definition header_callback :: "string \<Rightarrow> headers \<Rightarrow> headers" where
  "header_callback header hs =
     (if header = [] then hs
      else
        (let (key, rest) = until CHR '':'' header; lkey = lower key;
             key = (if take 5 lkey = ''x-amz'' then lkey else key)
         in hd_set key (trim (fst (until CHR 0x0A rest)) SPACES) hs))"

text \<open>\<open>etag_equals\<close>: comparison ignoring quotes.\<close>

definition unquote :: "string \<Rightarrow> string" where
  "unquote s = (if 1 < length s \<and> s ! 0 = CHR 0x22 \<and> s ! (length s - 1) = CHR 0x22
                then substr s 1 (length s - 2) else s)"

definition etag_equals :: "string \<Rightarrow> string \<Rightarrow> bool" where
  "etag_equals s1 s2 \<longleftrightarrow> unquote s1 = unquote s2"

section \<open>Progress\<close>

text \<open>
  \<open>CurlProgress\<close>: the time of the last progress and its counters are kept per handle; the result is
  \<open>CURLE_ABORTED_BY_CALLBACK\<close> (42) when nothing moved for longer than the timeout.
\<close>

definition curl_progress ::
  "cconf \<Rightarrow> int \<Rightarrow> 'h \<Rightarrow> int \<times> int \<Rightarrow> ('h \<Rightarrow> int) \<Rightarrow> ('h \<Rightarrow> int \<times> int)
   \<Rightarrow> int \<times> ('h \<Rightarrow> int) \<times> ('h \<Rightarrow> int \<times> int)" where
  "curl_progress cf now curl p tms progress =
     (if p \<noteq> progress curl then (0, tms(curl := now), progress(curl := p))
      else if readwrite_timeout cf < now - tms curl then (42, tms, progress)
      else (0, tms, progress))"

section \<open>Properties of the transfers\<close>

lemma upload_loop_spec:
  "upload_loop osc f pos n w = (Some bs, w') \<Longrightarrow>
   length bs \<le> n \<and> (\<exists>zs. drop pos f = bs @ zs \<and> (length bs < n \<longrightarrow> zs = []))"
proof (induction osc f pos n w arbitrary: bs w' rule: upload_loop.induct)
  case (1 osc f pos n w)
  show ?case
  proof (cases "n = 0")
    case True
    with "1.prems" show ?thesis by (auto simp: upload_loop.simps)
  next
    case False
    obtain k w1 where s: "osc (Pread n) w = (Inr k, w1)"
      using "1.prems" False by (auto simp: upload_loop.simps split: sum.splits prod.splits)
    define b where "b = take (moved n k) (drop pos f)"
    have m: "0 < moved n k" "moved n k \<le> n" using moved_pos [of n k] moved_le False by auto
    have "take (length b) (drop pos f) = b" by (simp add: b_def min_def)
    then have d: "drop pos f = b @ drop (length b) (drop pos f)" by (metis append_take_drop_id)
    show ?thesis
    proof (cases "b = []")
      case True
      then have "drop pos f = []" using m by (auto simp: b_def)
      moreover have "bs = []" using "1.prems" False s True by (simp add: upload_loop.simps b_def Let_def)
      ultimately show ?thesis by auto
    next
      case ne: False
      obtain cs w2 where r: "upload_loop osc f (pos + length b) (n - length b) w1 = (Some cs, w2)" and bs: "bs = b @ cs"
        using "1.prems" False s ne by (auto simp: upload_loop.simps b_def Let_def split: prod.splits)
      have lb: "length b \<le> n" using m by (auto simp: b_def)
      from "1.IH" [OF False s [symmetric] refl b_def ne r]
      obtain zs where "length cs \<le> n - length b" "drop (pos + length b) f = cs @ zs" "length cs < n - length b \<longrightarrow> zs = []"
        by blast
      then show ?thesis using d lb bs by (auto simp: add.commute)
    qed
  qed
qed

text \<open>A system in which transfers do not fail and move something.\<close>

definition calm :: "(syscall \<Rightarrow> 'w \<Rightarrow> (int + nat) \<times> 'w) \<Rightarrow> bool" where
  "calm osc \<longleftrightarrow> (\<forall>c w. \<exists>k w'. osc c w = (Inr k, w') \<and> 0 < k)"

lemma calmE: "calm osc \<Longrightarrow> (\<And>k w'. osc c w = (Inr k, w') \<Longrightarrow> 0 < k \<Longrightarrow> P) \<Longrightarrow> P"
  unfolding calm_def by blast

lemma upload_loop_calm:
  "calm osc \<Longrightarrow> \<exists>bs w'. upload_loop osc f pos n w = (Some bs, w')"
proof (induction osc f pos n w rule: upload_loop.induct)
  case (1 osc f pos n w)
  obtain k w1 where s: "osc (Pread n) w = (Inr k, w1)" by (rule calmE [OF "1.prems"])
  show ?case
  proof (cases "n = 0 \<or> take (moved n k) (drop pos f) = []")
    case True
    then show ?thesis using s by (auto simp: upload_loop.simps Let_def)
  next
    case False
    with "1.IH" [OF _ s [symmetric] refl refl _ "1.prems"] obtain bs w' where
      "upload_loop osc f (pos + length (take (moved n k) (drop pos f))) (n - length (take (moved n k) (drop pos f))) w1 = (Some bs, w')"
      by auto
    then show ?thesis using False s by (simp add: upload_loop.simps [of osc f pos n w] Let_def)
  qed
qed

text \<open>libcurl asks for the data in buffers of the sizes \<open>ns\<close>.\<close>

fun upload_all ::
  "(syscall \<Rightarrow> 'w \<Rightarrow> (int + nat) \<times> 'w) \<Rightarrow> filedata \<Rightarrow> nat list \<Rightarrow> s3curl \<Rightarrow> 'w \<Rightarrow> filedata \<times> s3curl \<times> 'w" where
  "upload_all osc f [] c w = ([], c, w)"
| "upload_all osc f (n # ns) c w =
     (case upload_read_callback osc f n c w of
        (bs, c1, w1) \<Rightarrow> (case upload_all osc f ns c1 w1 of (cs, c2, w2) \<Rightarrow> (bs @ cs, c2, w2)))"

definition part_ok :: "filedata \<Rightarrow> s3curl \<Rightarrow> bool" where
  "part_ok f c \<longleftrightarrow> fp_fd (partdata c) \<noteq> - 1 \<and> 0 \<le> startpos (partdata c) \<and> 0 \<le> fp_size (partdata c)
     \<and> startpos (partdata c) + fp_size (partdata c) \<le> int (length f)"

lemma upload_one:
  assumes "calm osc" "part_ok f c"
  shows "\<exists>c' w'. upload_read_callback osc f n c w =
      (substr f (nat (startpos (partdata c))) (min n (nat (fp_size (partdata c)))), c', w')
    \<and> part_ok f c' \<and> startpos (partdata c') = startpos (partdata c) + int (min n (nat (fp_size (partdata c))))
    \<and> fp_size (partdata c') = fp_size (partdata c) - int (min n (nat (fp_size (partdata c))))"
proof (cases "n = 0 \<or> fp_size (partdata c) = 0")
  case True
  then show ?thesis using assms(2) by (auto simp: upload_read_callback_def substr_def)
next
  case False
  define p where "p = partdata c"
  define m where "m = min n (nat (fp_size p))"
  obtain bs w' where r: "upload_loop osc f (nat (startpos p)) m w = (Some bs, w')"
    using upload_loop_calm [OF assms(1)] by blast
  from upload_loop_spec [OF r] obtain zs where z: "length bs \<le> m" "drop (nat (startpos p)) f = bs @ zs"
    "length bs < m \<longrightarrow> zs = []" by blast
  have room: "m \<le> length (drop (nat (startpos p)) f)" using assms(2) by (auto simp: part_ok_def p_def m_def)
  then have l: "length bs = m" using z by (cases "length bs < m") auto
  have bs: "bs = substr f (nat (startpos p)) m" using z(2) l by (simp add: substr_def)
  have "nat (min (int n) (fp_size p)) = m" by (auto simp: m_def min_def)
  then show ?thesis
    using False assms(2) r bs l
    by (auto simp: upload_read_callback_def p_def [symmetric] m_def [symmetric] part_ok_def Let_def min_def split: if_splits)
qed

lemma upload_all_spec:
  assumes "calm osc"
  shows "part_ok f c \<Longrightarrow> \<exists>c' w'. upload_all osc f ns c w =
      (substr f (nat (startpos (partdata c))) (min (sum_list ns) (nat (fp_size (partdata c)))), c', w')
    \<and> fp_size (partdata c') = fp_size (partdata c) - int (min (sum_list ns) (nat (fp_size (partdata c))))"
proof (induction ns arbitrary: c w)
  case Nil
  then show ?case by (simp add: substr_def)
next
  case (Cons n ns)
  define p where "p = partdata c"
  define m where "m = min n (nat (fp_size p))"
  from upload_one [OF assms Cons.prems, of n w] obtain c1 w1 where
    1: "upload_read_callback osc f n c w = (substr f (nat (startpos p)) m, c1, w1)" "part_ok f c1"
      "startpos (partdata c1) = startpos p + int m" "fp_size (partdata c1) = fp_size p - int m"
    by (auto simp: p_def m_def)
  define j where "j = min (sum_list ns) (nat (fp_size (partdata c1)))"
  from Cons.IH [OF 1(2), of w1] obtain c2 w2 where
    2: "upload_all osc f ns c1 w1 = (substr f (nat (startpos (partdata c1))) j, c2, w2)"
      "fp_size (partdata c2) = fp_size (partdata c1) - int j" by (auto simp: j_def)
  have pos: "0 \<le> startpos p" "0 \<le> fp_size p" using Cons.prems by (auto simp: part_ok_def p_def)
  have mj: "m + j = min (sum_list (n # ns)) (nat (fp_size p))" using pos 1(4) by (auto simp: m_def j_def min_def)
  have "nat (startpos (partdata c1)) = nat (startpos p) + m" using 1(3) pos by simp
  then have "substr f (nat (startpos p)) m @ substr f (nat (startpos (partdata c1))) j = substr f (nat (startpos p)) (m + j)"
    by (simp add: substr_def take_add add.commute [of m "nat (startpos p)"])
  then show ?case using 1(1,4) 2 mj by (simp add: p_def [symmetric])
qed

text \<open>A response arrives in the blocks \<open>bss\<close>; a block that is not taken whole ends the transfer.\<close>

fun download_all ::
  "(syscall \<Rightarrow> 'w \<Rightarrow> (int + nat) \<times> 'w) \<Rightarrow> filedata list \<Rightarrow> s3curl \<Rightarrow> filedata \<Rightarrow> 'w \<Rightarrow> bool \<times> s3curl \<times> filedata \<times> 'w" where
  "download_all osc [] c f w = (True, c, f, w)"
| "download_all osc (bs # bss) c f w =
     (case download_write_callback osc bs c f w of
        (n, c1, f1, w1) \<Rightarrow> if n = length bs then download_all osc bss c1 f1 w1 else (False, c1, f1, w1))"

lemma download_loop_calm:
  "calm osc \<Longrightarrow> \<exists>w'. download_loop osc bs pos f w = (Inr (length bs), pwrite_at f pos bs, w')"
proof (induction osc bs pos f w rule: download_loop.induct)
  case (1 osc bs pos f w)
  obtain k w1 where s: "osc (Pwrite (length bs)) w = (Inr k, w1)" and k: "0 < k"
    by (rule calmE [OF "1.prems"])
  show ?case
  proof (cases "bs = []")
    case True
    then show ?thesis by (simp add: download_loop.simps pwrite_at_def)
  next
    case False
    define n where "n = min k (length bs)"
    have n: "n \<noteq> 0" "n \<le> length bs" using False k by (auto simp: n_def)
    from "1.IH" [OF False s [symmetric] refl n_def n(1) "1.prems"] obtain w' where
      r: "download_loop osc (drop n bs) (pos + n) (pwrite_at f pos (take n bs)) w1 =
        (Inr (length (drop n bs)), pwrite_at (pwrite_at f pos (take n bs)) (pos + n) (drop n bs), w')" by blast
    have "pwrite_at (pwrite_at f pos (take n bs)) (pos + n) (drop n bs) = pwrite_at f pos (take n bs @ drop n bs)"
      using n by (intro pwrite_at_twice) simp
    then show ?thesis using False s r n
      by (simp add: download_loop.simps [of osc bs pos f w] Let_def n_def [symmetric])
  qed
qed

lemma download_all_spec:
  assumes "calm osc"
  shows "fp_fd (partdata c) \<noteq> - 1 \<Longrightarrow> 0 \<le> startpos (partdata c) \<Longrightarrow> \<forall>bs \<in> set bss. bs \<noteq> [] \<Longrightarrow>
    int (length (concat bss)) \<le> fp_size (partdata c) \<Longrightarrow>
    \<exists>c' w'. download_all osc bss c f w = (True, c', pwrite_at f (nat (startpos (partdata c))) (concat bss), w')
      \<and> fp_size (partdata c') = fp_size (partdata c) - int (length (concat bss))"
proof (induction bss arbitrary: c f w)
  case Nil
  then show ?case by (simp add: pwrite_at_def)
next
  case (Cons bs bss)
  define p where "p = partdata c"
  have le: "int (length bs) \<le> fp_size p" "0 < length bs" using Cons.prems by (auto simp: p_def)
  obtain w1 where r: "download_loop osc bs (nat (startpos p)) f w = (Inr (length bs), pwrite_at f (nat (startpos p)) bs, w1)"
    using download_loop_calm [OF assms] by blast
  have fs: "\<not> fp_size p \<le> 0" using le by linarith
  define c1 where "c1 = c\<lparr>partdata := p\<lparr>startpos := startpos p + int (length bs), fp_size := fp_size p - int (length bs)\<rparr>\<rparr>"
  have 1: "download_write_callback osc bs c f w = (length bs, c1, pwrite_at f (nat (startpos p)) bs, w1)"
    using r le(1) le(2) [unfolded length_greater_0_conv] Cons.prems fs by (simp add: download_write_callback_def p_def [symmetric] c1_def Let_def)
  have c1: "fp_fd (partdata c1) = fp_fd p" "startpos (partdata c1) = startpos p + int (length bs)"
    "fp_size (partdata c1) = fp_size p - int (length bs)" by (simp_all add: c1_def)
  obtain c2 w2 where 2: "download_all osc bss c1 (pwrite_at f (nat (startpos p)) bs) w1 =
      (True, c2, pwrite_at (pwrite_at f (nat (startpos p)) bs) (nat (startpos (partdata c1))) (concat bss), w2)"
    "fp_size (partdata c2) = fp_size (partdata c1) - int (length (concat bss))"
    using Cons.IH [of c1 "pwrite_at f (nat (startpos p)) bs" w1] Cons.prems c1 le by (auto simp: p_def)
  have "pwrite_at (pwrite_at f (nat (startpos p)) bs) (nat (startpos (partdata c1))) (concat bss) =
      pwrite_at f (nat (startpos p)) (bs @ concat bss)"
    using Cons.prems c1(2) by (intro pwrite_at_twice) (simp add: p_def)
  then show ?case using 1 2 c1 by (simp add: p_def [symmetric])
qed

section \<open>Properties\<close>

text \<open>
  C25: When every allocation succeeds, a response body is collected whatever the blocks it arrives in: no block is written outside the buffer,
  its size is the number of bytes received, and the C string read from it is what arrived, up to the
  first NUL.
\<close>

theorem body_collects_blocks:
  "\<exists>b. collect (\<lambda>_. True) bss new_body = Some b \<and> lastpos b = length (concat bss)
    \<and> body_str b = Some (takeWhile (\<lambda>x. x \<noteq> 0) (concat bss))"
proof -
  have "holds [] new_body" by (simp add: holds_def new_body_def)
  from collect_holds [OF this, of bss] obtain b where b: "collect (\<lambda>_. True) bss new_body = Some b" "holds (concat bss) b"
    by auto
  from b(1) holds_str [OF b(2)] b(2) show ?thesis by (auto simp: holds_def)
qed

text \<open>
  C23: A part is uploaded exactly: whatever the sizes of libcurl's buffers and of the single reads, the bytes
  delivered are those of the part's range of the file, and nothing is left when the buffers were enough.
\<close>

theorem upload_delivers_part:
  assumes "calm osc" "part_ok f c" "nat (fp_size (partdata c)) \<le> sum_list ns"
  shows "\<exists>c' w'. upload_all osc f ns c w =
      (substr f (nat (startpos (partdata c))) (nat (fp_size (partdata c))), c', w') \<and> fp_size (partdata c') = 0"
proof -
  have "0 \<le> fp_size (partdata c)" using assms(2) by (simp add: part_ok_def)
  then show ?thesis using upload_all_spec [OF assms(1,2), of ns w] assms(3) by (auto simp: min_def split: if_splits)
qed

definition calm_sys :: "syscall \<Rightarrow> unit \<Rightarrow> (int + nat) \<times> unit" where
  "calm_sys c w = (Inr 2, ())"

lemma calm_calm_sys: "calm calm_sys"
  by (simp add: calm_def calm_sys_def)

definition part_curl :: "int \<Rightarrow> int \<Rightarrow> s3curl" where
  "part_curl start n = (new_s3curl False)\<lparr>partdata := new_filepart\<lparr>fp_fd := 3, startpos := start, fp_size := n\<rparr>\<rparr>"

theorem upload_delivers_part_witness:
  "\<exists>c' w'. upload_all calm_sys [1, 2, 3, 4, 5, 6] [2, 1, 4] (part_curl 1 4) () = ([2, 3, 4, 5], c', w') \<and> fp_size (partdata c') = 0"
proof -
  have "part_ok [1, 2, 3, 4, 5, 6] (part_curl 1 4)" by (simp add: part_ok_def part_curl_def new_filepart_def)
  from upload_delivers_part [OF calm_calm_sys this, of "[2, 1, 4]" "()"] show ?thesis
    by (simp add: part_curl_def new_filepart_def substr_def)
qed

text \<open>
  C24: A range is downloaded exactly: blocks that together fit the range are taken whole and stand in the file
  one after the other from its start, however the single writes split them.
\<close>

theorem download_stores_blocks:
  assumes "calm osc" "fp_fd (partdata c) \<noteq> - 1" "0 \<le> startpos (partdata c)" "\<forall>bs \<in> set bss. bs \<noteq> []"
    and "int (length (concat bss)) \<le> fp_size (partdata c)"
  shows "\<exists>c' w'. download_all osc bss c f w = (True, c', pwrite_at f (nat (startpos (partdata c))) (concat bss), w')
    \<and> fp_size (partdata c') = fp_size (partdata c) - int (length (concat bss))"
  using download_all_spec [OF assms] .

theorem download_stores_blocks_witness:
  "\<exists>c' w'. download_all calm_sys [[7, 8, 9], [10]] (part_curl 1 4) [0, 0] () = (True, c', [0, 7, 8, 9, 10], w')"
  using download_stores_blocks [OF calm_calm_sys, of "part_curl 1 4" "[[7, 8, 9], [10]]" "[0, 0]" "()"]
  by (auto simp: part_curl_def new_filepart_def pwrite_at_def)

end
