(* ===== verification/Curl_Pool.thy ===== *)
theory Curl_Pool
  imports Mfs_Prelude
begin

text \<open>
  The pool of curl handles, class \<open>CurlHandlerPool\<close> of \<open>protocols/s3/curl.cpp\<close>. A handle is a number;
  \<open>init\<close> is \<open>curl_easy_init\<close>, which may fail. \<open>mPool\<close> is the list of the idle handles, back last. Its
  clients are a step relation: they ask for handles and give back those they have.
\<close>

record pool =
  mMaxHandlers :: int
  mPool :: "nat list"

type_synonym 'w easy_init = "'w \<Rightarrow> nat option \<times> 'w"

text \<open>\<open>Destroy\<close> returns the handles cleaned up.\<close>

definition pool_Destroy :: "pool \<Rightarrow> nat list \<times> pool" where
  "pool_Destroy p = (rev (mPool p), p\<lparr>mPool := []\<rparr>)"

fun init_loop :: "'w easy_init \<Rightarrow> nat \<Rightarrow> pool \<Rightarrow> 'w \<Rightarrow> bool \<times> nat list \<times> pool \<times> 'w" where
  "init_loop init 0 p w = (True, [], p, w)"
| "init_loop init (Suc n) p w =
     (case init w of
        (None, w1) \<Rightarrow> (case pool_Destroy p of (gone, p1) \<Rightarrow> (False, gone, p1, w1))
      | (Some h, w1) \<Rightarrow> init_loop init n (p\<lparr>mPool := mPool p @ [h]\<rparr>) w1)"

definition pool_Init :: "'w easy_init \<Rightarrow> pool \<Rightarrow> 'w \<Rightarrow> bool \<times> nat list \<times> pool \<times> 'w" where
  "pool_Init init p w = init_loop init (nat (mMaxHandlers p)) p w"

definition GetHandler :: "'w easy_init \<Rightarrow> bool \<Rightarrow> pool \<Rightarrow> 'w \<Rightarrow> nat option \<times> pool \<times> 'w" where
  "GetHandler init only_pool p w =
     (let (hCurl, p1) = (if mPool p \<noteq> [] then (Some (last (mPool p)), p\<lparr>mPool := butlast (mPool p)\<rparr>) else (None, p))
      in if only_pool then (hCurl, p1, w)
         else case hCurl of
           Some h \<Rightarrow> (Some h, p1, w)
         | None \<Rightarrow> (case init w of (h, w1) \<Rightarrow> (h, p1, w1)))"

fun evict :: "int \<Rightarrow> nat list \<Rightarrow> nat list \<times> nat list" where
  "evict maxh [] = ([], [])"
| "evict maxh (h # hs) =
     (if maxh \<le> int (length (h # hs)) then (case evict maxh hs of (gone, hs1) \<Rightarrow> (h # gone, hs1)) else ([], h # hs))"

definition ReturnHandler :: "nat option \<Rightarrow> bool \<Rightarrow> pool \<Rightarrow> nat list \<times> pool" where
  "ReturnHandler hCurl restore_pool p =
     (case hCurl of None \<Rightarrow> ([], p)
      | Some h \<Rightarrow>
          if restore_pool then
            (case evict (mMaxHandlers p) (mPool p @ [h]) of (gone, hs) \<Rightarrow> (gone, p\<lparr>mPool := hs\<rparr>))
          else ([h], p))"

section \<open>Clients\<close>

text \<open>\<open>curl_easy_init\<close> with handles that were not given out before: the world is the next number and whether it fails.\<close>

definition fresh_init :: "nat \<times> bool list \<Rightarrow> nat option \<times> nat \<times> bool list" where
  "fresh_init w = (case w of
     (n, []) \<Rightarrow> (Some n, Suc n, []) | (n, True # bs) \<Rightarrow> (Some n, Suc n, bs) | (n, False # bs) \<Rightarrow> (None, n, bs))"

text \<open>The pool, the handles in use, the handles cleaned up, the state of libcurl.\<close>

record world =
  w_pool :: pool
  w_used :: "nat set"
  w_gone :: "nat set"
  w_lib :: "nat \<times> bool list"

inductive pool_reach :: "int \<Rightarrow> bool list \<Rightarrow> world \<Rightarrow> bool" for n fails where
  start: "pool_Init fresh_init \<lparr>mMaxHandlers = n, mPool = []\<rparr> (0, fails) = (ok, gone, p, lib) \<Longrightarrow>
    pool_reach n fails \<lparr>w_pool = p, w_used = {}, w_gone = set gone, w_lib = lib\<rparr>"
| get: "pool_reach n fails s \<Longrightarrow> GetHandler fresh_init only_pool (w_pool s) (w_lib s) = (h, p, lib) \<Longrightarrow>
    pool_reach n fails (s\<lparr>w_pool := p, w_used := w_used s \<union> set_option h, w_lib := lib\<rparr>)"
| give_back: "pool_reach n fails s \<Longrightarrow> h \<in> w_used s \<Longrightarrow> ReturnHandler (Some h) restore_pool (w_pool s) = (gone, p) \<Longrightarrow>
    pool_reach n fails (s\<lparr>w_pool := p, w_used := w_used s - {h}, w_gone := w_gone s \<union> set gone\<rparr>)"

inductive_cases pool_reachE: "pool_reach n fails s"

section \<open>The invariant\<close>

definition pool_ok :: "int \<Rightarrow> world \<Rightarrow> bool" where
  "pool_ok n s \<longleftrightarrow> mMaxHandlers (w_pool s) = n \<and> int (length (mPool (w_pool s))) \<le> max 0 n
     \<and> distinct (mPool (w_pool s)) \<and> set (mPool (w_pool s)) \<inter> w_used s = {}
     \<and> w_gone s \<inter> (set (mPool (w_pool s)) \<union> w_used s) = {}
     \<and> set (mPool (w_pool s)) \<union> w_used s \<union> w_gone s = {..<fst (w_lib s)}"

lemma fresh_init_cases:
  obtains h where "fresh_init lib = (Some (fst lib), h)" "fst h = Suc (fst lib)"
  | h where "fresh_init lib = (None, h)" "fst h = fst lib"
proof (cases lib)
  case (Pair n bs)
  show thesis
  proof (cases bs)
    case Nil
    with Pair that show thesis by (simp add: fresh_init_def)
  next
    case (Cons b bs')
    with Pair that show thesis by (cases b) (simp_all add: fresh_init_def)
  qed
qed

lemma init_loop_ok:
  "init_loop fresh_init k p lib = (ok, gone, p', lib') \<Longrightarrow> distinct (mPool p) \<Longrightarrow> set (mPool p) = {..<fst lib} \<Longrightarrow>
   mMaxHandlers p' = mMaxHandlers p \<and> length (mPool p') \<le> length (mPool p) + k \<and> distinct (mPool p')
   \<and> set gone \<inter> set (mPool p') = {} \<and> set (mPool p') \<union> set gone = {..<fst lib'}"
proof (induction k arbitrary: p lib)
  case 0
  then show ?case by auto
next
  case (Suc k)
  show ?case
  proof (cases rule: fresh_init_cases [of lib])
    case (1 h)
    have "init_loop fresh_init k (p\<lparr>mPool := mPool p @ [fst lib]\<rparr>) h = (ok, gone, p', lib')"
      using Suc.prems 1 by simp
    moreover have "set (mPool p @ [fst lib]) = {..<fst h}" using Suc.prems(3) 1 by (auto simp: lessThan_Suc)
    ultimately show ?thesis
      using Suc.IH [of "p\<lparr>mPool := mPool p @ [fst lib]\<rparr>" h] Suc.prems by auto
  next
    case (2 h)
    then have r: "gone = rev (mPool p)" "p' = p\<lparr>mPool := []\<rparr>" "fst lib' = fst lib"
      using Suc.prems(1) by (simp_all add: pool_Destroy_def)
    show ?thesis unfolding r by (simp add: Suc.prems(3))
  qed
qed

lemma evict_ok:
  "evict maxh hs = (gone, hs') \<Longrightarrow> hs = gone @ hs' \<and> (hs' \<noteq> [] \<longrightarrow> int (length hs') < maxh)"
proof (induction maxh hs arbitrary: gone hs' rule: evict.induct)
  case (2 maxh h hs)
  show ?case
  proof (cases "maxh \<le> int (length (h # hs))")
    case True
    obtain g1 hs1 where e: "evict maxh hs = (g1, hs1)" by fastforce
    with True "2.prems" have "gone = h # g1" "hs' = hs1" by simp_all
    with "2.IH" [OF True e] show ?thesis by simp
  next
    case False
    then show ?thesis using "2.prems" by auto
  qed
qed simp

lemma pool_ok_start:
  "pool_Init fresh_init \<lparr>mMaxHandlers = n, mPool = []\<rparr> (0, fails) = (ok, gone, p, lib) \<Longrightarrow>
   pool_ok n \<lparr>w_pool = p, w_used = {}, w_gone = set gone, w_lib = lib\<rparr>"
  using init_loop_ok [of "nat n" "\<lparr>mMaxHandlers = n, mPool = []\<rparr>" "(0, fails)" ok gone p lib]
  by (auto simp: pool_Init_def pool_ok_def)

lemma pool_ok_get:
  assumes ok: "pool_ok n s" and g: "GetHandler fresh_init only_pool (w_pool s) (w_lib s) = (h, p, lib)"
  shows "pool_ok n (s\<lparr>w_pool := p, w_used := w_used s \<union> set_option h, w_lib := lib\<rparr>)"
proof (cases "mPool (w_pool s) = []")
  case True
  show ?thesis
  proof (cases only_pool)
    case False
    show ?thesis
    proof (cases rule: fresh_init_cases [of "w_lib s"])
      case (1 l)
      then show ?thesis using ok g True False
        by (auto simp: GetHandler_def pool_ok_def lessThan_Suc)
    next
      case (2 l)
      then show ?thesis using ok g True False by (auto simp: GetHandler_def pool_ok_def)
    qed
  qed (use ok g True in \<open>auto simp: GetHandler_def pool_ok_def\<close>)
next
  case False
  define hs where "hs = butlast (mPool (w_pool s))"
  define x where "x = last (mPool (w_pool s))"
  have m: "mPool (w_pool s) = hs @ [x]" using False by (simp add: hs_def x_def)
  have "h = Some x \<and> p = (w_pool s)\<lparr>mPool := hs\<rparr> \<and> lib = w_lib s"
    using g False by (auto simp: GetHandler_def hs_def x_def split: if_splits)
  then show ?thesis using ok by (auto simp: pool_ok_def m)
qed

lemma pool_ok_return:
  assumes ok: "pool_ok n s" and h: "h \<in> w_used s" and r: "ReturnHandler (Some h) restore_pool (w_pool s) = (gone, p)"
  shows "pool_ok n (s\<lparr>w_pool := p, w_used := w_used s - {h}, w_gone := w_gone s \<union> set gone\<rparr>)"
proof (cases restore_pool)
  case True
  obtain g hs where e: "evict (mMaxHandlers (w_pool s)) (mPool (w_pool s) @ [h]) = (g, hs)" by fastforce
  from evict_ok [OF e] have l: "mPool (w_pool s) @ [h] = g @ hs" "hs \<noteq> [] \<longrightarrow> int (length hs) < n"
    using ok by (auto simp: pool_ok_def)
  have p: "p = (w_pool s)\<lparr>mPool := hs\<rparr>" "gone = g" using r True e by (simp_all add: ReturnHandler_def)
  have "distinct (mPool (w_pool s) @ [h])" using ok h by (auto simp: pool_ok_def)
  then have d: "distinct hs" "set g \<inter> set hs = {}" by (simp_all add: l(1))
  have u: "insert h (set (mPool (w_pool s))) = set g \<union> set hs" using arg_cong [OF l(1), of set] by auto
  have len: "int (length hs) \<le> max 0 n" using l(2) by (cases "hs = []") auto
  have sub: "set g \<subseteq> insert h (set (mPool (w_pool s)))" "set hs \<subseteq> insert h (set (mPool (w_pool s)))" using u by auto
  have "set hs \<union> (w_used s - {h}) \<union> (w_gone s \<union> set g) = {..<fst (w_lib s)}"
    using ok u h by (auto simp: pool_ok_def)
  moreover have "set hs \<inter> (w_used s - {h}) = {}" using ok sub by (auto simp: pool_ok_def)
  moreover have "(w_gone s \<union> set g) \<inter> (set hs \<union> (w_used s - {h})) = {}"
    using ok sub d h by (auto simp: pool_ok_def)
  ultimately show ?thesis using ok d len by (simp add: pool_ok_def p)
next
  case False
  then show ?thesis using ok h r by (auto simp: pool_ok_def ReturnHandler_def)
qed

lemma pool_reach_ok: "pool_reach n fails s \<Longrightarrow> pool_ok n s"
  by (induction rule: pool_reach.induct) (auto intro: pool_ok_start pool_ok_get pool_ok_return)

section \<open>Properties\<close>

text \<open>
  C20: Handles are neither shared nor leaked: in every state that clients can bring the pool to, an idle handle
  is in the pool once and in nobody's hands, no handle that was cleaned up is in the pool or in use, every
  handle ever made is in one of the three places, and the pool never holds more than its maximum.
\<close>

theorem pool_handles_exclusive:
  assumes "pool_reach n fails s"
  shows "distinct (mPool (w_pool s)) \<and> set (mPool (w_pool s)) \<inter> w_used s = {}
    \<and> w_gone s \<inter> (set (mPool (w_pool s)) \<union> w_used s) = {}
    \<and> set (mPool (w_pool s)) \<union> w_used s \<union> w_gone s = {..<fst (w_lib s)}
    \<and> int (length (mPool (w_pool s))) \<le> max 0 n"
  using pool_reach_ok [OF assms] by (simp add: pool_ok_def)

theorem pool_handles_exclusive_witness:
  "\<exists>s. pool_reach 2 [] s \<and> w_used s = {1} \<and> distinct (mPool (w_pool s))"
proof -
  have 1: "pool_Init fresh_init \<lparr>mMaxHandlers = 2, mPool = []\<rparr> (0, []) = (True, [], \<lparr>mMaxHandlers = 2, mPool = [0, 1]\<rparr>, (2, []))"
    by code_simp
  note s = pool_reach.start [OF 1]
  have 2: "GetHandler fresh_init False \<lparr>mMaxHandlers = 2, mPool = [0, 1]\<rparr> (2, []) = (Some 1, \<lparr>mMaxHandlers = 2, mPool = [0]\<rparr>, (2, []))"
    by code_simp
  note r = pool_reach.get [OF s, of False "Some 1" "\<lparr>mMaxHandlers = 2, mPool = [0]\<rparr>" "(2, [])"]
  show ?thesis using r pool_handles_exclusive [OF r] 2 by auto
qed

end
