(* ===== verification/Curl_Handle.thy ===== *)
theory Curl_Handle
  imports Curl_State
begin

text \<open>
  The life of a request in the S3 client, \<open>protocols/s3/curl.cpp\<close>: getting and resetting a curl handle,
  the lazy setup functions, \<open>RemakeHandle\<close> and the retry loop \<open>RequestPerform\<close>. libcurl and the
  system are the record \<open>cenv\<close>: \<open>perform\<close> runs the transfer of a handle, with the callbacks' effect on the
  request object, \<open>getinfo\<close> is the response code it left. The class variables are part of the state,
  because a certificate error sets one.
\<close>

section \<open>The environment\<close>

datatype curlcode =
    CURLE_OK | CURLE_WRITE_ERROR | CURLE_OPERATION_TIMEDOUT | CURLE_COULDNT_RESOLVE_HOST
  | CURLE_COULDNT_CONNECT | CURLE_GOT_NOTHING | CURLE_ABORTED_BY_CALLBACK | CURLE_PARTIAL_FILE
  | CURLE_SEND_ERROR | CURLE_RECV_ERROR | CURLE_SSL_CONNECT_ERROR | CURLE_SSL_CACERT
  | CURLE_HTTP_RETURNED_ERROR | CURLE_other

record 'w cenv =
  perform :: "s3curl \<Rightarrow> 'w \<Rightarrow> curlcode \<times> s3curl \<times> 'w"
  getinfo :: "'w \<Rightarrow> int option"
  ce_sleep :: "int \<Rightarrow> 'w \<Rightarrow> 'w"
  touch_time :: "'w \<Rightarrow> 'w"
  get_handler :: "bool \<Rightarrow> 'w \<Rightarrow> bool \<times> 'w"
  return_handler :: "bool \<Rightarrow> 'w \<Rightarrow> 'w"
  file_size :: "int \<Rightarrow> 'w \<Rightarrow> int option"
  env_bundle :: "'w \<Rightarrow> string option"
  readable :: "string \<Rightarrow> 'w \<Rightarrow> bool"

record 'w cst =
  conf :: cconf
  cw :: 'w

section \<open>Handles\<close>

definition setopts :: "curlopt list \<Rightarrow> s3curl \<Rightarrow> s3curl" where
  "setopts os c = c\<lparr>hCurl := map_option (\<lambda>h. h @ os) (hCurl c)\<rparr>"

definition AddUserAgent :: "cconf \<Rightarrow> s3curl \<Rightarrow> s3curl" where
  "AddUserAgent cf c = (if is_ua cf then setopts [O_USERAGENT (userAgent cf)] c else c)"

definition reset_opts :: "cconf \<Rightarrow> reqtype \<Rightarrow> curlopt list" where
  "reset_opts cf t =
     [O_NOSIGNAL 1, O_FOLLOWLOCATION True, O_CONNECTTIMEOUT (connect_timeout cf), O_NOPROGRESS 0,
      O_PROGRESSFUNCTION CurlProgress, O_PROGRESSDATA, O_TCP_KEEPALIVE 1, O_SSL_ENABLE_ALPN 0,
      O_KEEP_SENDING_ON_ERROR 1]
     @ (if t \<noteq> REQTYPE_IAMCRED \<and> t \<noteq> REQTYPE_IAMROLE
        then (if ssl_verify_hostname cf = 0 then [O_SSL_VERIFYHOST 0] else [])
             @ (if curl_ca_bundle cf \<noteq> [] then [O_CAINFO (curl_ca_bundle cf)] else [])
        else [])
     @ (if (is_dns_cache cf \<or> is_ssl_session_cache cf) \<and> has_share cf then [O_SHARE] else [])
     @ (if \<not> is_cert_check cf then [O_SSL_VERIFYPEER False] else [])
     @ (if is_verbose cf
        then O_VERBOSE True # (if \<not> g_foreground cf then [O_DEBUGFUNCTION CurlDebugFunc] else []) else [])
     @ (if cipher_suites cf \<noteq> [] then [O_SSL_CIPHER_LIST (cipher_suites cf)] else [])"

definition ResetHandle :: "'w cenv \<Rightarrow> s3curl \<Rightarrow> 'w cst \<Rightarrow> s3curl \<times> 'w cst" where
  "ResetHandle en c s =
     (c\<lparr>hCurl := map_option (\<lambda>_. reset_opts (conf s) (rtype c)) (hCurl c)\<rparr>, s\<lparr>cw := touch_time en (cw s)\<rparr>)"

definition DestroyCurlHandle :: "'w cenv \<Rightarrow> bool \<Rightarrow> bool \<Rightarrow> s3curl \<Rightarrow> 'w cst \<Rightarrow> bool \<times> s3curl \<times> 'w cst" where
  "DestroyCurlHandle en restore_pool clear_internal_data c s =
     (let c1 = (if clear_internal_data then ClearInternalData c else c)
      in if hCurl c1 \<noteq> None then (True, c1\<lparr>hCurl := None\<rparr>, s\<lparr>cw := return_handler en restore_pool (cw s)\<rparr>)
         else (False, c1, s))"

text \<open>
  \<open>CreateCurlHandle\<close> clears the type of the request. To remake a handle that is there it takes the lock
  of the handles a second time and does not return (\<open>None\<close>); no caller asks for that.
\<close>

definition CreateCurlHandle ::
  "'w cenv \<Rightarrow> bool \<Rightarrow> bool \<Rightarrow> s3curl \<Rightarrow> 'w cst \<Rightarrow> (bool \<times> s3curl \<times> 'w cst) option" where
  "CreateCurlHandle en only_pool remake c s =
     (if hCurl c \<noteq> None \<and> remake then None
      else
        (let (got, c1, s1) =
               (if hCurl c \<noteq> None then (True, c, s)
                else case get_handler en only_pool (cw s) of
                  (ok, w) \<Rightarrow> (ok, if ok then c\<lparr>hCurl := Some []\<rparr> else c, s\<lparr>cw := w\<rparr>))
         in if \<not> got then Some (only_pool, c1, s1)
            else
              (let c2 = (if rtype c1 \<noteq> REQTYPE_IAMCRED \<and> rtype c1 \<noteq> REQTYPE_IAMROLE
                         then c1\<lparr>rtype := REQTYPE_UNSET\<rparr> else c1)
               in case ResetHandle en c2 s1 of (c3, s2) \<Rightarrow> Some (True, c3, s2))))"

definition create_handle :: "'w cenv \<Rightarrow> s3curl \<Rightarrow> 'w cst \<Rightarrow> bool \<times> s3curl \<times> 'w cst" where
  "create_handle en c s = the (CreateCurlHandle en False False c s)"

lemma create_handle_simp: "CreateCurlHandle en False False c s = Some (create_handle en c s)"
  by (auto simp: create_handle_def CreateCurlHandle_def Let_def split: prod.splits)

definition destroy_handle :: "'w cenv \<Rightarrow> s3curl \<Rightarrow> 'w cst \<Rightarrow> s3curl \<times> 'w cst" where
  "destroy_handle en c s = snd (DestroyCurlHandle en True True c s)"

section \<open>Lazy setup\<close>

text \<open>The options each lazy setup function puts on the handle it has created.\<close>

definition lazy_opts :: "lazy_setup \<Rightarrow> s3curl \<Rightarrow> curlopt list" where
  "lazy_opts l c = (case l of
     UploadMultipartPost \<Rightarrow>
       [O_URL (url c), O_UPLOAD True, O_WRITEDATA Body, O_WRITEFUNCTION WriteMemoryCallback,
        O_HEADERDATA RespHeaders, O_HEADERFUNCTION HeaderCallback, O_INFILESIZE_LARGE (fp_size (partdata c)),
        O_READFUNCTION UploadReadCallback, O_READDATA This, O_HTTPHEADER (requestHeaders c)]
   | CopyMultipartPost \<Rightarrow>
       [O_URL (url c), O_UPLOAD True, O_WRITEDATA Body, O_WRITEFUNCTION WriteMemoryCallback,
        O_HEADERDATA Head, O_HEADERFUNCTION WriteMemoryCallback, O_INFILESIZE 0, O_HTTPHEADER (requestHeaders c)]
   | PreGetObject \<Rightarrow>
       [O_URL (url c), O_HTTPHEADER (requestHeaders c), O_WRITEFUNCTION DownloadWriteCallback, O_WRITEDATA This]
   | PreHead \<Rightarrow>
       [O_URL (url c), O_NOBODY True, O_FILETIME True, O_HTTPHEADER (requestHeaders c),
        O_HEADERDATA RespHeaders, O_HEADERFUNCTION HeaderCallback])"

definition run_lazy :: "'w cenv \<Rightarrow> s3curl \<Rightarrow> 'w cst \<Rightarrow> bool \<times> s3curl \<times> 'w cst" where
  "run_lazy en c s =
     (case fpLazySetup c of None \<Rightarrow> (False, c, s)
      | Some l \<Rightarrow>
          (case create_handle en c s of
             (False, c1, s1) \<Rightarrow> (False, c1, s1)
           | (True, c1, s1) \<Rightarrow> (True, AddUserAgent (conf s1) (setopts (lazy_opts l c1) c1), s1)))"

section \<open>Retrying\<close>

text \<open>The options \<open>RemakeHandle\<close> sets for each type; \<open>st_size\<close> is the size of \<open>b_infile\<close>.\<close>

definition remake_opts :: "cconf \<Rightarrow> int \<Rightarrow> s3curl \<Rightarrow> curlopt list option" where
  "remake_opts cf st_size c = (case rtype c of
     REQTYPE_DELETE \<Rightarrow> Some [O_URL (url c), O_CUSTOMREQUEST ''DELETE'', O_HTTPHEADER (requestHeaders c)]
   | REQTYPE_HEAD \<Rightarrow> Some [O_URL (url c), O_NOBODY True, O_FILETIME True, O_HTTPHEADER (requestHeaders c),
       O_HEADERDATA RespHeaders, O_HEADERFUNCTION HeaderCallback]
   | REQTYPE_PUTHEAD \<Rightarrow> Some [O_URL (url c), O_UPLOAD True, O_WRITEDATA Body, O_WRITEFUNCTION WriteMemoryCallback,
       O_INFILESIZE 0, O_HTTPHEADER (requestHeaders c)]
   | REQTYPE_PUT \<Rightarrow> Some ([O_URL (url c), O_UPLOAD True, O_WRITEDATA Body, O_WRITEFUNCTION WriteMemoryCallback,
       O_HTTPHEADER (requestHeaders c)]
       @ (case b_infile c of Some f \<Rightarrow> [O_INFILESIZE_LARGE st_size, O_INFILE f] | None \<Rightarrow> [O_INFILESIZE 0]))
   | REQTYPE_GET \<Rightarrow> Some [O_URL (url c), O_HTTPHEADER (requestHeaders c), O_WRITEFUNCTION DownloadWriteCallback,
       O_WRITEDATA This]
   | REQTYPE_CHKBUCKET \<Rightarrow> Some [O_URL (url c), O_WRITEDATA Body, O_WRITEFUNCTION WriteMemoryCallback,
       O_HTTPHEADER (requestHeaders c)]
   | REQTYPE_LISTBUCKET \<Rightarrow> Some [O_URL (url c), O_WRITEDATA Body, O_WRITEFUNCTION WriteMemoryCallback,
       O_HTTPHEADER (requestHeaders c)]
   | REQTYPE_PREMULTIPOST \<Rightarrow> Some [O_URL (url c), O_POST True, O_WRITEDATA Body,
       O_WRITEFUNCTION WriteMemoryCallback, O_POSTFIELDSIZE 0, O_HTTPHEADER (requestHeaders c)]
   | REQTYPE_COMPLETEMULTIPOST \<Rightarrow> Some [O_URL (url c), O_HTTPHEADER (requestHeaders c), O_POST True,
       O_WRITEDATA Body, O_WRITEFUNCTION WriteMemoryCallback, O_POSTFIELDSIZE (postdata_remaining c),
       O_READDATA This, O_READFUNCTION ReadCallback]
   | REQTYPE_UPLOADMULTIPOST \<Rightarrow> Some [O_URL (url c), O_UPLOAD True, O_WRITEDATA Body,
       O_WRITEFUNCTION WriteMemoryCallback, O_HEADERDATA RespHeaders, O_HEADERFUNCTION HeaderCallback,
       O_INFILESIZE_LARGE (fp_size (partdata c)), O_READFUNCTION UploadReadCallback, O_READDATA This,
       O_HTTPHEADER (requestHeaders c)]
   | REQTYPE_COPYMULTIPOST \<Rightarrow> Some [O_URL (url c), O_UPLOAD True, O_WRITEDATA Body,
       O_WRITEFUNCTION WriteMemoryCallback, O_HEADERDATA Head, O_HEADERFUNCTION WriteMemoryCallback,
       O_INFILESIZE 0, O_HTTPHEADER (requestHeaders c)]
   | REQTYPE_MULTILIST \<Rightarrow> Some [O_URL (url c), O_WRITEDATA Body, O_WRITEFUNCTION WriteMemoryCallback,
       O_HTTPHEADER (requestHeaders c)]
   | REQTYPE_IAMCRED \<Rightarrow> Some ([O_URL (url c), O_WRITEDATA Body, O_WRITEFUNCTION WriteMemoryCallback,
       O_HTTPHEADER (requestHeaders c)]
       @ (if is_ibm_iam_auth cf then [O_POST True, O_POSTFIELDSIZE (postdata_remaining c), O_READDATA This,
            O_READFUNCTION ReadCallback] else []))
   | REQTYPE_ABORTMULTIUPLOAD \<Rightarrow>
       Some [O_URL (url c), O_CUSTOMREQUEST ''DELETE'', O_HTTPHEADER (requestHeaders c)]
   | REQTYPE_IAMROLE \<Rightarrow> Some [O_URL (url c), O_WRITEDATA Body, O_WRITEFUNCTION WriteMemoryCallback]
   | REQTYPE_UNSET \<Rightarrow> None)"

text \<open>What is put back from the backup before a retry.\<close>

definition rewind_data :: "s3curl \<Rightarrow> s3curl" where
  "rewind_data c = c\<lparr>responseHeaders := [], bodydata := map_option (\<lambda>_. []) (bodydata c),
     headdata := map_option (\<lambda>_. []) (headdata c), LastResponseCode := - 1, retry_count := retry_count c + 1,
     postdata := b_postdata c, postdata_remaining := b_postdata_remaining c,
     partdata := (partdata c)\<lparr>startpos := b_partdata_startpos c, fp_size := b_partdata_size c\<rparr>\<rparr>"

definition RemakeHandle :: "'w cenv \<Rightarrow> s3curl \<Rightarrow> 'w cst \<Rightarrow> bool \<times> s3curl \<times> 'w cst" where
  "RemakeHandle en c s =
     (if rtype c = REQTYPE_UNSET then (False, c, s)
      else
        (let st = (case b_infile c of None \<Rightarrow> Some 0 | Some f \<Rightarrow> file_size en f (cw s))
         in case st of None \<Rightarrow> (False, c, s)
          | Some st_size \<Rightarrow>
              (case ResetHandle en (rewind_data c) s of
                 (c1, s1) \<Rightarrow>
                   (case remake_opts (conf s1) st_size c1 of
                      None \<Rightarrow> (False, c1, s1)
                    | Some os \<Rightarrow> (True, AddUserAgent (conf s1) (setopts os c1), s1)))))"

text \<open>
  \<open>LocateBundle\<close>: the path it makes the certificate bundle, if any. For the file of the last place it
  looks at it names that of the place before.
\<close>

definition LocateBundle :: "'w cenv \<Rightarrow> 'w cst \<Rightarrow> bool \<times> 'w cst" where
  "LocateBundle en s =
     (let found = (\<lambda>p. (True, s\<lparr>conf := (conf s)\<lparr>curl_ca_bundle := p\<rparr>\<rparr>)); readable = (\<lambda>p. readable en p (cw s)) in
      if curl_ca_bundle (conf s) \<noteq> [] then (True, s)
      else case env_bundle en (cw s) of
        Some p \<Rightarrow> if readable p then found p else (False, s)
      | None \<Rightarrow>
          if readable ''/etc/pki/tls/certs/ca-bundle.crt'' then found ''/etc/pki/tls/certs/ca-bundle.crt''
          else if readable ''/etc/ssl/certs/ca-certificates.crt'' then found ''/etc/ssl/certs/ca-certificates.crt''
          else if readable ''/usr/share/ssl/certs/ca-bundle.crt'' then found ''/usr/share/ssl/certs/ca-bundle.crt''
          else if readable ''/usr/local/share/certs/ca-root.crt'' then found ''/usr/share/ssl/certs/ca-bundle.crt''
          else (False, s))"

text \<open>What a response code means: the result to return, or \<open>None\<close> for another try.\<close>

definition http_result :: "int \<Rightarrow> int option" where
  "http_result code =
     (if 200 \<le> code \<and> code < 300 then Some 0
      else if code = 301 \<or> code = 307 \<or> code = 400 then Some (- EIO)
      else if code = 403 then Some (- EPERM)
      else if code = 404 then Some (- ENOENT)
      else if code = 501 then Some (- ENOTSUP)
      else if code = 503 then None else Some (- EIO))"

definition check_result :: "'w cenv \<Rightarrow> curlcode \<Rightarrow> s3curl \<Rightarrow> 'w cst \<Rightarrow> int option \<times> s3curl \<times> 'w cst" where
  "check_result en code c s =
     (let wait = (\<lambda>n. (None, c, s\<lparr>cw := ce_sleep en n (cw s)\<rparr>)) in
      case code of
        CURLE_OK \<Rightarrow>
          (case getinfo en (cw s) of None \<Rightarrow> (Some (- EIO), c, s)
           | Some lrc \<Rightarrow>
               (let c1 = c\<lparr>LastResponseCode := lrc\<rparr>
                in case http_result lrc of
                     Some r \<Rightarrow> (Some r, c1, s)
                   | None \<Rightarrow> (None, c1, s\<lparr>cw := ce_sleep en (4 * 2 ^ nat (retry_count c)) (cw s)\<rparr>)))
      | CURLE_WRITE_ERROR \<Rightarrow> wait 2 | CURLE_OPERATION_TIMEDOUT \<Rightarrow> wait 2
      | CURLE_COULDNT_RESOLVE_HOST \<Rightarrow> wait 2 | CURLE_COULDNT_CONNECT \<Rightarrow> wait 4 | CURLE_GOT_NOTHING \<Rightarrow> wait 4
      | CURLE_ABORTED_BY_CALLBACK \<Rightarrow> (None, c, s\<lparr>cw := touch_time en (ce_sleep en 4 (cw s))\<rparr>)
      | CURLE_PARTIAL_FILE \<Rightarrow> wait 4 | CURLE_SEND_ERROR \<Rightarrow> wait 2 | CURLE_RECV_ERROR \<Rightarrow> wait 2
      | CURLE_SSL_CONNECT_ERROR \<Rightarrow> wait 2
      | CURLE_SSL_CACERT \<Rightarrow>
          if curl_ca_bundle (conf s) = [] then
            (case LocateBundle en s of (ok, s1) \<Rightarrow> (if ok then None else Some (- EIO), c, s1))
          else (Some (- EIO), c, s)
      | CURLE_HTTP_RETURNED_ERROR \<Rightarrow>
          (case getinfo en (cw s) of None \<Rightarrow> (Some (- EIO), c, s)
           | Some lrc \<Rightarrow>
               (if lrc = 404 then Some (- ENOENT) else if lrc < 500 then Some (- EIO) else None,
                c\<lparr>LastResponseCode := lrc\<rparr>, s))
      | CURLE_other \<Rightarrow> (Some (- EIO), c, s))"

fun perform_loop :: "'w cenv \<Rightarrow> nat \<Rightarrow> s3curl \<Rightarrow> 'w cst \<Rightarrow> int \<times> s3curl \<times> 'w cst" where
  "perform_loop en 0 c s = (- EIO, c, s)"
| "perform_loop en (Suc n) c s =
     (case perform en c (cw s) of
        (code, c1, w1) \<Rightarrow>
          (case check_result en code c1 (s\<lparr>cw := w1\<rparr>) of
             (Some r, c2, s2) \<Rightarrow> (r, c2, s2)
           | (None, c2, s2) \<Rightarrow>
               (case RemakeHandle en c2 s2 of
                  (False, c3, s3) \<Rightarrow> (- EIO, c3, s3)
                | (True, c3, s3) \<Rightarrow> perform_loop en n c3 s3)))"

definition RequestPerform :: "'w cenv \<Rightarrow> s3curl \<Rightarrow> 'w cst \<Rightarrow> int \<times> s3curl \<times> 'w cst" where
  "RequestPerform en c s = perform_loop en (nat (retries (conf s))) c s"

section \<open>What a request can answer\<close>

lemma http_result_range: "http_result code = Some r \<Longrightarrow> r \<in> {0, - EIO, - EPERM, - ENOENT, - ENOTSUP}"
  and http_result_zero: "http_result code = Some 0 \<longleftrightarrow> 200 \<le> code \<and> code < 300"
  by (auto simp: http_result_def split: if_splits)

lemma check_result_Some:
  "check_result en code c s = (Some r, c1, s1) \<Longrightarrow>
     r = - EIO \<or> r = - ENOENT
     \<or> (\<exists>n. code = CURLE_OK \<and> getinfo en (cw s) = Some n \<and> http_result n = Some r \<and> LastResponseCode c1 = n)"
  by (cases code; clarsimp simp: check_result_def Let_def split: option.splits if_splits prod.splits)

lemma check_result_spec:
  assumes "check_result en code c s = (Some r, c1, s1)"
  shows "r \<in> {0, - EIO, - EPERM, - ENOENT, - ENOTSUP}"
    and "r = 0 \<Longrightarrow> 200 \<le> LastResponseCode c1 \<and> LastResponseCode c1 < 300"
  using check_result_Some [OF assms] http_result_range http_result_zero by auto

lemma perform_loop_range:
  "perform_loop en n c s = (r, c1, s1) \<Longrightarrow> r \<in> {0, - EIO, - EPERM, - ENOENT, - ENOTSUP}
     \<and> (r = 0 \<longrightarrow> 200 \<le> LastResponseCode c1 \<and> LastResponseCode c1 < 300)"
proof (induction n arbitrary: c s)
  case (Suc n)
  obtain code c2 w2 where p: "perform en c (cw s) = (code, c2, w2)" by (cases "perform en c (cw s)")
  obtain x c3 s3 where k: "check_result en code c2 (s\<lparr>cw := w2\<rparr>) = (x, c3, s3)"
    by (cases "check_result en code c2 (s\<lparr>cw := w2\<rparr>)")
  obtain ok c4 s4 where m: "RemakeHandle en c3 s3 = (ok, c4, s4)" by (cases "RemakeHandle en c3 s3")
  show ?case
  proof (cases x)
    case (Some v)
    then show ?thesis using Suc.prems p k check_result_spec [of en code c2 "s\<lparr>cw := w2\<rparr>" v c3 s3] by auto
  next
    case None
    show ?thesis using Suc.prems Suc.IH [of c4 s4] p k m None by (cases ok) auto
  qed
qed simp

section \<open>Retrying a lazily set up request\<close>

lemma create_handle_type:
  "create_handle en c s = (True, c1, s1) \<Longrightarrow>
   rtype c1 = (if rtype c = REQTYPE_IAMCRED \<or> rtype c = REQTYPE_IAMROLE then rtype c else REQTYPE_UNSET)"
  by (auto simp: create_handle_def CreateCurlHandle_def ResetHandle_def Let_def split: if_splits prod.splits)

lemma setopts_type [simp]:
  "rtype (setopts os c) = rtype c" "rtype (AddUserAgent cf c) = rtype c"
  by (simp_all add: setopts_def AddUserAgent_def)

lemma run_lazy_type:
  "run_lazy en c s = (True, c1, s1) \<Longrightarrow> rtype c \<noteq> REQTYPE_IAMCRED \<Longrightarrow> rtype c \<noteq> REQTYPE_IAMROLE \<Longrightarrow>
   rtype c1 = REQTYPE_UNSET"
  by (auto simp: run_lazy_def dest: create_handle_type split: option.splits prod.splits bool.splits)

lemma remake_unset: "rtype c = REQTYPE_UNSET \<Longrightarrow> RemakeHandle en c s = (False, c, s)"
  by (simp add: RemakeHandle_def)

lemma RequestPerform_first:
  assumes "0 < retries (conf s)" "perform en c (cw s) = (code, c2, w)"
    "check_result en code c2 (s\<lparr>cw := w\<rparr>) = (x, c3, s3)"
  shows "RequestPerform en c s =
    (case x of Some r \<Rightarrow> (r, c3, s3)
     | None \<Rightarrow> (case RemakeHandle en c3 s3 of
         (False, c4, s4) \<Rightarrow> (- EIO, c4, s4)
       | (True, c4, s4) \<Rightarrow> perform_loop en (nat (retries (conf s)) - 1) c4 s4))"
proof -
  obtain n where "nat (retries (conf s)) = Suc n" using assms(1) by (cases "nat (retries (conf s))") auto
  then have n: "nat (retries (conf s)) = Suc n" "nat (retries (conf s)) - 1 = n" by simp_all
  show ?thesis unfolding RequestPerform_def n(2) unfolding n(1) using assms(2,3) by (cases x) simp_all
qed

lemma check_result_type: "check_result en code c s = (x, c1, s1) \<Longrightarrow> rtype c1 = rtype c"
  by (cases code; auto simp: check_result_def Let_def split: option.splits if_splits prod.splits)

text \<open>An environment whose transfers always end the same way, for concrete runs; it counts the transfers.\<close>

definition fixed_env :: "curlcode \<Rightarrow> int \<Rightarrow> nat cenv" where
  "fixed_env code status = \<lparr>perform = (\<lambda>c w. (code, c, Suc w)), getinfo = (\<lambda>w. Some status),
     ce_sleep = (\<lambda>n w. w), touch_time = (\<lambda>w. w), get_handler = (\<lambda>b w. (True, w)), return_handler = (\<lambda>b w. w),
     file_size = (\<lambda>f w. None), env_bundle = (\<lambda>w. None), readable = (\<lambda>p w. False)\<rparr>"

text \<open>What a request answers is \<open>0\<close> or one of four errors, and \<open>0\<close> only when the last response code is a success.\<close>

theorem RequestPerform_result:
  assumes "RequestPerform en c s = (r, c1, s1)"
  shows "r \<in> {0, - EIO, - EPERM, - ENOENT, - ENOTSUP}
    \<and> (r = 0 \<longrightarrow> 200 \<le> LastResponseCode c1 \<and> LastResponseCode c1 < 300)"
  using perform_loop_range assms unfolding RequestPerform_def by blast

theorem RequestPerform_result_witness:
  "fst (RequestPerform (fixed_env CURLE_OK 204) (new_s3curl False) \<lparr>conf = initial_conf, cw = 0\<rparr>) = 0
   \<and> 200 \<le> LastResponseCode (fst (snd (RequestPerform (fixed_env CURLE_OK 204) (new_s3curl False) \<lparr>conf = initial_conf, cw = 0\<rparr>)))"
proof -
  let ?r = "RequestPerform (fixed_env CURLE_OK 204) (new_s3curl False) \<lparr>conf = initial_conf, cw = 0\<rparr>"
  have z: "fst ?r = 0" by code_simp
  obtain r c1 s1 where e: "?r = (r, c1, s1)" by (cases ?r)
  show ?thesis using RequestPerform_result [OF e] z e by simp
qed

text \<open>
  A request set up lazily (HEAD, GET, a part) is never tried again, however many retries are set: creating
  its handle clears the type \<open>RemakeHandle\<close> needs, so an answer worth another try is an error.
\<close>

theorem lazy_request_not_retried:
  assumes "run_lazy en c s = (True, c1, s1)" "rtype c \<noteq> REQTYPE_IAMCRED" "rtype c \<noteq> REQTYPE_IAMROLE"
    and "0 < retries (conf s1)" "perform en c1 (cw s1) = (code, c2, w)" "rtype c2 = rtype c1"
    and "check_result en code c2 (s1\<lparr>cw := w\<rparr>) = (None, c3, s3)"
  shows "RequestPerform en c1 s1 = (- EIO, c3, s3)"
proof -
  have "rtype c3 = REQTYPE_UNSET"
    using check_result_type [OF assms(7)] run_lazy_type [OF assms(1-3)] assms(6) by simp
  from remake_unset [OF this, of en s3] RequestPerform_first [OF assms(4,5,7)] show ?thesis
    by (simp only: option.case prod.case bool.case)
qed

text \<open>A HEAD request answered with 503: one transfer, though five retries are set.\<close>

theorem lazy_request_not_retried_witness:
  "\<exists>c1 s1. run_lazy (fixed_env CURLE_OK 503) ((new_s3curl False)\<lparr>rtype := REQTYPE_HEAD, fpLazySetup := Some PreHead\<rparr>)
       \<lparr>conf = initial_conf, cw = 0\<rparr> = (True, c1, s1) \<and> retries (conf s1) = 5
     \<and> fst (RequestPerform (fixed_env CURLE_OK 503) c1 s1) = - EIO
     \<and> cw (snd (snd (RequestPerform (fixed_env CURLE_OK 503) c1 s1))) = 1"
proof -
  let ?en = "fixed_env CURLE_OK 503" and ?c = "(new_s3curl False)\<lparr>rtype := REQTYPE_HEAD, fpLazySetup := Some PreHead\<rparr>"
    and ?s = "\<lparr>conf = initial_conf, cw = 0 :: nat\<rparr>"
  define c1 where "c1 = fst (snd (run_lazy ?en ?c ?s))"
  have l: "run_lazy ?en ?c ?s = (True, c1, ?s)" unfolding c1_def by code_simp
  have p: "perform ?en c1 (cw ?s) = (CURLE_OK, c1, 1)" by (simp add: fixed_env_def)
  have k: "check_result ?en CURLE_OK c1 (?s\<lparr>cw := 1\<rparr>) = (None, c1\<lparr>LastResponseCode := 503\<rparr>, ?s\<lparr>cw := 1\<rparr>)"
    by (simp add: check_result_def fixed_env_def http_result_def)
  have "RequestPerform ?en c1 ?s = (- EIO, c1\<lparr>LastResponseCode := 503\<rparr>, ?s\<lparr>cw := 1\<rparr>)"
    by (rule lazy_request_not_retried [OF l _ _ _ p _ k]) (simp_all add: initial_conf_def)
  with l show ?thesis by (auto simp: initial_conf_def)
qed

text \<open>
  \<open>retries\<close> is the number of all tries: without a positive number no transfer is made at all and the
  request is an error.
\<close>

theorem no_retries_no_request:
  assumes "retries (conf s) \<le> 0"
  shows "RequestPerform en c s = (- EIO, c, s)"
  using assms by (simp add: RequestPerform_def)

theorem no_retries_no_request_witness:
  "RequestPerform (fixed_env CURLE_OK 200) (new_s3curl False) \<lparr>conf = initial_conf\<lparr>retries := 0\<rparr>, cw = 0\<rparr>
    = (- EIO, new_s3curl False, \<lparr>conf = initial_conf\<lparr>retries := 0\<rparr>, cw = 0\<rparr>)"
  using no_retries_no_request [of "\<lparr>conf = initial_conf\<lparr>retries := 0\<rparr>, cw = 0\<rparr>" "fixed_env CURLE_OK 200"] by simp

text \<open>The certificate bundle of the last place is found, but not named.\<close>

theorem bundle_found_not_named:
  assumes "curl_ca_bundle (conf s) = []" "env_bundle en (cw s) = None"
    and "\<And>p. readable en p (cw s) \<longleftrightarrow> p = ''/usr/local/share/certs/ca-root.crt''"
  shows "\<exists>s1. LocateBundle en s = (True, s1) \<and> \<not> readable en (curl_ca_bundle (conf s1)) (cw s1)"
  using assms by (simp add: LocateBundle_def)

theorem bundle_found_not_named_witness:
  "\<exists>s1. LocateBundle ((fixed_env CURLE_OK 200)\<lparr>readable := \<lambda>p w. p = ''/usr/local/share/certs/ca-root.crt''\<rparr>)
      \<lparr>conf = initial_conf, cw = 0\<rparr> = (True, s1) \<and> curl_ca_bundle (conf s1) \<noteq> ''/usr/local/share/certs/ca-root.crt''"
  using bundle_found_not_named [of "\<lparr>conf = initial_conf, cw = 0\<rparr>"
      "(fixed_env CURLE_OK 200)\<lparr>readable := \<lambda>p w. p = ''/usr/local/share/certs/ca-root.crt''\<rparr>"]
  by (auto simp: initial_conf_def fixed_env_def)

end
