(* ===== verification/Curl_Config.thy ===== *)
theory Curl_Config
  imports Curl_State
begin

text \<open>
  The settings of the S3 client, \<open>protocols/s3/curl.cpp\<close>: the functions that change the class
  variables, server side encryption keys and the credentials a metadata service hands out. A setter
  answers the value before, or whether it took the new one. The environment, files and digests are
  arguments.
\<close>

unbundle bit_operations_syntax

section \<open>Setters\<close>

definition SetCheckCertificate :: "bool \<Rightarrow> cconf \<Rightarrow> bool \<times> cconf" where
  "SetCheckCertificate v cf = (is_cert_check cf, cf\<lparr>is_cert_check := v\<rparr>)"

definition SetDnsCache :: "bool \<Rightarrow> cconf \<Rightarrow> bool \<times> cconf" where
  "SetDnsCache v cf = (is_dns_cache cf, cf\<lparr>is_dns_cache := v\<rparr>)"

definition SetSslSessionCache :: "bool \<Rightarrow> cconf \<Rightarrow> bool \<times> cconf" where
  "SetSslSessionCache v cf = (is_ssl_session_cache cf, cf\<lparr>is_ssl_session_cache := v\<rparr>)"

definition SetConnectTimeout :: "int \<Rightarrow> cconf \<Rightarrow> int \<times> cconf" where
  "SetConnectTimeout v cf = (connect_timeout cf, cf\<lparr>connect_timeout := v\<rparr>)"

definition SetReadwriteTimeout :: "int \<Rightarrow> cconf \<Rightarrow> int \<times> cconf" where
  "SetReadwriteTimeout v cf = (readwrite_timeout cf, cf\<lparr>readwrite_timeout := v\<rparr>)"

definition SetRetries :: "int \<Rightarrow> cconf \<Rightarrow> int \<times> cconf" where
  "SetRetries v cf = (retries cf, cf\<lparr>retries := v\<rparr>)"

definition SetPublicBucket :: "bool \<Rightarrow> cconf \<Rightarrow> bool \<times> cconf" where
  "SetPublicBucket v cf = (is_public_bucket cf, cf\<lparr>is_public_bucket := v\<rparr>)"

definition SetDefaultAcl :: "string option \<Rightarrow> cconf \<Rightarrow> string \<times> cconf" where
  "SetDefaultAcl acl cf = (default_acl cf, cf\<lparr>default_acl := case acl of Some a \<Rightarrow> a | None \<Rightarrow> []\<rparr>)"

definition SetStorageClass :: "storage_class_t \<Rightarrow> cconf \<Rightarrow> storage_class_t \<times> cconf" where
  "SetStorageClass v cf = (storage_class cf, cf\<lparr>storage_class := v\<rparr>)"

definition SetSseType :: "sse_type_t \<Rightarrow> cconf \<Rightarrow> sse_type_t \<times> cconf" where
  "SetSseType v cf = (ssetype cf, cf\<lparr>ssetype := v\<rparr>)"

definition SetContentMd5 :: "bool \<Rightarrow> cconf \<Rightarrow> bool \<times> cconf" where
  "SetContentMd5 v cf = (is_content_md5 cf, cf\<lparr>is_content_md5 := v\<rparr>)"

definition SetVerbose :: "bool \<Rightarrow> cconf \<Rightarrow> bool \<times> cconf" where
  "SetVerbose v cf = (is_verbose cf, cf\<lparr>is_verbose := v\<rparr>)"

definition SetSslVerifyHostname :: "int \<Rightarrow> cconf \<Rightarrow> int \<times> cconf" where
  "SetSslVerifyHostname v cf =
     (if v \<noteq> 0 \<and> v \<noteq> 1 then (- 1, cf) else (ssl_verify_hostname cf, cf\<lparr>ssl_verify_hostname := v\<rparr>))"

definition SetIsIBMIAMAuth :: "bool \<Rightarrow> cconf \<Rightarrow> bool \<times> cconf" where
  "SetIsIBMIAMAuth v cf = (is_ibm_iam_auth cf, cf\<lparr>is_ibm_iam_auth := v\<rparr>)"

definition SetIsECS :: "bool \<Rightarrow> cconf \<Rightarrow> bool \<times> cconf" where
  "SetIsECS v cf = (is_ecs cf, cf\<lparr>is_ecs := v\<rparr>)"

definition SetIAMRole :: "string option \<Rightarrow> cconf \<Rightarrow> string \<times> cconf" where
  "SetIAMRole v cf = (IAM_role cf, cf\<lparr>IAM_role := case v of Some a \<Rightarrow> a | None \<Rightarrow> []\<rparr>)"

definition SetIAMFieldCount :: "nat \<Rightarrow> cconf \<Rightarrow> nat \<times> cconf" where
  "SetIAMFieldCount v cf = (IAM_field_count cf, cf\<lparr>IAM_field_count := v\<rparr>)"

definition SetIAMCredentialsURL :: "string option \<Rightarrow> cconf \<Rightarrow> string \<times> cconf" where
  "SetIAMCredentialsURL v cf = (IAM_cred_url cf, cf\<lparr>IAM_cred_url := case v of Some a \<Rightarrow> a | None \<Rightarrow> []\<rparr>)"

definition SetIAMTokenField :: "string option \<Rightarrow> cconf \<Rightarrow> string \<times> cconf" where
  "SetIAMTokenField v cf = (IAM_token_field cf, cf\<lparr>IAM_token_field := case v of Some a \<Rightarrow> a | None \<Rightarrow> []\<rparr>)"

definition SetIAMExpiryField :: "string option \<Rightarrow> cconf \<Rightarrow> string \<times> cconf" where
  "SetIAMExpiryField v cf = (IAM_expiry_field cf, cf\<lparr>IAM_expiry_field := case v of Some a \<Rightarrow> a | None \<Rightarrow> []\<rparr>)"

definition SetMaxParallelCount :: "int \<Rightarrow> cconf \<Rightarrow> int \<times> cconf" where
  "SetMaxParallelCount v cf = (max_parallel_cnt cf, cf\<lparr>max_parallel_cnt := v\<rparr>)"

definition SetMaxMultiRequest :: "int \<Rightarrow> cconf \<Rightarrow> int \<times> cconf" where
  "SetMaxMultiRequest v cf = (max_multireq cf, cf\<lparr>max_multireq := v\<rparr>)"

text \<open>The size is given in MB and must be a part S3 takes, 5 MB at least.\<close>

definition c_MIN_MULTIPART_SIZE :: int where "c_MIN_MULTIPART_SIZE = 5 * 1024 * 1024"

definition SetMultipartSize :: "int \<Rightarrow> cconf \<Rightarrow> bool \<times> cconf" where
  "SetMultipartSize mb cf =
     (let bytes = mb * 1024 * 1024
      in if bytes < c_MIN_MULTIPART_SIZE then (False, cf) else (True, cf\<lparr>c_multipart_size := bytes\<rparr>))"

text \<open>An access key is \<open>NULL\<close>, empty or a key.\<close>

definition no_text :: "string option \<Rightarrow> bool" where
  "no_text s \<longleftrightarrow> (case s of None \<Rightarrow> True | Some t \<Rightarrow> c_str t = [])"

text \<open>
  With IBM authentication the key id is not tested: to assign \<open>NULL\<close> to a string is undefined
  (\<open>None\<close>).
\<close>

definition SetAccessKey :: "string option \<Rightarrow> string option \<Rightarrow> cconf \<Rightarrow> (bool \<times> cconf) option" where
  "SetAccessKey AccessKeyId SecretAccessKey cf =
     (if (\<not> is_ibm_iam_auth cf \<and> no_text AccessKeyId) \<or> no_text SecretAccessKey then Some (False, cf)
      else case AccessKeyId of None \<Rightarrow> None
       | Some k \<Rightarrow> Some (True, cf\<lparr>AWSAccessKeyId := c_str k, AWSSecretAccessKey := c_str (the SecretAccessKey)\<rparr>))"

definition SetAccessKeyWithSessionToken ::
  "string option \<Rightarrow> string option \<Rightarrow> string option \<Rightarrow> cconf \<Rightarrow> (bool \<times> cconf) option" where
  "SetAccessKeyWithSessionToken AccessKeyId SecretAccessKey SessionToken cf =
     (if (\<not> is_ibm_iam_auth cf \<and> no_text AccessKeyId) \<or> no_text SecretAccessKey \<or> no_text SessionToken
      then Some (False, cf)
      else case AccessKeyId of None \<Rightarrow> None
       | Some k \<Rightarrow> Some (True, cf\<lparr>AWSAccessKeyId := c_str k, AWSSecretAccessKey := c_str (the SecretAccessKey),
                        AWSAccessToken := c_str (the SessionToken), is_use_session_token := True\<rparr>))"

section \<open>Lines\<close>

text \<open>The pieces \<open>getline\<close> reads one after the other: a separator at the end starts no further piece.\<close>

function getlines :: "char \<Rightarrow> string \<Rightarrow> string list" where
  "getlines d [] = []"
| "getlines d (c # s) =
     takeWhile (\<lambda>x. x \<noteq> d) (c # s) # getlines d (drop 1 (dropWhile (\<lambda>x. x \<noteq> d) (c # s)))"
  by pat_completeness auto
termination by (relation "measure (\<lambda>(d, s). length s)") (auto intro: le_trans [OF diff_le_self] simp: length_dropWhile_le less_Suc_eq_le)

definition LF :: char where "LF = CHR 0x0A"

section \<open>Server side encryption\<close>

text \<open>
  \<open>PushbackSseKeys\<close>: the line, trimmed (it is a reference), a key of up to 32 characters is raw, a longer
  one base64. \<open>md5\<close> is the digest of the raw key in base64, if it could be made.
\<close>

definition PushbackSseKeys :: "(bytes \<Rightarrow> string option) \<Rightarrow> string \<Rightarrow> cconf \<Rightarrow> bool \<times> cconf" where
  "PushbackSseKeys md5 onekey cf =
     (let onekey = trim onekey SPACES in
      if onekey = [] \<or> hd onekey = CHR ''#'' then (False, cf)
      else
        (let keys = (if length onekey > 32
               then map_option (\<lambda>raw. (raw, onekey)) (s3fs_decode64 (Some (c_str onekey)))
               else map_option (\<lambda>b64. (map byte_of onekey, b64)) (s3fs_base64 (Some (map byte_of onekey))))
         in case keys of None \<Rightarrow> (False, cf)
          | Some (raw_key, base64_key) \<Rightarrow>
              (if raw_key = [] \<or> hd raw_key = 0 then (False, cf)
               else case md5 raw_key of None \<Rightarrow> (False, cf)
                | Some m \<Rightarrow> (True, cf\<lparr>sseckeys := sseckeys cf @ [(m, base64_key)]\<rparr>))))"

definition push_keys :: "(bytes \<Rightarrow> string option) \<Rightarrow> string list \<Rightarrow> cconf \<Rightarrow> cconf" where
  "push_keys md5 ls cf = fold (\<lambda>l cf. snd (PushbackSseKeys md5 l cf)) ls cf"

text \<open>The mode of the key file and its text, \<open>None\<close> when it cannot be opened.\<close>

definition SetSseCKeys ::
  "(bytes \<Rightarrow> string option) \<Rightarrow> (string \<Rightarrow> (32 word \<times> string option) option) \<Rightarrow> string option \<Rightarrow> cconf \<Rightarrow> bool \<times> cconf"
where
  "SetSseCKeys md5 file filepath cf =
     (case filepath of None \<Rightarrow> (False, cf)
      | Some p \<Rightarrow>
          (case file p of None \<Rightarrow> (False, cf)
           | Some (st_mode, contents) \<Rightarrow>
               (if st_mode AND 0x7F \<noteq> 0 then (False, cf)
                else
                  (let cf1 = cf\<lparr>sseckeys := []\<rparr>
                   in case contents of None \<Rightarrow> (False, cf1)
                    | Some t \<Rightarrow> (let cf2 = push_keys md5 (getlines LF t) cf1 in (sseckeys cf2 \<noteq> [], cf2))))))"

definition SetSseKmsid :: "string option \<Rightarrow> cconf \<Rightarrow> bool \<times> cconf" where
  "SetSseKmsid kmsid cf = (if no_text kmsid then (False, cf) else (True, cf\<lparr>ssekmsid := c_str (the kmsid)\<rparr>))"

definition FinalCheckSse :: "cconf \<Rightarrow> bool \<times> cconf" where
  "FinalCheckSse cf = (case ssetype cf of
     SSE_DISABLE \<Rightarrow> (True, cf\<lparr>ssekmsid := []\<rparr>)
   | SSE_S3 \<Rightarrow> (True, cf\<lparr>ssekmsid := []\<rparr>)
   | SSE_C \<Rightarrow> if sseckeys cf = [] then (False, cf) else (True, cf\<lparr>ssekmsid := []\<rparr>)
   | SSE_KMS \<Rightarrow> (ssekmsid cf \<noteq> [] \<and> is_sigv4 cf, cf))"

definition LoadEnvSseCKeys :: "(bytes \<Rightarrow> string option) \<Rightarrow> string option \<Rightarrow> cconf \<Rightarrow> bool \<times> cconf" where
  "LoadEnvSseCKeys md5 envkeys cf =
     (case envkeys of None \<Rightarrow> (True, cf)
      | Some t \<Rightarrow> (let cf1 = push_keys md5 (getlines CHR '':'' t) (cf\<lparr>sseckeys := []\<rparr>) in (sseckeys cf1 \<noteq> [], cf1)))"

definition LoadEnvSseKmsid :: "string option \<Rightarrow> cconf \<Rightarrow> bool \<times> cconf" where
  "LoadEnvSseKmsid envkmsid cf = (case envkmsid of None \<Rightarrow> (True, cf) | Some t \<Rightarrow> SetSseKmsid (Some t) cf)"

text \<open>The digest, \<open>[]\<close> for the first key, and the key it names.\<close>

definition GetSseKey :: "cconf \<Rightarrow> string \<Rightarrow> (string \<times> string) option" where
  "GetSseKey cf md5 = find (\<lambda>k. md5 = [] \<or> md5 = fst k) (sseckeys cf)"

definition GetSseKeyMd5 :: "cconf \<Rightarrow> int \<Rightarrow> string option" where
  "GetSseKeyMd5 cf pos =
     (if pos < 0 \<or> int (length (sseckeys cf)) \<le> pos then None else Some (fst (sseckeys cf ! nat pos)))"

section \<open>Credentials from a metadata service\<close>

text \<open>The field a line is about, and where its value is looked for.\<close>

definition iam_field :: "cconf \<Rightarrow> string \<Rightarrow> (string \<times> nat) option" where
  "iam_field cf oneline =
     (case List.find (\<lambda>k. find_sub k oneline \<noteq> None)
             [''AccessKeyId'', ''SecretAccessKey'', IAM_token_field cf, IAM_expiry_field cf, ''RoleArn''] of
        None \<Rightarrow> None
      | Some key \<Rightarrow>
          map_option (\<lambda>d. (key, the (find_sub key oneline) + length key + d))
            (find_idx ((=) CHR '':'') (drop (the (find_sub key oneline) + length key) oneline)))"

definition quoted_value :: "string \<Rightarrow> string option" where
  "quoted_value s =
     (case find_idx ((=) CHR 0x22) s of None \<Rightarrow> None
      | Some p \<Rightarrow> map_option (\<lambda>n. take n (drop (p + 1) s)) (find_idx ((=) CHR 0x22) (drop (p + 1) s)))"

definition number_value :: "string \<Rightarrow> string option" where
  "number_value s =
     (case find_idx is_digit s of None \<Rightarrow> None
      | Some p \<Rightarrow> map_option (\<lambda>n. take (n + 1) (drop p s)) (find_last_idx is_digit (drop p s)))"

definition iam_line :: "cconf \<Rightarrow> string \<Rightarrow> string smap \<Rightarrow> string smap" where
  "iam_line cf oneline keyval =
     (case iam_field cf oneline of None \<Rightarrow> keyval
      | Some (key, pos) \<Rightarrow>
          (case (if is_ibm_iam_auth cf \<and> key = IAM_expiry_field cf then number_value (drop pos oneline)
                 else quoted_value (drop pos oneline)) of
             None \<Rightarrow> keyval | Some val \<Rightarrow> sm_set key val keyval))"

definition ParseIAMCredentialResponse :: "cconf \<Rightarrow> string option \<Rightarrow> string smap option" where
  "ParseIAMCredentialResponse cf response =
     map_option (\<lambda>r. fold (iam_line cf) (getlines CHR '','' r) []) response"

text \<open>A field that is missing reads as an empty string. \<open>expire\<close> is \<open>cvtIAMExpireStringToTime\<close>.\<close>

definition kv :: "string \<Rightarrow> string smap \<Rightarrow> string" where
  "kv k m = (case sm_find k m of Some v \<Rightarrow> v | None \<Rightarrow> [])"

definition strtol10 :: "string \<Rightarrow> int" where
  "strtol10 s = (case strtoll 10 (c_str s) of Some (n, _) \<Rightarrow> max LLONG_MIN (min LLONG_MAX n) | None \<Rightarrow> 0)"

definition SetIAMCredentials :: "(string \<Rightarrow> int) \<Rightarrow> string option \<Rightarrow> cconf \<Rightarrow> bool \<times> cconf" where
  "SetIAMCredentials expire response cf =
     (case ParseIAMCredentialResponse cf response of None \<Rightarrow> (False, cf)
      | Some keyval \<Rightarrow>
          (if IAM_field_count cf \<noteq> length keyval then (False, cf)
           else
             (let cf1 = cf\<lparr>AWSAccessToken := kv (IAM_token_field cf) keyval\<rparr>
              in if is_ibm_iam_auth cf
                 then (True, cf1\<lparr>AWSAccessTokenExpire := strtol10 (kv (IAM_expiry_field cf) keyval)\<rparr>)
                 else (True, cf1\<lparr>AWSAccessKeyId := kv ''AccessKeyId'' keyval,
                   AWSSecretAccessKey := kv ''SecretAccessKey'' keyval,
                   AWSAccessTokenExpire := expire (kv (IAM_expiry_field cf) keyval)\<rparr>))))"

definition ParseIAMRoleFromMetaDataResponse :: "string option \<Rightarrow> string option" where
  "ParseIAMRoleFromMetaDataResponse response =
     (case response of None \<Rightarrow> None
      | Some r \<Rightarrow> (case getlines LF r of [] \<Rightarrow> None | l # _ \<Rightarrow> if l = [] then None else Some l))"

definition SetIAMRoleFromMetaData :: "string option \<Rightarrow> cconf \<Rightarrow> bool \<times> cconf" where
  "SetIAMRoleFromMetaData response cf =
     (case ParseIAMRoleFromMetaDataResponse response of None \<Rightarrow> (False, cf)
      | Some rolename \<Rightarrow> (True, snd (SetIAMRole (Some rolename) cf)))"

section \<open>Keys that can be used\<close>

text \<open>A key of the list is base64 of a key whose digest is the one it is stored under.\<close>

definition sse_key_ok :: "(bytes \<Rightarrow> string option) \<Rightarrow> string \<times> string \<Rightarrow> bool" where
  "sse_key_ok md5 e \<longleftrightarrow>
     (case s3fs_decode64 (Some (c_str (snd e))) of None \<Rightarrow> False | Some raw \<Rightarrow> md5 raw = Some (fst e))"

definition sse_keys_ok :: "(bytes \<Rightarrow> string option) \<Rightarrow> cconf \<Rightarrow> bool" where
  "sse_keys_ok md5 cf \<longleftrightarrow> (\<forall>e \<in> set (sseckeys cf). sse_key_ok md5 e)"

lemma base64_table_printable: "CHR 0x00 \<notin> set base64_table"
  by code_simp

lemma c_str_base64 [simp]: "c_str (base64_loop bs) = base64_loop bs"
proof -
  have "\<forall>c \<in> set (base64_loop bs). c \<noteq> CHR 0x00" using base64_loop_chars [of bs] base64_table_printable by auto
  then show ?thesis by (simp add: c_str_def)
qed

lemma base64_nonempty: "bs \<noteq> [] \<Longrightarrow> base64_loop bs \<noteq> []"
  by (cases bs rule: base64_loop.cases) (simp_all add: base64_parts_def)

lemma base64_key_ok: "bs \<noteq> [] \<Longrightarrow> md5 bs = Some m \<Longrightarrow> sse_key_ok md5 (m, base64_loop bs)"
  by (simp add: sse_key_ok_def s3fs_decode64_def decode64_base64_loop base64_nonempty)

lemma PushbackSseKeys_ok:
  assumes "sse_keys_ok md5 cf"
  shows "sse_keys_ok md5 (snd (PushbackSseKeys md5 l cf))"
proof -
  have short: "sse_key_ok md5 (m, b)" if "s3fs_base64 (Some (map byte_of k)) = Some b" "md5 (map byte_of k) = Some m"
    for k b m using that by (auto simp: s3fs_base64_def intro!: base64_key_ok split: if_splits)
  show ?thesis using assms
    by (auto simp: PushbackSseKeys_def Let_def sse_keys_ok_def short split: option.splits if_splits)
       (auto simp: sse_key_ok_def)
qed

lemma push_keys_ok: "sse_keys_ok md5 cf \<Longrightarrow> sse_keys_ok md5 (push_keys md5 ls cf)"
  unfolding push_keys_def by (induction ls arbitrary: cf) (simp_all add: PushbackSseKeys_ok)

lemma no_keys_ok: "sse_keys_ok md5 (cf\<lparr>sseckeys := []\<rparr>)"
  by (simp add: sse_keys_ok_def)

text \<open>
  C34: Keys for customer encryption, from a file or the environment, are stored in base64 under the digest
  of the raw key, so that a request sends a key and a digest that fit.
\<close>

theorem sse_keys_match_digest:
  assumes "sse_keys_ok md5 cf"
  shows "sse_keys_ok md5 (snd (SetSseCKeys md5 file filepath cf)) \<and> sse_keys_ok md5 (snd (LoadEnvSseCKeys md5 env cf))"
  using assms push_keys_ok [OF no_keys_ok, of md5]
  by (auto simp: SetSseCKeys_def LoadEnvSseCKeys_def Let_def no_keys_ok split: option.splits)

text \<open>A digest for concrete runs: the length of its input.\<close>

definition length_md5 :: "bytes \<Rightarrow> string option" where "length_md5 bs = Some (str (int (length bs)))"

theorem sse_keys_match_digest_witness:
  "sse_keys_ok length_md5 (snd (LoadEnvSseCKeys length_md5 (Some ''secret:#x: other'') initial_conf))
   \<and> sseckeys (snd (LoadEnvSseCKeys length_md5 (Some ''secret:#x: other'') initial_conf))
       = [(''6'', ''c2VjcmV0''), (''5'', ''b3RoZXI='')]"
proof -
  have "sse_keys_ok length_md5 initial_conf" by (simp add: sse_keys_ok_def initial_conf_def)
  moreover have "sseckeys (snd (LoadEnvSseCKeys length_md5 (Some ''secret:#x: other'') initial_conf))
       = [(''6'', ''c2VjcmV0''), (''5'', ''b3RoZXI='')]" by code_simp
  ultimately show ?thesis using sse_keys_match_digest [of length_md5 initial_conf] by blast
qed

text \<open>A base64 key whose raw key starts with a zero byte is refused, whatever its digest.\<close>

theorem sse_key_starting_with_zero_refused:
  assumes "trim k SPACES = k" "32 < length k" "s3fs_decode64 (Some (c_str k)) = Some (0 # bs)"
  shows "PushbackSseKeys md5 k cf = (False, cf)"
  using assms by (auto simp: PushbackSseKeys_def)

text \<open>A key of 32 bytes, as S3 wants it.\<close>

theorem sse_key_starting_with_zero_refused_witness:
  "length (0 # replicate 31 (65 :: 8 word)) = 32
   \<and> PushbackSseKeys length_md5 (base64_loop (0 # replicate 31 65)) initial_conf = (False, initial_conf)"
proof -
  let ?k = "base64_loop (0 # replicate 31 65)"
  have k: "trim ?k SPACES = ?k" by code_simp
  have l: "length ?k = 44" by (simp add: base64_loop_length)
  then have "s3fs_decode64 (Some (c_str ?k)) = Some (0 # replicate 31 65)"
    by (auto simp: s3fs_decode64_def decode64_base64_loop simp del: base64_loop.simps)
  from sse_key_starting_with_zero_refused [OF k _ this] l show ?thesis by simp
qed

section \<open>A consistent choice of encryption\<close>

text \<open>Settings that pass the last check name a KMS key exactly for KMS, which is signed with version 4, and have a current
  key, found under its own digest, for customer keys.\<close>

theorem FinalCheckSse_consistent:
  assumes "FinalCheckSse cf = (True, cf')"
  shows "(ssekmsid cf' \<noteq> [] \<longleftrightarrow> ssetype cf' = SSE_KMS) \<and> (ssetype cf' = SSE_KMS \<longrightarrow> is_sigv4 cf')
    \<and> (ssetype cf' = SSE_C \<longrightarrow> (\<exists>m k. GetSseKey cf' [] = Some (m, k) \<and> GetSseKeyMd5 cf' 0 = Some m))
    \<and> ssetype cf' = ssetype cf \<and> sseckeys cf' = sseckeys cf"
  using assms
  by (cases "ssetype cf"; cases "sseckeys cf")
    (auto simp: FinalCheckSse_def GetSseKey_def GetSseKeyMd5_def split: if_splits)

theorem FinalCheckSse_consistent_witness:
  "GetSseKey (initial_conf\<lparr>ssetype := SSE_C, sseckeys := [(''m'', ''k'')]\<rparr>) [] = Some (''m'', ''k'')
   \<and> ssekmsid (snd (FinalCheckSse (initial_conf\<lparr>ssetype := SSE_C, sseckeys := [(''m'', ''k'')], ssekmsid := ''id''\<rparr>))) = []"
proof -
  let ?cf = "initial_conf\<lparr>ssetype := SSE_C, sseckeys := [(''m'', ''k'')], ssekmsid := ''id''\<rparr>"
  have "FinalCheckSse ?cf = (True, ?cf\<lparr>ssekmsid := []\<rparr>)" by (simp add: FinalCheckSse_def)
  from FinalCheckSse_consistent [OF this] this show ?thesis by (simp add: GetSseKey_def)
qed

end
