(* ===== verification/Addhead.thy ===== *)
theory Addhead
  imports Curl_Config
begin

text \<open>
  Additional headers for objects by the end of their name or a regular expression,
  \<open>protocols/s3/addhead.cpp\<close>: \<open>Load\<close> reads the table, \<open>AddHeader\<close> puts the headers of a name
  on a request. A compiled regular expression (\<open>regcomp\<close>, \<open>regexec\<close>) is the predicate of the names it
  matches; \<open>rx\<close> is the compiler.
\<close>

record addhead =
  pregex :: "(string \<Rightarrow> bool) option"
  basestring :: string
  headkey :: string
  headvalue :: string

record additional =
  is_enable :: bool
  addheadlist :: "addhead list"

definition no_additional :: additional where
  "no_additional = \<lparr>is_enable = False, addheadlist = []\<rparr>"

definition ah_Unload :: "additional \<Rightarrow> additional" where
  "ah_Unload ah = \<lparr>is_enable = False, addheadlist = []\<rparr>"

section \<open>Reading the table\<close>

text \<open>\<open>>>\<close> on a stream: the next word and what is left, \<open>None\<close> when there is none.\<close>

definition read_word :: "string \<Rightarrow> (string \<times> string) option" where
  "read_word s =
     (let t = dropWhile is_space s
      in if t = [] then None else Some (takeWhile (\<lambda>c. \<not> is_space c) t, dropWhile (\<lambda>c. \<not> is_space c) t))"

text \<open>
  The name end, the header and its value: the name end is missing when the line starts with a blank, the value
  when the line ends with the header; one character after the header is skipped.
\<close>

definition is_blank :: "char \<Rightarrow> bool" where
  "is_blank c \<longleftrightarrow> c = CHR '' '' \<or> c = CHR 0x09"

definition read_head :: "string \<Rightarrow> string \<times> string" where
  "read_head s = (case read_word s of None \<Rightarrow> ([], []) | Some (h, rest) \<Rightarrow> (h, drop 1 rest))"

definition split_line :: "string \<Rightarrow> string \<times> string \<times> string" where
  "split_line line =
     (if is_blank (hd line) then ([], read_head line)
      else case read_word line of None \<Rightarrow> ([], [], []) | Some (k, rest) \<Rightarrow> (k, read_head rest))"

text \<open>An entry of the table, or none for a bad regular expression.\<close>

definition make_addhead ::
  "(string \<Rightarrow> (string \<Rightarrow> bool) option) \<Rightarrow> string \<Rightarrow> string \<Rightarrow> string \<Rightarrow> addhead option" where
  "make_addhead rx key head v =
     (if map tolower (take 4 key) = ''reg:'' then
        (if length key \<le> 4 then None
         else case rx (drop 4 key) of None \<Rightarrow> None
          | Some m \<Rightarrow> Some \<lparr>pregex = Some m, basestring = drop 4 key, headkey = head, headvalue = v\<rparr>)
      else Some \<lparr>pregex = None, basestring = key, headkey = head, headvalue = v\<rparr>)"

fun ah_load_lines ::
  "(string \<Rightarrow> (string \<Rightarrow> bool) option) \<Rightarrow> string list \<Rightarrow> additional \<Rightarrow> bool \<times> additional" where
  "ah_load_lines rx [] ah = (True, ah)"
| "ah_load_lines rx (line # ls) ah =
     (if line = [] \<or> hd line = CHR ''#'' then ah_load_lines rx ls ah
      else case split_line line of
        (key, head, v) \<Rightarrow>
          if head = [] then (if key = [] then ah_load_lines rx ls ah else (False, ah_Unload ah))
          else case make_addhead rx key head v of
            None \<Rightarrow> ah_load_lines rx ls ah
          | Some e \<Rightarrow> ah_load_lines rx ls (ah\<lparr>addheadlist := addheadlist ah @ [e], is_enable := True\<rparr>))"

text \<open>\<open>file\<close> gives the contents of a file that can be read.\<close>

definition ah_Load ::
  "(string \<Rightarrow> (string \<Rightarrow> bool) option) \<Rightarrow> (string \<Rightarrow> string option) \<Rightarrow> string option \<Rightarrow> additional \<Rightarrow> bool \<times> additional"
where
  "ah_Load rx file name ah =
     (case name of None \<Rightarrow> (False, ah)
      | Some n \<Rightarrow>
          (case file n of None \<Rightarrow> (False, ah_Unload ah)
           | Some t \<Rightarrow> ah_load_lines rx (getlines LF t) (ah_Unload ah)))"

section \<open>Adding headers\<close>

text \<open>An entry without regular expression matches longer names with its end.\<close>

definition ah_matches :: "string \<Rightarrow> addhead \<Rightarrow> bool" where
  "ah_matches path e =
     (case pregex e of Some m \<Rightarrow> m path
      | None \<Rightarrow>
          length (basestring e) < length path
          \<and> (basestring e = [] \<or> drop (length path - length (basestring e)) path = c_str (basestring e)))"

definition add_meta :: "additional \<Rightarrow> headers \<Rightarrow> string option \<Rightarrow> bool \<times> headers" where
  "add_meta ah meta path =
     (if \<not> is_enable ah then (True, meta)
      else case path of None \<Rightarrow> (False, meta)
       | Some p \<Rightarrow> (True, fold (\<lambda>e m. if ah_matches p e then hd_set (headkey e) (headvalue e) m else m)
                            (addheadlist ah) meta))"

definition AddHeader :: "additional \<Rightarrow> string list \<Rightarrow> string option \<Rightarrow> string list" where
  "AddHeader ah list path =
     (case add_meta ah [] path of
        (False, _) \<Rightarrow> list
      | (True, meta) \<Rightarrow> fold (\<lambda>(k, v) l. put_header k v l) meta list)"

section \<open>The header a name gets\<close>

text \<open>The value of the last entry for a header that matches the name.\<close>

definition last_match :: "additional \<Rightarrow> string \<Rightarrow> string \<Rightarrow> string option" where
  "last_match ah path k =
     (case filter (\<lambda>e. ah_matches path e \<and> nocase_eq (headkey e) k) (addheadlist ah) of
        [] \<Rightarrow> None | es \<Rightarrow> Some (headvalue (last es)))"

abbreviation put_matching :: "string \<Rightarrow> addhead list \<Rightarrow> headers \<Rightarrow> headers" where
  "put_matching p es m \<equiv> fold (\<lambda>e m. if ah_matches p e then hd_set (headkey e) (headvalue e) m else m) es m"

lemma fold_meta:
  assumes "om_sorted strcasecmp_less m"
  shows "om_sorted strcasecmp_less (put_matching p es m)
    \<and> hd_find k (put_matching p es m) = (case filter (\<lambda>e. ah_matches p e \<and> nocase_eq (headkey e) k) es of
         [] \<Rightarrow> hd_find k m | xs \<Rightarrow> Some (headvalue (last xs)))"
  using assms
proof (induction es arbitrary: m)
  case (Cons e es)
  let ?m = "if ah_matches p e then hd_set (headkey e) (headvalue e) m else m"
  have s: "om_sorted strcasecmp_less ?m" using Cons.prems hmap.sorted_set by auto
  have "hd_find k (hd_set (headkey e) v m) = (if nocase_eq (headkey e) k then Some v else hd_find k m)" for v
    by (simp add: hmap.find_set_lemma [OF Cons.prems])
  then show ?case using Cons.IH [OF s] by (auto split: list.splits)
qed simp

lemma fold_meta_keys:
  "(a, v) \<in> set (put_matching p es m) \<Longrightarrow>
   a \<in> fst ` set m \<union> headkey ` set es"
proof (induction es arbitrary: m)
  case (Cons e es)
  show ?case using Cons.IH [OF Cons.prems [unfolded fold.simps comp_apply]] om_set_fst [of strcasecmp_less "headkey e" "headvalue e" m]
    by (auto split: if_splits)
qed force

lemma fold_put:
  assumes "slist_ok l" "om_sorted strcasecmp_less m" "\<forall>(a, v) \<in> set m. key_ok a"
  shows "slist_ok (fold (\<lambda>(k, v) l. put_header k v l) m l)
    \<and> get_header_value (fold (\<lambda>(k, v) l. put_header k v l) m l) k =
    (case hd_find k m of Some v \<Rightarrow> trim (c_str v) SPACES | None \<Rightarrow> get_header_value l k)"
  using assms
proof (induction m arbitrary: l)
  case (Cons x m)
  obtain a v where x: "x = (a, v)" by (cases x)
  have a: "key_ok a" using Cons.prems x by simp
  note u = put_header_get [OF Cons.prems(1) a, of v]
  have less: "\<forall>y \<in> set m. strcasecmp_less a (fst y)" and s: "om_sorted strcasecmp_less m"
    using Cons.prems(2) x by (auto simp: om_sorted_Cons)
  have n: "nocase_eq a k \<Longrightarrow> hd_find k m = None"
    by (rule hmap.find_sorted_head) (use less nocase_less(1) in blast)
  have "hd_find k (x # m) = (if nocase_eq a k then Some v else hd_find k m)"
    using n hmap.find_sorted_head [of m k] less hmap.trans nocase_total [of a k] by (auto simp: x nocase_eq_def strcasecmp_less_def)
  with Cons.IH [OF u(1) s] Cons.prems(3) u n show ?case by (auto simp: x split: option.splits)
qed simp

text \<open>
  C35: Additional headers: a header of the table gets the value of its last entry that matches the name of
  the object, every other header of the request keeps its value, and the list stays fit to be signed.
\<close>

theorem AddHeader_last_match_wins:
  assumes "slist_ok l" "is_enable ah" "\<forall>e \<in> set (addheadlist ah). key_ok (headkey e)"
  shows "slist_ok (AddHeader ah l (Some p)) \<and>
    get_header_value (AddHeader ah l (Some p)) k =
      (case last_match ah p k of Some v \<Rightarrow> trim (c_str v) SPACES | None \<Rightarrow> get_header_value l k)"
proof -
  let ?m = "fold (\<lambda>e m. if ah_matches p e then hd_set (headkey e) (headvalue e) m else m) (addheadlist ah) []"
  have m: "om_sorted strcasecmp_less ?m \<and> hd_find k ?m = last_match ah p k"
    using fold_meta [of "[]" p "addheadlist ah" k] by (simp add: last_match_def split: list.splits)
  have "\<forall>(a, v) \<in> set ?m. key_ok a" using fold_meta_keys [of _ _ p "addheadlist ah" "[]"] assms(3) by fastforce
  from fold_put [OF assms(1) conjunct1 [OF m] this, of k] m show ?thesis
    by (simp add: AddHeader_def add_meta_def assms(2))
qed

text \<open>A table with the same header twice for compressed tar files.\<close>

definition gz_table :: additional where
  "gz_table = \<lparr>is_enable = True,
     addheadlist = [\<lparr>pregex = None, basestring = ''.gz'', headkey = ''Content-Encoding'', headvalue = ''gzip''\<rparr>,
       \<lparr>pregex = None, basestring = ''.tar.gz'', headkey = ''Content-Encoding'', headvalue = ''x-tar''\<rparr>]\<rparr>"

theorem AddHeader_last_match_wins_witness:
  "get_header_value (AddHeader gz_table [] (Some ''a.tar.gz'')) ''content-encoding'' = ''x-tar''
   \<and> get_header_value (AddHeader gz_table [] (Some ''a.gz'')) ''content-encoding'' = ''gzip''"
proof -
  have ok: "slist_ok []" "is_enable gz_table" "\<forall>e \<in> set (addheadlist gz_table). key_ok (headkey e)" by code_simp+
  have "last_match gz_table ''a.tar.gz'' ''content-encoding'' = Some ''x-tar''"
    "last_match gz_table ''a.gz'' ''content-encoding'' = Some ''gzip''"
    "trim (c_str ''x-tar'') SPACES = ''x-tar''" "trim (c_str ''gzip'') SPACES = ''gzip''"
    by code_simp+
  with AddHeader_last_match_wins [OF ok] show ?thesis by simp
qed

section \<open>Writing and reading the table\<close>

definition word_ok :: "string \<Rightarrow> bool" where
  "word_ok s \<longleftrightarrow> s \<noteq> [] \<and> (\<forall>c \<in> set s. \<not> is_space c)"

definition entry_line :: "string \<times> string \<times> string \<Rightarrow> string" where
  "entry_line e = (case e of (k, h, v) \<Rightarrow> k @ '' '' @ h @ '' '' @ v @ [LF])"

definition entry_ok :: "string \<times> string \<times> string \<Rightarrow> bool" where
  "entry_ok e = (case e of (k, h, v) \<Rightarrow> (k = [] \<or> word_ok k \<and> hd k \<noteq> CHR ''#'' \<and> map tolower (take 4 k) \<noteq> ''reg:'')
     \<and> word_ok h \<and> LF \<notin> set v)"

lemma read_word_word: "word_ok w \<Longrightarrow> read_word (w @ CHR '' '' # s) = Some (w, CHR '' '' # s)"
  by (cases w) (auto simp: read_word_def word_ok_def is_space_def)

lemma read_word_skip: "read_word (CHR '' '' # s) = read_word s"
  by (simp add: read_word_def is_space_def)

lemma split_entry:
  assumes "entry_ok (k, h, v)"
  shows "split_line (k @ '' '' @ h @ '' '' @ v) = (k, h, v)"
proof (cases "k = []")
  case True
  with assms show ?thesis
    by (simp add: split_line_def is_blank_def read_head_def read_word_skip read_word_word entry_ok_def)
next
  case False
  then have k: "word_ok k" "word_ok h" using assms by (simp_all add: entry_ok_def)
  then have "\<not> is_blank (hd k)" using hd_in_set [OF False] by (auto simp: word_ok_def is_blank_def is_space_def)
  with k False show ?thesis
    by (simp add: split_line_def read_head_def read_word_skip read_word_word)
qed

lemma getlines_nonempty:
  "s \<noteq> [] \<Longrightarrow> getlines d s = takeWhile (\<lambda>x. x \<noteq> d) s # getlines d (drop 1 (dropWhile (\<lambda>x. x \<noteq> d) s))"
  by (cases s) (simp_all only: getlines.simps simp_thms)

lemma getlines_line:
  "LF \<notin> set l \<Longrightarrow> getlines LF (l @ LF # s) = l # getlines LF s"
proof -
  assume a: "LF \<notin> set l"
  have "takeWhile (\<lambda>x. x \<noteq> LF) (l @ LF # s) = l" "dropWhile (\<lambda>x. x \<noteq> LF) (l @ LF # s) = LF # s"
    using a by (induction l) auto
  then show ?thesis using getlines_nonempty [of "l @ LF # s" LF] by simp
qed

lemma word_ok_LF: "word_ok w \<Longrightarrow> LF \<notin> set w"
  by (auto simp: word_ok_def is_space_def LF_def)

lemma LF_space: "LF \<noteq> CHR '' ''"
  by (simp add: LF_def)

lemma load_entries:
  "\<forall>e \<in> set es. entry_ok e \<Longrightarrow>
   ah_load_lines rx (getlines LF (concat (map entry_line es))) ah =
     (True, ah\<lparr>addheadlist := addheadlist ah @
        map (\<lambda>(k, h, v). \<lparr>pregex = None, basestring = k, headkey = h, headvalue = v\<rparr>) es,
        is_enable := is_enable ah \<or> es \<noteq> []\<rparr>)"
proof (induction es arbitrary: ah)
  case (Cons e es)
  obtain k h v where e: "e = (k, h, v)" by (cases e)
  have ok: "entry_ok (k, h, v)" using Cons.prems e by simp
  then have nl: "LF \<notin> set (k @ '' '' @ h @ '' '' @ v)" by (auto simp: entry_ok_def LF_space dest: word_ok_LF)
  have hd: "hd (k @ '' '' @ h @ '' '' @ v) \<noteq> CHR ''#''" using ok by (cases k) (auto simp: entry_ok_def)
  have m: "make_addhead rx k h v = Some \<lparr>pregex = None, basestring = k, headkey = h, headvalue = v\<rparr>" "h \<noteq> []"
    using ok by (auto simp: entry_ok_def make_addhead_def word_ok_def)
  have "concat (map entry_line (e # es)) = (k @ '' '' @ h @ '' '' @ v) @ LF # concat (map entry_line es)"
    by (simp add: e entry_line_def)
  then have l: "getlines LF (concat (map entry_line (e # es))) = (k @ '' '' @ h @ '' '' @ v) # getlines LF (concat (map entry_line es))"
    using getlines_line [OF nl] by simp
  show ?case using Cons.IH Cons.prems hd m split_entry [OF ok] unfolding l by (simp add: e)
qed simp

text \<open>A table written line by line is read back entry by entry.\<close>

theorem additional_headers_round_trip:
  assumes "\<forall>e \<in> set es. entry_ok e" "file n = Some (concat (map entry_line es))"
  shows "ah_Load rx file (Some n) ah = (True, \<lparr>is_enable = (es \<noteq> []),
     addheadlist = map (\<lambda>(k, h, v). \<lparr>pregex = None, basestring = k, headkey = h, headvalue = v\<rparr>) es\<rparr>)"
  using load_entries [OF assms(1), of rx "ah_Unload ah"] assms(2) by (simp add: ah_Load_def ah_Unload_def)

theorem additional_headers_round_trip_witness:
  "ah_Load (\<lambda>_. None) (\<lambda>_. Some (entry_line (''.gz'', ''Content-Encoding'', ''gzip''))) (Some ''f'') no_additional
    = (True, \<lparr>is_enable = True, addheadlist = [\<lparr>pregex = None, basestring = ''.gz'', headkey = ''Content-Encoding'', headvalue = ''gzip''\<rparr>]\<rparr>)"
proof -
  have "\<forall>e \<in> set [(''.gz'', ''Content-Encoding'', ''gzip'')]. entry_ok e" by code_simp
  from additional_headers_round_trip [OF this, of "\<lambda>_. Some (entry_line (''.gz'', ''Content-Encoding'', ''gzip''))" "''f''"]
  show ?thesis by simp
qed

end
