(* ===== verification/Curl_Request.thy ===== *)
theory Curl_Request
  imports Curl_Sign Curl_Handle Curl_Config Curl_Transfer Object_Meta "HOL-Library.Monad_Syntax"
begin

text \<open>
  The requests of the S3 client, \<open>protocols/s3/curl.cpp\<close>: each takes a handle, sets the address, the
  headers, their signature and the options of the handle, and performs the transfer. The result of a
  request is its return value, the request object and the state after it; \<open>None\<close> stands for the runs the
  language leaves undefined or that end in an exception (the address of a bucket that is not in it, a
  secret longer than the buffer of \<open>kSecret\<close>, a missing environment variable).
\<close>

section \<open>The environment of a request\<close>

record 'w renv =
  lc :: "'w cenv"
  sign :: "'w \<Rightarrow> signenv"
  ctime :: "'w \<Rightarrow> int"
  ecs_uri :: "'w \<Rightarrow> string option"
  expire_time :: "string \<Rightarrow> int"
  ahbe :: "string list \<Rightarrow> string \<Rightarrow> string list"
  mime_types :: mimes
  sse_of :: "string \<Rightarrow> 'w \<Rightarrow> sse_type_t \<times> string"
  dup_file :: "int \<Rightarrow> 'w \<Rightarrow> (int + int \<times> int) \<times> 'w"
  close_file :: "int \<Rightarrow> 'w \<Rightarrow> 'w"
  content_md5 :: "int \<Rightarrow> 'w \<Rightarrow> string"
  part_md5 :: "int \<Rightarrow> int \<Rightarrow> int \<Rightarrow> 'w \<Rightarrow> bytes option"
  xml_value :: "string \<Rightarrow> string \<Rightarrow> string option"

type_synonym 'w result = "(int \<times> s3curl \<times> 'w cst) option"

definition perform_request :: "'w renv \<Rightarrow> s3curl \<Rightarrow> 'w cst \<Rightarrow> 'w result" where
  "perform_request en c s = Some (RequestPerform (lc en) c s)"

text \<open>The body of the response as a C string.\<close>

definition body_text :: "s3curl \<Rightarrow> string" where
  "body_text c = c_str (case bodydata c of Some b \<Rightarrow> b | None \<Rightarrow> [])"

text \<open>Address and path of an object, a query added; the headers of the last request are dropped.\<close>

definition address :: "cconf \<Rightarrow> string \<Rightarrow> string \<Rightarrow> s3curl \<Rightarrow> s3curl option" where
  "address cf tpath query c = do {
     (resource, turl) \<leftarrow> MakeUrlResource cf (Some (get_realpath cf tpath));
     u \<leftarrow> prepare_url cf (c_str (turl @ query));
     Some (c\<lparr>url := u, c_path := get_realpath cf tpath, requestHeaders := [], responseHeaders := []\<rparr>)
   }"

section \<open>Credentials\<close>

text \<open>
  \<open>GetIAMCredentials\<close> runs on a request object of its own. Without the environment variable the address
  is made from a null pointer.
\<close>

definition iam_post :: "cconf \<Rightarrow> string" where
  "iam_post cf = ''grant_type=urn:ibm:params:oauth:grant-type:apikey&response_type=cloud_iam&apikey=''
     @ AWSSecretAccessKey cf"

definition iam_url :: "'w renv \<Rightarrow> 'w cst \<Rightarrow> string option" where
  "iam_url en s =
     (if is_ecs (conf s) \<and> ecs_uri en (cw s) = None then None
      else Some (if is_ibm_iam_auth (conf s) then IAM_cred_url (conf s)
                 else if is_ecs (conf s) then IAM_cred_url (conf s) @ the (ecs_uri en (cw s))
                 else IAM_cred_url (conf s) @ IAM_role (conf s)))"

definition iam_setup :: "cconf \<Rightarrow> string \<Rightarrow> s3curl \<Rightarrow> s3curl" where
  "iam_setup cf u c =
     (let c1 = c\<lparr>url := u, requestHeaders := [], responseHeaders := [], bodydata := Some []\<rparr>;
          n = int (length (iam_post cf));
          c2 = (if is_ibm_iam_auth cf then
                  setopts [O_POST True, O_POSTFIELDSIZE n, O_READDATA This, O_READFUNCTION ReadCallback]
                    (add_header ''Authorization'' ''Basic Yng6Yng=''
                      (c1\<lparr>postdata := Some (iam_post cf), b_postdata := Some (iam_post cf),
                          postdata_remaining := n, b_postdata_remaining := n\<rparr>))
                else c1)
      in AddUserAgent cf (setopts [O_URL (url c2), O_WRITEDATA Body, O_WRITEFUNCTION WriteMemoryCallback,
           O_HTTPHEADER (requestHeaders c2)] c2))"

definition GetIAMCredentials :: "'w renv \<Rightarrow> s3curl \<Rightarrow> 'w cst \<Rightarrow> 'w result" where
  "GetIAMCredentials en c s =
     (if \<not> is_ecs (conf s) \<and> \<not> is_ibm_iam_auth (conf s) \<and> IAM_role (conf s) = [] then Some (- EIO, c, s)
      else case create_handle (lc en) (c\<lparr>rtype := REQTYPE_IAMCRED\<rparr>) s of
        (False, c1, s1) \<Rightarrow> Some (- EIO, c1, s1)
      | (True, c1, s1) \<Rightarrow> do {
          u \<leftarrow> iam_url en s1;
          (result, c2, s2) \<leftarrow> perform_request en (iam_setup (conf s1) u c1) s1;
          let (ok, cf) = (if result = 0 then SetIAMCredentials (expire_time en) (Some (body_text c2)) (conf s2)
                          else (True, conf s2));
          Some (if ok then result else - EIO, c2\<lparr>bodydata := None\<rparr>, s2\<lparr>conf := cf\<rparr>)
        })"

definition LoadIAMRoleFromMetaData :: "'w renv \<Rightarrow> s3curl \<Rightarrow> 'w cst \<Rightarrow> (bool \<times> s3curl \<times> 'w cst) option" where
  "LoadIAMRoleFromMetaData en c s =
     (case create_handle (lc en) (c\<lparr>rtype := REQTYPE_IAMROLE\<rparr>) s of
        (False, c1, s1) \<Rightarrow> Some (False, c1, s1)
      | (True, c1, s1) \<Rightarrow> do {
          let c2 = c1\<lparr>url := IAM_cred_url (conf s1), requestHeaders := [], responseHeaders := [], bodydata := Some []\<rparr>;
          (result, c3, s3) \<leftarrow> perform_request en (AddUserAgent (conf s1)
             (setopts [O_URL (url c2), O_WRITEDATA Body, O_WRITEFUNCTION WriteMemoryCallback] c2)) s1;
          let (ok, cf) = (if result = 0 then SetIAMRoleFromMetaData (Some (body_text c3)) (conf s3)
                          else (False, conf s3));
          Some (ok, c3\<lparr>bodydata := None\<rparr>, s3\<lparr>conf := cf\<rparr>)
        })"

text \<open>Credentials are renewed twenty minutes before they expire; the request object is destroyed.\<close>

definition IAM_EXPIRE_MERGIN :: int where "IAM_EXPIRE_MERGIN = 20 * 60"

definition CheckIAMCredentialUpdate :: "'w renv \<Rightarrow> 'w cst \<Rightarrow> (bool \<times> 'w cst) option" where
  "CheckIAMCredentialUpdate en s =
     (if IAM_role (conf s) = [] \<and> \<not> is_ecs (conf s) \<and> \<not> is_ibm_iam_auth (conf s) then Some (True, s)
      else if ctime en (cw s) + IAM_EXPIRE_MERGIN \<le> AWSAccessTokenExpire (conf s) then Some (True, s)
      else do {
        (result, c, s1) \<leftarrow> GetIAMCredentials en (new_s3curl False) s;
        Some (result = 0, snd (destroy_handle (lc en) c s1))
      })"

definition insertAuthHeaders :: "'w renv \<Rightarrow> s3curl \<Rightarrow> 'w cst \<Rightarrow> (s3curl \<times> 'w cst) option" where
  "insertAuthHeaders en c s = do {
     (ok, s1) \<leftarrow> CheckIAMCredentialUpdate en s;
     if \<not> ok then Some (c, s1)
     else if is_ibm_iam_auth (conf s1) then Some (insertIBMIAMHeaders (conf s1) c, s1)
     else if \<not> is_sigv4 (conf s1) then Some (insertV2Headers (sign en (cw s1)) (conf s1) c, s1)
     else map_option (\<lambda>c1. (c1, s1)) (insertV4Headers (sign en (cw s1)) (conf s1) c)
   }"

text \<open>The end of every setup: operation, type, signature, then the options and the user agent.\<close>

definition sign_and_set ::
  "'w renv \<Rightarrow> string \<Rightarrow> reqtype \<Rightarrow> (s3curl \<Rightarrow> curlopt list) \<Rightarrow> s3curl \<Rightarrow> 'w cst \<Rightarrow> (s3curl \<times> 'w cst) option" where
  "sign_and_set en oper t opts c s = do {
     (c1, s1) \<leftarrow> insertAuthHeaders en (c\<lparr>op := oper, rtype := t\<rparr>) s;
     Some (AddUserAgent (conf s1) (setopts (opts c1) c1), s1)
   }"

section \<open>Server side encryption and storage\<close>

text \<open>The headers for encryption and the value, which is a reference parameter.\<close>

definition AddSseRequestHead :: "cconf \<Rightarrow> sse_type_t \<Rightarrow> string \<Rightarrow> bool \<Rightarrow> bool \<Rightarrow> s3curl \<Rightarrow> string \<times> s3curl" where
  "AddSseRequestHead cf t ssevalue is_only_c is_copy c = (case t of
     SSE_S3 \<Rightarrow> (ssevalue, if is_only_c then c else add_header ''x-amz-server-side-encryption'' ''AES256'' c)
   | SSE_C \<Rightarrow>
       (case GetSseKey cf ssevalue of None \<Rightarrow> (ssevalue, c)
        | Some (md5, sseckey) \<Rightarrow>
            (let pre = (if is_copy then ''x-amz-copy-source-server-side-encryption-customer-''
                        else ''x-amz-server-side-encryption-customer-'')
             in (md5, add_header (pre @ ''key-md5'') md5 (add_header (pre @ ''key'') sseckey
                        (add_header (pre @ ''algorithm'') ''AES256'' c)))))
   | SSE_KMS \<Rightarrow>
       if is_only_c then (ssevalue, c)
       else (let v = (if ssevalue = [] then ssekmsid cf else ssevalue)
             in (v, add_header ''x-amz-server-side-encryption-aws-kms-key-id'' v
                      (add_header ''x-amz-server-side-encryption'' ''aws:kms'' c)))
   | SSE_DISABLE \<Rightarrow> (ssevalue, c))"

definition add_acl_class :: "cconf \<Rightarrow> s3curl \<Rightarrow> s3curl" where
  "add_acl_class cf c =
     (let c1 = (if default_acl cf \<noteq> [] then add_header ''x-amz-acl'' (default_acl cf) c else c)
      in case storage_class cf of
           REDUCED_REDUNDANCY \<Rightarrow> add_header ''x-amz-storage-class'' ''REDUCED_REDUNDANCY'' c1
         | STANDARD_IA \<Rightarrow> add_header ''x-amz-storage-class'' ''STANDARD_IA'' c1
         | ONEZONE_IA \<Rightarrow> add_header ''x-amz-storage-class'' ''ONEZONE_IA'' c1
         | STANDARD \<Rightarrow> c1)"

text \<open>A header for encryption of the old object, taken over for a copy only.\<close>

definition add_copy_sse :: "cconf \<Rightarrow> bool \<Rightarrow> string \<Rightarrow> string \<Rightarrow> s3curl \<Rightarrow> s3curl" where
  "add_copy_sse cf is_copy key v c =
     (if \<not> is_copy then c
      else if key = ''x-amz-server-side-encryption'' \<and> v \<noteq> ''aws:kms''
      then snd (AddSseRequestHead cf SSE_S3 v False True c)
      else if key = ''x-amz-server-side-encryption-aws-kms-key-id''
      then if v \<noteq> [] then snd (AddSseRequestHead cf SSE_KMS v False True c) else c
      else if key = ''x-amz-server-side-encryption-customer-key-md5''
      then case AddSseRequestHead cf SSE_C v True True c of (v1, c1) \<Rightarrow> snd (AddSseRequestHead cf SSE_C v1 True False c1)
      else c)"

definition is_meta :: "string \<Rightarrow> bool" where
  "is_meta key \<longleftrightarrow> take 9 key \<noteq> ''x-amz-acl'' \<and> take 10 key = ''x-amz-meta''"

definition new_object_sse :: "cconf \<Rightarrow> s3curl \<Rightarrow> s3curl" where
  "new_object_sse cf c = snd (AddSseRequestHead cf (ssetype cf) [] False False c)"

definition add_ahbe :: "'w renv \<Rightarrow> string \<Rightarrow> s3curl \<Rightarrow> s3curl" where
  "add_ahbe en tpath c = (if is_use_ahbe c then c\<lparr>requestHeaders := ahbe en (requestHeaders c) tpath\<rparr> else c)"

section \<open>Requests for objects\<close>

text \<open>A request for a path that needs a handle at once: a \<open>NULL\<close> path or no handle is \<open>-1\<close>.\<close>

definition with_handle ::
  "'w renv \<Rightarrow> string option \<Rightarrow> s3curl \<Rightarrow> 'w cst \<Rightarrow> (string \<Rightarrow> s3curl \<Rightarrow> 'w cst \<Rightarrow> 'w result) \<Rightarrow> 'w result" where
  "with_handle en tpath c s k =
     (case tpath of None \<Rightarrow> Some (- 1, c, s)
      | Some p \<Rightarrow> (case create_handle (lc en) c s of
          (False, c1, s1) \<Rightarrow> Some (- 1, c1, s1) | (True, c1, s1) \<Rightarrow> k p c1 s1))"

definition delete_setup :: "'w renv \<Rightarrow> string \<Rightarrow> s3curl \<Rightarrow> 'w cst \<Rightarrow> (s3curl \<times> 'w cst) option" where
  "delete_setup en p c s = do {
     c1 \<leftarrow> address (conf s) p [] c;
     sign_and_set en ''DELETE'' REQTYPE_DELETE
       (\<lambda>c. [O_URL (url c), O_CUSTOMREQUEST ''DELETE'', O_HTTPHEADER (requestHeaders c)]) c1 s
   }"

definition DeleteRequest :: "'w renv \<Rightarrow> string option \<Rightarrow> s3curl \<Rightarrow> 'w cst \<Rightarrow> 'w result" where
  "DeleteRequest en tpath c s = with_handle en tpath c s (\<lambda>p c s. do {
     (c1, s1) \<leftarrow> delete_setup en p c s;
     perform_request en c1 s1
   })"

text \<open>\<open>PreHeadRequest\<close> leaves the options to the lazy setup; \<open>pos\<close> is the place of a customer key.\<close>

definition PreHeadRequest ::
  "'w renv \<Rightarrow> string option \<Rightarrow> string option \<Rightarrow> string option \<Rightarrow> int \<Rightarrow> s3curl \<Rightarrow> 'w cst
     \<Rightarrow> (bool \<times> s3curl \<times> 'w cst) option" where
  "PreHeadRequest en tpath bpath savedpath pos c s =
     (case tpath of None \<Rightarrow> Some (False, c, s)
      | Some p \<Rightarrow> do {
          c1 \<leftarrow> address (conf s) p [] c;
          let c2 = c1\<lparr>base_path := (case bpath of Some b \<Rightarrow> b | None \<Rightarrow> []),
                      saved_path := (case savedpath of Some b \<Rightarrow> b | None \<Rightarrow> [])\<rparr>;
          let key = (if 0 \<le> pos then GetSseKeyMd5 (conf s) pos else Some []);
          case key of
            None \<Rightarrow> Some (False, c2, s)
          | Some md5 \<Rightarrow> do {
              let c3 = (if 0 \<le> pos then snd (AddSseRequestHead (conf s) SSE_C md5 True False c2) else c2);
              (c4, s4) \<leftarrow> insertAuthHeaders en (c3\<lparr>b_ssekey_pos := pos, op := ''HEAD'', rtype := REQTYPE_HEAD\<rparr>) s;
              Some (True, c4\<lparr>fpLazySetup := Some PreHead\<rparr>, s4)
            }
        })"

text \<open>One try: the result of the transfer, if one was made.\<close>

definition head_try ::
  "'w renv \<Rightarrow> string option \<Rightarrow> int \<Rightarrow> s3curl \<Rightarrow> 'w cst \<Rightarrow> (int option \<times> s3curl \<times> 'w cst) option" where
  "head_try en tpath pos c s = do {
     (ok, c1, s1) \<leftarrow> PreHeadRequest en tpath None None pos c s;
     if \<not> ok then Some (None, c1, s1)
     else case run_lazy (lc en) c1 s1 of
       (False, c2, s2) \<Rightarrow> Some (None, c2, s2)
     | (True, c2, s2) \<Rightarrow> do { (r, c3, s3) \<leftarrow> perform_request en c2 s2; Some (Some r, c3, s3) }
   }"

fun head_loop ::
  "'w renv \<Rightarrow> string option \<Rightarrow> nat list \<Rightarrow> int \<Rightarrow> s3curl \<Rightarrow> 'w cst \<Rightarrow> (int \<times> s3curl \<times> 'w cst) option" where
  "head_loop en tpath [] result c s = Some (result, c, s)"
| "head_loop en tpath (pos # ps) result c s =
     (case DestroyCurlHandle (lc en) True True c s of
        (False, c1, s1) \<Rightarrow> Some (result, c1, s1)
      | (True, c1, s1) \<Rightarrow> do {
          (r, c2, s2) \<leftarrow> head_try en tpath (int pos) c1 s1;
          case r of
            None \<Rightarrow> Some (result, c2, s2)
          | Some r \<Rightarrow> if r = 0 then Some (0, c2, s2) else head_loop en tpath ps r c2 s2
        })"

text \<open>The headers of a response that are kept, those of S3 in lower case.\<close>

definition keep_header :: "string \<times> string \<Rightarrow> headers \<Rightarrow> headers" where
  "keep_header h meta =
     (let key = lower (fst h) in
      if key \<in> {''content-type'', ''content-length'', ''etag'', ''last-modified''} then hd_set (fst h) (snd h) meta
      else if take 5 key = ''x-amz'' then hd_set key (snd h) meta else meta)"

definition HeadRequest ::
  "'w renv \<Rightarrow> string option \<Rightarrow> headers \<Rightarrow> s3curl \<Rightarrow> 'w cst \<Rightarrow> (int \<times> headers \<times> s3curl \<times> 'w cst) option" where
  "HeadRequest en tpath meta c s = do {
     (r, c1, s1) \<leftarrow> head_try en tpath (- 1) c s;
     (result, c2, s2) \<leftarrow> (if r = Some 0 then Some (0, c1, s1)
        else head_loop en tpath [0..<length (sseckeys (conf s1))] (case r of Some n \<Rightarrow> n | None \<Rightarrow> - 1) c1 s1);
     if result \<noteq> 0 then (case destroy_handle (lc en) c2 s2 of (c3, s3) \<Rightarrow> Some (result, meta, c3, s3))
     else Some (0, fold keep_header (responseHeaders c2) [], c2, s2)
   }"

end
