(* ===== verification/Curl_Object.thy ===== *)
theory Curl_Object
  imports Curl_Request
begin

text \<open>
  Requests of the S3 client that carry or list objects, \<open>protocols/s3/curl.cpp\<close>: \<open>PutHeadRequest\<close>,
  \<open>PutRequest\<close>, \<open>GetObjectRequest\<close>, \<open>CheckBucket\<close>, \<open>ListBucketRequest\<close> and the requests that begin,
  list, finish and abort an upload in parts. Every request is a setup, which ends with the options of its
  handle, and the transfer with what is done with its result.
\<close>

section \<open>Storing\<close>

definition put_head_meta :: "cconf \<Rightarrow> bool \<Rightarrow> string \<times> string \<Rightarrow> s3curl \<Rightarrow> s3curl" where
  "put_head_meta cf is_copy h c =
     (let key = lower (fst h) in
      if key = ''content-type'' \<or> is_meta key \<or> key = ''x-amz-copy-source'' then add_header (fst h) (snd h) c
      else add_copy_sse cf is_copy key (snd h) c)"

definition put_head_headers :: "'w renv \<Rightarrow> cconf \<Rightarrow> string \<Rightarrow> headers \<Rightarrow> bool \<Rightarrow> s3curl \<Rightarrow> s3curl" where
  "put_head_headers en cf p meta is_copy c =
     (let c1 = add_acl_class cf (fold (put_head_meta cf is_copy) meta c);
          c2 = (if is_copy then c1 else new_object_sse cf c1)
      in add_ahbe en p c2)"

definition put_head_setup ::
  "'w renv \<Rightarrow> string \<Rightarrow> headers \<Rightarrow> bool \<Rightarrow> s3curl \<Rightarrow> 'w cst \<Rightarrow> (s3curl \<times> 'w cst) option" where
  "put_head_setup en p meta is_copy c s = do {
     c1 \<leftarrow> address (conf s) p [] c;
     sign_and_set en ''PUT'' REQTYPE_PUTHEAD
       (\<lambda>c. [O_URL (url c), O_UPLOAD True, O_WRITEDATA Body, O_WRITEFUNCTION WriteMemoryCallback, O_INFILESIZE 0,
             O_HTTPHEADER (requestHeaders c)])
       (put_head_headers en (conf s) p meta is_copy (c1\<lparr>bodydata := Some []\<rparr>)) s
   }"

text \<open>A response can be a success and still say \<open><Error>\<close>, in any case.\<close>

definition error_body :: "string \<Rightarrow> bool" where
  "error_body t \<longleftrightarrow> find_sub (map tolower ''<Error>'') (map tolower t) \<noteq> None"

definition PutHeadRequest :: "'w renv \<Rightarrow> string option \<Rightarrow> headers \<Rightarrow> bool \<Rightarrow> s3curl \<Rightarrow> 'w cst \<Rightarrow> 'w result" where
  "PutHeadRequest en tpath meta is_copy c s = with_handle en tpath c s (\<lambda>p c s. do {
     (c1, s1) \<leftarrow> put_head_setup en p meta is_copy c s;
     (r, c2, s2) \<leftarrow> perform_request en c1 s1;
     Some (if r = 0 \<and> error_body (body_text c2) then - EIO else r, c2\<lparr>bodydata := None\<rparr>, s2)
   })"

definition put_meta :: "string \<times> string \<Rightarrow> s3curl \<Rightarrow> s3curl" where
  "put_meta h c = (if lower (fst h) = ''content-type'' \<or> is_meta (lower (fst h)) then add_header (fst h) (snd h) c else c)"

definition put_request_headers :: "'w renv \<Rightarrow> 'w cst \<Rightarrow> string \<Rightarrow> headers \<Rightarrow> int \<Rightarrow> s3curl \<Rightarrow> s3curl" where
  "put_request_headers en s p meta fd c =
     (let c1 = (if fd \<noteq> - 1 \<and> is_content_md5 (conf s) then add_header ''Content-MD5'' (content_md5 en fd (cw s)) c else c)
      in add_ahbe en p (new_object_sse (conf s) (add_acl_class (conf s) (fold put_meta meta c1))))"

definition put_setup ::
  "'w renv \<Rightarrow> string \<Rightarrow> headers \<Rightarrow> int \<Rightarrow> int \<Rightarrow> s3curl \<Rightarrow> 'w cst \<Rightarrow> (s3curl \<times> 'w cst) option" where
  "put_setup en p meta fd fsize c s = do {
     c1 \<leftarrow> address (conf s) p [] c;
     sign_and_set en ''PUT'' REQTYPE_PUT
       (\<lambda>c. [O_URL (url c), O_UPLOAD True, O_WRITEDATA Body, O_WRITEFUNCTION WriteMemoryCallback,
             O_HTTPHEADER (requestHeaders c)]
            @ (case b_infile c of Some f \<Rightarrow> [O_INFILESIZE_LARGE fsize, O_INFILE f] | None \<Rightarrow> [O_INFILESIZE 0]))
       (put_request_headers en s p meta fd (c1\<lparr>bodydata := Some []\<rparr>)) s
   }"

text \<open>The file is duplicated; \<open>-1\<close> stands for no file and an empty object.\<close>

definition PutRequest :: "'w renv \<Rightarrow> string option \<Rightarrow> headers \<Rightarrow> int \<Rightarrow> s3curl \<Rightarrow> 'w cst \<Rightarrow> 'w result" where
  "PutRequest en tpath meta fd c s =
     (case tpath of None \<Rightarrow> Some (- 1, c, s)
      | Some p \<Rightarrow>
          (case (if fd = - 1 then (Inr None, cw s)
                 else case dup_file en fd (cw s) of (Inl e, w) \<Rightarrow> (Inl e, w) | (Inr (f, n), w) \<Rightarrow> (Inr (Some (f, n)), w)) of
             (Inl errno, w) \<Rightarrow> Some (- errno, c, s\<lparr>cw := w\<rparr>)
           | (Inr file, w) \<Rightarrow>
               (let c1 = (case file of Some (f, n) \<Rightarrow> c\<lparr>b_infile := Some f\<rparr> | None \<Rightarrow> c);
                    fsize = (case file of Some (f, n) \<Rightarrow> n | None \<Rightarrow> 0);
                    closed = (\<lambda>s. case file of Some (f, n) \<Rightarrow> s\<lparr>cw := close_file en f (cw s)\<rparr> | None \<Rightarrow> s)
                in case create_handle (lc en) c1 (s\<lparr>cw := w\<rparr>) of
                  (False, c2, s2) \<Rightarrow> Some (- 1, c2, closed s2)
                | (True, c2, s2) \<Rightarrow> do {
                    (c3, s3) \<leftarrow> put_setup en p meta fd fsize c2 s2;
                    (r, c4, s4) \<leftarrow> perform_request en c3 s3;
                    Some (r, c4\<lparr>bodydata := None\<rparr>, closed s4)
                  })))"

section \<open>Reading\<close>

text \<open>The range is from \<open>start\<close> to \<open>start + size - 1\<close>; a size of 0 asks for the whole object.\<close>

definition range_header :: "int \<Rightarrow> int \<Rightarrow> string" where
  "range_header start sz = ''bytes='' @ str start @ ''-'' @ str (start + sz - 1)"

definition PreGetObjectRequest ::
  "'w renv \<Rightarrow> string option \<Rightarrow> int \<Rightarrow> int \<Rightarrow> int \<Rightarrow> sse_type_t \<Rightarrow> string \<Rightarrow> s3curl \<Rightarrow> 'w cst
     \<Rightarrow> (int \<times> string \<times> s3curl \<times> 'w cst) option" where
  "PreGetObjectRequest en tpath fd start sz t ssevalue c s =
     (case tpath of None \<Rightarrow> Some (- 1, ssevalue, c, s)
      | Some p \<Rightarrow>
          if fd = - 1 \<or> start < 0 \<or> sz < 0 then Some (- 1, ssevalue, c, s)
          else do {
            c1 \<leftarrow> address (conf s) p [] c;
            let c2 = (if 0 < sz then add_header ''Range'' (range_header start sz) c1 else c1);
            let (v, c3) = AddSseRequestHead (conf s) t ssevalue True False c2;
            (c4, s4) \<leftarrow> insertAuthHeaders en (c3\<lparr>op := ''GET'', rtype := REQTYPE_GET\<rparr>) s;
            Some (0, v, c4\<lparr>fpLazySetup := Some PreGetObject,
              partdata := new_filepart\<lparr>fp_fd := fd, startpos := start, fp_size := sz\<rparr>,
              b_partdata_startpos := start, b_partdata_size := sz, b_ssetype := t, b_ssevalue := v,
              b_ssekey_pos := - 1\<rparr>, s4)
          })"

definition GetObjectRequest :: "'w renv \<Rightarrow> string option \<Rightarrow> int \<Rightarrow> int \<Rightarrow> int \<Rightarrow> s3curl \<Rightarrow> 'w cst \<Rightarrow> 'w result" where
  "GetObjectRequest en tpath fd start sz c s =
     (case tpath of None \<Rightarrow> Some (- 1, c, s)
      | Some p \<Rightarrow>
          (case sse_of en p (cw s) of (t, v) \<Rightarrow> do {
             (r, _, c1, s1) \<leftarrow> PreGetObjectRequest en tpath fd start sz t v c s;
             if r \<noteq> 0 then Some (r, c1, s1)
             else case run_lazy (lc en) c1 s1 of
               (False, c2, s2) \<Rightarrow> Some (- 1, c2, s2)
             | (True, c2, s2) \<Rightarrow> do {
                 (r, c3, s3) \<leftarrow> perform_request en c2 s2;
                 Some (r, c3\<lparr>partdata := new_filepart\<rparr>, s3)
               }
           }))"

section \<open>Buckets\<close>

definition get_body_opts :: "s3curl \<Rightarrow> curlopt list" where
  "get_body_opts c = [O_URL (url c), O_WRITEDATA Body, O_WRITEFUNCTION WriteMemoryCallback, O_HTTPHEADER (requestHeaders c)]"

definition check_setup :: "'w renv \<Rightarrow> s3curl \<Rightarrow> 'w cst \<Rightarrow> (s3curl \<times> 'w cst) option" where
  "check_setup en c s = do {
     c1 \<leftarrow> address (conf s) ''/'' [] c;
     sign_and_set en ''GET'' REQTYPE_CHKBUCKET get_body_opts (c1\<lparr>bodydata := Some []\<rparr>) s
   }"

definition CheckBucket :: "'w renv \<Rightarrow> s3curl \<Rightarrow> 'w cst \<Rightarrow> 'w result" where
  "CheckBucket en c s = with_handle en (Some ''/'') c s (\<lambda>_ c s. do {
     (c1, s1) \<leftarrow> check_setup en c s;
     perform_request en c1 s1
   })"

text \<open>The address of a listing is that of the bucket, its query is what is signed.\<close>

definition list_setup :: "'w renv \<Rightarrow> string \<Rightarrow> string option \<Rightarrow> s3curl \<Rightarrow> 'w cst \<Rightarrow> (s3curl \<times> 'w cst) option" where
  "list_setup en p query c s = do {
     (resource, turl) \<leftarrow> MakeUrlResource (conf s) (Some []);
     u \<leftarrow> prepare_url (conf s) (c_str (turl @ (case query of Some q \<Rightarrow> ''?'' @ q | None \<Rightarrow> [])));
     sign_and_set en ''GET'' REQTYPE_LISTBUCKET get_body_opts
       (c\<lparr>query_string := (case query of Some q \<Rightarrow> q | None \<Rightarrow> query_string c), url := u,
          c_path := get_realpath (conf s) p, requestHeaders := [], responseHeaders := [], bodydata := Some []\<rparr>) s
   }"

definition ListBucketRequest :: "'w renv \<Rightarrow> string option \<Rightarrow> string option \<Rightarrow> s3curl \<Rightarrow> 'w cst \<Rightarrow> 'w result" where
  "ListBucketRequest en tpath query c s = with_handle en tpath c s (\<lambda>p c s. do {
     (c1, s1) \<leftarrow> list_setup en p query c s;
     perform_request en c1 s1
   })"

section \<open>Uploads in parts\<close>

definition pre_multi_meta :: "cconf \<Rightarrow> bool \<Rightarrow> string \<times> string \<Rightarrow> s3curl \<Rightarrow> s3curl" where
  "pre_multi_meta cf is_copy h c =
     (let key = lower (fst h)
      in if is_meta key then add_header (fst h) (snd h) c else add_copy_sse cf is_copy key (snd h) c)"

definition pre_multi_headers :: "'w renv \<Rightarrow> cconf \<Rightarrow> string \<Rightarrow> headers \<Rightarrow> bool \<Rightarrow> s3curl \<Rightarrow> s3curl" where
  "pre_multi_headers en cf p meta is_copy c =
     (let c1 = add_acl_class cf (fold (pre_multi_meta cf is_copy) meta c);
          c2 = add_ahbe en p (if is_copy then c1 else new_object_sse cf c1)
      in add_header ''Content-Type'' (LookupMimeType (mime_types en) p)
           (add_no_header ''Content-Length'' (add_no_header ''Accept'' c2)))"

definition pre_multi_setup ::
  "'w renv \<Rightarrow> string \<Rightarrow> headers \<Rightarrow> bool \<Rightarrow> s3curl \<Rightarrow> 'w cst \<Rightarrow> (s3curl \<times> 'w cst) option" where
  "pre_multi_setup en p meta is_copy c s = do {
     c1 \<leftarrow> address (conf s) p ''?uploads'' (c\<lparr>query_string := ''uploads''\<rparr>);
     sign_and_set en ''POST'' REQTYPE_PREMULTIPOST
       (\<lambda>c. [O_URL (url c), O_POST True, O_WRITEDATA Body, O_WRITEFUNCTION WriteMemoryCallback, O_POSTFIELDSIZE 0,
             O_HTTPHEADER (requestHeaders c)])
       (pre_multi_headers en (conf s) p meta is_copy (c1\<lparr>bodydata := Some []\<rparr>)) s
   }"

text \<open>The identifier of the upload is what the response says; the callers pass an empty one.\<close>

definition PreMultipartPostRequest ::
  "'w renv \<Rightarrow> string option \<Rightarrow> headers \<Rightarrow> bool \<Rightarrow> s3curl \<Rightarrow> 'w cst \<Rightarrow> (int \<times> string \<times> s3curl \<times> 'w cst) option" where
  "PreMultipartPostRequest en tpath meta is_copy c s =
     (case tpath of None \<Rightarrow> Some (- 1, [], c, s)
      | Some p \<Rightarrow>
          (case create_handle (lc en) c s of
             (False, c1, s1) \<Rightarrow> Some (- 1, [], c1, s1)
           | (True, c1, s1) \<Rightarrow> do {
               (c2, s2) \<leftarrow> pre_multi_setup en p meta is_copy c1 s1;
               (r, c3, s3) \<leftarrow> perform_request en c2 s2;
               Some (if r \<noteq> 0 then (r, [], c3\<lparr>bodydata := None\<rparr>, s3)
                     else case xml_value en (case bodydata c3 of Some b \<Rightarrow> b | None \<Rightarrow> []) ''UploadId'' of
                       None \<Rightarrow> (- 1, [], c3\<lparr>bodydata := None\<rparr>, s3)
                     | Some up_id \<Rightarrow> (0, up_id, c3\<lparr>bodydata := None\<rparr>, s3))
             }))"

definition part_entry :: "nat \<Rightarrow> string \<Rightarrow> string" where
  "part_entry n tag = ''<Part>'' @ Curl_Sign.newline @ ''  <PartNumber>'' @ str (int n) @ ''</PartNumber>'' @ Curl_Sign.newline
     @ ''  <ETag>'' @ tag @ ''</ETag>'' @ Curl_Sign.newline @ ''</Part>'' @ Curl_Sign.newline"

definition complete_content :: "string list \<Rightarrow> string" where
  "complete_content parts = ''<CompleteMultipartUpload>'' @ Curl_Sign.newline
     @ concat (map (\<lambda>(n, tag). part_entry n tag) (zip [1..<Suc (length parts)] parts))
     @ ''</CompleteMultipartUpload>'' @ Curl_Sign.newline"

definition complete_setup :: "'w renv \<Rightarrow> string \<Rightarrow> string \<Rightarrow> s3curl \<Rightarrow> 'w cst \<Rightarrow> (s3curl \<times> 'w cst) option" where
  "complete_setup en p up_id c s = do {
     let q = ''uploadId='' @ up_id;
     c1 \<leftarrow> address (conf s) p (''?'' @ q) (c\<lparr>query_string := q\<rparr>);
     sign_and_set en ''POST'' REQTYPE_COMPLETEMULTIPOST
       (\<lambda>c. [O_URL (url c), O_HTTPHEADER (requestHeaders c), O_POST True, O_WRITEDATA Body,
             O_WRITEFUNCTION WriteMemoryCallback, O_POSTFIELDSIZE (postdata_remaining c), O_READDATA This,
             O_READFUNCTION ReadCallback])
       (add_header ''Content-Type'' (LookupMimeType (mime_types en) p) (add_no_header ''Accept'' (c1\<lparr>bodydata := Some []\<rparr>))) s
   }"

definition CompleteMultipartPostRequest ::
  "'w renv \<Rightarrow> string option \<Rightarrow> string \<Rightarrow> string list \<Rightarrow> s3curl \<Rightarrow> 'w cst \<Rightarrow> 'w result" where
  "CompleteMultipartPostRequest en tpath up_id parts c s =
     (if tpath = None \<or> [] \<in> set parts then Some (- 1, c, s)
      else
        (let content = complete_content parts; n = int (length content);
             c0 = c\<lparr>postdata := Some content, b_postdata := Some content, postdata_remaining := n, b_postdata_remaining := n\<rparr>
         in with_handle en tpath c0 s (\<lambda>p c s. do {
              (c1, s1) \<leftarrow> complete_setup en p up_id c s;
              (r, c2, s2) \<leftarrow> perform_request en c1 s1;
              Some (r, c2\<lparr>bodydata := None, postdata := None\<rparr>, s2)
            })))"

definition multi_list_setup :: "'w renv \<Rightarrow> s3curl \<Rightarrow> 'w cst \<Rightarrow> (s3curl \<times> 'w cst) option" where
  "multi_list_setup en c s = do {
     c1 \<leftarrow> address (conf s) ''/'' ''?uploads'' (c\<lparr>query_string := ''uploads''\<rparr>);
     sign_and_set en ''GET'' REQTYPE_MULTILIST get_body_opts (add_no_header ''Accept'' (c1\<lparr>bodydata := Some []\<rparr>)) s
   }"

text \<open>The body is not touched without a handle.\<close>

definition MultipartListRequest :: "'w renv \<Rightarrow> s3curl \<Rightarrow> 'w cst \<Rightarrow> (int \<times> string option \<times> s3curl \<times> 'w cst) option" where
  "MultipartListRequest en c s =
     (case create_handle (lc en) c s of
        (False, c1, s1) \<Rightarrow> Some (- 1, None, c1, s1)
      | (True, c1, s1) \<Rightarrow> do {
          (c2, s2) \<leftarrow> multi_list_setup en c1 s1;
          (r, c3, s3) \<leftarrow> perform_request en c2 s2;
          Some (r, Some (if r = 0 then body_text c3 else []), c3\<lparr>bodydata := None\<rparr>, s3)
        })"

definition abort_setup :: "'w renv \<Rightarrow> string \<Rightarrow> string \<Rightarrow> s3curl \<Rightarrow> 'w cst \<Rightarrow> (s3curl \<times> 'w cst) option" where
  "abort_setup en p up_id c s = do {
     let q = ''uploadId='' @ up_id;
     c1 \<leftarrow> address (conf s) p (''?'' @ q) (c\<lparr>query_string := q\<rparr>);
     sign_and_set en ''DELETE'' REQTYPE_ABORTMULTIUPLOAD
       (\<lambda>c. [O_URL (url c), O_CUSTOMREQUEST ''DELETE'', O_HTTPHEADER (requestHeaders c)]) c1 s
   }"

definition AbortMultipartUpload :: "'w renv \<Rightarrow> string option \<Rightarrow> string \<Rightarrow> s3curl \<Rightarrow> 'w cst \<Rightarrow> 'w result" where
  "AbortMultipartUpload en tpath up_id c s = with_handle en tpath c s (\<lambda>p c s. do {
     (c1, s1) \<leftarrow> abort_setup en p up_id c s;
     perform_request en c1 s1
   })"

section \<open>A retry repeats the request\<close>

text \<open>What a signature changes of a request: its headers only.\<close>

definition only_headers :: "s3curl \<Rightarrow> s3curl \<Rightarrow> bool" where
  "only_headers c c' \<longleftrightarrow> (\<exists>hs. c' = c\<lparr>requestHeaders := hs\<rparr>)"

lemma only_headers_refl [simp]: "only_headers c c"
  unfolding only_headers_def by (rule exI [of _ "requestHeaders c"]) simp

lemma only_headers_trans: "only_headers a b \<Longrightarrow> only_headers b c \<Longrightarrow> only_headers a c"
  by (auto simp: only_headers_def)

lemma only_headers_put [simp]: "only_headers c (c\<lparr>requestHeaders := hs\<rparr>)"
  by (auto simp: only_headers_def)

lemma only_headers_add: "only_headers a b \<Longrightarrow> only_headers a (add_header k v b)"
  "only_headers a b \<Longrightarrow> only_headers a (add_no_header k b)"
  by (auto simp: only_headers_def add_header_def add_no_header_def)

lemma only_headers_fold: "(\<And>x c. only_headers c (f x c)) \<Longrightarrow> only_headers c (fold f xs c)"
  by (induction xs arbitrary: c) (auto intro: only_headers_trans)

lemma add_token_only: "only_headers a b \<Longrightarrow> only_headers a (add_token cf b)"
  by (auto simp: add_token_def intro: only_headers_add)

lemma v4_headers_only: "only_headers a b \<Longrightarrow> only_headers a (v4_headers en h sha b)"
  by (auto simp: v4_headers_def intro!: only_headers_add)

lemma CalcSignature_token:
  "CalcSignature en cf m u q sha c = Some (sig, c2) \<Longrightarrow> c2 = add_token cf c"
  by (simp add: CalcSignature_def Let_def split: option.splits)

lemma insertV4_only:
  assumes "insertV4Headers en cf c = Some c'"
  shows "only_headers c c'"
proof -
  define sha where "sha = (if payload_hash_of en c = [] then empty_payload_hash else payload_hash_of en c)"
  obtain h where h: "get_bucket_host cf = Some h" using assms by (cases "get_bucket_host cf") (auto simp: insertV4Headers_def Let_def)
  define c1 where "c1 = v4_headers en h sha c"
  have o: "only_headers c c1" unfolding c1_def by (rule v4_headers_only) simp
  show ?thesis
  proof (cases "is_public_bucket cf")
    case True
    then show ?thesis using assms h o by (simp add: insertV4Headers_def Let_def c1_def sha_def)
  next
    case False
    let ?calc = "CalcSignature en cf (op c1)
      (if pathrequeststyle cf then ''/'' @ g_bucket cf @ server_path c else server_path c)
      (query_string c1 @ (if rtype c1 \<in> {REQTYPE_PREMULTIPOST, REQTYPE_MULTILIST} then ''='' else [])) sha c1"
    have "(case ?calc of None \<Rightarrow> None | Some (sig, c2) \<Rightarrow>
        Some (add_header ''Authorization'' (auth_v4 en cf (requestHeaders c2) sig) c2)) = Some c'"
      using assms unfolding insertV4Headers_def Let_def sha_def [symmetric]
      by (simp only: h option.case c1_def [symmetric] False if_False)
    then obtain sig c2 where e: "?calc = Some (sig, c2)" and c': "c' = add_header ''Authorization'' (auth_v4 en cf (requestHeaders c2) sig) c2"
      by (cases ?calc) (auto simp del: insert_iff)
    show ?thesis unfolding c' CalcSignature_token [OF e] by (intro only_headers_add add_token_only o)
  qed
qed

lemma only_headers_if: "only_headers a x \<Longrightarrow> only_headers a y \<Longrightarrow> only_headers a (if b then x else y)"
  by simp

lemma insertV2_only: "only_headers c (insertV2Headers en cf c)"
  unfolding insertV2Headers_def CalcSignatureV2_def Let_def prod.case
  by (intro only_headers_if only_headers_add add_token_only only_headers_refl)

lemma insertIBM_only: "only_headers c (insertIBMIAMHeaders cf c)"
  by (auto simp: insertIBMIAMHeaders_def Let_def intro!: only_headers_add)

lemma insertAuth_only: "insertAuthHeaders en c s = Some (c', s') \<Longrightarrow> only_headers c c'"
  by (auto simp: insertAuthHeaders_def insertV2_only insertIBM_only insertV4_only bind_eq_Some_conv split: if_splits)

lemma AddSse_only: "only_headers c (snd (AddSseRequestHead cf t v oc cp c))"
  by (auto simp: AddSseRequestHead_def Let_def intro!: only_headers_add split: sse_type_t.splits option.splits)

lemma add_acl_class_only: "only_headers c (add_acl_class cf c)"
  by (auto simp: add_acl_class_def Let_def intro!: only_headers_add split: storage_class_t.splits)

lemma add_copy_sse_only: "only_headers c (add_copy_sse cf cp k v c)"
  by (auto simp: add_copy_sse_def AddSse_only split: prod.splits) (metis AddSse_only only_headers_trans snd_conv)+

lemma add_ahbe_only: "only_headers c (add_ahbe en p c)"
  by (simp add: add_ahbe_def)

lemma new_object_sse_only: "only_headers c (new_object_sse cf c)"
  by (simp add: new_object_sse_def AddSse_only)

lemmas header_steps = only_headers_add only_headers_trans [OF _ add_acl_class_only]
  only_headers_trans [OF _ new_object_sse_only] only_headers_trans [OF _ add_ahbe_only]

lemma put_head_headers_only: "only_headers c (put_head_headers en cf p meta cp c)"
proof -
  have "only_headers c (fold (put_head_meta cf cp) meta c)"
    by (rule only_headers_fold) (auto simp: put_head_meta_def Let_def add_copy_sse_only intro!: only_headers_add)
  then show ?thesis unfolding put_head_headers_def Let_def
    by (cases cp) (simp_all only: if_True if_False header_steps)
qed

lemma put_request_headers_only: "only_headers c (put_request_headers en s p meta fd c)"
proof -
  have f: "only_headers a (fold put_meta meta b)" if "only_headers a b" for a b
    by (rule only_headers_trans [OF that only_headers_fold]) (auto simp: put_meta_def intro!: only_headers_add)
  show ?thesis unfolding put_request_headers_def Let_def
    by (intro header_steps f) (simp add: only_headers_add)
qed

lemma pre_multi_headers_only: "only_headers c (pre_multi_headers en cf p meta cp c)"
proof -
  have "only_headers c (fold (pre_multi_meta cf cp) meta c)"
    by (rule only_headers_fold) (auto simp: pre_multi_meta_def Let_def add_copy_sse_only intro!: only_headers_add)
  then show ?thesis unfolding pre_multi_headers_def Let_def
    by (cases cp) (simp_all only: if_True if_False header_steps)
qed

text \<open>The requests that take their handle at once, and the setup of each.\<close>

datatype request =
    RDelete string | RPutHead string headers bool | RPut string headers int int | RCheck
  | RList string "string option" | RPreMulti string headers bool | RComplete string string
  | RMultiList | RAbort string string

fun setup_of :: "'w renv \<Rightarrow> request \<Rightarrow> s3curl \<Rightarrow> 'w cst \<Rightarrow> (s3curl \<times> 'w cst) option" where
  "setup_of en (RDelete p) c s = delete_setup en p c s"
| "setup_of en (RPutHead p meta cp) c s = put_head_setup en p meta cp c s"
| "setup_of en (RPut p meta fd fsize) c s = put_setup en p meta fd fsize c s"
| "setup_of en RCheck c s = check_setup en c s"
| "setup_of en (RList p q) c s = list_setup en p q c s"
| "setup_of en (RPreMulti p meta cp) c s = pre_multi_setup en p meta cp c s"
| "setup_of en (RComplete p uid) c s = complete_setup en p uid c s"
| "setup_of en RMultiList c s = multi_list_setup en c s"
| "setup_of en (RAbort p uid) c s = abort_setup en p uid c s"

text \<open>What a transfer and its callbacks leave as it is.\<close>

definition same_request :: "s3curl \<Rightarrow> s3curl \<Rightarrow> bool" where
  "same_request c c' \<longleftrightarrow> hCurl c' = hCurl c \<and> rtype c' = rtype c \<and> url c' = url c
     \<and> requestHeaders c' = requestHeaders c \<and> b_infile c' = b_infile c
     \<and> b_postdata_remaining c' = b_postdata_remaining c"

lemma sign_and_set_spec:
  assumes "sign_and_set en oper t opts c s = Some (c1, s1)"
  shows "\<exists>c'. only_headers (c\<lparr>op := oper, rtype := t\<rparr>) c' \<and> c1 = AddUserAgent (conf s1) (setopts (opts c') c')"
  using assms by (auto simp: sign_and_set_def bind_eq_Some_conv dest: insertAuth_only)

lemma address_spec:
  "address cf p q c = Some c1 \<Longrightarrow> hCurl c1 = hCurl c \<and> b_infile c1 = b_infile c
     \<and> b_postdata_remaining c1 = b_postdata_remaining c \<and> postdata_remaining c1 = postdata_remaining c"
  by (auto simp: address_def bind_eq_Some_conv split: prod.splits)

text \<open>
  The options a setup of type \<open>t\<close> puts on the handle are those \<open>remake_opts\<close> gives for the type; the request
  keeps what the options are made from.
\<close>

definition sets_remake_opts :: "'w renv \<Rightarrow> int \<Rightarrow> reqtype \<Rightarrow> s3curl \<Rightarrow> s3curl \<Rightarrow> cconf \<Rightarrow> bool" where
  "sets_remake_opts en fsize t c c1 cf \<longleftrightarrow>
     (\<exists>c' os. c1 = AddUserAgent cf (setopts os c') \<and> remake_opts cf fsize c' = Some os
        \<and> hCurl c' = hCurl c \<and> rtype c' = t \<and> b_infile c' = b_infile c \<and> b_postdata_remaining c' = postdata_remaining c')"

lemma sign_and_set_opts:
  assumes "sign_and_set en oper t opts c s = Some (c1, s1)" "postdata_remaining c = b_postdata_remaining c"
    and "\<And>c'. rtype c' = t \<Longrightarrow> remake_opts (conf s1) fsize c' = Some (opts c')"
  shows "sets_remake_opts en fsize t c c1 (conf s1)"
proof -
  obtain c' where o: "only_headers (c\<lparr>op := oper, rtype := t\<rparr>) c'" and "c1 = AddUserAgent (conf s1) (setopts (opts c') c')"
    using sign_and_set_spec [OF assms(1)] by blast
  moreover have "rtype c' = t" "hCurl c' = hCurl c" "b_infile c' = b_infile c"
    "b_postdata_remaining c' = postdata_remaining c'"
    using o assms(2) by (auto simp: only_headers_def)
  ultimately show ?thesis using assms(3) unfolding sets_remake_opts_def by blast
qed

lemma sets_remake_cong:
  "sets_remake_opts en fsize t c c1 cf \<Longrightarrow> hCurl c = hCurl c0 \<Longrightarrow> b_infile c = b_infile c0 \<Longrightarrow>
   sets_remake_opts en fsize t c0 c1 cf"
  by (simp add: sets_remake_opts_def)

lemma bodydata_only [simp]: "hCurl (c\<lparr>bodydata := b\<rparr>) = hCurl c" by simp

lemma only_fields:
  assumes "only_headers c c'"
  shows "hCurl c' = hCurl c" "b_infile c' = b_infile c" "b_postdata_remaining c' = b_postdata_remaining c"
    "postdata_remaining c' = postdata_remaining c"
  using assms by (auto simp: only_headers_def)

definition request_type :: "request \<Rightarrow> reqtype" where
  "request_type r = (case r of RDelete _ \<Rightarrow> REQTYPE_DELETE | RPutHead _ _ _ \<Rightarrow> REQTYPE_PUTHEAD | RPut _ _ _ _ \<Rightarrow> REQTYPE_PUT
     | RCheck \<Rightarrow> REQTYPE_CHKBUCKET | RList _ _ \<Rightarrow> REQTYPE_LISTBUCKET | RPreMulti _ _ _ \<Rightarrow> REQTYPE_PREMULTIPOST
     | RComplete _ _ \<Rightarrow> REQTYPE_COMPLETEMULTIPOST | RMultiList \<Rightarrow> REQTYPE_MULTILIST | RAbort _ _ \<Rightarrow> REQTYPE_ABORTMULTIUPLOAD)"

definition request_size :: "request \<Rightarrow> int" where
  "request_size r = (case r of RPut _ _ _ n \<Rightarrow> n | _ \<Rightarrow> 0)"

lemma setup_of_opts:
  assumes "setup_of en r c s = Some (c1, s1)" "postdata_remaining c = b_postdata_remaining c"
  shows "sets_remake_opts en (request_size r) (request_type r) c c1 (conf s1)"
proof (cases r)
  case (RDelete p)
  then obtain c2 where a: "address (conf s) p [] c = Some c2" and e: "sign_and_set en ''DELETE'' REQTYPE_DELETE
       (\<lambda>c. [O_URL (url c), O_CUSTOMREQUEST ''DELETE'', O_HTTPHEADER (requestHeaders c)]) c2 s = Some (c1, s1)"
    using assms(1) by (auto simp: delete_setup_def bind_eq_Some_conv)
  have "sets_remake_opts en (request_size r) REQTYPE_DELETE c2 c1 (conf s1)"
    by (rule sign_and_set_opts [OF e]) (use address_spec [OF a] assms(2) in \<open>auto simp: remake_opts_def\<close>)
  then show ?thesis unfolding RDelete request_type_def request.case
    by (rule sets_remake_cong) (use address_spec [OF a] in auto)
next
  case (RPutHead p meta cp)
  let ?h = "\<lambda>c2. put_head_headers en (conf s) p meta cp (c2\<lparr>bodydata := Some []\<rparr>)"
  obtain c2 where a: "address (conf s) p [] c = Some c2" and e: "sign_and_set en ''PUT'' REQTYPE_PUTHEAD
       (\<lambda>c. [O_URL (url c), O_UPLOAD True, O_WRITEDATA Body, O_WRITEFUNCTION WriteMemoryCallback, O_INFILESIZE 0,
             O_HTTPHEADER (requestHeaders c)]) (?h c2) s = Some (c1, s1)"
    using assms(1) RPutHead by (auto simp: put_head_setup_def bind_eq_Some_conv)
  note f = only_fields [OF put_head_headers_only [of "c2\<lparr>bodydata := Some []\<rparr>" en "conf s" p meta cp]]
  have "sets_remake_opts en (request_size r) REQTYPE_PUTHEAD (?h c2) c1 (conf s1)"
    by (rule sign_and_set_opts [OF e]) (use address_spec [OF a] assms(2) f in \<open>auto simp: remake_opts_def\<close>)
  then show ?thesis unfolding RPutHead request_type_def request.case
    by (rule sets_remake_cong) (use address_spec [OF a] f in auto)
next
  case (RPut p meta fd n)
  let ?h = "\<lambda>c2. put_request_headers en s p meta fd (c2\<lparr>bodydata := Some []\<rparr>)"
  obtain c2 where a: "address (conf s) p [] c = Some c2" and e: "sign_and_set en ''PUT'' REQTYPE_PUT
       (\<lambda>c. [O_URL (url c), O_UPLOAD True, O_WRITEDATA Body, O_WRITEFUNCTION WriteMemoryCallback,
             O_HTTPHEADER (requestHeaders c)]
            @ (case b_infile c of Some f \<Rightarrow> [O_INFILESIZE_LARGE n, O_INFILE f] | None \<Rightarrow> [O_INFILESIZE 0]))
       (?h c2) s = Some (c1, s1)"
    using assms(1) RPut by (auto simp: put_setup_def bind_eq_Some_conv)
  note f = only_fields [OF put_request_headers_only [of "c2\<lparr>bodydata := Some []\<rparr>" en s p meta fd]]
  have "sets_remake_opts en (request_size r) REQTYPE_PUT (?h c2) c1 (conf s1)"
    by (rule sign_and_set_opts [OF e])
      (use address_spec [OF a] assms(2) f in \<open>auto simp: remake_opts_def request_size_def RPut split: option.split\<close>)
  then show ?thesis unfolding RPut request_type_def request.case
    by (rule sets_remake_cong) (use address_spec [OF a] f in auto)
next
  case RCheck
  then obtain c2 where a: "address (conf s) ''/'' [] c = Some c2"
    and e: "sign_and_set en ''GET'' REQTYPE_CHKBUCKET get_body_opts (c2\<lparr>bodydata := Some []\<rparr>) s = Some (c1, s1)"
    using assms(1) by (auto simp: check_setup_def bind_eq_Some_conv)
  have "sets_remake_opts en (request_size r) REQTYPE_CHKBUCKET (c2\<lparr>bodydata := Some []\<rparr>) c1 (conf s1)"
    by (rule sign_and_set_opts [OF e]) (use address_spec [OF a] assms(2) in \<open>auto simp: remake_opts_def get_body_opts_def\<close>)
  then show ?thesis unfolding RCheck request_type_def request.case
    by (rule sets_remake_cong) (use address_spec [OF a] in auto)
next
  case (RList p q)
  then obtain u where e: "sign_and_set en ''GET'' REQTYPE_LISTBUCKET get_body_opts
       (c\<lparr>query_string := (case q of Some q \<Rightarrow> q | None \<Rightarrow> query_string c), url := u,
          c_path := get_realpath (conf s) p, requestHeaders := [], responseHeaders := [], bodydata := Some []\<rparr>) s = Some (c1, s1)"
    using assms(1) by (auto simp: list_setup_def bind_eq_Some_conv)
  show ?thesis unfolding RList request_type_def request.case
    by (rule sets_remake_cong [OF sign_and_set_opts [OF e]]) (use assms(2) in \<open>auto simp: remake_opts_def get_body_opts_def\<close>)
next
  case (RPreMulti p meta cp)
  let ?h = "\<lambda>c2. pre_multi_headers en (conf s) p meta cp (c2\<lparr>bodydata := Some []\<rparr>)"
  obtain c2 where a: "address (conf s) p ''?uploads'' (c\<lparr>query_string := ''uploads''\<rparr>) = Some c2"
    and e: "sign_and_set en ''POST'' REQTYPE_PREMULTIPOST
       (\<lambda>c. [O_URL (url c), O_POST True, O_WRITEDATA Body, O_WRITEFUNCTION WriteMemoryCallback, O_POSTFIELDSIZE 0,
             O_HTTPHEADER (requestHeaders c)]) (?h c2) s = Some (c1, s1)"
    using assms(1) RPreMulti by (auto simp: pre_multi_setup_def bind_eq_Some_conv)
  note f = only_fields [OF pre_multi_headers_only [of "c2\<lparr>bodydata := Some []\<rparr>" en "conf s" p meta cp]]
  have "sets_remake_opts en (request_size r) REQTYPE_PREMULTIPOST (?h c2) c1 (conf s1)"
    by (rule sign_and_set_opts [OF e]) (use address_spec [OF a] assms(2) f in \<open>auto simp: remake_opts_def\<close>)
  then show ?thesis unfolding RPreMulti request_type_def request.case
    by (rule sets_remake_cong) (use address_spec [OF a] f in auto)
next
  case (RComplete p uid)
  let ?h = "\<lambda>c2. add_header ''Content-Type'' (LookupMimeType (mime_types en) p) (add_no_header ''Accept'' (c2\<lparr>bodydata := Some []\<rparr>))"
  obtain c2 where a: "address (conf s) p (''?'' @ ''uploadId='' @ uid) (c\<lparr>query_string := ''uploadId='' @ uid\<rparr>) = Some c2"
    and e: "sign_and_set en ''POST'' REQTYPE_COMPLETEMULTIPOST
       (\<lambda>c. [O_URL (url c), O_HTTPHEADER (requestHeaders c), O_POST True, O_WRITEDATA Body,
             O_WRITEFUNCTION WriteMemoryCallback, O_POSTFIELDSIZE (postdata_remaining c), O_READDATA This,
             O_READFUNCTION ReadCallback]) (?h c2) s = Some (c1, s1)"
    using assms(1) RComplete by (auto simp: complete_setup_def bind_eq_Some_conv Let_def)
  have f: "hCurl (?h c2) = hCurl c2" "b_infile (?h c2) = b_infile c2" "b_postdata_remaining (?h c2) = b_postdata_remaining c2"
    "postdata_remaining (?h c2) = postdata_remaining c2" by (simp_all add: add_header_def add_no_header_def)
  have "sets_remake_opts en (request_size r) REQTYPE_COMPLETEMULTIPOST (?h c2) c1 (conf s1)"
    by (rule sign_and_set_opts [OF e]) (use address_spec [OF a] assms(2) f in \<open>auto simp: remake_opts_def\<close>)
  then show ?thesis unfolding RComplete request_type_def request.case
    by (rule sets_remake_cong) (use address_spec [OF a] f in auto)
next
  case RMultiList
  let ?h = "\<lambda>c2. add_no_header ''Accept'' (c2\<lparr>bodydata := Some []\<rparr>)"
  obtain c2 where a: "address (conf s) ''/'' ''?uploads'' (c\<lparr>query_string := ''uploads''\<rparr>) = Some c2"
    and e: "sign_and_set en ''GET'' REQTYPE_MULTILIST get_body_opts (?h c2) s = Some (c1, s1)"
    using assms(1) RMultiList by (auto simp: multi_list_setup_def bind_eq_Some_conv)
  have f: "hCurl (?h c2) = hCurl c2" "b_infile (?h c2) = b_infile c2" "b_postdata_remaining (?h c2) = b_postdata_remaining c2"
    "postdata_remaining (?h c2) = postdata_remaining c2" by (simp_all add: add_no_header_def)
  have "sets_remake_opts en (request_size r) REQTYPE_MULTILIST (?h c2) c1 (conf s1)"
    by (rule sign_and_set_opts [OF e]) (use address_spec [OF a] assms(2) f in \<open>auto simp: remake_opts_def get_body_opts_def\<close>)
  then show ?thesis unfolding RMultiList request_type_def request.case
    by (rule sets_remake_cong) (use address_spec [OF a] f in auto)
next
  case (RAbort p uid)
  then obtain c2 where a: "address (conf s) p (''?'' @ ''uploadId='' @ uid) (c\<lparr>query_string := ''uploadId='' @ uid\<rparr>) = Some c2"
    and e: "sign_and_set en ''DELETE'' REQTYPE_ABORTMULTIUPLOAD
       (\<lambda>c. [O_URL (url c), O_CUSTOMREQUEST ''DELETE'', O_HTTPHEADER (requestHeaders c)]) c2 s = Some (c1, s1)"
    using assms(1) by (auto simp: abort_setup_def bind_eq_Some_conv Let_def)
  have "sets_remake_opts en (request_size r) REQTYPE_ABORTMULTIUPLOAD c2 c1 (conf s1)"
    by (rule sign_and_set_opts [OF e]) (use address_spec [OF a] assms(2) in \<open>auto simp: remake_opts_def\<close>)
  then show ?thesis unfolding RAbort request_type_def request.case
    by (rule sets_remake_cong) (use address_spec [OF a] in auto)
qed

lemma remake_opts_cong:
  "rtype c = rtype c' \<Longrightarrow> url c = url c' \<Longrightarrow> requestHeaders c = requestHeaders c' \<Longrightarrow> b_infile c = b_infile c' \<Longrightarrow>
   postdata_remaining c = postdata_remaining c' \<Longrightarrow> rtype c \<noteq> REQTYPE_UPLOADMULTIPOST \<Longrightarrow>
   remake_opts cf n c = remake_opts cf n c'"
  by (cases "rtype c") (auto simp: remake_opts_def)

lemma AddUserAgent_fields [simp]:
  "url (AddUserAgent cf c) = url c" "requestHeaders (AddUserAgent cf c) = requestHeaders c"
  "b_infile (AddUserAgent cf c) = b_infile c" "b_postdata_remaining (AddUserAgent cf c) = b_postdata_remaining c"
  "url (setopts os c) = url c" "requestHeaders (setopts os c) = requestHeaders c"
  "b_infile (setopts os c) = b_infile c" "b_postdata_remaining (setopts os c) = b_postdata_remaining c"
  by (simp_all add: AddUserAgent_def setopts_def)

lemma AddUserAgent_handle:
  "hCurl (AddUserAgent cf (setopts os c)) =
     map_option (\<lambda>h. h @ os @ (if is_ua cf then [O_USERAGENT (userAgent cf)] else [])) (hCurl c)"
  by (cases "hCurl c") (simp_all add: AddUserAgent_def setopts_def)

lemma request_type_plain:
  "request_type r \<noteq> REQTYPE_UNSET" "request_type r \<noteq> REQTYPE_IAMCRED" "request_type r \<noteq> REQTYPE_IAMROLE"
  "request_type r \<noteq> REQTYPE_UPLOADMULTIPOST"
  by (cases r; simp add: request_type_def)+

lemma reset_opts_plain:
  "t \<noteq> REQTYPE_IAMCRED \<Longrightarrow> t \<noteq> REQTYPE_IAMROLE \<Longrightarrow> reset_opts cf t = reset_opts cf REQTYPE_UNSET"
  by (simp add: reset_opts_def)

text \<open>
  C4: A retry under unchanged settings sends the same request: for every request that takes its handle at once, the
  handle \<open>RemakeHandle\<close> sets up anew has exactly the options of the first try, and the response data starts
  from nothing. (The one retry that changes a setting is the one after \<open>CURLE_SSL_CACERT\<close>, with another CA file.)
\<close>

theorem retry_repeats_setup:
  assumes "setup_of en r c s = Some (c1, s1)" "postdata_remaining c = b_postdata_remaining c"
    and "hCurl c = Some (reset_opts (conf s1) REQTYPE_UNSET)" "same_request c1 c2" "conf s2 = conf s1"
    and "case b_infile c of None \<Rightarrow> True | Some f \<Rightarrow> file_size (lc en) f (cw s2) = Some (request_size r)"
  shows "\<exists>c3 s3. RemakeHandle (lc en) c2 s2 = (True, c3, s3) \<and> hCurl c3 = hCurl c1
    \<and> url c3 = url c1 \<and> requestHeaders c3 = requestHeaders c1 \<and> responseHeaders c3 = [] \<and> LastResponseCode c3 = - 1"
proof -
  from setup_of_opts [OF assms(1,2)] obtain c' os where
    c1: "c1 = AddUserAgent (conf s1) (setopts os c')" and os: "remake_opts (conf s1) (request_size r) c' = Some os"
    and c': "hCurl c' = hCurl c" "rtype c' = request_type r" "b_infile c' = b_infile c" "b_postdata_remaining c' = postdata_remaining c'"
    unfolding sets_remake_opts_def by blast
  let ?c4 = "(rewind_data c2)\<lparr>hCurl := map_option (\<lambda>_. reset_opts (conf s2) (rtype (rewind_data c2))) (hCurl (rewind_data c2))\<rparr>"
    and ?s4 = "s2\<lparr>cw := touch_time (lc en) (cw s2)\<rparr>"
  have c2: "rtype c2 = rtype c'" "url c2 = url c'" "requestHeaders c2 = requestHeaders c'" "b_infile c2 = b_infile c'"
    "b_postdata_remaining c2 = b_postdata_remaining c'" "hCurl c2 = hCurl c1"
    using assms(4) unfolding same_request_def c1 by simp_all
  have h1: "hCurl c1 \<noteq> None" unfolding c1 AddUserAgent_handle c'(1) assms(3) by simp
  have eq: "rtype ?c4 = rtype c'" "url ?c4 = url c'" "requestHeaders ?c4 = requestHeaders c'" "b_infile ?c4 = b_infile c'"
    "postdata_remaining ?c4 = postdata_remaining c'" "responseHeaders ?c4 = []" "LastResponseCode ?c4 = - 1"
    using c2 c'(4) by (simp_all add: rewind_data_def)
  have t: "rtype c2 = request_type r" and i: "b_infile c2 = b_infile c" using c2 c' by simp_all
  have "rtype (rewind_data c2) = request_type r" "hCurl (rewind_data c2) = hCurl c1" using c2 t by (simp_all add: rewind_data_def)
  then have h: "hCurl ?c4 = Some (reset_opts (conf s1) REQTYPE_UNSET)"
    using h1 reset_opts_plain [of "request_type r" "conf s1"] request_type_plain [of r] assms(5) by auto
  have o: "remake_opts (conf s1) n ?c4 = Some os" if "b_infile c \<noteq> None \<longrightarrow> n = request_size r" for n
  proof -
    have "remake_opts (conf s1) n ?c4 = remake_opts (conf s1) n c'"
      by (rule remake_opts_cong) (use eq c'(2) request_type_plain(4) [of r] in simp_all)
    also have "\<dots> = remake_opts (conf s1) (request_size r) c'"
      using that c'(3) by (cases "rtype c'") (auto simp: remake_opts_def split: option.splits)
    finally show ?thesis using os by simp
  qed
  define n where "n = (case b_infile c of None \<Rightarrow> 0 | Some f \<Rightarrow> request_size r)"
  have st: "(case b_infile c2 of None \<Rightarrow> Some 0 | Some f \<Rightarrow> file_size (lc en) f (cw s2)) = Some n"
    using assms(6) by (auto simp: i n_def split: option.splits)
  have rs: "ResetHandle (lc en) (rewind_data c2) s2 = (?c4, ?s4)" by (simp add: ResetHandle_def)
  have on: "remake_opts (conf ?s4) n ?c4 = Some os" using o [of n] assms(5) by (cases "b_infile c") (simp_all add: n_def)
  have "RemakeHandle (lc en) c2 s2 = (True, AddUserAgent (conf ?s4) (setopts os ?c4), ?s4)"
    unfolding RemakeHandle_def Let_def st rs option.case prod.case on
    using t request_type_plain(1) [of r] by simp
  then show ?thesis
  proof (intro exI conjI)
    show "hCurl (AddUserAgent (conf ?s4) (setopts os ?c4)) = hCurl c1"
      unfolding AddUserAgent_handle h c1 c'(1) assms(3) using assms(5) by simp
  qed (use eq c1 in \<open>simp_all add: AddUserAgent_def setopts_def\<close>)
qed

text \<open>An environment that answers every transfer alike and signs without digests, for concrete runs.\<close>

definition plain_renv :: "curlcode \<Rightarrow> int \<Rightarrow> nat renv" where
  "plain_renv code status = \<lparr>lc = fixed_env code status, sign = (\<lambda>w. plain_sign), ctime = (\<lambda>w. 0), ecs_uri = (\<lambda>w. None),
     expire_time = (\<lambda>s. 0), ahbe = (\<lambda>l p. l), mime_types = [], sse_of = (\<lambda>p w. (SSE_DISABLE, [])),
     dup_file = (\<lambda>fd w. (Inr (fd, 0), w)), close_file = (\<lambda>f w. w), content_md5 = (\<lambda>f w. []),
     part_md5 = (\<lambda>f p n w. None), xml_value = (\<lambda>d k. None)\<rparr>"

text \<open>Public bucket \<open>b\<close>: requests are not signed.\<close>

definition plain_state :: "nat cst" where
  "plain_state = \<lparr>conf = initial_conf\<lparr>g_bucket := ''b'', is_public_bucket := True, is_sigv4 := False\<rparr>, cw = 0\<rparr>"

theorem retry_repeats_setup_witness:
  "\<exists>c1 s1 c3 s3. setup_of (plain_renv CURLE_OK 503) (RDelete ''/x'')
      (fst (snd (create_handle (fixed_env CURLE_OK 503) (new_s3curl False) plain_state))) plain_state = Some (c1, s1)
    \<and> RemakeHandle (fixed_env CURLE_OK 503) c1 s1 = (True, c3, s3) \<and> hCurl c3 = hCurl c1
    \<and> O_CUSTOMREQUEST ''DELETE'' \<in> set (the (hCurl c3))"
proof -
  let ?c = "fst (snd (create_handle (fixed_env CURLE_OK 503) (new_s3curl False) plain_state))"
  define r where "r = the (setup_of (plain_renv CURLE_OK 503) (RDelete ''/x'') ?c plain_state)"
  obtain c1 s1 where r1: "r = (c1, s1)" by (cases r)
  have e: "setup_of (plain_renv CURLE_OK 503) (RDelete ''/x'') ?c plain_state = Some r"
    "conf (snd r) = conf plain_state" "O_CUSTOMREQUEST ''DELETE'' \<in> set (the (hCurl (fst r)))" "b_infile ?c = None"
    "postdata_remaining ?c = b_postdata_remaining ?c" "hCurl ?c = Some (reset_opts (conf plain_state) REQTYPE_UNSET)"
    unfolding r_def by code_simp+
  then have s: "setup_of (plain_renv CURLE_OK 503) (RDelete ''/x'') ?c plain_state = Some (c1, s1)" and cf: "conf s1 = conf plain_state"
    using r1 by simp_all
  have l: "lc (plain_renv CURLE_OK 503) = fixed_env CURLE_OK 503" by (simp add: plain_renv_def)
  have "\<exists>c3 s3. RemakeHandle (lc (plain_renv CURLE_OK 503)) c1 s1 = (True, c3, s3) \<and> hCurl c3 = hCurl c1
    \<and> url c3 = url c1 \<and> requestHeaders c3 = requestHeaders c1 \<and> responseHeaders c3 = [] \<and> LastResponseCode c3 = - 1"
    by (rule retry_repeats_setup [OF s]) (use e cf in \<open>simp_all add: same_request_def\<close>)
  with s e(3) r1 show ?thesis unfolding l by auto
qed

end
