(* ===== verification/Curl_Multipart.thy ===== *)
theory Curl_Multipart
  imports Curl_Object
begin

text \<open>
  Uploads in parts, \<open>protocols/s3/curl.cpp\<close>: setting up, sending and finishing one part, and the requests
  that send the parts of a file one after the other. The list of the parts' tags is shared by pointer in the
  code; here it is passed along.
\<close>

section \<open>Parts of a file\<close>

text \<open>
  The loops over a file in parts of at most \<open>m\<close> bytes: start and length of each part. The sizes the program
  uses are positive (\<open>SetMultipartSize\<close>), for others the loop would not end.
\<close>

function chunks :: "int \<Rightarrow> int \<Rightarrow> int \<Rightarrow> (int \<times> int) list" where
  "chunks m tot remaining =
     (if remaining \<le> 0 \<or> m \<le> 0 then []
      else (let chunk = (if m < remaining then m else remaining)
            in (tot - remaining, chunk) # chunks m tot (remaining - chunk)))"
  by pat_completeness auto
termination by (relation "measure (\<lambda>(m, tot, remaining). nat remaining)") (auto split: if_splits)

declare chunks.simps [simp del]

definition file_chunks :: "int \<Rightarrow> int \<Rightarrow> (int \<times> int) list" where
  "file_chunks m tot = chunks m tot tot"

lemma chunks_cover:
  assumes "0 < m" "remaining \<le> tot"
  shows "concat (map (\<lambda>(st, n). [st..st + n - 1]) (chunks m tot remaining)) = [tot - remaining..tot - 1]
    \<and> (\<forall>(st, n) \<in> set (chunks m tot remaining). 0 < n \<and> n \<le> m \<and> tot - remaining \<le> st \<and> st + n \<le> tot)"
  using assms
proof (induction m tot remaining rule: chunks.induct)
  case (1 m tot remaining)
  show ?case
  proof (cases "remaining \<le> 0")
    case True
    then show ?thesis by (simp add: chunks.simps)
  next
    case False
    define k where "k = (if m < remaining then m else remaining)"
    have k: "0 < k" "k \<le> m" "k \<le> remaining" using False 1(2) by (auto simp: k_def)
    have e: "chunks m tot remaining = (tot - remaining, k) # chunks m tot (remaining - k)"
      using False 1(2) by (subst chunks.simps) (simp add: Let_def k_def)
    have IH: "concat (map (\<lambda>(st, n). [st..st + n - 1]) (chunks m tot (remaining - k))) = [tot - (remaining - k)..tot - 1]
      \<and> (\<forall>(st, n) \<in> set (chunks m tot (remaining - k)). 0 < n \<and> n \<le> m \<and> tot - (remaining - k) \<le> st \<and> st + n \<le> tot)"
      by (rule 1(1) [OF _ k_def]) (use False 1 k in auto)
    have s: "[tot - remaining..tot - remaining + k - 1] @ [tot - (remaining - k)..tot - 1] = [tot - remaining..tot - 1]"
      using upto_split1 [of "tot - remaining" "tot - (remaining - k)" "tot - 1"] k
      by (cases "k = remaining") (auto simp: algebra_simps)
    show ?thesis unfolding e
    proof
      show "concat (map (\<lambda>(st, n). [st..st + n - 1]) ((tot - remaining, k) # chunks m tot (remaining - k))) = [tot - remaining..tot - 1]"
        by (simp only: list.map concat.simps prod.case conjunct1 [OF IH] s)
      show "\<forall>(st, n) \<in> set ((tot - remaining, k) # chunks m tot (remaining - k)). 0 < n \<and> n \<le> m \<and> tot - remaining \<le> st \<and> st + n \<le> tot"
        using conjunct2 [OF IH] k 1(3) by fastforce
    qed
  qed
qed

section \<open>One part\<close>

text \<open>Setting up a part: with \<open>is_content_md5\<close> its digest is its expected tag.\<close>

definition part_headers :: "cconf \<Rightarrow> bytes option \<Rightarrow> s3curl \<Rightarrow> s3curl" where
  "part_headers cf md5 c =
     (let c1 = (case md5 of
            Some d \<Rightarrow> add_header ''Content-MD5'' (case s3fs_base64 (Some d) of Some b \<Rightarrow> b | None \<Rightarrow> []) c
          | None \<Rightarrow> c);
          c2 = (if ssetype cf = SSE_C then snd (AddSseRequestHead cf SSE_C [] False False c1) else c1)
      in add_no_header ''Accept'' c2)"

definition part_query :: "int \<Rightarrow> string \<Rightarrow> string" where
  "part_query n uid = ''partNumber='' @ str n @ ''&uploadId='' @ uid"

definition UploadMultipartPostSetup ::
  "'w renv \<Rightarrow> string \<Rightarrow> int \<Rightarrow> string \<Rightarrow> s3curl \<Rightarrow> 'w cst \<Rightarrow> (int \<times> s3curl \<times> 'w cst) option" where
  "UploadMultipartPostSetup en tpath part_num uid c s =
     (let p = partdata c in
      if fp_fd p = - 1 \<or> startpos p = - 1 \<or> fp_size p = - 1 then Some (- 1, c, s)
      else
        (let md5 = (if is_content_md5 (conf s) then part_md5 en (fp_fd p) (startpos p) (fp_size p) (cw s) else None)
         in if is_content_md5 (conf s) \<and> md5 = None then Some (- 1, c\<lparr>requestHeaders := []\<rparr>, s)
            else do {
              c1 \<leftarrow> address (conf s) tpath (''?'' @ part_query part_num uid) (c\<lparr>query_string := part_query part_num uid\<rparr>);
              (c2, s2) \<leftarrow> insertAuthHeaders en
                ((part_headers (conf s) md5
                    (c1\<lparr>partdata := p\<lparr>etag := (case md5 of Some d \<Rightarrow> s3fs_hex d | None \<Rightarrow> etag p)\<rparr>,
                        bodydata := Some [], headdata := Some []\<rparr>))\<lparr>op := ''PUT'', rtype := REQTYPE_UPLOADMULTIPOST\<rparr>) s;
              Some (0, c2\<lparr>fpLazySetup := Some UploadMultipartPost\<rparr>, s2)
            }))"

text \<open>A tag goes to its place of the list; a place that is not there throws.\<close>

definition put_tag :: "string list \<Rightarrow> int \<Rightarrow> string \<Rightarrow> string list option" where
  "put_tag list pos tag = (if 0 \<le> pos \<and> pos < int (length list) then Some (list[nat pos := tag]) else None)"

definition UploadMultipartPostComplete :: "cconf \<Rightarrow> string list \<Rightarrow> s3curl \<Rightarrow> (bool \<times> string list \<times> s3curl) option" where
  "UploadMultipartPostComplete cf list c =
     (case hd_find ''ETag'' (responseHeaders c) of
        None \<Rightarrow> Some (False, list, c)
      | Some tag \<Rightarrow>
          if is_content_md5 cf \<and> ssetype cf \<noteq> SSE_C \<and> ssetype cf \<noteq> SSE_KMS \<and> \<not> etag_equals tag (etag (partdata c))
          then Some (False, list, c)
          else map_option (\<lambda>l. (True, l, c\<lparr>partdata := (partdata c)\<lparr>uploaded := True\<rparr>\<rparr>))
                 (put_tag list (etagpos (partdata c)) tag))"

text \<open>The result of a part whose tag is missing or wrong is 1.\<close>

definition UploadMultipartPostRequest ::
  "'w renv \<Rightarrow> string \<Rightarrow> int \<Rightarrow> string \<Rightarrow> string list \<Rightarrow> s3curl \<Rightarrow> 'w cst \<Rightarrow> (int \<times> string list \<times> s3curl \<times> 'w cst) option" where
  "UploadMultipartPostRequest en tpath part_num uid list c s = do {
     (r, c1, s1) \<leftarrow> UploadMultipartPostSetup en tpath part_num uid c s;
     if r \<noteq> 0 then Some (r, list, c1, s1)
     else case run_lazy (lc en) c1 s1 of
       (False, c2, s2) \<Rightarrow> Some (- 1, list, c2, s2)
     | (True, c2, s2) \<Rightarrow> do {
         (r, c3, s3) \<leftarrow> perform_request en c2 s2;
         (r, list, c4) \<leftarrow> (if r = 0 then map_option (\<lambda>(ok, l, c). (if ok then 0 else 1, l, c)) (UploadMultipartPostComplete (conf s3) list c3)
                           else Some (r, list, c3));
         Some (r, list, c4\<lparr>bodydata := None, headdata := None\<rparr>, s3)
       }
   }"

definition copy_meta :: "string \<times> string \<Rightarrow> s3curl \<Rightarrow> s3curl" where
  "copy_meta h c =
     (if lower (fst h) \<in> {''content-type'', ''x-amz-copy-source'', ''x-amz-copy-source-range''}
      then add_header (fst h) (snd h) c else c)"

definition CopyMultipartPostSetup ::
  "'w renv \<Rightarrow> string option \<Rightarrow> string option \<Rightarrow> int \<Rightarrow> string \<Rightarrow> headers \<Rightarrow> s3curl \<Rightarrow> 'w cst
     \<Rightarrow> (int \<times> s3curl \<times> 'w cst) option" where
  "CopyMultipartPostSetup en src dst part_num uid meta c s =
     (case (src, dst) of
        (Some _, Some p) \<Rightarrow> do {
          c1 \<leftarrow> address (conf s) p (''?'' @ part_query part_num uid) (c\<lparr>query_string := part_query part_num uid\<rparr>);
          (c2, s2) \<leftarrow> insertAuthHeaders en
            ((fold copy_meta meta (c1\<lparr>bodydata := Some [], headdata := Some []\<rparr>))\<lparr>op := ''PUT'', rtype := REQTYPE_COPYMULTIPOST\<rparr>) s;
          Some (0, c2\<lparr>fpLazySetup := Some CopyMultipartPost\<rparr>, s2)
        }
      | _ \<Rightarrow> Some (- 1, c, s))"

text \<open>The tag of a copied part comes from the body of the response; without one it is empty.\<close>

definition CopyMultipartPostComplete :: "'w renv \<Rightarrow> string list \<Rightarrow> s3curl \<Rightarrow> (bool \<times> string list \<times> s3curl) option" where
  "CopyMultipartPostComplete en list c =
     (let found = xml_value en (case bodydata c of Some b \<Rightarrow> b | None \<Rightarrow> []) ''ETag'';
          tag = unquote (case found of Some t \<Rightarrow> t | None \<Rightarrow> [])
      in map_option (\<lambda>l. (True, l, c\<lparr>partdata := (partdata c)\<lparr>uploaded := (found \<noteq> None)\<rparr>, bodydata := None, headdata := None\<rparr>))
           (put_tag list (etagpos (partdata c)) tag))"

section \<open>Parts one after the other\<close>

definition destroy :: "'w renv \<Rightarrow> s3curl \<Rightarrow> 'w cst \<Rightarrow> s3curl \<times> 'w cst" where
  "destroy en c s = destroy_handle (lc en) c s"

text \<open>Bytes of a copy that a part may have.\<close>

definition MAX_MULTI_COPY_SOURCE_SIZE :: int where
  "MAX_MULTI_COPY_SOURCE_SIZE = 512 * 1024 * 1024"

definition copy_range :: "int \<times> int \<Rightarrow> string" where
  "copy_range x = (case x of (st, n) \<Rightarrow> ''bytes='' @ str st @ ''-'' @ str (st + n - 1))"

text \<open>The parts of \<open>MultipartHeadRequest\<close> are set up and never sent.\<close>

fun head_parts ::
  "'w renv \<Rightarrow> string option \<Rightarrow> string \<Rightarrow> (int \<times> int) list \<Rightarrow> headers \<Rightarrow> string list \<Rightarrow> s3curl \<Rightarrow> 'w cst
     \<Rightarrow> (int \<times> headers \<times> string list \<times> s3curl \<times> 'w cst) option" where
  "head_parts en p uid [] meta list c s = Some (0, meta, list, c, s)"
| "head_parts en p uid (x # xs) meta list c s = do {
     let meta1 = hd_set ''x-amz-copy-source-range'' (copy_range x) meta;
     (r, c1, s1) \<leftarrow> CopyMultipartPostSetup en p p (int (length list) + 1) uid meta1 c s;
     if r \<noteq> 0 then Some (r, meta1, list, c1, s1)
     else (case destroy en c1 s1 of
       (c2, s2) \<Rightarrow> head_parts en p uid xs meta1 (list @ [etag (partdata c1)]) c2 s2)
   }"

definition MultipartHeadRequest ::
  "'w renv \<Rightarrow> string option \<Rightarrow> int \<Rightarrow> headers \<Rightarrow> bool \<Rightarrow> s3curl \<Rightarrow> 'w cst \<Rightarrow> (int \<times> headers \<times> s3curl \<times> 'w cst) option" where
  "MultipartHeadRequest en tpath sz meta is_copy c s = do {
     (r, uid, c1, s1) \<leftarrow> PreMultipartPostRequest en tpath meta is_copy c s;
     if r \<noteq> 0 then Some (r, meta, c1, s1)
     else (case destroy en c1 s1 of (c2, s2) \<Rightarrow> do {
       (r, meta1, list, c3, s3) \<leftarrow> head_parts en tpath uid (file_chunks MAX_MULTI_COPY_SOURCE_SIZE sz) meta [] c2 s2;
       if r \<noteq> 0 then Some (r, meta1, c3, s3)
       else do {
         (r, c4, s4) \<leftarrow> CompleteMultipartPostRequest en tpath uid list c3 s3;
         Some (r, meta1, c4, s4)
       }
     })
   }"

text \<open>A part of a file, put on the list.\<close>

definition set_part :: "int \<Rightarrow> int \<times> int \<Rightarrow> string list \<Rightarrow> s3curl \<Rightarrow> string list \<times> s3curl" where
  "set_part fd x list c =
     (case x of (st, n) \<Rightarrow>
        (case add_etag_list list ((partdata c)\<lparr>fp_fd := fd, startpos := st, fp_size := n\<rparr>) of
           (list1, p) \<Rightarrow> (list1, c\<lparr>partdata := p, b_partdata_startpos := st, b_partdata_size := n\<rparr>)))"

fun upload_parts ::
  "'w renv \<Rightarrow> string \<Rightarrow> string \<Rightarrow> int \<Rightarrow> (int \<times> int) list \<Rightarrow> string list \<Rightarrow> s3curl \<Rightarrow> 'w cst
     \<Rightarrow> (int \<times> string list \<times> s3curl \<times> 'w cst) option" where
  "upload_parts en p uid fd [] list c s = Some (0, list, c, s)"
| "upload_parts en p uid fd (x # xs) list c s =
     (case set_part fd x list c of (list1, c1) \<Rightarrow> do {
        (r, list2, c2, s2) \<leftarrow> UploadMultipartPostRequest en p (int (length list1)) uid list1 c1 s;
        if r \<noteq> 0 then Some (r, list2, c2, s2)
        else (case destroy en c2 s2 of (c3, s3) \<Rightarrow> upload_parts en p uid fd xs list2 c3 s3)
      })"

definition close_fd2 :: "'w renv \<Rightarrow> int \<Rightarrow> 'w cst \<Rightarrow> 'w cst" where
  "close_fd2 en fd s = s\<lparr>cw := close_file en fd (cw s)\<rparr>"

definition MultipartUploadRequest ::
  "'w renv \<Rightarrow> string option \<Rightarrow> headers \<Rightarrow> int \<Rightarrow> bool \<Rightarrow> s3curl \<Rightarrow> 'w cst \<Rightarrow> 'w result" where
  "MultipartUploadRequest en tpath meta fd is_copy c s =
     (case dup_file en fd (cw s) of
        (Inl errno, w) \<Rightarrow> Some (- errno, c, s\<lparr>cw := w\<rparr>)
      | (Inr (fd2, n), w) \<Rightarrow> do {
          (r, uid, c1, s1) \<leftarrow> PreMultipartPostRequest en tpath meta is_copy c (s\<lparr>cw := w\<rparr>);
          if r \<noteq> 0 then Some (r, c1, close_fd2 en fd2 s1)
          else (case destroy en c1 s1 of (c2, s2) \<Rightarrow> do {
            (r, list, c3, s3) \<leftarrow> upload_parts en (the tpath) uid fd2 (file_chunks (c_multipart_size (conf s2)) n) [] c2 s2;
            if r \<noteq> 0 then Some (r, c3, close_fd2 en fd2 s3)
            else CompleteMultipartPostRequest en tpath uid list c3 (close_fd2 en fd2 s3)
          })
        })"

text \<open>The request of the file cache for one part of an upload it has begun.\<close>

definition MultipartUploadPart ::
  "'w renv \<Rightarrow> string \<Rightarrow> string \<Rightarrow> int \<Rightarrow> int \<Rightarrow> int \<Rightarrow> string list \<Rightarrow> s3curl \<Rightarrow> 'w cst
     \<Rightarrow> (int \<times> string list \<times> s3curl \<times> 'w cst) option" where
  "MultipartUploadPart en uid tpath fd offs sz list c s =
     (case dup_file en fd (cw s) of
        (Inl errno, w) \<Rightarrow> Some (- errno, list, c, s\<lparr>cw := w\<rparr>)
      | (Inr (fd2, n), w) \<Rightarrow>
          (case set_part fd2 (offs, sz) list c of (list1, c1) \<Rightarrow> do {
             (r, list2, c2, s2) \<leftarrow> UploadMultipartPostRequest en tpath (int (length list1)) uid list1 c1 (s\<lparr>cw := w\<rparr>);
             if r \<noteq> 0 then Some (r, list2, c2, close_fd2 en fd2 s2)
             else (case destroy en c2 s2 of (c3, s3) \<Rightarrow> Some (0, list2, c3, close_fd2 en fd2 s3))
           }))"

section \<open>What a transfer leaves alone\<close>

text \<open>
  The callbacks of a transfer change neither the place of the tag nor what is kept for a retry, and do not
  count it back; requests do not change the part size and the number of retries.
\<close>

definition keeps_upload :: "s3curl \<Rightarrow> s3curl \<Rightarrow> bool" where
  "keeps_upload c c' \<longleftrightarrow> etagpos (partdata c') = etagpos (partdata c) \<and> b_postdata c' = b_postdata c
     \<and> retry_count c \<le> retry_count c'"

definition callbacks_keep :: "'w cenv \<Rightarrow> bool" where
  "callbacks_keep en \<longleftrightarrow> (\<forall>c w. keeps_upload c (fst (snd (perform en c w))))"

definition same_size :: "'w cst \<Rightarrow> 'w cst \<Rightarrow> bool" where
  "same_size s s' \<longleftrightarrow> c_multipart_size (conf s') = c_multipart_size (conf s) \<and> retries (conf s') = retries (conf s)"

lemma keeps_upload_refl [simp]: "keeps_upload c c"
  by (simp add: keeps_upload_def)

lemma keeps_upload_trans: "keeps_upload a b \<Longrightarrow> keeps_upload b c \<Longrightarrow> keeps_upload a c"
  by (simp add: keeps_upload_def)

lemma same_size_refl [simp]: "same_size s s" "same_size s (s\<lparr>cw := w\<rparr>)"
  by (simp_all add: same_size_def)

lemma same_size_trans: "same_size a b \<Longrightarrow> same_size b c \<Longrightarrow> same_size a c"
  by (simp add: same_size_def)

lemma setopts_keeps [simp]: "keeps_upload c (setopts os c)" "keeps_upload c (AddUserAgent cf c)"
  by (simp_all add: keeps_upload_def setopts_def AddUserAgent_def)

lemma AddUserAgent_keeps [simp]: "keeps_upload c a \<Longrightarrow> keeps_upload c (AddUserAgent cf (setopts os a))"
  by (simp add: keeps_upload_def setopts_def AddUserAgent_def)

lemma LocateBundle_size: "LocateBundle en s = (ok, s1) \<Longrightarrow> same_size s s1"
  by (auto simp: LocateBundle_def Let_def same_size_def split: if_splits option.splits)

lemma check_result_keeps:
  assumes "check_result en code c s = (x, c1, s1)"
  shows "keeps_upload c c1 \<and> same_size s s1"
  using assms
  by (cases code; clarsimp simp: check_result_def Let_def keeps_upload_def
        split: option.splits if_splits prod.splits dest!: LocateBundle_size)

lemma RemakeHandle_keeps:
  assumes "RemakeHandle en c s = (ok, c1, s1)"
  shows "keeps_upload c c1 \<and> same_size s s1"
  using assms
  by (auto simp: RemakeHandle_def ResetHandle_def rewind_data_def Let_def keeps_upload_def same_size_def
        AddUserAgent_def setopts_def split: option.splits if_splits)

lemma perform_loop_keeps:
  assumes "callbacks_keep en" "perform_loop en n c s = (r, c1, s1)"
  shows "keeps_upload c c1 \<and> same_size s s1"
  using assms(2)
proof (induction n arbitrary: c s)
  case (Suc n)
  obtain code c2 w2 where p: "perform en c (cw s) = (code, c2, w2)" by (cases "perform en c (cw s)")
  obtain x c3 s3 where k: "check_result en code c2 (s\<lparr>cw := w2\<rparr>) = (x, c3, s3)"
    by (cases "check_result en code c2 (s\<lparr>cw := w2\<rparr>)")
  obtain ok c4 s4 where m: "RemakeHandle en c3 s3 = (ok, c4, s4)" by (cases "RemakeHandle en c3 s3")
  have 1: "keeps_upload c c2" using assms(1) p unfolding callbacks_keep_def by (metis fst_conv snd_conv)
  have 2: "keeps_upload c c3 \<and> same_size s s3"
    using check_result_keeps [OF k] 1 keeps_upload_trans by (auto simp: same_size_def)
  have 3: "keeps_upload c c4 \<and> same_size s s4"
    using RemakeHandle_keeps [OF m] 2 keeps_upload_trans same_size_trans by blast
  show ?case using Suc.prems Suc.IH [of c4 s4] p k m 2 3
    by (cases x; cases ok) (auto intro: keeps_upload_trans same_size_trans)
qed simp

lemma perform_request_keeps:
  "callbacks_keep (lc en) \<Longrightarrow> perform_request en c s = Some (r, c1, s1) \<Longrightarrow> keeps_upload c c1 \<and> same_size s s1"
  by (auto simp: perform_request_def RequestPerform_def dest: perform_loop_keeps)

lemma create_handle_keeps:
  "create_handle en c s = (ok, c1, s1) \<Longrightarrow> keeps_upload c c1 \<and> same_size s s1"
  by (auto simp: create_handle_def CreateCurlHandle_def ResetHandle_def Let_def keeps_upload_def same_size_def
        split: if_splits prod.splits)

lemma run_lazy_keeps:
  "run_lazy en c s = (ok, c1, s1) \<Longrightarrow> keeps_upload c c1 \<and> same_size s s1"
  by (auto simp: run_lazy_def split: option.splits prod.splits bool.splits dest!: create_handle_keeps)

lemma only_headers_keeps: "only_headers c c' \<Longrightarrow> keeps_upload c c'"
  by (auto simp: only_headers_def keeps_upload_def)

lemma destroy_handle_size: "same_size s (snd (destroy_handle en c s))"
  by (simp add: destroy_handle_def DestroyCurlHandle_def Let_def)

lemma SetIAMCredentials_size: "SetIAMCredentials f r cf = (ok, cf') \<Longrightarrow>
   c_multipart_size cf' = c_multipart_size cf \<and> retries cf' = retries cf"
  by (auto simp: SetIAMCredentials_def Let_def split: option.splits if_splits)

lemma iam_setup_keeps: "etagpos (partdata (iam_setup cf u c)) = etagpos (partdata c)"
  by (simp add: iam_setup_def Let_def AddUserAgent_def setopts_def add_header_def)

lemma GetIAMCredentials_size:
  assumes "callbacks_keep (lc en)" "GetIAMCredentials en c s = Some (r, c1, s1)"
  shows "same_size s s1"
  using assms(2)
  by (auto simp: GetIAMCredentials_def bind_eq_Some_conv same_size_def Let_def split: if_splits prod.splits bool.splits
        dest!: create_handle_keeps perform_request_keeps [OF assms(1)] SetIAMCredentials_size)

lemma CheckIAM_size:
  assumes "callbacks_keep (lc en)" "CheckIAMCredentialUpdate en s = Some (ok, s1)"
  shows "same_size s s1"
  using assms(2) same_size_trans [OF GetIAMCredentials_size [OF assms(1)] destroy_handle_size]
  by (auto simp: CheckIAMCredentialUpdate_def bind_eq_Some_conv split: if_splits)

lemma insertAuth_size:
  assumes "callbacks_keep (lc en)" "insertAuthHeaders en c s = Some (c1, s1)"
  shows "same_size s s1"
  using assms(2) CheckIAM_size [OF assms(1)]
  by (auto simp: insertAuthHeaders_def bind_eq_Some_conv split: if_splits)

lemma sign_and_set_keeps:
  assumes "callbacks_keep (lc en)" "sign_and_set en oper t opts c s = Some (c1, s1)"
  shows "keeps_upload c c1 \<and> same_size s s1"
proof -
  obtain c' where "insertAuthHeaders en (c\<lparr>op := oper, rtype := t\<rparr>) s = Some (c', s1)"
    and c1: "c1 = AddUserAgent (conf s1) (setopts (opts c') c')"
    using assms(2) by (auto simp: sign_and_set_def bind_eq_Some_conv)
  then have "keeps_upload (c\<lparr>op := oper, rtype := t\<rparr>) c'" "same_size s s1"
    using insertAuth_only only_headers_keeps insertAuth_size [OF assms(1)] by blast+
  then show ?thesis by (auto simp: c1 keeps_upload_def AddUserAgent_def setopts_def)
qed

lemma pre_multi_setup_size:
  assumes "callbacks_keep (lc en)" "pre_multi_setup en p meta cp c s = Some (c1, s1)"
  shows "same_size s s1"
  using assms(2) sign_and_set_keeps [OF assms(1)] by (auto simp: pre_multi_setup_def bind_eq_Some_conv)

lemma PreMultipart_size:
  assumes "callbacks_keep (lc en)" "PreMultipartPostRequest en tpath meta cp c s = Some (r, uid, c1, s1)"
  shows "same_size s s1"
proof (cases tpath)
  case None
  then show ?thesis using assms(2) by (simp add: PreMultipartPostRequest_def)
next
  case (Some p)
  obtain ok c2 s2 where h: "create_handle (lc en) c s = (ok, c2, s2)" by (cases "create_handle (lc en) c s")
  have 1: "same_size s s2" using create_handle_keeps [OF h] by simp
  show ?thesis
  proof (cases ok)
    case False
    then show ?thesis using assms(2) h 1 by (simp add: PreMultipartPostRequest_def Some)
  next
    case True
    then obtain c3 s3 r4 c4 s4 where e: "pre_multi_setup en p meta cp c2 s2 = Some (c3, s3)"
      "perform_request en c3 s3 = Some (r4, c4, s4)" and s1: "s1 = s4"
      using assms(2) h by (auto simp: PreMultipartPostRequest_def Some bind_eq_Some_conv split: if_splits option.splits)
    show ?thesis unfolding s1
      using 1 pre_multi_setup_size [OF assms(1) e(1)] perform_request_keeps [OF assms(1) e(2)] same_size_trans by blast
  qed
qed

lemma address_keeps: "address cf p q c = Some c1 \<Longrightarrow> keeps_upload c c1"
  by (auto simp: address_def keeps_upload_def bind_eq_Some_conv split: prod.splits)

lemma part_headers_only: "only_headers c (part_headers cf md5 c)"
  unfolding part_headers_def Let_def
  by (intro only_headers_add only_headers_if only_headers_trans [OF _ AddSse_only])
     (auto split: option.split intro: only_headers_add)

lemma UploadSetup_keeps:
  assumes "callbacks_keep (lc en)" "UploadMultipartPostSetup en p n uid c s = Some (0, c1, s1)"
  shows "keeps_upload c c1 \<and> same_size s s1"
proof -
  let ?md5 = "if is_content_md5 (conf s) then part_md5 en (fp_fd (partdata c)) (startpos (partdata c)) (fp_size (partdata c)) (cw s)
    else None"
  let ?tag = "case ?md5 of Some d \<Rightarrow> s3fs_hex d | None \<Rightarrow> etag (partdata c)"
  let ?new = "\<lambda>c2. c2\<lparr>partdata := (partdata c)\<lparr>etag := ?tag\<rparr>, bodydata := Some [], headdata := Some []\<rparr>"
  obtain c2 c3 where a: "address (conf s) p (''?'' @ part_query n uid) (c\<lparr>query_string := part_query n uid\<rparr>) = Some c2"
    and i: "insertAuthHeaders en ((part_headers (conf s) ?md5 (?new c2))\<lparr>op := ''PUT'', rtype := REQTYPE_UPLOADMULTIPOST\<rparr>) s = Some (c3, s1)"
    and c1: "c1 = c3\<lparr>fpLazySetup := Some UploadMultipartPost\<rparr>"
    using assms(2) unfolding UploadMultipartPostSetup_def Let_def
    by (auto simp: bind_eq_Some_conv split: if_split_asm)
  note o = only_headers_keeps [OF insertAuth_only [OF i]] only_headers_keeps [OF part_headers_only [of "?new c2" "conf s" ?md5]]
  have "keeps_upload c (?new c2)" using address_keeps [OF a] by (simp add: keeps_upload_def)
  then have "keeps_upload c ((part_headers (conf s) ?md5 (?new c2))\<lparr>op := ''PUT'', rtype := REQTYPE_UPLOADMULTIPOST\<rparr>)"
    using o(2) unfolding keeps_upload_def by simp
  with o(1) insertAuth_size [OF assms(1) i] show ?thesis unfolding c1 keeps_upload_def by simp
qed

text \<open>
  What sending a part is: the request for the range \<open>x\<close> of the file, with the part's number, was set up, sent and
  answered with the tag. The parts of a file are sent one after the other, with numbers that count up,
  each from the state the one before has left.
\<close>

definition file_part :: "int \<Rightarrow> int \<times> int \<Rightarrow> int \<Rightarrow> s3curl \<Rightarrow> s3curl" where
  "file_part fd x k c = c\<lparr>partdata := (partdata c)\<lparr>fp_fd := fd, startpos := fst x, fp_size := snd x, etagpos := k\<rparr>,
     b_partdata_startpos := fst x, b_partdata_size := snd x\<rparr>"

definition part_sent ::
  "'w renv \<Rightarrow> string \<Rightarrow> string \<Rightarrow> int \<Rightarrow> int \<Rightarrow> int \<times> int \<Rightarrow> string \<Rightarrow> s3curl \<times> 'w cst \<Rightarrow> s3curl \<times> 'w cst \<Rightarrow> bool" where
  "part_sent en p uid fd num x tag st st' \<longleftrightarrow> (\<exists>k c1 s1 c2 s2 c3 s3 c4.
     UploadMultipartPostSetup en p num uid (file_part fd x k (fst st)) (snd st) = Some (0, c1, s1)
     \<and> run_lazy (lc en) c1 s1 = (True, c2, s2) \<and> perform_request en c2 s2 = Some (0, c3, s3)
     \<and> hd_find ''ETag'' (responseHeaders c3) = Some tag \<and> st' = destroy en c4 s3)"

inductive parts_sent ::
  "'w renv \<Rightarrow> string \<Rightarrow> string \<Rightarrow> int \<Rightarrow> int \<Rightarrow> (int \<times> int) list \<Rightarrow> string list \<Rightarrow> s3curl \<times> 'w cst \<Rightarrow> s3curl \<times> 'w cst \<Rightarrow> bool"
  for en p uid fd where
  none_sent: "parts_sent en p uid fd num [] [] st st"
| next_sent: "part_sent en p uid fd num x tag st st' \<Longrightarrow> parts_sent en p uid fd (num + 1) xs tags st' st''
    \<Longrightarrow> parts_sent en p uid fd num (x # xs) (tag # tags) st st''"

lemma parts_sent_length: "parts_sent en p uid fd num xs tags st st' \<Longrightarrow> length tags = length xs"
  by (induction rule: parts_sent.induct) simp_all

text \<open>A part that succeeds leaves the tag it was answered with, at its place.\<close>

lemma put_tag_last: "put_tag (list @ [[]]) (int (length list)) tag = Some (list @ [tag])"
  by (simp add: put_tag_def)

lemma UploadComplete_tag:
  assumes "UploadMultipartPostComplete cf (list @ [[]]) c = Some (True, list2, c2)" "etagpos (partdata c) = int (length list)"
  shows "\<exists>tag. list2 = list @ [tag] \<and> hd_find ''ETag'' (responseHeaders c) = Some tag"
  using assms by (auto simp: UploadMultipartPostComplete_def put_tag_last split: option.splits if_splits)

lemma UploadRequest_tag:
  assumes "callbacks_keep (lc en)"
    and "UploadMultipartPostRequest en p n uid (list @ [[]]) (file_part fd x (int (length list)) c) s = Some (0, list2, c2, s2)"
  shows "(\<exists>tag. list2 = list @ [tag] \<and> part_sent en p uid fd n x tag (c, s) (destroy en c2 s2)) \<and> same_size s s2"
proof -
  let ?c = "file_part fd x (int (length list)) c"
  obtain c3 s3 where a: "UploadMultipartPostSetup en p n uid ?c s = Some (0, c3, s3)"
    using assms(2) by (auto simp: UploadMultipartPostRequest_def bind_eq_Some_conv split: if_splits)
  obtain c4 s4 where b: "run_lazy (lc en) c3 s3 = (True, c4, s4)"
    using assms(2) a by (cases "run_lazy (lc en) c3 s3") (auto simp: UploadMultipartPostRequest_def split: bool.splits)
  obtain r c5 s5 where d: "perform_request en c4 s4 = Some (r, c5, s5)"
    by (cases "RequestPerform (lc en) c4 s4") (simp add: perform_request_def)
  have m: "Option.bind (if r = 0 then map_option (\<lambda>(ok, l, c). (if ok then 0 else 1, l, c)) (UploadMultipartPostComplete (conf s5) (list @ [[]]) c5)
      else Some (r, list @ [[]], c5)) (\<lambda>(r, list, c4). Some (r, list, c4\<lparr>bodydata := None, headdata := None\<rparr>, s5)) = Some (0, list2, c2, s2)"
    using assms(2) a b d by (simp add: UploadMultipartPostRequest_def)
  then have s5: "s5 = s2" and r: "r = 0" by (auto simp: bind_eq_Some_conv split: if_split_asm)
  obtain c6 where e: "UploadMultipartPostComplete (conf s5) (list @ [[]]) c5 = Some (True, list2, c6)"
    using m r by (cases "UploadMultipartPostComplete (conf s5) (list @ [[]]) c5") (auto split: if_split_asm prod.splits)
  have k: "keeps_upload ?c c5" "same_size s s2"
    using UploadSetup_keeps [OF assms(1) a] run_lazy_keeps [OF b] perform_request_keeps [OF assms(1) d] s5
    by (blast intro: keeps_upload_trans same_size_trans)+
  then have "etagpos (partdata c5) = int (length list)" by (simp add: keeps_upload_def file_part_def)
  from UploadComplete_tag [OF e this] obtain tag where t: "list2 = list @ [tag]" "hd_find ''ETag'' (responseHeaders c5) = Some tag"
    by blast
  have "part_sent en p uid fd n x tag (c, s) (destroy en c2 s2)"
    unfolding part_sent_def fst_conv snd_conv using a b d t(2) r s5 by blast
  then show ?thesis using t(1) k(2) by blast
qed

lemma upload_parts_sent:
  assumes "callbacks_keep (lc en)" "upload_parts en p uid fd xs list c s = Some (0, list2, c2, s2)"
  shows "\<exists>tags. list2 = list @ tags \<and> parts_sent en p uid fd (int (length list) + 1) xs tags (c, s) (c2, s2)"
  using assms(2)
proof (induction xs arbitrary: list c s)
  case Nil
  then show ?case by (auto intro: none_sent)
next
  case (Cons x xs)
  let ?c = "file_part fd x (int (length list)) c"
  have sp: "set_part fd x list c = (list @ [[]], ?c)"
    by (cases x) (simp add: set_part_def add_etag_list_def file_part_def)
  obtain l3 c3 s3 where u: "UploadMultipartPostRequest en p (int (length (list @ [[]]))) uid (list @ [[]]) ?c s = Some (0, l3, c3, s3)"
    and rest: "upload_parts en p uid fd xs l3 (fst (destroy en c3 s3)) (snd (destroy en c3 s3)) = Some (0, list2, c2, s2)"
    using Cons.prems by (auto simp: sp bind_eq_Some_conv case_prod_beta split: if_splits)
  from UploadRequest_tag [OF assms(1) u] obtain tag where
    t: "l3 = list @ [tag]" "part_sent en p uid fd (int (length (list @ [[]]))) x tag (c, s) (destroy en c3 s3)" by blast
  from Cons.IH [OF rest] obtain tags where g: "list2 = l3 @ tags"
    "parts_sent en p uid fd (int (length l3) + 1) xs tags (destroy en c3 s3) (c2, s2)" by auto
  have "parts_sent en p uid fd (int (length list) + 1) (x # xs) (tag # tags) (c, s) (c2, s2)"
    using t g(2) by (intro next_sent [of _ _ _ _ _ _ _ _ "destroy en c3 s3"]) (simp_all add: ac_simps)
  then show ?case using t(1) g(1) by auto
qed

lemma with_handle_Some:
  assumes "with_handle en (Some p) c s k = Some (0, c2, s2)"
  shows "\<exists>c1 s1. create_handle (lc en) c s = (True, c1, s1) \<and> k p c1 s1 = Some (0, c2, s2)"
proof -
  obtain ok c1 s1 where h: "create_handle (lc en) c s = (ok, c1, s1)" by (cases "create_handle (lc en) c s")
  with assms show ?thesis by (cases ok) (auto simp: with_handle_def)
qed

lemma Complete_posts:
  assumes "callbacks_keep (lc en)" "CompleteMultipartPostRequest en tpath uid parts c s = Some (0, c1, s1)"
  shows "[] \<notin> set parts \<and> b_postdata c1 = Some (complete_content parts)"
proof -
  have n: "tpath \<noteq> None" "[] \<notin> set parts"
    using assms(2) by (auto simp: CompleteMultipartPostRequest_def split: if_splits)
  then obtain p where p: "tpath = Some p" by auto
  let ?n = "int (length (complete_content parts))"
  let ?c = "c\<lparr>postdata := Some (complete_content parts), b_postdata := Some (complete_content parts),
      postdata_remaining := ?n, b_postdata_remaining := ?n\<rparr>"
  obtain c2 s2 c3 s3 c4 where h: "create_handle (lc en) ?c s = (True, c2, s2)"
    and u: "complete_setup en p uid c2 s2 = Some (c3, s3)" and r: "perform_request en c3 s3 = Some (0, c4, s1)"
    and c1: "c1 = c4\<lparr>bodydata := None, postdata := None\<rparr>"
    using assms(2) n p by (auto simp: CompleteMultipartPostRequest_def Let_def bind_eq_Some_conv dest!: with_handle_Some)
  obtain c5 c6 where a: "address (conf s2) p c6 (c2\<lparr>query_string := ''uploadId='' @ uid\<rparr>) = Some c5"
    and g: "sign_and_set en ''POST'' REQTYPE_COMPLETEMULTIPOST
       (\<lambda>c. [O_URL (url c), O_HTTPHEADER (requestHeaders c), O_POST True, O_WRITEDATA Body,
             O_WRITEFUNCTION WriteMemoryCallback, O_POSTFIELDSIZE (postdata_remaining c), O_READDATA This,
             O_READFUNCTION ReadCallback])
       (add_header ''Content-Type'' (LookupMimeType (mime_types en) p) (add_no_header ''Accept'' (c5\<lparr>bodydata := Some []\<rparr>))) s2 = Some (c3, s3)"
    using u by (auto simp: complete_setup_def bind_eq_Some_conv Let_def)
  have "b_postdata c1 = b_postdata ?c"
    using create_handle_keeps [OF h] address_keeps [OF a] sign_and_set_keeps [OF assms(1) g] perform_request_keeps [OF assms(1) r]
    by (simp add: c1 keeps_upload_def add_header_def add_no_header_def)
  then show ?thesis using n by simp
qed

section \<open>Properties\<close>

text \<open>C33: The parts of a file cover every byte once, in order, and none is empty or longer than the part size.\<close>

theorem file_chunks_cover:
  assumes "0 < m" "0 \<le> n"
  shows "concat (map (\<lambda>(st, k). [st..st + k - 1]) (file_chunks m n)) = [0..n - 1]
    \<and> (\<forall>(st, k) \<in> set (file_chunks m n). 0 < k \<and> k \<le> m)"
  using chunks_cover [OF assms(1), of n n] by (fastforce simp: file_chunks_def)

theorem file_chunks_cover_witness:
  "file_chunks 10 25 = [(0, 10), (10, 10), (20, 5)]
   \<and> concat (map (\<lambda>(st, k). [st..st + k - 1]) (file_chunks 10 25)) = [0..24]"
  using file_chunks_cover [of 10 25] by (simp add: file_chunks_def chunks.simps)

text \<open>
  C2: An upload in parts that succeeds has sent every part of the file, in order and with the numbers from 1 on, in
  the upload its first request has opened, and is finished with the list of the tags these requests were answered with,
  the tag of the \<open>k\<close>-th part at the \<open>k\<close>-th place, none of them empty.
\<close>

theorem MultipartUpload_completes_all_parts:
  assumes "callbacks_keep (lc en)" "dup_file en fd (cw s) = (Inr (fd2, n), w)"
    and "MultipartUploadRequest en (Some p) meta fd cp c s = Some (0, c', s')"
  shows "\<exists>uid c1 s1 tags st. PreMultipartPostRequest en (Some p) meta cp c (s\<lparr>cw := w\<rparr>) = Some (0, uid, c1, s1)
    \<and> parts_sent en p uid fd2 1 (file_chunks (c_multipart_size (conf s)) n) tags (destroy en c1 s1) st
    \<and> length tags = length (file_chunks (c_multipart_size (conf s)) n) \<and> [] \<notin> set tags
    \<and> b_postdata c' = Some (complete_content tags)"
proof -
  obtain uid c1 s1 where a: "PreMultipartPostRequest en (Some p) meta cp c (s\<lparr>cw := w\<rparr>) = Some (0, uid, c1, s1)"
    using assms(2,3) by (auto simp: MultipartUploadRequest_def bind_eq_Some_conv split: if_splits)
  obtain c2 s2 where d: "destroy en c1 s1 = (c2, s2)" by (cases "destroy en c1 s1")
  obtain list c3 s3 where u: "upload_parts en p uid fd2 (file_chunks (c_multipart_size (conf s2)) n) [] c2 s2 = Some (0, list, c3, s3)"
    and co: "CompleteMultipartPostRequest en (Some p) uid list c3 (close_fd2 en fd2 s3) = Some (0, c', s')"
    using assms(2,3) a d by (auto simp: MultipartUploadRequest_def bind_eq_Some_conv split: if_splits)
  have "same_size s1 s2" using destroy_handle_size [of s1 "lc en" c1] d by (simp add: destroy_def)
  then have "c_multipart_size (conf s2) = c_multipart_size (conf s)"
    using PreMultipart_size [OF assms(1) a] by (simp add: same_size_def)
  then have "parts_sent en p uid fd2 1 (file_chunks (c_multipart_size (conf s)) n) list (destroy en c1 s1) (c3, s3)"
    using upload_parts_sent [OF assms(1) u] d by simp
  with a parts_sent_length [OF this] Complete_posts [OF assms(1) co] show ?thesis by blast
qed

text \<open>An environment in which every transfer succeeds and answers with a tag of its own.\<close>

definition tag_env :: "nat renv" where
  "tag_env = (plain_renv CURLE_OK 200)\<lparr>
     lc := (fixed_env CURLE_OK 200)\<lparr>perform := \<lambda>c w. (CURLE_OK, c\<lparr>responseHeaders := [(''ETag'', str (int w))]\<rparr>, Suc w)\<rparr>,
     dup_file := (\<lambda>fd w. (Inr (fd, 25), w)), xml_value := (\<lambda>d k. Some ''u'')\<rparr>"

definition small_parts :: "nat cst" where
  "small_parts = plain_state\<lparr>conf := (conf plain_state)\<lparr>c_multipart_size := 10\<rparr>\<rparr>"

theorem MultipartUpload_completes_all_parts_witness:
  "\<exists>c' s' uid tags st st'. MultipartUploadRequest tag_env (Some ''/x'') [] 3 False (new_s3curl False) small_parts = Some (0, c', s')
     \<and> parts_sent tag_env ''/x'' uid 3 1 [(0, 10), (10, 10), (20, 5)] tags st st' \<and> length tags = 3
     \<and> b_postdata c' = Some (complete_content tags) \<and> complete_content tags = complete_content [''1'', ''2'', ''3'']"
proof -
  have "case MultipartUploadRequest tag_env (Some ''/x'') [] 3 False (new_s3curl False) small_parts of
      None \<Rightarrow> False | Some (r, c', s') \<Rightarrow> r = 0 \<and> b_postdata c' = Some (complete_content [''1'', ''2'', ''3''])"
    by code_simp
  then obtain c' s' where m: "MultipartUploadRequest tag_env (Some ''/x'') [] 3 False (new_s3curl False) small_parts = Some (0, c', s')"
    and b: "b_postdata c' = Some (complete_content [''1'', ''2'', ''3''])"
    by (auto split: option.splits)
  have k: "callbacks_keep (lc tag_env)" by (simp add: callbacks_keep_def keeps_upload_def tag_env_def)
  have d: "dup_file tag_env 3 (cw small_parts) = (Inr (3, 25), cw small_parts)" by (simp add: tag_env_def)
  have l: "file_chunks (c_multipart_size (conf small_parts)) 25 = [(0, 10), (10, 10), (20, 5)]"
    by (simp add: small_parts_def file_chunks_def chunks.simps)
  from MultipartUpload_completes_all_parts [OF k d m] m b show ?thesis unfolding l by fastforce
qed

section \<open>Copying an object over itself in parts\<close>

lemma copy_meta_only: "only_headers c (fold copy_meta meta c)"
  by (rule only_headers_fold) (auto simp: copy_meta_def intro!: only_headers_add)

lemma CopySetup_part:
  assumes "CopyMultipartPostSetup en a b n uid meta c s = Some (0, c1, s1)"
  shows "partdata c1 = partdata c"
proof -
  obtain p c2 c3 where ad: "address (conf s) p (''?'' @ part_query n uid) (c\<lparr>query_string := part_query n uid\<rparr>) = Some c2"
    and i: "insertAuthHeaders en ((fold copy_meta meta (c2\<lparr>bodydata := Some [], headdata := Some []\<rparr>))\<lparr>op := ''PUT'', rtype := REQTYPE_COPYMULTIPOST\<rparr>) s = Some (c3, s1)"
    and c1: "c1 = c3\<lparr>fpLazySetup := Some CopyMultipartPost\<rparr>"
    using assms by (auto simp: CopyMultipartPostSetup_def bind_eq_Some_conv split: option.splits)
  have "partdata c2 = partdata c" using ad by (auto simp: address_def bind_eq_Some_conv split: prod.splits)
  moreover obtain hs where "fold copy_meta meta (c2\<lparr>bodydata := Some [], headdata := Some []\<rparr>)
      = (c2\<lparr>bodydata := Some [], headdata := Some []\<rparr>)\<lparr>requestHeaders := hs\<rparr>"
    using copy_meta_only unfolding only_headers_def by blast
  moreover obtain hs' where "c3 = ((fold copy_meta meta (c2\<lparr>bodydata := Some [], headdata := Some []\<rparr>))\<lparr>op := ''PUT'', rtype := REQTYPE_COPYMULTIPOST\<rparr>)\<lparr>requestHeaders := hs'\<rparr>"
    using insertAuth_only [OF i] unfolding only_headers_def by blast
  ultimately show ?thesis by (simp add: c1)
qed

lemma destroy_part: "partdata (fst (destroy en c s)) = new_filepart"
  by (simp add: destroy_def destroy_handle_def DestroyCurlHandle_def ClearInternalData_def Let_def)

lemma head_parts_empty_tags:
  assumes "etag (partdata c) = []" "head_parts en p uid xs meta list c s = Some (0, meta2, list2, c2, s2)"
  shows "list2 = list @ replicate (length xs) []"
  using assms
proof (induction xs arbitrary: meta list c s)
  case (Cons x xs)
  let ?m = "hd_set ''x-amz-copy-source-range'' (copy_range x) meta"
  obtain c1 s1 where a: "CopyMultipartPostSetup en p p (int (length list) + 1) uid ?m c s = Some (0, c1, s1)"
    and r: "head_parts en p uid xs ?m (list @ [etag (partdata c1)]) (fst (destroy en c1 s1)) (snd (destroy en c1 s1))
       = Some (0, meta2, list2, c2, s2)"
    using Cons.prems(2) by (auto simp: bind_eq_Some_conv case_prod_beta Let_def split: if_splits)
  have "etag (partdata (fst (destroy en c1 s1))) = []" by (simp add: destroy_part new_filepart_def)
  from Cons.IH [OF this r] show ?case using CopySetup_part [OF a] Cons.prems(1) by simp
qed simp

text \<open>
  \<open>MultipartHeadRequest\<close> never succeeds for an object that is not empty: the parts are set up but no part is
  ever sent, so that their tags are empty and the upload is not finished.
\<close>

theorem MultipartHeadRequest_never_succeeds:
  assumes "0 < sz" "MultipartHeadRequest en tpath sz meta cp c s = Some (r, meta', c', s')"
  shows "r \<noteq> 0"
proof
  assume "r = 0"
  with assms(2) obtain uid c1 s1 where a: "PreMultipartPostRequest en tpath meta cp c s = Some (0, uid, c1, s1)"
    by (auto simp: MultipartHeadRequest_def bind_eq_Some_conv split: if_splits)
  let ?d = "destroy en c1 s1" and ?xs = "file_chunks MAX_MULTI_COPY_SOURCE_SIZE sz"
  obtain m list c2 s2 where h: "head_parts en tpath uid ?xs meta [] (fst ?d) (snd ?d) = Some (0, m, list, c2, s2)"
    and co: "CompleteMultipartPostRequest en tpath uid list c2 s2 = Some (0, c', s')"
    using assms(2) a \<open>r = 0\<close> by (auto simp: MultipartHeadRequest_def bind_eq_Some_conv case_prod_beta split: if_splits)
  have "etag (partdata (fst ?d)) = []" by (simp add: destroy_part new_filepart_def)
  from head_parts_empty_tags [OF this h] have "list = replicate (length ?xs) []" by simp
  moreover have "?xs \<noteq> []" using assms(1) by (simp add: file_chunks_def chunks.simps MAX_MULTI_COPY_SOURCE_SIZE_def Let_def)
  ultimately have "[] \<in> set list" by simp
  with co show False by (simp add: CompleteMultipartPostRequest_def)
qed

text \<open>Even though every transfer succeeds.\<close>

theorem MultipartHeadRequest_never_succeeds_witness:
  "\<exists>r. MultipartHeadRequest tag_env (Some ''/x'') 25 [] True (new_s3curl False) plain_state = Some r \<and> fst r \<noteq> 0"
proof -
  have "case MultipartHeadRequest tag_env (Some ''/x'') 25 [] True (new_s3curl False) plain_state of None \<Rightarrow> False | Some r \<Rightarrow> True"
    by code_simp
  then obtain r where e: "MultipartHeadRequest tag_env (Some ''/x'') 25 [] True (new_s3curl False) plain_state = Some r"
    by (auto split: option.splits)
  obtain a b c d where r: "r = (a, b, c, d)" by (cases r) auto
  have "a \<noteq> 0" by (rule MultipartHeadRequest_never_succeeds [OF _ e [unfolded r]]) simp
  with e r show ?thesis by simp
qed

end
