(* ===== verification/Curl_Multi.thy ===== *)
theory Curl_Multi
  imports Curl_Multipart
begin

text \<open>
  Requests made in parallel, class \<open>S3fsMultiCurl\<close> of \<open>protocols/s3/curl.cpp\<close>, and the uploads, downloads
  and copies that use it. The request objects are on the heap, each owned by one of two lists of pointers;
  to follow a pointer to an object that was deleted is undefined (\<open>Undefined\<close>). The threads of a batch are run one
  after the other in the order they are started; theory \<open>Curl_Threads\<close> is about their interleaving.
\<close>

datatype multi_fault = Undefined | Out_of_fuel

record 'w mst =
  objs :: "nat \<Rightarrow> s3curl option"
  fresh :: nat
  mtags :: "string list"
  ms :: "'w cst"

definition lift :: "'a option \<Rightarrow> multi_fault + 'a" where
  "lift x = (case x of None \<Rightarrow> Inl Undefined | Some a \<Rightarrow> Inr a)"

definition new_obj :: "s3curl \<Rightarrow> 'w mst \<Rightarrow> nat \<times> 'w mst" where
  "new_obj c m = (fresh m, m\<lparr>objs := (objs m)(fresh m := Some c), fresh := fresh m + 1\<rparr>)"

definition delete_obj :: "'w renv \<Rightarrow> nat \<Rightarrow> 'w mst \<Rightarrow> multi_fault + 'w mst" where
  "delete_obj en a m =
     (case objs m a of None \<Rightarrow> Inl Undefined
      | Some c \<Rightarrow> Inr (m\<lparr>objs := (objs m)(a := None), ms := snd (destroy en c (ms m))\<rparr>))"

fun delete_objs :: "'w renv \<Rightarrow> nat list \<Rightarrow> 'w mst \<Rightarrow> multi_fault + 'w mst" where
  "delete_objs en [] m = Inr m"
| "delete_objs en (a # as) m = ebind (delete_obj en a m) (delete_objs en as)"

text \<open>\<open>ClearEx\<close>: the objects of the request list and, if asked for, of the other.\<close>

definition ClearEx :: "'w renv \<Rightarrow> bool \<Rightarrow> nat list \<Rightarrow> nat list \<Rightarrow> 'w mst \<Rightarrow> multi_fault + 'w mst" where
  "ClearEx en is_all req rest m = delete_objs en (req @ (if is_all then rest else [])) m"

section \<open>One batch\<close>

definition RequestPerformWrapper :: "'w renv \<Rightarrow> s3curl \<Rightarrow> 'w cst \<Rightarrow> int \<times> s3curl \<times> 'w cst" where
  "RequestPerformWrapper en c s =
     (case (if fpLazySetup c = None then (True, c, s) else run_lazy (lc en) c s) of
        (False, c1, s1) \<Rightarrow> (- EIO, c1, s1)
      | (True, c1, s1) \<Rightarrow>
          (case RequestPerform (lc en) c1 s1 of
             (r, c2, s2) \<Rightarrow> (case DestroyCurlHandle (lc en) True False c2 s2 of (_, c3, s3) \<Rightarrow> (r, c3, s3))))"

text \<open>The results of the threads are logged only.\<close>

fun MultiPerform :: "'w renv \<Rightarrow> nat list \<Rightarrow> 'w mst \<Rightarrow> multi_fault + 'w mst" where
  "MultiPerform en [] m = Inr m"
| "MultiPerform en (a # as) m =
     (case objs m a of None \<Rightarrow> Inl Undefined
      | Some c \<Rightarrow> (case RequestPerformWrapper en c (ms m) of
          (_, c1, s1) \<Rightarrow> MultiPerform en as (m\<lparr>objs := (objs m)(a := Some c1), ms := s1\<rparr>)))"

type_synonym succ_cb = "cconf \<Rightarrow> string list \<Rightarrow> s3curl \<Rightarrow> (bool \<times> string list \<times> s3curl) option"
type_synonym 'w retry_cb = "s3curl \<Rightarrow> 'w cst \<Rightarrow> (s3curl option \<times> 'w cst) option"

text \<open>What \<open>MultiRead\<close> does with a response code; an unknown one, \<open>-1\<close>, is less than 400.\<close>

definition is_retry :: "int \<Rightarrow> bool" where
  "is_retry code \<longleftrightarrow> 400 \<le> code \<and> code \<noteq> 404"

definition succeed :: "succ_cb option \<Rightarrow> nat \<Rightarrow> s3curl \<Rightarrow> 'w mst \<Rightarrow> multi_fault + 'w mst" where
  "succeed su a c m =
     (case su of None \<Rightarrow> Inr m
      | Some f \<Rightarrow> (case f (conf (ms m)) (mtags m) c of None \<Rightarrow> Inl Undefined
          | Some (_, l, c1) \<Rightarrow> Inr (m\<lparr>mtags := l, objs := (objs m)(a := Some c1)\<rparr>)))"

text \<open>\<open>clist_req\<close> is read in order, new objects go to \<open>clist_all\<close>.\<close>

fun MultiRead ::
  "'w renv \<Rightarrow> succ_cb option \<Rightarrow> 'w retry_cb option \<Rightarrow> nat list \<Rightarrow> nat list \<Rightarrow> 'w mst
     \<Rightarrow> multi_fault + int \<times> nat list \<times> 'w mst" where
  "MultiRead en su re [] all m = Inr (0, all, m)"
| "MultiRead en su re (a # as) all m =
     (case objs m a of None \<Rightarrow> Inl Undefined
      | Some c \<Rightarrow>
          if \<not> is_retry (LastResponseCode c) then
            ebind (if LastResponseCode c < 400 then succeed su a c m else Inr m) (\<lambda>m1.
            ebind (delete_obj en a m1) (\<lambda>m2. MultiRead en su re as all m2))
          else
            (case re of None \<Rightarrow> ebind (delete_obj en a m) (\<lambda>m1. MultiRead en su re as all m1)
             | Some f \<Rightarrow>
                 (case f c (ms m) of None \<Rightarrow> Inl Undefined
                  | Some (None, s1) \<Rightarrow> Inr (- EIO, all, m\<lparr>ms := s1\<rparr>)
                  | Some (Some c1, s1) \<Rightarrow>
                      (case new_obj c1 (m\<lparr>ms := s1\<rparr>) of (b, m1) \<Rightarrow>
                         ebind (delete_obj en a m1) (\<lambda>m2. MultiRead en su re as (all @ [b]) m2)))))"

text \<open>When a batch fails, all objects of both lists are deleted; the batch is still in its list.\<close>

fun Request ::
  "'w renv \<Rightarrow> succ_cb option \<Rightarrow> 'w retry_cb option \<Rightarrow> nat \<Rightarrow> nat list \<Rightarrow> 'w mst \<Rightarrow> multi_fault + int \<times> 'w mst" where
  "Request en su re fuel [] m = Inr (0, m)"
| "Request en su re 0 (a # as) m = Inl Out_of_fuel"
| "Request en su re (Suc fuel) (a # as) m =
     ebind (MultiPerform en (a # as) m) (\<lambda>m1.
     ebind (MultiRead en su re (a # as) [] m1) (\<lambda>(r, all, m2).
       if r \<noteq> 0 then ebind (ClearEx en True (a # as) all m2) (\<lambda>m3. Inr (r, m3))
       else ebind (ClearEx en False [] all m2) (\<lambda>m3. Request en su re fuel all m3)))"

section \<open>Retrying a part\<close>

text \<open>
  The number and the upload are read from the address, the new object gets the file, the range and the place of
  the tag of the old one. Its path is that of the old one, which has the mount prefix already.
\<close>

definition part_of_url :: "s3curl \<Rightarrow> (string \<times> int) option option" where
  "part_of_url c =
     (case get_keyword_value (url c) (Some ''uploadId'') of
        Inl _ \<Rightarrow> None | Inr None \<Rightarrow> Some None
      | Inr (Some uid) \<Rightarrow>
          (case get_keyword_value (url c) (Some ''partNumber'') of
             Inl _ \<Rightarrow> None | Inr None \<Rightarrow> Some None | Inr (Some n) \<Rightarrow> Some (Some (uid, strtol10 n))))"

definition retry_part :: "bool \<Rightarrow> s3curl \<Rightarrow> s3curl" where
  "retry_part with_file c =
     (let p = partdata c; n = (new_s3curl (is_use_ahbe c))\<lparr>retry_count := retry_count c + 1\<rparr>
      in if with_file
         then n\<lparr>partdata := new_filepart\<lparr>etagpos := etagpos p, fp_fd := fp_fd p, startpos := b_partdata_startpos c,
                  fp_size := b_partdata_size c\<rparr>,
                b_partdata_startpos := b_partdata_startpos c, b_partdata_size := b_partdata_size c\<rparr>
         else n\<lparr>partdata := new_filepart\<lparr>etagpos := etagpos p\<rparr>\<rparr>)"

definition part_retry :: "'w renv \<Rightarrow> bool \<Rightarrow> 'w retry_cb" where
  "part_retry en with_file c s =
     (case part_of_url c of None \<Rightarrow> None | Some None \<Rightarrow> Some (None, s)
      | Some (Some (uid, n)) \<Rightarrow>
          if retries (conf s) \<le> retry_count c then Some (None, s)
          else do {
            (r, c1, s1) \<leftarrow> UploadMultipartPostSetup en (c_str (c_path c)) n uid (retry_part with_file c) s;
            Some (if r = 0 then Some c1 else None, s1)
          })"

definition UploadMultipartPostRetryCallback :: "'w renv \<Rightarrow> 'w retry_cb" where
  "UploadMultipartPostRetryCallback en = part_retry en True"

text \<open>A copied part is set up again as one to upload, without a file.\<close>

definition CopyMultipartPostRetryCallback :: "'w renv \<Rightarrow> 'w retry_cb" where
  "CopyMultipartPostRetryCallback en = part_retry en False"

definition ParallelGetObjectRetryCallback :: "'w renv \<Rightarrow> 'w retry_cb" where
  "ParallelGetObjectRetryCallback en c s =
     (if retries (conf s) \<le> retry_count c then Some (None, s)
      else do {
        (r, _, c1, s1) \<leftarrow> PreGetObjectRequest en (Some (c_str (c_path c))) (fp_fd (partdata c)) (startpos (partdata c))
           (fp_size (partdata c)) (b_ssetype c) (b_ssevalue c) (new_s3curl (is_use_ahbe c)) s;
        Some (if r = 0 then Some (c1\<lparr>retry_count := retry_count c + 1\<rparr>) else None, s1)
      })"

section \<open>Parallel requests\<close>

text \<open>Enough rounds for every object to use up its retries.\<close>

definition rounds :: "'w cst \<Rightarrow> nat" where
  "rounds s = nat (retries (conf s)) + 2"

text \<open>The parts are set up first; a failing setup deletes all objects.\<close>

fun upload_objs ::
  "'w renv \<Rightarrow> string \<Rightarrow> string \<Rightarrow> int \<Rightarrow> (int \<times> int) list \<Rightarrow> nat list \<Rightarrow> 'w mst \<Rightarrow> multi_fault + int \<times> nat list \<times> 'w mst" where
  "upload_objs en p uid fd [] all m = Inr (0, all, m)"
| "upload_objs en p uid fd (x # xs) all m =
     (case set_part fd x (mtags m) (new_s3curl True) of (tags, c) \<Rightarrow>
        ebind (lift (UploadMultipartPostSetup en p (int (length tags)) uid c (ms m))) (\<lambda>(r, c1, s1).
          if r \<noteq> 0 then ebind (delete_objs en all (m\<lparr>ms := s1, mtags := tags\<rparr>)) (\<lambda>m1. Inr (r, [], m1))
          else (case new_obj c1 (m\<lparr>ms := s1, mtags := tags\<rparr>) of (a, m1) \<Rightarrow> upload_objs en p uid fd xs (all @ [a]) m1)))"

text \<open>The upload is aborted by a request of its own, whose failure is logged only.\<close>

definition abort_upload :: "'w renv \<Rightarrow> string \<Rightarrow> string \<Rightarrow> 'w mst \<Rightarrow> multi_fault + 'w mst" where
  "abort_upload en p uid m =
     ebind (lift (AbortMultipartUpload en (Some p) uid (new_s3curl True) (ms m))) (\<lambda>(_, c, s).
       Inr (m\<lparr>ms := snd (destroy en c s)\<rparr>))"

text \<open>The duplicated file is not closed when the parallel requests fail.\<close>

definition ParallelMultipartUploadRequest ::
  "'w renv \<Rightarrow> string \<Rightarrow> headers \<Rightarrow> int \<Rightarrow> 'w cst \<Rightarrow> multi_fault + int \<times> 'w cst" where
  "ParallelMultipartUploadRequest en p meta fd s =
     (case dup_file en fd (cw s) of
        (Inl errno, w) \<Rightarrow> Inr (- errno, s\<lparr>cw := w\<rparr>)
      | (Inr (fd2, n), w) \<Rightarrow>
          ebind (lift (PreMultipartPostRequest en (Some p) meta False (new_s3curl True) (s\<lparr>cw := w\<rparr>))) (\<lambda>(r, uid, c1, s1).
          if r \<noteq> 0 then Inr (r, close_fd2 en fd2 (snd (destroy en c1 s1)))
          else (case destroy en c1 s1 of (c2, s2) \<Rightarrow>
            ebind (upload_objs en p uid fd2 (file_chunks (c_multipart_size (conf s2)) n) []
                     \<lparr>objs = (\<lambda>_. None), fresh = 0, mtags = [], ms = s2\<rparr>) (\<lambda>(r, all, m).
            if r \<noteq> 0 then Inr (r, close_fd2 en fd2 (ms m))
            else ebind (Request en (Some UploadMultipartPostComplete) (Some (UploadMultipartPostRetryCallback en)) (rounds (ms m)) all m) (\<lambda>(r, m).
              if r \<noteq> 0 then ebind (abort_upload en p uid m) (\<lambda>m. Inr (r, ms m))
              else ebind (lift (CompleteMultipartPostRequest en (Some p) uid (mtags m) c2 (close_fd2 en fd2 (ms m)))) (\<lambda>(r, c3, s3).
                Inr (r, snd (destroy en c3 s3))))))))"

fun get_objs ::
  "'w renv \<Rightarrow> string \<Rightarrow> int \<Rightarrow> int \<Rightarrow> sse_type_t \<Rightarrow> string \<Rightarrow> (int \<times> int) list \<Rightarrow> nat list \<Rightarrow> 'w mst
     \<Rightarrow> multi_fault + int \<times> string \<times> nat list \<times> 'w mst" where
  "get_objs en p fd start t v [] all m = Inr (0, v, all, m)"
| "get_objs en p fd start t v ((offs, n) # xs) all m =
     ebind (lift (PreGetObjectRequest en (Some p) fd (start + offs) n t v (new_s3curl False) (ms m))) (\<lambda>(r, v1, c1, s1).
       if r \<noteq> 0 then ebind (delete_objs en all (m\<lparr>ms := s1\<rparr>)) (\<lambda>m1. Inr (r, v1, [], m1))
       else (case new_obj c1 (m\<lparr>ms := s1\<rparr>) of (a, m1) \<Rightarrow> get_objs en p fd start t v1 xs (all @ [a]) m1))"

text \<open>
  A download goes batch by batch, each of \<open>max_parallel_cnt\<close> parts at most; without a positive count the
  loop does not end (\<open>Out_of_fuel\<close>).
\<close>

function get_batches ::
  "'w renv \<Rightarrow> string \<Rightarrow> int \<Rightarrow> int \<Rightarrow> sse_type_t \<Rightarrow> string \<Rightarrow> (int \<times> int) list \<Rightarrow> 'w mst \<Rightarrow> multi_fault + int \<times> 'w mst" where
  "get_batches en p fd start t v xs m =
     (if xs = [] then Inr (0, m)
      else if max_parallel_cnt (conf (ms m)) \<le> 0 then Inl Out_of_fuel
      else
        (let k = nat (max_parallel_cnt (conf (ms m)))
         in ebind (get_objs en p fd start t v (take k xs) [] m) (\<lambda>(r, v1, all, m1).
            if r \<noteq> 0 then Inr (r, m1)
            else ebind (Request en None (Some (ParallelGetObjectRetryCallback en)) (rounds (ms m1)) all m1) (\<lambda>(r, m2).
              if r \<noteq> 0 then Inr (r, m2) else get_batches en p fd start t v1 (drop k xs) m2))))"
  by pat_completeness auto
termination by (relation "measure (\<lambda>(en, p, fd, start, t, v, xs, m). length xs)") auto

declare get_batches.simps [simp del]

definition ParallelGetObjectRequest ::
  "'w renv \<Rightarrow> string \<Rightarrow> int \<Rightarrow> int \<Rightarrow> int \<Rightarrow> 'w cst \<Rightarrow> multi_fault + int \<times> 'w cst" where
  "ParallelGetObjectRequest en p fd start sz s =
     (case sse_of en p (cw s) of (t, v) \<Rightarrow>
        ebind (get_batches en p fd start t v (file_chunks (c_multipart_size (conf s)) sz)
                 \<lparr>objs = (\<lambda>_. None), fresh = 0, mtags = [], ms = s\<rparr>) (\<lambda>(r, m). Inr (r, ms m)))"

fun copy_objs ::
  "'w renv \<Rightarrow> string \<Rightarrow> string \<Rightarrow> string \<Rightarrow> (int \<times> int) list \<Rightarrow> headers \<Rightarrow> nat list \<Rightarrow> 'w mst
     \<Rightarrow> multi_fault + int \<times> headers \<times> nat list \<times> 'w mst" where
  "copy_objs en src dst uid [] meta all m = Inr (0, meta, all, m)"
| "copy_objs en src dst uid (x # xs) meta all m =
     (let meta1 = hd_set ''x-amz-copy-source-range'' (copy_range x) meta in
      case add_etag_list (mtags m) new_filepart of (tags, p) \<Rightarrow>
        ebind (lift (CopyMultipartPostSetup en (Some src) (Some dst) (int (length tags)) uid meta1
                       ((new_s3curl True)\<lparr>partdata := p\<rparr>) (ms m))) (\<lambda>(r, c1, s1).
          if r \<noteq> 0 then ebind (delete_objs en all (m\<lparr>ms := s1, mtags := tags\<rparr>)) (\<lambda>m1. Inr (r, meta1, [], m1))
          else (case new_obj c1 (m\<lparr>ms := s1, mtags := tags\<rparr>) of (a, m1) \<Rightarrow>
            copy_objs en src dst uid xs meta1 (all @ [a]) m1)))"

definition MultipartRenameRequest ::
  "'w renv \<Rightarrow> string \<Rightarrow> string \<Rightarrow> headers \<Rightarrow> int \<Rightarrow> s3curl \<Rightarrow> 'w cst \<Rightarrow> multi_fault + int \<times> headers \<times> s3curl \<times> 'w cst" where
  "MultipartRenameRequest en src dst meta sz c s =
     ebind (lift (MakeUrlResource (conf s) (Some (get_realpath (conf s) src)))) (\<lambda>(srcresource, _).
     let meta0 = hd_set ''x-amz-copy-source'' srcresource (hd_set ''Content-Type'' (LookupMimeType (mime_types en) dst) meta) in
     ebind (lift (PreMultipartPostRequest en (Some dst) meta0 True c s)) (\<lambda>(r, uid, c1, s1).
     if r \<noteq> 0 then Inr (r, meta0, c1, s1)
     else (case destroy en c1 s1 of (c2, s2) \<Rightarrow>
       ebind (copy_objs en src dst uid (file_chunks MAX_MULTI_COPY_SOURCE_SIZE sz) meta0 []
                \<lparr>objs = (\<lambda>_. None), fresh = 0, mtags = [], ms = s2\<rparr>) (\<lambda>(r, meta1, all, m).
       if r \<noteq> 0 then Inr (r, meta1, c2, ms m)
       else ebind (Request en (Some (\<lambda>_. CopyMultipartPostComplete en)) (Some (CopyMultipartPostRetryCallback en)) (rounds (ms m)) all m) (\<lambda>(r, m).
         if r \<noteq> 0 then ebind (abort_upload en dst uid m) (\<lambda>m. Inr (r, meta1, c2, ms m))
         else ebind (lift (CompleteMultipartPostRequest en (Some dst) uid (mtags m) c2 (ms m))) (\<lambda>(r, c3, s3).
           Inr (r, meta1, c3, s3)))))))"

section \<open>Retries come to an end\<close>

text \<open>
  The contract of a retry callback: it counts the tries of the object up, not beyond the limit, and leaves the
  limit alone; so do the callbacks of the transfers.
\<close>

lemma delete_obj_no_fuel_fault [simp]: "delete_obj en a m \<noteq> Inl Out_of_fuel"
  by (auto simp: delete_obj_def split: option.splits)

locale counted_retry =
  fixes en :: "'w renv" and su :: "succ_cb option" and re :: "'w retry_cb"
  assumes counts: "callbacks_keep (lc en) \<Longrightarrow> re c s = Some (Some c1, s1) \<Longrightarrow> retry_count c < retries (conf s) \<and> retry_count c1 = retry_count c + 1
      \<and> retries (conf s1) = retries (conf s)"
    and succ: "su = Some f \<Longrightarrow> f cf l c = Some (ok, l1, c2) \<Longrightarrow> retry_count c2 = retry_count c"
begin

definition tried :: "int \<Rightarrow> int \<Rightarrow> nat list \<Rightarrow> 'w mst \<Rightarrow> bool" where
  "tried R k as m \<longleftrightarrow> retries (conf (ms m)) = R \<and> (\<forall>a \<in> set as. \<forall>c. objs m a = Some c \<longrightarrow> k \<le> retry_count c)"

lemma wrapper_keeps:
  assumes keep: "callbacks_keep (lc en)" and w: "RequestPerformWrapper en c s = (r, c1, s1)"
  shows "retry_count c \<le> retry_count c1 \<and> retries (conf s1) = retries (conf s)"
proof -
  obtain ok c2 s2 where l: "(if fpLazySetup c = None then (True, c, s) else run_lazy (lc en) c s) = (ok, c2, s2)"
    by (cases "if fpLazySetup c = None then (True, c, s) else run_lazy (lc en) c s")
  have 1: "keeps_upload c c2 \<and> same_size s s2" using l run_lazy_keeps [of "lc en" c s ok c2 s2] by (auto split: if_splits)
  show ?thesis
  proof (cases ok)
    case False
    then show ?thesis using w l 1 by (simp add: RequestPerformWrapper_def keeps_upload_def same_size_def)
  next
    case True
    obtain r3 c3 s3 where p: "RequestPerform (lc en) c2 s2 = (r3, c3, s3)" by (cases "RequestPerform (lc en) c2 s2")
    have 2: "keeps_upload c2 c3 \<and> same_size s2 s3"
      using perform_request_keeps [OF keep, of c2 s2 r3 c3 s3] p by (simp add: perform_request_def)
    have "c1 = fst (snd (DestroyCurlHandle (lc en) True False c3 s3))" "s1 = snd (snd (DestroyCurlHandle (lc en) True False c3 s3))"
      using w l p True by (auto simp: RequestPerformWrapper_def split: prod.splits)
    then have "retry_count c1 = retry_count c3" "conf s1 = conf s3" by (simp_all add: DestroyCurlHandle_def Let_def)
    with 1 2 show ?thesis by (simp add: keeps_upload_def same_size_def)
  qed
qed

lemma MultiPerform_tried:
  assumes keep: "callbacks_keep (lc en)"
  shows "MultiPerform en as m = Inr m1 \<Longrightarrow> tried R k bs m \<Longrightarrow> tried R k bs m1"
proof (induction as arbitrary: m)
  case (Cons a as)
  obtain c where c: "objs m a = Some c" using Cons.prems(1) by (auto split: option.splits)
  obtain r c1 s1 where w: "RequestPerformWrapper en c (ms m) = (r, c1, s1)" by (cases "RequestPerformWrapper en c (ms m)")
  have "tried R k bs (m\<lparr>objs := (objs m)(a := Some c1), ms := s1\<rparr>)"
    using Cons.prems(2) wrapper_keeps [OF keep w] c by (auto simp: tried_def)
  then show ?case using Cons.IH Cons.prems(1) c w by simp
qed simp

lemma delete_tried: "delete_obj en a m = Inr m1 \<Longrightarrow> tried R k bs m \<Longrightarrow> tried R k bs m1"
  using destroy_handle_size [of "ms m" "lc en"]
  by (auto simp: delete_obj_def tried_def destroy_def same_size_def split: option.splits if_splits)

lemma succeed_tried:
  assumes "succeed su a c m = Inr m1" "objs m a = Some c" "tried R k bs m"
  shows "tried R k bs m1"
proof (cases su)
  case None
  then show ?thesis using assms by (simp add: succeed_def)
next
  case (Some f)
  then obtain ok l c1 where f: "f (conf (ms m)) (mtags m) c = Some (ok, l, c1)"
    and m1: "m1 = m\<lparr>mtags := l, objs := (objs m)(a := Some c1)\<rparr>"
    using assms(1) by (auto simp: succeed_def split: option.splits)
  show ?thesis using succ [OF Some f] assms(2,3) by (auto simp: m1 tried_def)
qed

lemma retry_tried:
  assumes "callbacks_keep (lc en)" "tried R k as m" "tried R (k + 1) all m" "re c (ms m) = Some (Some c1, s1)" "k \<le> retry_count c"
    and "new_obj c1 (m\<lparr>ms := s1\<rparr>) = (b, m1)"
  shows "tried R k as m1 \<and> tried R (k + 1) (all @ [b]) m1 \<and> k < R"
  using assms counts [OF assms(1,4)] by (auto simp: tried_def new_obj_def split: if_splits)

lemma MultiRead_tried:
  assumes keep: "callbacks_keep (lc en)"
  shows "MultiRead en su (Some re) as all m = Inr (r, all2, m2) \<Longrightarrow> tried R k as m \<Longrightarrow> tried R (k + 1) all m \<Longrightarrow>
   r = 0 \<Longrightarrow> tried R (k + 1) all2 m2 \<and> (all2 = all \<or> k < R)"
proof (induction as arbitrary: all m)
  case (Cons a as)
  obtain c where c: "objs m a = Some c" using Cons.prems(1) by (auto split: option.splits)
  have k: "k \<le> retry_count c" "tried R k as m" using Cons.prems(2) c by (auto simp: tried_def)
  show ?case
  proof (cases "is_retry (LastResponseCode c)")
    case False
    then obtain m1 m3 where s: "(if LastResponseCode c < 400 then succeed su a c m else Inr m) = Inr m1"
      and d: "delete_obj en a m1 = Inr m3" and r: "MultiRead en su (Some re) as all m3 = Inr (r, all2, m2)"
      using Cons.prems(1) c by (auto simp: ebind_Inr_iff)
    have t: "tried R k as m1" "tried R (k + 1) all m1"
      using s succeed_tried [OF _ c] k(2) Cons.prems(3) by (auto split: if_splits)
    show ?thesis by (rule Cons.IH [OF r delete_tried [OF d t(1)] delete_tried [OF d t(2)] Cons.prems(4)])
  next
    case True
    then obtain c1 s1 where f: "re c (ms m) = Some (Some c1, s1)"
      using Cons.prems(1,4) c by (auto split: option.splits)
    obtain b m1 where n: "new_obj c1 (m\<lparr>ms := s1\<rparr>) = (b, m1)" by (cases "new_obj c1 (m\<lparr>ms := s1\<rparr>)")
    obtain m3 where d: "delete_obj en a m1 = Inr m3" and r: "MultiRead en su (Some re) as (all @ [b]) m3 = Inr (r, all2, m2)"
      using Cons.prems(1) c True f n by (auto simp: ebind_Inr_iff)
    note t = retry_tried [OF keep k(2) Cons.prems(3) f k(1) n]
    have "tried R (k + 1) all2 m2 \<and> (all2 = all @ [b] \<or> k < R)"
      by (rule Cons.IH [OF r _ _ Cons.prems(4)]) (use t delete_tried [OF d] in auto)
    then show ?thesis using t by blast
  qed
qed simp

lemma MultiRead_no_fuel_fault: "MultiRead en su re' as all m \<noteq> Inl Out_of_fuel"
  by (induction as arbitrary: all m)
    (auto simp: delete_obj_def succeed_def ebind_Inl_iff split: option.splits prod.splits if_splits)

lemma MultiPerform_no_fuel_fault: "MultiPerform en as m \<noteq> Inl Out_of_fuel"
  by (induction as arbitrary: m) (auto split: option.splits prod.splits)

lemma delete_no_fuel_fault: "delete_objs en as m \<noteq> Inl Out_of_fuel"
  by (induction as arbitrary: m) (auto simp: delete_obj_def ebind_Inl_iff split: option.splits)

lemma Request_ends:
  assumes keep: "callbacks_keep (lc en)"
  shows "tried R k as m \<Longrightarrow> nat (R - k) + 1 \<le> fuel \<Longrightarrow> Request en su (Some re) fuel as m \<noteq> Inl Out_of_fuel"
proof (induction fuel arbitrary: k as m)
  case (Suc fuel)
  show ?case
  proof (cases as)
    case (Cons a bs)
    show ?thesis
    proof
      assume "Request en su (Some re) (Suc fuel) as m = Inl Out_of_fuel"
      then obtain m1 all m2 where p: "MultiPerform en as m = Inr m1"
        and r: "MultiRead en su (Some re) as [] m1 = Inr (0, all, m2)"
        and q: "Request en su (Some re) fuel all m2 = Inl Out_of_fuel"
        using MultiPerform_no_fuel_fault MultiRead_no_fuel_fault delete_no_fuel_fault
        by (auto simp: Cons ebind_Inl_iff ebind_Inr_iff ClearEx_def split: if_splits simp del: MultiRead.simps MultiPerform.simps)
      have "tried R (k + 1) all m2 \<and> (all = [] \<or> k < R)"
        by (rule MultiRead_tried [OF keep r MultiPerform_tried [OF keep p Suc.prems(1)]])
          (use MultiPerform_tried [OF keep p Suc.prems(1)] in \<open>simp_all add: tried_def\<close>)
      moreover have "all \<noteq> []" using q by (cases all) auto
      ultimately have t: "tried R (k + 1) all m2" "nat (R - (k + 1)) + 1 \<le> fuel" using Suc.prems(2) by auto
      from Suc.IH [OF t] q show False ..
    qed
  qed simp
qed simp

end

section \<open>The callbacks of the program\<close>

text \<open>What a setup leaves of an object, besides what it is for.\<close>

lemma only_more:
  assumes "only_headers c c'"
  shows "retry_count c' = retry_count c" "LastResponseCode c' = LastResponseCode c" "c_path c' = c_path c"
    "partdata c' = partdata c"
  using assms by (auto simp: only_headers_def)

lemma address_more:
  assumes "address cf p q c = Some c'"
  shows "retry_count c' = retry_count c" "LastResponseCode c' = LastResponseCode c" "c_path c' = mount_prefix cf @ p"
    "partdata c' = partdata c"
  using assms by (auto simp: address_def get_realpath_def bind_eq_Some_conv split: prod.splits)

lemma UploadSetup_more:
  assumes "UploadMultipartPostSetup en p n uid c s = Some (0, c1, s1)"
  shows "retry_count c1 = retry_count c \<and> LastResponseCode c1 = LastResponseCode c \<and> c_path c1 = mount_prefix (conf s) @ p
    \<and> fp_fd (partdata c) \<noteq> - 1"
proof -
  let ?md5 = "if is_content_md5 (conf s) then part_md5 en (fp_fd (partdata c)) (startpos (partdata c)) (fp_size (partdata c)) (cw s)
    else None"
  let ?tag = "case ?md5 of Some d \<Rightarrow> s3fs_hex d | None \<Rightarrow> etag (partdata c)"
  let ?new = "\<lambda>c2. c2\<lparr>partdata := (partdata c)\<lparr>etag := ?tag\<rparr>, bodydata := Some [], headdata := Some []\<rparr>"
  obtain c2 c3 where a: "address (conf s) p (''?'' @ part_query n uid) (c\<lparr>query_string := part_query n uid\<rparr>) = Some c2"
    and i: "insertAuthHeaders en ((part_headers (conf s) ?md5 (?new c2))\<lparr>op := ''PUT'', rtype := REQTYPE_UPLOADMULTIPOST\<rparr>) s = Some (c3, s1)"
    and c1: "c1 = c3\<lparr>fpLazySetup := Some UploadMultipartPost\<rparr>" and fd: "fp_fd (partdata c) \<noteq> - 1"
    using assms unfolding UploadMultipartPostSetup_def Let_def
    by (auto simp: bind_eq_Some_conv split: if_split_asm)
  have "only_headers (?new c2) (part_headers (conf s) ?md5 (?new c2))" by (rule part_headers_only)
  from only_more [OF this] only_more [OF insertAuth_only [OF i]] address_more [OF a] fd show ?thesis by (simp add: c1)
qed

lemma PreGet_more:
  assumes "PreGetObjectRequest en (Some p) fd start n t v c s = Some (r, v1, c1, s1)" "r = 0"
  shows "retry_count c1 = retry_count c \<and> LastResponseCode c1 = LastResponseCode c \<and> c_path c1 = mount_prefix (conf s) @ p
    \<and> partdata c1 = new_filepart\<lparr>fp_fd := fd, startpos := start, fp_size := n\<rparr>"
proof -
  have ok: "\<not> (fd = - 1 \<or> start < 0 \<or> n < 0)" using assms by (auto simp: PreGetObjectRequest_def split: if_splits)
  obtain c2 where a: "address (conf s) p [] c = Some c2"
    using assms ok by (auto simp: PreGetObjectRequest_def bind_eq_Some_conv)
  let ?c3 = "if 0 < n then add_header ''Range'' (range_header start n) c2 else c2"
  let ?c4 = "snd (AddSseRequestHead (conf s) t v True False ?c3)"
  obtain c5 where i: "insertAuthHeaders en (?c4\<lparr>op := ''GET'', rtype := REQTYPE_GET\<rparr>) s = Some (c5, s1)"
    and c1: "\<exists>x y. c1 = c5\<lparr>fpLazySetup := Some PreGetObject,
              partdata := new_filepart\<lparr>fp_fd := fd, startpos := start, fp_size := n\<rparr>,
              b_partdata_startpos := start, b_partdata_size := n, b_ssetype := x, b_ssevalue := y, b_ssekey_pos := - 1\<rparr>"
    using assms ok a by (auto simp: PreGetObjectRequest_def bind_eq_Some_conv Let_def case_prod_beta)
  have o: "only_headers c2 ?c4"
    by (rule only_headers_trans [OF only_headers_if AddSse_only]) (simp_all add: only_headers_add)
  from only_more [OF o] only_more [OF insertAuth_only [OF i]] address_more [OF a] c1 show ?thesis by auto
qed

lemma PreGet_zero:
  "PreGetObjectRequest en (Some p) fd start n t v c s = Some (r, v1, c1, s1) \<Longrightarrow> fd \<noteq> - 1 \<Longrightarrow> 0 \<le> start \<Longrightarrow> 0 \<le> n \<Longrightarrow> r = 0"
  by (auto simp: PreGetObjectRequest_def bind_eq_Some_conv Let_def case_prod_beta)

lemma PreGet_size:
  assumes "callbacks_keep (lc en)" "PreGetObjectRequest en (Some p) fd start n t v c s = Some (r, v1, c1, s1)"
  shows "same_size s s1"
  using assms(2) insertAuth_size [OF assms(1)]
  by (auto simp: PreGetObjectRequest_def bind_eq_Some_conv Let_def case_prod_beta split: if_splits)

lemma part_retry_counts:
  assumes "callbacks_keep (lc en)" "part_retry en b c s = Some (Some c1, s1)"
  shows "retry_count c < retries (conf s) \<and> retry_count c1 = retry_count c + 1 \<and> retries (conf s1) = retries (conf s)"
proof -
  obtain uid n where u: "part_of_url c = Some (Some (uid, n))" and lt: "retry_count c < retries (conf s)"
    and s: "UploadMultipartPostSetup en (c_str (c_path c)) n uid (retry_part b c) s = Some (0, c1, s1)"
    using assms(2) by (auto simp: part_retry_def bind_eq_Some_conv split: option.splits if_splits)
  have "retry_count (retry_part b c) = retry_count c + 1" by (simp add: retry_part_def Let_def)
  with UploadSetup_more [OF s] UploadSetup_keeps [OF assms(1) s] lt show ?thesis by (simp add: same_size_def)
qed

lemma get_retry_counts:
  assumes "callbacks_keep (lc en)" "ParallelGetObjectRetryCallback en c s = Some (Some c1, s1)"
  shows "retry_count c < retries (conf s) \<and> retry_count c1 = retry_count c + 1 \<and> retries (conf s1) = retries (conf s)"
  using assms(2) PreGet_size [OF assms(1)]
  by (auto simp: ParallelGetObjectRetryCallback_def bind_eq_Some_conv same_size_def split: if_splits)

lemma UploadComplete_count:
  "UploadMultipartPostComplete cf l c = Some (ok, l1, c1) \<Longrightarrow> retry_count c1 = retry_count c"
  by (auto simp: UploadMultipartPostComplete_def split: option.splits if_splits)

lemma CopyComplete_count: "CopyMultipartPostComplete en l c = Some (ok, l1, c1) \<Longrightarrow> retry_count c1 = retry_count c"
  by (auto simp: CopyMultipartPostComplete_def Let_def)

interpretation up_part: counted_retry en "Some UploadMultipartPostComplete" "UploadMultipartPostRetryCallback en"
  for en :: "'w renv"
  by unfold_locales (auto simp: UploadMultipartPostRetryCallback_def dest: part_retry_counts UploadComplete_count)

interpretation copy_part: counted_retry en "Some (\<lambda>_. CopyMultipartPostComplete en)" "CopyMultipartPostRetryCallback en"
  for en :: "'w renv"
  by unfold_locales (auto simp: CopyMultipartPostRetryCallback_def dest: part_retry_counts CopyComplete_count)

interpretation get_part: counted_retry en None "ParallelGetObjectRetryCallback en"
  for en :: "'w renv"
  by unfold_locales (auto dest: get_retry_counts)

text \<open>
  C13: Parallel requests come to an end: for uploads, copies and downloads no more rounds are made than the number of
  retries and two, however the transfers end.
\<close>

theorem parallel_requests_end:
  assumes "callbacks_keep (lc en)" "\<forall>a \<in> set as. \<forall>c. objs m a = Some c \<longrightarrow> 0 \<le> retry_count c"
  shows "Request en (Some UploadMultipartPostComplete) (Some (UploadMultipartPostRetryCallback en)) (rounds (ms m)) as m \<noteq> Inl Out_of_fuel
    \<and> Request en (Some (\<lambda>_. CopyMultipartPostComplete en)) (Some (CopyMultipartPostRetryCallback en)) (rounds (ms m)) as m \<noteq> Inl Out_of_fuel
    \<and> Request en None (Some (ParallelGetObjectRetryCallback en)) (rounds (ms m)) as m \<noteq> Inl Out_of_fuel"
proof -
  have n: "nat (retries (conf (ms m)) - 0) + 1 \<le> rounds (ms m)" by (simp add: rounds_def)
  show ?thesis
    using up_part.Request_ends [OF assms(1) _ n, of as m] copy_part.Request_ends [OF assms(1) _ n, of as m]
      get_part.Request_ends [OF assms(1) _ n, of as m] assms(2)
    by (simp add: up_part.tried_def copy_part.tried_def get_part.tried_def)
qed

text \<open>One object whose transfers always answer 500, on a heap of its own.\<close>

definition one_obj :: "s3curl \<Rightarrow> nat mst" where
  "one_obj c = \<lparr>objs = (\<lambda>a. if a = 0 then Some c else None), fresh = 1, mtags = [], ms = plain_state\<rparr>"

theorem parallel_requests_end_witness:
  "Request (plain_renv CURLE_OK 500) None (Some (ParallelGetObjectRetryCallback (plain_renv CURLE_OK 500)))
     (rounds plain_state) [0] (one_obj (new_s3curl False)) \<noteq> Inl Out_of_fuel"
proof -
  have "callbacks_keep (lc (plain_renv CURLE_OK 500))" by (simp add: callbacks_keep_def plain_renv_def fixed_env_def)
  from parallel_requests_end [OF this, of "[0]" "one_obj (new_s3curl False)"]
  show ?thesis by (simp add: one_obj_def new_s3curl_def)
qed

end
