(* ===== verification/Curl_Parallel.thy ===== *)
theory Curl_Parallel
  imports Curl_Multi
begin

text \<open>
  What parallel requests do when transfers succeed, fail or are retried, \<open>protocols/s3/curl.cpp\<close>: the
  ownership of the request objects, downloads without a connection, and the ranges and paths of retries.
\<close>

section \<open>No response\<close>

text \<open>Transfers that get no response: the code of libcurl is an error that has no response code.\<close>

definition no_response :: "'w cenv \<Rightarrow> bool" where
  "no_response en \<longleftrightarrow> (\<forall>c w. fst (perform en c w) \<notin> {CURLE_OK, CURLE_HTTP_RETURNED_ERROR}
     \<and> LastResponseCode (fst (snd (perform en c w))) = LastResponseCode c)"

lemma check_no_response:
  "check_result en code c s = (x, c1, s1) \<Longrightarrow> code \<notin> {CURLE_OK, CURLE_HTTP_RETURNED_ERROR} \<Longrightarrow> c1 = c"
  by (cases code) (auto simp: check_result_def Let_def split: if_splits prod.splits)

lemma Remake_code: "RemakeHandle en c s = (ok, c1, s1) \<Longrightarrow> LastResponseCode c1 = LastResponseCode c \<or> LastResponseCode c1 = - 1"
  by (auto simp: RemakeHandle_def ResetHandle_def rewind_data_def AddUserAgent_def setopts_def Let_def split: if_splits option.splits)

lemma perform_no_response:
  assumes "no_response en" "perform_loop en n c s = (r, c1, s1)" "LastResponseCode c = - 1"
  shows "LastResponseCode c1 = - 1"
  using assms(2,3)
proof (induction n arbitrary: c s)
  case (Suc n)
  obtain code c2 w2 where p: "perform en c (cw s) = (code, c2, w2)" by (cases "perform en c (cw s)")
  obtain x c3 s3 where k: "check_result en code c2 (s\<lparr>cw := w2\<rparr>) = (x, c3, s3)"
    by (cases "check_result en code c2 (s\<lparr>cw := w2\<rparr>)")
  obtain ok c4 s4 where m: "RemakeHandle en c3 s3 = (ok, c4, s4)" by (cases "RemakeHandle en c3 s3")
  have nr: "code \<notin> {CURLE_OK, CURLE_HTTP_RETURNED_ERROR} \<and> LastResponseCode c2 = LastResponseCode c"
    using assms(1) p unfolding no_response_def by (metis fst_conv snd_conv)
  then have "c3 = c2" using check_no_response [OF k] by blast
  then have c: "LastResponseCode c3 = - 1" "LastResponseCode c4 = - 1" using Remake_code [OF m] nr Suc.prems by auto
  have "c1 = c3 \<or> c1 = c4 \<or> perform_loop en n c4 s4 = (r, c1, s1)"
    using Suc.prems(1) p k m by (cases x; cases ok) simp_all
  then show ?case using c Suc.IH [of c4 s4] by blast
qed simp

lemma create_handle_code: "create_handle en c s = (ok, c1, s1) \<Longrightarrow> LastResponseCode c1 = LastResponseCode c"
  by (auto simp: create_handle_def CreateCurlHandle_def ResetHandle_def Let_def split: if_splits prod.splits)

lemma setopts_code [simp]:
  "LastResponseCode (setopts os c) = LastResponseCode c" "LastResponseCode (AddUserAgent cf c) = LastResponseCode c"
  by (simp_all add: setopts_def AddUserAgent_def)

lemma run_lazy_code: "run_lazy en c s = (ok, c1, s1) \<Longrightarrow> LastResponseCode c1 = LastResponseCode c"
  by (auto simp: run_lazy_def dest!: create_handle_code split: option.splits prod.splits bool.splits)

lemma wrapper_no_response:
  assumes "no_response (lc en)" "RequestPerformWrapper en c s = (r, c1, s1)" "LastResponseCode c = - 1"
  shows "LastResponseCode c1 = - 1"
proof -
  obtain ok c2 s2 where l: "(if fpLazySetup c = None then (True, c, s) else run_lazy (lc en) c s) = (ok, c2, s2)"
    by (cases "if fpLazySetup c = None then (True, c, s) else run_lazy (lc en) c s")
  have c2: "LastResponseCode c2 = - 1"
    using l run_lazy_code [of "lc en" c s ok c2 s2] assms(3) by (auto split: if_splits)
  show ?thesis
  proof (cases ok)
    case False
    then show ?thesis using assms(2) l c2 by (simp add: RequestPerformWrapper_def)
  next
    case True
    obtain r3 c3 s3 where p: "RequestPerform (lc en) c2 s2 = (r3, c3, s3)" by (cases "RequestPerform (lc en) c2 s2")
    have "LastResponseCode c3 = - 1"
      using perform_no_response [OF assms(1) p [unfolded RequestPerform_def] c2] .
    moreover have "c1 = fst (snd (DestroyCurlHandle (lc en) True False c3 s3))"
      using assms(2) l p True by (auto simp: RequestPerformWrapper_def split: prod.splits)
    ultimately show ?thesis by (simp add: DestroyCurlHandle_def Let_def)
  qed
qed

definition silent :: "'w mst \<Rightarrow> bool" where
  "silent m \<longleftrightarrow> (\<forall>a c. objs m a = Some c \<longrightarrow> LastResponseCode c = - 1)"

lemma silent_MultiPerform:
  assumes "no_response (lc en)"
  shows "MultiPerform en as m = Inr m1 \<Longrightarrow> silent m \<Longrightarrow> silent m1"
proof (induction as arbitrary: m)
  case (Cons a as)
  obtain c where c: "objs m a = Some c" using Cons.prems(1) by (auto split: option.splits)
  obtain r c1 s1 where w: "RequestPerformWrapper en c (ms m) = (r, c1, s1)" by (cases "RequestPerformWrapper en c (ms m)")
  have "silent (m\<lparr>objs := (objs m)(a := Some c1), ms := s1\<rparr>)"
    using Cons.prems(2) wrapper_no_response [OF assms w] c by (auto simp: silent_def)
  then show ?case using Cons.IH Cons.prems(1) c w by simp
qed simp

lemma silent_delete: "delete_obj en a m = Inr m1 \<Longrightarrow> silent m \<Longrightarrow> silent m1"
  by (auto simp: delete_obj_def silent_def split: option.splits if_splits)

lemma silent_MultiRead:
  "MultiRead en None re as all m = Inr (r, all1, m1) \<Longrightarrow> silent m \<Longrightarrow> r = 0 \<and> all1 = all \<and> silent m1"
proof (induction as arbitrary: m)
  case (Cons a as)
  obtain c where c: "objs m a = Some c" using Cons.prems(1) by (auto split: option.splits)
  then have "LastResponseCode c = - 1" using Cons.prems(2) by (simp add: silent_def)
  then obtain m2 where d: "delete_obj en a m = Inr m2" and r: "MultiRead en None re as all m2 = Inr (r, all1, m1)"
    using Cons.prems(1) c by (auto simp: is_retry_def succeed_def ebind_Inr_iff)
  show ?case by (rule Cons.IH [OF r silent_delete [OF d Cons.prems(2)]])
qed simp

lemma silent_Request:
  assumes "no_response (lc en)" "Request en None re fuel as m = Inr (r, m1)" "silent m"
  shows "r = 0 \<and> silent m1"
proof (cases as)
  case (Cons a bs)
  then obtain n where n: "fuel = Suc n" using assms(2) by (cases fuel) auto
  obtain m2 r3 all m3 where p: "MultiPerform en as m = Inr m2" and q: "MultiRead en None re as [] m2 = Inr (r3, all, m3)"
    using assms(2) by (auto simp: Cons n ebind_Inr_iff simp del: MultiPerform.simps MultiRead.simps)
  have "r3 = 0 \<and> all = [] \<and> silent m3" by (rule silent_MultiRead [OF q silent_MultiPerform [OF assms(1) p assms(3)]])
  then show ?thesis using assms(2) p q
    by (auto simp: Cons n ClearEx_def simp del: MultiPerform.simps MultiRead.simps)
qed (use assms in simp)

lemma silent_new: "silent m \<Longrightarrow> LastResponseCode c = - 1 \<Longrightarrow> new_obj c m = (a, m1) \<Longrightarrow> silent m1"
  by (auto simp: silent_def new_obj_def split: if_splits)

lemma silent_ms [simp]: "silent (m\<lparr>ms := s\<rparr>) \<longleftrightarrow> silent m"
  by (simp add: silent_def)

lemma silent_get_objs:
  assumes "fd \<noteq> - 1" "0 \<le> start"
  shows "get_objs en p fd start t v xs all m = Inr (r, v1, all1, m1) \<Longrightarrow> silent m \<Longrightarrow> \<forall>(st, n) \<in> set xs. 0 \<le> st \<and> 0 \<le> n \<Longrightarrow>
    r = 0 \<and> silent m1"
proof (induction xs arbitrary: v all m)
  case (Cons x xs)
  obtain st n where x: "x = (st, n)" by (cases x)
  obtain r2 v2 c2 s2 where e: "PreGetObjectRequest en (Some p) fd (start + st) n t v (new_s3curl False) (ms m) = Some (r2, v2, c2, s2)"
    using Cons.prems(1) by (auto simp: x ebind_Inr_iff lift_def split: option.splits)
  have z: "r2 = 0" by (rule PreGet_zero [OF e assms(1)]) (use assms(2) Cons.prems(3) x in auto)
  obtain b m2 where n: "new_obj c2 (m\<lparr>ms := s2\<rparr>) = (b, m2)" by (cases "new_obj c2 (m\<lparr>ms := s2\<rparr>)")
  have "LastResponseCode c2 = - 1" using PreGet_more [OF e z] by (simp add: new_s3curl_def)
  then have s: "silent m2" using silent_new [OF _ _ n] Cons.prems(2) by simp
  have "get_objs en p fd start t v2 xs (all @ [b]) m2 = Inr (r, v1, all1, m1)"
    using Cons.prems(1) e z n by (simp add: x lift_def)
  from Cons.IH [OF this s] Cons.prems(3) show ?case by simp
qed simp

lemma silent_batches:
  assumes "no_response (lc en)" "fd \<noteq> - 1" "0 \<le> start"
  shows "get_batches en p fd start t v xs m = Inr (r, m1) \<Longrightarrow> silent m \<Longrightarrow> \<forall>(st, n) \<in> set xs. 0 \<le> st \<and> 0 \<le> n \<Longrightarrow> r = 0"
proof (induction "length xs" arbitrary: v xs m rule: less_induct)
  case less
  show ?case
  proof (cases "xs = []")
    case True
    then show ?thesis using less.prems(1) by (simp add: get_batches.simps)
  next
    case False
    define k where "k = nat (max_parallel_cnt (conf (ms m)))"
    have k: "0 < k" using less.prems(1) False by (subst (asm) get_batches.simps) (auto simp: k_def split: if_splits)
    obtain r2 v2 all m2 where g: "get_objs en p fd start t v (take k xs) [] m = Inr (r2, v2, all, m2)"
      using less.prems(1) False k by (subst (asm) get_batches.simps) (auto simp: k_def ebind_Inr_iff Let_def split: if_splits)
    have "\<forall>(st, n) \<in> set (take k xs). 0 \<le> st \<and> 0 \<le> n" using less.prems(3) by (meson in_set_takeD)
    from silent_get_objs [OF assms(2,3) g less.prems(2) this] have 2: "r2 = 0" "silent m2" by auto
    show ?thesis
    proof (cases "Request en None (Some (ParallelGetObjectRetryCallback en)) (rounds (ms m2)) all m2")
      case (Inl e)
      then show ?thesis using less.prems(1) False k g 2 by (subst (asm) get_batches.simps) (auto simp: k_def Let_def split: if_splits)
    next
      case (Inr x)
      obtain r3 m3 where x: "x = (r3, m3)" by (cases x)
      have 3: "r3 = 0" "silent m3" using silent_Request [OF assms(1) Inr [unfolded x] 2(2)] by auto
      have "get_batches en p fd start t v2 (drop k xs) m3 = Inr (r, m1)"
        using less.prems(1) False k g 2 Inr x 3 by (subst (asm) get_batches.simps) (auto simp: k_def Let_def split: if_splits)
      moreover have "\<forall>(st, n) \<in> set (drop k xs). 0 \<le> st \<and> 0 \<le> n" using less.prems(3) by (meson in_set_dropD)
      moreover have "length (drop k xs) < length xs" using k False by simp
      ultimately show ?thesis using less.hyps 3(2) by blast
    qed
  qed
qed

text \<open>
  C36: A download in parallel that never gets a response is reported as done: when no transfer reaches the
  server, the response code stays unknown, which counts as a success, so that the file is left as it was and
  the result is \<open>0\<close>.
\<close>

theorem download_without_connection_succeeds:
  assumes "no_response (lc en)" "fd \<noteq> - 1" "0 \<le> start"
    and "ParallelGetObjectRequest en p fd start sz s = Inr (r, s')"
  shows "r = 0"
proof -
  obtain t v where t: "sse_of en p (cw s) = (t, v)" by (cases "sse_of en p (cw s)")
  let ?xs = "file_chunks (c_multipart_size (conf s)) sz"
  have "\<forall>(st, n) \<in> set ?xs. 0 \<le> st \<and> 0 \<le> n"
  proof (cases "0 < c_multipart_size (conf s)")
    case True
    show ?thesis using chunks_cover [OF True, of sz sz] by (fastforce simp: file_chunks_def)
  qed (simp add: file_chunks_def chunks.simps)
  moreover have "silent \<lparr>objs = (\<lambda>_. None), fresh = 0, mtags = [], ms = s\<rparr>" by (simp add: silent_def)
  ultimately show ?thesis using silent_batches [OF assms(1-3)] assms(4) t
    by (auto simp: ParallelGetObjectRequest_def ebind_Inr_iff)
qed

theorem download_without_connection_succeeds_witness:
  "\<exists>s'. ParallelGetObjectRequest (plain_renv CURLE_COULDNT_CONNECT 0) ''/x'' 3 0 25 small_parts = Inr (0, s')"
proof -
  have "case ParallelGetObjectRequest (plain_renv CURLE_COULDNT_CONNECT 0) ''/x'' 3 0 25 small_parts of
      Inl e \<Rightarrow> False | Inr x \<Rightarrow> True" by code_simp
  then obtain r s' where p: "ParallelGetObjectRequest (plain_renv CURLE_COULDNT_CONNECT 0) ''/x'' 3 0 25 small_parts = Inr (r, s')"
    by (auto split: sum.splits)
  have "no_response (lc (plain_renv CURLE_COULDNT_CONNECT 0))" by (simp add: no_response_def plain_renv_def fixed_env_def)
  from download_without_connection_succeeds [OF this _ _ p] p show ?thesis by simp
qed

section \<open>Objects are deleted once\<close>

lemma delete_spec:
  "objs m a = Some c \<Longrightarrow> \<exists>m1. delete_obj en a m = Inr m1 \<and> objs m1 = (objs m)(a := None) \<and> mtags m1 = mtags m"
  by (simp add: delete_obj_def)

lemma delete_other: "delete_obj en a m = Inr m1 \<Longrightarrow> b \<noteq> a \<Longrightarrow> objs m1 b = objs m b"
  by (auto simp: delete_obj_def split: option.splits)

lemma delete_same: "delete_obj en a m = Inr m1 \<Longrightarrow> objs m1 a = None"
  by (auto simp: delete_obj_def split: option.splits)

lemma succeed_other: "succeed su a c m = Inr m1 \<Longrightarrow> b \<noteq> a \<Longrightarrow> objs m1 b = objs m b"
  by (auto simp: succeed_def split: option.splits)

lemma succeed_same: "succeed su a c m = Inr m1 \<Longrightarrow> objs m a \<noteq> None \<Longrightarrow> objs m1 a \<noteq> None"
  by (auto simp: succeed_def split: option.splits)

text \<open>A batch without retries deletes its objects and no other, and leaves nothing for another round.\<close>

lemma MultiRead_all_done:
  "MultiRead en su re as all m = Inr (r, all1, m1) \<Longrightarrow> distinct as \<Longrightarrow>
   \<forall>a \<in> set as. \<forall>c. objs m a = Some c \<longrightarrow> \<not> is_retry (LastResponseCode c) \<Longrightarrow>
   r = 0 \<and> all1 = all \<and> (\<forall>a. objs m1 a = (if a \<in> set as then None else objs m a))"
proof (induction as arbitrary: m)
  case (Cons a as)
  obtain c where c: "objs m a = Some c" using Cons.prems(1) by (auto split: option.splits)
  then have nr: "\<not> is_retry (LastResponseCode c)" using Cons.prems(3) by simp
  obtain m2 m3 where s: "(if LastResponseCode c < 400 then succeed su a c m else Inr m) = Inr m2"
    and d: "delete_obj en a m2 = Inr m3" and q: "MultiRead en su re as all m3 = Inr (r, all1, m1)"
    using Cons.prems(1) c nr by (auto simp: ebind_Inr_iff)
  have o: "objs m3 b = (if b = a then None else objs m b)" for b
    using delete_same [OF d] delete_other [OF d, of b] succeed_other [of su a c m m2 b] s by (auto split: if_splits)
  have "r = 0 \<and> all1 = all \<and> (\<forall>a. objs m1 a = (if a \<in> set as then None else objs m3 a))"
    by (rule Cons.IH [OF q]) (use Cons.prems(2,3) o in \<open>auto split: if_splits\<close>)
  then show ?case using o by auto
qed simp

text \<open>
  A batch whose responses need no retry succeeds and gives every object of the batch back exactly once;
  the other objects stay.
\<close>

theorem batch_frees_its_objects:
  assumes "distinct as" "MultiPerform en as m = Inr m1" "as \<noteq> []"
    and "\<forall>a \<in> set as. \<forall>c. objs m1 a = Some c \<longrightarrow> \<not> is_retry (LastResponseCode c)"
    and "Request en su re (Suc n) as m = Inr (r, m2)"
  shows "r = 0 \<and> (\<forall>a. objs m2 a = (if a \<in> set as then None else objs m1 a))"
proof -
  obtain a bs where as: "as = a # bs" using assms(3) by (cases as) auto
  obtain r3 all m3 where q: "MultiRead en su re as [] m1 = Inr (r3, all, m3)"
    using assms(2,5) by (auto simp: as ebind_Inr_iff simp del: MultiRead.simps MultiPerform.simps)
  from MultiRead_all_done [OF q assms(1,4)] have "r3 = 0" "all = []" "\<forall>a. objs m3 a = (if a \<in> set as then None else objs m1 a)"
    by auto
  then show ?thesis using assms(2,5) q
    by (auto simp: as ClearEx_def simp del: MultiRead.simps MultiPerform.simps)
qed

definition two_objs :: "s3curl \<Rightarrow> s3curl \<Rightarrow> nat mst" where
  "two_objs c d = \<lparr>objs = (\<lambda>a. if a = 0 then Some c else if a = 1 then Some d else None), fresh = 2, mtags = [], ms = plain_state\<rparr>"

definition read_obj :: s3curl where
  "read_obj = (new_s3curl False)\<lparr>fpLazySetup := Some PreGetObject, rtype := REQTYPE_GET, hCurl := None\<rparr>"

theorem batch_frees_its_objects_witness:
  "\<exists>r m2. Request (plain_renv CURLE_OK 200) None None 1 [0, 1] (two_objs read_obj read_obj) = Inr (r, m2)
     \<and> r = 0 \<and> objs m2 0 = None \<and> objs m2 1 = None"
proof -
  let ?en = "plain_renv CURLE_OK 200" and ?m = "two_objs read_obj read_obj"
  have "case Request ?en None None 1 [0, 1] ?m of Inl e \<Rightarrow> False | Inr x \<Rightarrow> True" by code_simp
  then obtain r m2 where q: "Request ?en None None (Suc 0) [0, 1] ?m = Inr (r, m2)" by (auto split: sum.splits)
  have "case MultiPerform ?en [0, 1] ?m of Inl e \<Rightarrow> False
      | Inr m1 \<Rightarrow> map_option LastResponseCode (objs m1 0) = Some 200 \<and> map_option LastResponseCode (objs m1 1) = Some 200" by code_simp
  then obtain m1 where p: "MultiPerform ?en [0, 1] ?m = Inr m1"
    and "map_option LastResponseCode (objs m1 0) = Some 200" "map_option LastResponseCode (objs m1 1) = Some 200"
    by (auto split: sum.splits)
  then have "\<forall>a \<in> set [0, 1]. \<forall>c. objs m1 a = Some c \<longrightarrow> \<not> is_retry (LastResponseCode c)" by (auto simp: is_retry_def)
  from batch_frees_its_objects [OF _ p _ this q] q show ?thesis by auto
qed

section \<open>Objects are deleted twice\<close>

lemma delete_objs_dead: "a \<in> set as \<Longrightarrow> objs m a = None \<Longrightarrow> distinct as \<Longrightarrow> delete_objs en as m = Inl Undefined"
proof (induction as arbitrary: m)
  case (Cons b as)
  show ?case
  proof (cases "objs m b")
    case None
    then show ?thesis by (simp add: delete_obj_def)
  next
    case (Some c)
    then obtain m1 where d: "delete_obj en b m = Inr m1" by (simp add: delete_obj_def)
    have "objs m1 a = None" "a \<in> set as" using Cons.prems Some delete_other [OF d, of a] by auto
    then show ?thesis using Cons.IH Cons.prems(3) d by simp
  qed
qed simp

lemma destroy_conf: "conf (snd (destroy en c s)) = conf s"
  by (simp add: destroy_def destroy_handle_def DestroyCurlHandle_def Let_def)

lemma delete_conf: "delete_obj en a m = Inr m1 \<Longrightarrow> conf (ms m1) = conf (ms m)"
  by (auto simp: delete_obj_def destroy_conf split: option.splits)

lemma succeed_conf: "succeed su a c m = Inr m1 \<Longrightarrow> conf (ms m1) = conf (ms m)"
  by (auto simp: succeed_def split: option.splits)

lemma MultiRead_prefix:
  assumes "distinct as" "\<forall>a \<in> set as. \<exists>c. objs m a = Some c \<and> \<not> is_retry (LastResponseCode c)"
  shows "MultiRead en su re (as @ bs) all m = Inl Undefined
    \<or> (\<exists>m1. MultiRead en su re (as @ bs) all m = MultiRead en su re bs all m1
         \<and> (\<forall>x. objs m1 x = (if x \<in> set as then None else objs m x)) \<and> conf (ms m1) = conf (ms m))"
  using assms
proof (induction as arbitrary: m)
  case Nil
  show ?case by (rule disjI2) (auto intro: exI [of _ m])
next
  case (Cons a as)
  obtain c where c: "objs m a = Some c" "\<not> is_retry (LastResponseCode c)" using Cons.prems(2) by auto
  show ?case
  proof (cases "ebind (if LastResponseCode c < 400 then succeed su a c m else Inr m) (delete_obj en a)")
    case (Inl e)
    then have "e = Undefined" by (auto simp: ebind_Inl_iff succeed_def delete_obj_def split: option.splits if_splits)
    then show ?thesis using Inl c by (auto simp: ebind_Inl_iff)
  next
    case (Inr m3)
    then obtain m2 where s: "(if LastResponseCode c < 400 then succeed su a c m else Inr m) = Inr m2"
      and d: "delete_obj en a m2 = Inr m3" by (auto simp: ebind_Inr_iff)
    have o: "objs m3 x = (if x = a then None else objs m x)" for x
      using delete_same [OF d] delete_other [OF d, of x] succeed_other [of su a c m m2 x] s by (auto split: if_splits)
    have e: "MultiRead en su re ((a # as) @ bs) all m = MultiRead en su re (as @ bs) all m3"
      using c s d by simp
    have "MultiRead en su re (as @ bs) all m3 = Inl Undefined
      \<or> (\<exists>m1. MultiRead en su re (as @ bs) all m3 = MultiRead en su re bs all m1
           \<and> (\<forall>x. objs m1 x = (if x \<in> set as then None else objs m3 x)) \<and> conf (ms m1) = conf (ms m3))"
      by (rule Cons.IH) (use Cons.prems o in auto)
    moreover have "conf (ms m3) = conf (ms m)"
      using s d succeed_conf [of su a c m m2] delete_conf [OF d] by (auto split: if_splits)
    ultimately show ?thesis unfolding e using o by auto
  qed
qed

text \<open>
  C37: A response that cannot be retried any more makes the program delete objects twice: those before it in the
  batch have been deleted, but are still in the request list, which is then cleared.
\<close>

theorem exhausted_retry_deletes_twice:
  assumes "MultiPerform en (as @ b # bs) m = Inr m1" "distinct (as @ b # bs)" "as \<noteq> []"
    and "\<forall>a \<in> set as. \<exists>c. objs m1 a = Some c \<and> \<not> is_retry (LastResponseCode c)"
    and "objs m1 b = Some d" "is_retry (LastResponseCode d)"
    and "\<And>s. conf s = conf (ms m1) \<Longrightarrow> \<exists>s1. f d s = Some (None, s1)"
  shows "Request en su (Some f) (Suc n) (as @ b # bs) m = Inl Undefined"
proof -
  obtain a as' where as: "as = a # as'" using assms(3) by (cases as) auto
  have r: "Request en su (Some f) (Suc n) (as @ b # bs) m =
      ebind (MultiRead en su (Some f) (as @ b # bs) [] m1) (\<lambda>(r, all, m2).
       if r \<noteq> 0 then ebind (ClearEx en True (as @ b # bs) all m2) (\<lambda>m3. Inr (r, m3))
       else ebind (ClearEx en False [] all m2) (\<lambda>m3. Request en su (Some f) n all m3))"
    unfolding as append_Cons Request.simps using assms(1) by (simp add: as del: MultiRead.simps MultiPerform.simps)
  consider "MultiRead en su (Some f) (as @ b # bs) [] m1 = Inl Undefined"
    | m2 where "MultiRead en su (Some f) (as @ b # bs) [] m1 = MultiRead en su (Some f) (b # bs) [] m2"
        "\<forall>x. objs m2 x = (if x \<in> set as then None else objs m1 x)" "conf (ms m2) = conf (ms m1)"
    using MultiRead_prefix [of as m1 en su "Some f" "b # bs" "[]"] assms(2,4) by auto
  then show ?thesis
  proof cases
    case 1
    then show ?thesis unfolding r by simp
  next
    case 2
    have o: "objs m2 b = Some d" "objs m2 a = None" using 2(2) assms(2,5) as by auto
    obtain s1 where "f d (ms m2) = Some (None, s1)" using assms(7) [OF 2(3)] by blast
    then have q: "MultiRead en su (Some f) (b # bs) [] m2 = Inr (- EIO, [], m2\<lparr>ms := s1\<rparr>)" using o assms(6) by simp
    have "delete_objs en (as @ b # bs) (m2\<lparr>ms := s1\<rparr>) = Inl Undefined"
      by (rule delete_objs_dead [of a]) (use o assms(2) as in auto)
    then show ?thesis unfolding r 2(1) q by (simp add: ClearEx_def)
  qed
qed

text \<open>Two ranges, the second of which answered 503 and has no retry left.\<close>

definition mixed_env :: "nat renv" where
  "mixed_env = (plain_renv CURLE_OK 200)\<lparr>lc := (fixed_env CURLE_OK 200)\<lparr>getinfo := \<lambda>w. Some (if w < 2 then 200 else 503)\<rparr>\<rparr>"

theorem exhausted_retry_deletes_twice_witness:
  "Request mixed_env None (Some (ParallelGetObjectRetryCallback mixed_env)) 7 [0, 1]
     (two_objs read_obj (read_obj\<lparr>retry_count := 5\<rparr>)) = Inl Undefined"
proof -
  let ?m = "two_objs read_obj (read_obj\<lparr>retry_count := 5\<rparr>)"
  have "case MultiPerform mixed_env [0, 1] ?m of Inl e \<Rightarrow> False
      | Inr m1 \<Rightarrow> map_option LastResponseCode (objs m1 0) = Some 200 \<and> map_option LastResponseCode (objs m1 1) = Some 503
          \<and> map_option retry_count (objs m1 1) = Some 5 \<and> retries (conf (ms m1)) = 5" by code_simp
  then obtain m1 c d where p: "MultiPerform mixed_env ([0] @ 1 # []) ?m = Inr m1"
    and c: "objs m1 0 = Some c" "LastResponseCode c = 200" and d: "objs m1 1 = Some d" "LastResponseCode d = 503" "retry_count d = 5"
    and r: "retries (conf (ms m1)) = 5"
    by (auto split: sum.splits)
  have "Request mixed_env None (Some (ParallelGetObjectRetryCallback mixed_env)) (Suc 6) ([0] @ 1 # []) ?m = Inl Undefined"
    by (rule exhausted_retry_deletes_twice [OF p, where d = d])
      (use c d r in \<open>simp_all add: is_retry_def ParallelGetObjectRetryCallback_def\<close>)
  then show ?thesis by simp
qed

section \<open>What a retry asks for\<close>

text \<open>
  A part that is uploaded again is sent to another object when a path of the bucket is mounted: the path it
  is set up with has the mount prefix already, and gets it once more.
\<close>

theorem retried_part_has_prefix_twice:
  assumes "UploadMultipartPostSetup en p n uid c0 s0 = Some (0, c, s)" "retry_count c' = retry_count c" "c_path c' = c_path c"
    and "UploadMultipartPostRetryCallback en c' s1 = Some (Some c1, s2)" "CHR 0x00 \<notin> set (mount_prefix (conf s0) @ p)"
  shows "c_path c = mount_prefix (conf s0) @ p \<and> c_path c1 = mount_prefix (conf s1) @ mount_prefix (conf s0) @ p"
proof -
  have 1: "c_path c = mount_prefix (conf s0) @ p" using UploadSetup_more [OF assms(1)] by simp
  obtain uid2 n2 where "UploadMultipartPostSetup en (c_str (c_path c')) n2 uid2 (retry_part True c') s1 = Some (0, c1, s2)"
    using assms(4) by (auto simp: UploadMultipartPostRetryCallback_def part_retry_def bind_eq_Some_conv split: option.splits if_splits)
  from UploadSetup_more [OF this] 1 show ?thesis using assms(3,5) c_str_id by simp
qed

definition prefix_state :: "nat cst" where
  "prefix_state = plain_state\<lparr>conf := (conf plain_state)\<lparr>mount_prefix := ''/d''\<rparr>\<rparr>"

definition part_obj :: s3curl where
  "part_obj = (new_s3curl True)\<lparr>partdata := new_filepart\<lparr>fp_fd := 3, startpos := 0, fp_size := 5, etagpos := 0\<rparr>,
     b_partdata_startpos := 0, b_partdata_size := 5\<rparr>"

theorem retried_part_has_prefix_twice_witness:
  "\<exists>c s c1 s2. UploadMultipartPostSetup tag_env ''/x'' 1 ''u'' part_obj prefix_state = Some (0, c, s)
    \<and> UploadMultipartPostRetryCallback tag_env c s = Some (Some c1, s2) \<and> c_path c = ''/d/x'' \<and> c_path c1 = ''/d/d/x''"
proof -
  have "case UploadMultipartPostSetup tag_env ''/x'' 1 ''u'' part_obj prefix_state of None \<Rightarrow> False
      | Some (r, c, s) \<Rightarrow> r = 0 \<and> mount_prefix (conf s) = ''/d'' \<and> (case UploadMultipartPostRetryCallback tag_env c s of
           None \<Rightarrow> False | Some (x, s2) \<Rightarrow> x \<noteq> None)" by code_simp
  then obtain c s c1 s2 where u: "UploadMultipartPostSetup tag_env ''/x'' 1 ''u'' part_obj prefix_state = Some (0, c, s)"
    and m: "mount_prefix (conf s) = ''/d''" and v: "UploadMultipartPostRetryCallback tag_env c s = Some (Some c1, s2)"
    by (auto split: option.splits)
  have pf: "mount_prefix (conf prefix_state) = ''/d''" by (simp add: prefix_state_def)
  from retried_part_has_prefix_twice [OF u refl refl v] u v m show ?thesis by (simp add: pf)
qed

text \<open>A part of a copy is never retried: it is set up as a part of a file, and has none.\<close>

theorem copied_part_never_retried:
  assumes "CopyMultipartPostRetryCallback en c s = Some (x, s1)"
  shows "x = None"
proof -
  have "fp_fd (partdata (retry_part False c)) = - 1" by (simp add: retry_part_def Let_def new_filepart_def)
  then have "UploadMultipartPostSetup en p n uid (retry_part False c) s = Some (- 1, retry_part False c, s)" for p n uid
    by (simp add: UploadMultipartPostSetup_def)
  with assms show ?thesis
    by (auto simp: CopyMultipartPostRetryCallback_def part_retry_def split: option.splits if_splits)
qed

theorem copied_part_never_retried_witness:
  "\<exists>x s1. CopyMultipartPostRetryCallback tag_env (part_obj\<lparr>url := ''http://b.h/x?partNumber=1&uploadId=u''\<rparr>) plain_state = Some (x, s1) \<and> x = None"
proof -
  have "case CopyMultipartPostRetryCallback tag_env (part_obj\<lparr>url := ''http://b.h/x?partNumber=1&uploadId=u''\<rparr>) plain_state of
      None \<Rightarrow> False | Some x \<Rightarrow> True" by code_simp
  then obtain x s1 where e: "CopyMultipartPostRetryCallback tag_env (part_obj\<lparr>url := ''http://b.h/x?partNumber=1&uploadId=u''\<rparr>) plain_state = Some (x, s1)"
    by (auto split: option.splits)
  with copied_part_never_retried [OF e] show ?thesis by blast
qed

text \<open>
  A range that failed with an error page is retried behind the page: the callback has written the page into the
  file and moved the start of the range, and the new request takes the moved range, so that the page stays.
\<close>

theorem retried_range_keeps_error_page:
  assumes "calm osc" "fp_fd (partdata c) \<noteq> - 1" "0 \<le> startpos (partdata c)" "bs \<noteq> []" "int (length bs) \<le> fp_size (partdata c)"
    and "download_write_callback osc bs c f w = (k, c1, f1, w1)"
    and "ParallelGetObjectRetryCallback en c1 s = Some (Some c2, s2)"
  shows "f1 = pwrite_at f (nat (startpos (partdata c))) bs
    \<and> startpos (partdata c2) = startpos (partdata c) + int (length bs)
    \<and> fp_size (partdata c2) = fp_size (partdata c) - int (length bs)"
proof -
  let ?p = "partdata c"
  obtain w2 where r: "download_loop osc bs (nat (startpos ?p)) f w = (Inr (length bs), pwrite_at f (nat (startpos ?p)) bs, w2)"
    using download_loop_calm [OF assms(1)] by blast
  have "\<not> fp_size ?p \<le> 0" using assms(4,5) by (cases bs) auto
  moreover have "\<not> length bs < 1" "take (nat (fp_size ?p)) bs = bs" using assms(4,5) by (cases bs; simp)+
  ultimately have d: "f1 = pwrite_at f (nat (startpos ?p)) bs"
    "partdata c1 = ?p\<lparr>startpos := startpos ?p + int (length bs), fp_size := fp_size ?p - int (length bs)\<rparr>"
    using assms(2,6) r by (auto simp: download_write_callback_def Let_def)
  obtain v c3 s3 where g: "PreGetObjectRequest en (Some (c_str (c_path c1))) (fp_fd (partdata c1)) (startpos (partdata c1))
      (fp_size (partdata c1)) (b_ssetype c1) (b_ssevalue c1) (new_s3curl (is_use_ahbe c1)) s = Some (0, v, c3, s3)"
    and c2: "c2 = c3\<lparr>retry_count := retry_count c1 + 1\<rparr>"
    using assms(7) by (auto simp: ParallelGetObjectRetryCallback_def bind_eq_Some_conv split: if_splits)
  from PreGet_more [OF g refl] d show ?thesis by (simp add: c2)
qed

text \<open>The error page is two bytes here; the retry asks for the rest of the range.\<close>

theorem retried_range_keeps_error_page_witness:
  "\<exists>k c1 f1 w1 c2 s2. download_write_callback calm_sys [60, 33] (part_curl 1 4) [0, 0, 0, 0, 0] () = (k, c1, f1, w1)
    \<and> ParallelGetObjectRetryCallback (plain_renv CURLE_OK 503) c1 plain_state = Some (Some c2, s2)
    \<and> f1 = [0, 60, 33, 0, 0] \<and> startpos (partdata c2) = 3"
proof -
  obtain k c1 f1 w1 where d: "download_write_callback calm_sys [60, 33] (part_curl 1 4) [0, 0, 0, 0, 0] () = (k, c1, f1, w1)"
    by (cases "download_write_callback calm_sys [60, 33] (part_curl 1 4) [0, 0, 0, 0, 0] ()")
  have "case download_write_callback calm_sys [60, 33] (part_curl 1 4) [0, 0, 0, 0, 0] () of (k, c1, f1, w1) \<Rightarrow>
    (case ParallelGetObjectRetryCallback (plain_renv CURLE_OK 503) c1 plain_state of None \<Rightarrow> False | Some (x, s2) \<Rightarrow> x \<noteq> None)"
    by code_simp
  then obtain c2 s2 where g: "ParallelGetObjectRetryCallback (plain_renv CURLE_OK 503) c1 plain_state = Some (Some c2, s2)"
    using d by (auto split: option.splits)
  have p: "fp_fd (partdata (part_curl 1 4)) \<noteq> - 1" "0 \<le> startpos (partdata (part_curl 1 4))" "([60, 33] :: filedata) \<noteq> []"
    "int (length ([60, 33] :: filedata)) \<le> fp_size (partdata (part_curl 1 4))"
    by (simp_all add: part_curl_def new_filepart_def)
  have "pwrite_at [0, 0, 0, 0, 0] (nat (startpos (partdata (part_curl 1 4)))) [60, 33] = [0, 60, 33, 0, 0]"
    "startpos (partdata (part_curl 1 4)) = 1"
    by (simp_all add: part_curl_def new_filepart_def pwrite_at_def)
  with retried_range_keeps_error_page [OF calm_calm_sys p d g] d g show ?thesis by auto
qed

end
