(* ===== verification/Curl_Threads.thy ===== *)
theory Curl_Threads
  imports Mfs_Prelude "HOL-Library.Multiset"
begin

text \<open>
  The threads of a batch of parallel requests, \<open>S3fsMultiCurl::MultiPerform\<close> and
  \<open>RequestPerformWrapper\<close> of \<open>protocols/s3/curl.cpp\<close> with the semaphore of \<open>psemaphore.h\<close>: a step
  relation in which the starting thread and the threads of the requests are interleaved. A request's thread is
  its number. The end of a thread (its id in \<open>completed_tids\<close>, the semaphore posted) is one step, as the
  lock is held over both; to join a completed thread neither blocks nor fails.
\<close>

datatype phase =
    Looking \<comment> \<open>at the head of the loop over the requests\<close>
  | Waited nat \<comment> \<open>the semaphore was taken for this request\<close>
  | Reaped nat \<comment> \<open>the completed threads were joined\<close>
  | Draining nat \<comment> \<open>that many waits after the loop\<close>
  | Finished

record batch =
  waiting :: "nat list"
  tokens :: nat
  running :: "nat multiset"
  completed :: "nat multiset"
  joined :: "nat multiset"
  success :: bool
  pc :: phase

definition start_batch :: "nat list \<Rightarrow> nat \<Rightarrow> batch" where
  "start_batch rs v = \<lparr>waiting = rs, tokens = v, running = {#}, completed = {#}, joined = {#}, success = True, pc = Looking\<rparr>"

inductive batch_step :: "nat \<Rightarrow> batch \<Rightarrow> batch \<Rightarrow> bool" for v :: nat where
  take: "pc b = Looking \<Longrightarrow> waiting b = r # rs \<Longrightarrow> 0 < tokens b \<Longrightarrow>
    batch_step v b (b\<lparr>waiting := rs, tokens := tokens b - 1, pc := Waited r\<rparr>)"
| reap: "pc b = Waited r \<Longrightarrow>
    batch_step v b (b\<lparr>joined := joined b + completed b, completed := {#}, pc := Reaped r\<rparr>)"
| create: "pc b = Reaped r \<Longrightarrow> batch_step v b (b\<lparr>running := add_mset r (running b), pc := Looking\<rparr>)"
| create_fails: "pc b = Reaped r \<Longrightarrow> batch_step v b (b\<lparr>success := False, pc := Draining 0\<rparr>)"
| loop_end: "pc b = Looking \<Longrightarrow> waiting b = [] \<Longrightarrow> batch_step v b (b\<lparr>pc := Draining 0\<rparr>)"
| drain: "pc b = Draining i \<Longrightarrow> i < v \<Longrightarrow> 0 < tokens b \<Longrightarrow>
    batch_step v b (b\<lparr>tokens := tokens b - 1, pc := Draining (i + 1)\<rparr>)"
| finish: "pc b = Draining v \<Longrightarrow>
    batch_step v b (b\<lparr>joined := joined b + completed b, completed := {#}, pc := Finished\<rparr>)"
| thread_ends: "t \<in># running b \<Longrightarrow>
    batch_step v b (b\<lparr>running := running b - {#t#}, completed := add_mset t (completed b), tokens := tokens b + 1\<rparr>)"

definition batch_reach :: "nat list \<Rightarrow> nat \<Rightarrow> batch \<Rightarrow> bool" where
  "batch_reach rs v = (batch_step v)\<^sup>*\<^sup>* (start_batch rs v)"

section \<open>Tokens\<close>

text \<open>The token a started request holds until its thread ends, those drained, and the one a failure loses.\<close>

definition held :: "batch \<Rightarrow> nat" where
  "held b = (case pc b of Waited r \<Rightarrow> 1 | Reaped r \<Rightarrow> 1 | Draining i \<Rightarrow> i | _ \<Rightarrow> 0) + (if success b then 0 else 1)"

definition in_flight :: "batch \<Rightarrow> nat multiset" where
  "in_flight b = running b + completed b + joined b + (case pc b of Waited r \<Rightarrow> {#r#} | Reaped r \<Rightarrow> {#r#} | _ \<Rightarrow> {#})"

definition batch_ok :: "nat list \<Rightarrow> nat \<Rightarrow> batch \<Rightarrow> bool" where
  "batch_ok rs v b \<longleftrightarrow>
     (pc b \<noteq> Finished \<longrightarrow> tokens b + size (running b) + held b = v)
     \<and> (success b \<longrightarrow> in_flight b + mset (waiting b) = mset rs)
     \<and> (pc b = Finished \<longrightarrow> success b \<and> running b = {#} \<and> completed b = {#})
     \<and> (\<not> success b \<longrightarrow> (\<exists>i. pc b = Draining i))
     \<and> (success b \<and> ((\<exists>i. pc b = Draining i) \<or> pc b = Finished) \<longrightarrow> waiting b = [])"

lemma start_ok: "batch_ok rs v (start_batch rs v)"
  by (simp add: batch_ok_def start_batch_def held_def in_flight_def)

lemma step_ok: "batch_step v b b' \<Longrightarrow> batch_ok rs v b \<Longrightarrow> batch_ok rs v b'"
proof (induction rule: batch_step.induct)
  case (thread_ends t b)
  then obtain rest where r: "running b = add_mset t rest" by (meson mset_add)
  show ?case using thread_ends(2) by (auto simp: batch_ok_def held_def in_flight_def r split: phase.splits)
qed (auto simp: batch_ok_def held_def in_flight_def ac_simps split: phase.splits if_splits)

lemma reach_ok: "batch_reach rs v b \<Longrightarrow> batch_ok rs v b"
  unfolding batch_reach_def by (induction rule: rtranclp_induct) (auto simp: start_ok step_ok)

lemma failure_stays: "(batch_step v)\<^sup>*\<^sup>* b b' \<Longrightarrow> \<not> success b \<Longrightarrow> \<not> success b'"
  by (induction rule: rtranclp_induct) (auto elim!: batch_step.cases)






section \<open>Properties\<close>






text \<open>
  C39: When a thread cannot be started, the starting thread never returns: the token taken for it is not given back,
  and the loop after it waits for all of them.
\<close>

theorem failed_thread_start_hangs:
  assumes "batch_reach rs v b" "\<not> success b" "(batch_step v)\<^sup>*\<^sup>* b b'"
  shows "pc b' \<noteq> Finished"
proof
  assume "pc b' = Finished"
  moreover have "batch_reach rs v b'" using assms(1,3) unfolding batch_reach_def by (rule rtranclp_trans)
  ultimately have "success b'" using reach_ok by (auto simp: batch_ok_def)
  with failure_stays [OF assms(3,2)] show False by simp
qed

theorem failed_thread_start_hangs_witness:
  "\<exists>b. batch_reach [7] 1 b \<and> pc b = Draining 0 \<and> (\<forall>b'. (batch_step 1)\<^sup>*\<^sup>* b b' \<longrightarrow> pc b' \<noteq> Finished)"
proof -
  let ?b = "start_batch [7] 1"
  let ?b1 = "?b\<lparr>waiting := [], tokens := 0, pc := Waited 7\<rparr>" and ?b2 = "?b\<lparr>waiting := [], tokens := 0, pc := Reaped 7\<rparr>"
    and ?b3 = "?b\<lparr>waiting := [], tokens := 0, success := False, pc := Draining 0\<rparr>"
  have "batch_step 1 ?b ?b1" using batch_step.take [of ?b 7 "[]" 1] by (simp add: start_batch_def)
  moreover have "batch_step 1 ?b1 ?b2" using batch_step.reap [of ?b1 7 1] by (simp add: start_batch_def)
  moreover have "batch_step 1 ?b2 ?b3" using batch_step.create_fails [of ?b2 7 1] by (simp add: start_batch_def)
  ultimately have r: "batch_reach [7] 1 ?b3" unfolding batch_reach_def by (meson converse_rtranclp_into_rtranclp rtranclp.rtrancl_refl)
  have s: "\<not> success ?b3" "pc ?b3 = Draining 0" by simp_all
  show ?thesis using failed_thread_start_hangs [OF r s(1)] r s(2) by blast
qed

text \<open>No more threads than the semaphore allows run at a time.\<close>

theorem batch_parallelism_bounded:
  assumes "batch_reach rs v b"
  shows "size (running b) \<le> v"
  using reach_ok [OF assms] by (auto simp: batch_ok_def)

theorem batch_parallelism_bounded_witness: "size (running (start_batch [1, 2, 3] 2)) \<le> 2"
  by (rule batch_parallelism_bounded [of "[1, 2, 3]"]) (simp add: batch_reach_def)

end
