(* ===== verification/Fs_Xattr.thy ===== *)
theory Fs_Xattr
  imports Codecs Ord_Map
begin

text \<open>
  The coding of extended attributes in one header of an object, \<open>protocols/s3/s3fs.cpp\<close>:
  \<open>parse_xattrs\<close>, \<open>build_xattrs\<close> and \<open>set_xattrs_to_header\<close>. The header is the URL coding of a list
  of names and values, the values in base64. A value is its bytes, \<open>None\<close> the \<open>NULL\<close> pointer of an
  empty one.
\<close>

type_synonym xattrs_t = "bytes option smap"

abbreviation ERANGE :: int where "ERANGE \<equiv> 34"

definition DQ :: char where "DQ = CHR 0x22"

section \<open>Reading\<close>

definition parse_xattr_keyval :: "string \<Rightarrow> (string \<times> bytes option) option" where
  "parse_xattr_keyval xattrpair =
     (case find_idx ((=) CHR '':'') xattrpair of
        None \<Rightarrow> None
      | Some pos \<Rightarrow>
          (case takeout_str_dquart (take pos xattrpair) of
             (key, False) \<Rightarrow> None
           | (key, True) \<Rightarrow>
               (case takeout_str_dquart (drop (pos + 1) xattrpair) of
                  (tmpval, False) \<Rightarrow> None
                | (tmpval, True) \<Rightarrow> Some (key, s3fs_decode64 (Some (c_str tmpval))))))"

text \<open>The pairs between the braces; a pair that cannot be read is skipped.\<close>

definition next_pair :: "string \<Rightarrow> string \<times> string" where
  "next_pair s = (case find_idx ((=) CHR '','') s of None \<Rightarrow> (s, []) | Some p \<Rightarrow> (take p s, drop (p + 1) s))"

lemma next_pair_less: "s \<noteq> [] \<Longrightarrow> length (snd (next_pair s)) < length s"
  by (cases s) (auto simp: next_pair_def split: option.splits)

function parse_pairs :: "string \<Rightarrow> xattrs_t \<Rightarrow> xattrs_t" where
  "parse_pairs restxattrs xattrs =
     (if restxattrs = [] then xattrs
      else parse_pairs (snd (next_pair restxattrs))
             (case parse_xattr_keyval (fst (next_pair restxattrs)) of
                None \<Rightarrow> xattrs | Some (key, v) \<Rightarrow> sm_set key v xattrs))"
  by pat_completeness auto
termination by (relation "measure (\<lambda>(s, _). length s)") (auto intro: next_pair_less)

declare parse_pairs.simps [simp del]

definition parse_xattrs :: "string \<Rightarrow> xattrs_t" where
  "parse_xattrs strxattrs =
     (let jsonxattrs = urlDecode strxattrs
      in case (find_idx ((=) CHR ''{'') jsonxattrs, find_last_idx ((=) CHR ''}'') jsonxattrs) of
           (Some startpos, Some endpos) \<Rightarrow>
             if endpos \<le> startpos then []
             else parse_pairs (substr jsonxattrs (startpos + 1) (endpos - (startpos + 1))) []
         | _ \<Rightarrow> [])"

section \<open>Writing\<close>

definition xattr_pair :: "string \<times> bytes option \<Rightarrow> string" where
  "xattr_pair x = [DQ] @ fst x @ [DQ, CHR '':'', DQ]
     @ (case s3fs_base64 (snd x) of None \<Rightarrow> [] | Some b \<Rightarrow> b) @ [DQ]"

fun xattr_pairs :: "xattrs_t \<Rightarrow> string" where
  "xattr_pairs [] = []"
| "xattr_pairs [x] = xattr_pair x"
| "xattr_pairs (x # y # xs) = xattr_pair x @ [CHR '',''] @ xattr_pairs (y # xs)"

definition build_xattrs :: "xattrs_t \<Rightarrow> string" where
  "build_xattrs xattrs = urlEncode ([CHR ''{''] @ xattr_pairs xattrs @ [CHR ''}''])"

text \<open>
  Setting a value in the header. The flags are those of \<open>setxattr\<close>: \<open>XATTR_CREATE\<close> is 1 and
  \<open>XATTR_REPLACE\<close> is 2; both are tested against the header, not against the name.
\<close>

definition new_value :: "bytes \<Rightarrow> bytes option" where
  "new_value v = (if v = [] then None else Some v)"

definition set_xattrs_to_header :: "headers \<Rightarrow> string \<Rightarrow> bytes \<Rightarrow> bool \<Rightarrow> bool \<Rightarrow> int \<times> headers" where
  "set_xattrs_to_header meta name val create replace =
     (case hd_find ''x-amz-meta-xattr'' meta of
        None \<Rightarrow>
          if replace then (- ENODATA, meta)
          else (0, hd_set ''x-amz-meta-xattr'' (build_xattrs (sm_set name (new_value val) (parse_xattrs []))) meta)
      | Some strxattrs \<Rightarrow>
          if create then (- EEXIST, meta)
          else (0, hd_set ''x-amz-meta-xattr''
                     (build_xattrs (sm_set name (new_value val) (parse_xattrs strxattrs))) meta))"

section \<open>What can be coded\<close>

text \<open>Names without quotation marks, colons and commas, and values that are no empty array.\<close>

definition xname_ok :: "string \<Rightarrow> bool" where
  "xname_ok k \<longleftrightarrow> DQ \<notin> set k \<and> CHR '':'' \<notin> set k \<and> CHR '','' \<notin> set k"

definition xattrs_ok :: "xattrs_t \<Rightarrow> bool" where
  "xattrs_ok m \<longleftrightarrow> sm_sorted m \<and> (\<forall>(k, v) \<in> set m. xname_ok k \<and> v \<noteq> Some [])"

lemma base64_plain:
  assumes "s3fs_base64 x = Some b"
  shows "DQ \<notin> set b" "CHR '','' \<notin> set b" "CHR 0x00 \<notin> set b" "s3fs_decode64 (Some b) = x"
proof -
  obtain bs where x: "x = Some bs" "bs \<noteq> []" using assms by (auto simp: s3fs_base64_def split: option.splits if_splits)
  from base64_round_trip [OF x(2)] assms x(1)
  have s: "s3fs_decode64 (Some b) = x" "set b \<subseteq> set base64_table" by auto
  show "s3fs_decode64 (Some b) = x" by (rule s(1))
  have "DQ \<notin> set base64_table \<and> CHR '','' \<notin> set base64_table \<and> CHR 0x00 \<notin> set base64_table"
    by (simp add: base64_table_def DQ_def)
  then show "DQ \<notin> set b" "CHR '','' \<notin> set b" "CHR 0x00 \<notin> set b" using s(2) by auto
qed

lemma takeout_dq: "DQ \<notin> set s \<Longrightarrow> takeout_str_dquart ([DQ] @ s @ [DQ]) = (s, True)"
  using find_last_idx_last [of "[]" "(=) DQ" DQ s] find_idx_absent [of s "(=) DQ"]
  by (auto simp: takeout_str_dquart_def DQ_def)

lemma cut_parts: "take (length q) (q @ c # r) = q" "drop (length q + 1) (q @ c # r) = r"
  by simp_all

lemma keyval_pair:
  assumes "xname_ok k" "v \<noteq> Some []"
  shows "parse_xattr_keyval (xattr_pair (k, v)) = Some (k, v)"
proof -
  let ?b = "case s3fs_base64 v of None \<Rightarrow> [] | Some b \<Rightarrow> b"
  let ?q = "[DQ] @ k @ [DQ]"
  have q: "\<forall>c \<in> set ?q. CHR '':'' \<noteq> c" using assms(1) by (auto simp: xname_ok_def DQ_def)
  have p: "xattr_pair (k, v) = ?q @ CHR '':'' # [DQ] @ ?b @ [DQ]" by (simp add: xattr_pair_def)
  have i: "find_idx ((=) CHR '':'') (xattr_pair (k, v)) = Some (length ?q)"
    unfolding p using q by (intro find_idx_first) auto
  have b: "DQ \<notin> set ?b \<and> c_str ?b = ?b \<and> s3fs_decode64 (Some ?b) = v"
  proof (cases "s3fs_base64 v")
    case None
    then have "v = None" using assms(2) by (auto simp: s3fs_base64_def split: option.splits if_splits)
    then show ?thesis using None by (simp add: s3fs_decode64_def c_str_def)
  next
    case (Some b)
    have "takeWhile (\<lambda>c. c \<noteq> CHR 0x00) b = b" using base64_plain(3) [OF Some] by (auto simp: takeWhile_eq_all_conv)
    then show ?thesis using base64_plain [OF Some] Some by (simp add: c_str_def)
  qed
  have "DQ \<notin> set k" using assms(1) by (simp add: xname_ok_def)
  then have t: "takeout_str_dquart (take (length ?q) (xattr_pair (k, v))) = (k, True)"
    "takeout_str_dquart (drop (length ?q + 1) (xattr_pair (k, v))) = (?b, True)"
    using takeout_dq [of k] takeout_dq [of ?b] b unfolding p cut_parts by auto
  show ?thesis unfolding parse_xattr_keyval_def using i t b by simp
qed

lemma pair_no_comma: "xname_ok k \<Longrightarrow> CHR '','' \<notin> set (xattr_pair (k, v))"
  using base64_plain(2) by (auto simp: xattr_pair_def xname_ok_def DQ_def split: option.splits)

lemma parse_pairs_pairs:
  assumes "\<forall>(k, v) \<in> set xs. xname_ok k \<and> v \<noteq> Some []"
  shows "parse_pairs (xattr_pairs xs) m = foldl (\<lambda>m (k, v). sm_set k v m) m xs"
  using assms
proof (induction xs arbitrary: m rule: xattr_pairs.induct)
  case 1
  then show ?case by (simp add: parse_pairs.simps)
next
  case (2 x)
  obtain k v where x: "x = (k, v)" by (cases x)
  have "find_idx ((=) CHR '','') (xattr_pair x) = None" "xattr_pair x \<noteq> []"
    using pair_no_comma [of k v] 2 x by (auto simp: find_idx_None xattr_pair_def)
  then show ?case using keyval_pair [of k v] 2 x by (simp add: parse_pairs.simps next_pair_def)
next
  case (3 x y xs)
  obtain k v where x: "x = (k, v)" by (cases x)
  have n: "\<forall>c \<in> set (xattr_pair x). CHR '','' \<noteq> c" "xattr_pair x \<noteq> []"
    using pair_no_comma [of k v] 3(2) x by (auto simp: xattr_pair_def)
  have "find_idx ((=) CHR '','') (xattr_pair x @ CHR '','' # xattr_pairs (y # xs)) = Some (length (xattr_pair x))"
    using n(1) by (intro find_idx_first) auto
  then have np: "next_pair (xattr_pairs (x # y # xs)) = (xattr_pair x, xattr_pairs (y # xs))"
    by (simp add: next_pair_def)
  have "parse_pairs (xattr_pairs (x # y # xs)) m = parse_pairs (xattr_pairs (y # xs)) (sm_set k v m)"
    using np n(2) keyval_pair [of k v] 3(2) x
    by (subst parse_pairs.simps) simp
  then show ?case using 3 x by simp
qed

lemma sm_set_last: "\<forall>x \<in> set m. fst x < k \<Longrightarrow> sm_set k v m = m @ [(k, v)]"
  by (induction m) auto

lemma foldl_sm_set:
  "sm_sorted (m @ xs) \<Longrightarrow> foldl (\<lambda>m (k, v). sm_set k v m) m xs = m @ xs"
proof (induction xs arbitrary: m)
  case (Cons x xs)
  obtain k v where x: "x = (k, v)" by (cases x)
  have "\<forall>y \<in> set m. fst y < k" using Cons(2) x by (auto simp: om_sorted_def sorted_wrt_append)
  then show ?case using Cons x by (simp add: sm_set_last)
qed simp

lemma find_last_brace: "find_last_idx ((=) CHR ''}'') (CHR ''{'' # s @ [CHR ''}'']) = Some (length s + 1)"
  using find_last_idx_last [of "[]" "(=) CHR ''}''" "CHR ''}''" "CHR ''{'' # s"] by simp

lemma parse_build:
  assumes "xattrs_ok m"
  shows "parse_xattrs (build_xattrs m) = m"
proof -
  have d: "urlDecode (build_xattrs m) = CHR ''{'' # xattr_pairs m @ [CHR ''}'']"
    unfolding build_xattrs_def urlDecode_urlEncode by simp
  have "parse_pairs (xattr_pairs m) [] = m"
    using assms parse_pairs_pairs [of m "[]"] foldl_sm_set [of "[]" m] by (simp add: xattrs_ok_def)
  then show ?thesis unfolding parse_xattrs_def d Let_def find_last_brace by (simp add: substr_def)
qed

lemma sm_set_ok:
  assumes "xattrs_ok m" "xname_ok k" "v \<noteq> Some []"
  shows "xattrs_ok (sm_set k v m)"
proof -
  have "x \<in> set (sm_set k v m) \<Longrightarrow> x \<in> set m \<or> x = (k, v)" for x :: "string \<times> bytes option"
    using assms(1) unfolding xattrs_ok_def
    by (induction m) (auto simp: om_sorted_def split: if_splits)
  then show ?thesis using assms smap.sorted_set [of m k v] by (fastforce simp: xattrs_ok_def)
qed

section \<open>Properties\<close>

text \<open>
  C22: Extended attributes whose names have no colon, comma or double quote (\<open>xname_ok\<close>) are read back
  from the header as they were written, names with braces, blanks or bytes beyond ASCII and values with any bytes
  included; an empty value stands for none. (\<open>xattr_with_colon_lost\<close> shows a name that is not read back.)
\<close>

theorem xattrs_round_trip:
  assumes "xattrs_ok m"
  shows "parse_xattrs (build_xattrs m) = m"
  using assms by (rule parse_build)

theorem xattrs_round_trip_witness:
  "parse_xattrs (build_xattrs [(''user.b'', None), (''user.{a}'', Some [0, 0xff])])
     = [(''user.b'', None), (''user.{a}'', Some [0, 0xff])]"
  by (rule xattrs_round_trip) (simp add: xattrs_ok_def om_sorted_def xname_ok_def DQ_def)

text \<open>
  Setting an attribute changes this one in the header: afterwards the name has the value, every other name
  what it had, and the other headers are as before.
\<close>

theorem set_xattr_updates_header:
  assumes "xattrs_ok m" "xname_ok name" "hd_find ''x-amz-meta-xattr'' meta = Some (build_xattrs m)" "om_sorted strcasecmp_less meta"
    and "set_xattrs_to_header meta name val False replace = (r, meta')"
  shows "r = 0 \<and> (\<exists>h. hd_find ''x-amz-meta-xattr'' meta' = Some h
      \<and> (\<forall>k. sm_find k (parse_xattrs h) = (if k = name then Some (new_value val) else sm_find k m)))
    \<and> (\<forall>k. \<not> nocase_eq ''x-amz-meta-xattr'' k \<longrightarrow> hd_find k meta' = hd_find k meta)"
proof -
  let ?m = "sm_set name (new_value val) m"
  have ok: "xattrs_ok ?m" using assms(1,2) by (rule sm_set_ok) (simp add: new_value_def)
  have r: "r = 0" "meta' = hd_set ''x-amz-meta-xattr'' (build_xattrs ?m) meta"
    using assms(3,5) parse_build [OF assms(1)] by (auto simp: set_xattrs_to_header_def)
  have "sm_find k ?m = (if k = name then Some (new_value val) else sm_find k m)" for k
    using smap.find_set_lemma [of m k name "new_value val"] assms(1) by (auto simp: xattrs_ok_def)
  then show ?thesis using r parse_build [OF ok] assms(4) by (auto simp: hmap.find_set_lemma nocase_eq_def hmap.eqv_def)
qed

theorem set_xattr_updates_header_witness:
  "case set_xattrs_to_header [(''x-amz-meta-xattr'', build_xattrs [(''user.b'', Some [7])])] ''user.a'' [1, 2] False False of
     (r, meta') \<Rightarrow> r = 0 \<and> (\<exists>h. hd_find ''x-amz-meta-xattr'' meta' = Some h \<and> sm_find ''user.a'' (parse_xattrs h) = Some (Some [1, 2]))"
proof -
  let ?m = "[(''user.b'', Some [7 :: 8 word])]"
  let ?meta = "[(''x-amz-meta-xattr'', build_xattrs ?m)]"
  obtain r meta' where s: "set_xattrs_to_header ?meta ''user.a'' [1, 2] False False = (r, meta')" by fastforce
  have m: "xattrs_ok ?m" "xname_ok ''user.a''" "hd_find ''x-amz-meta-xattr'' ?meta = Some (build_xattrs ?m)"
    "om_sorted strcasecmp_less ?meta"
    by (simp_all add: xattrs_ok_def om_sorted_def xname_ok_def DQ_def hmap.irrefl)
  show ?thesis unfolding s using set_xattr_updates_header [OF m s] by (auto simp: new_value_def)
qed

text \<open>An attribute whose name has a colon is written, but cannot be read: its pair is cut at the wrong place and skipped.\<close>

theorem xattr_with_colon_lost:
  assumes "CHR '':'' \<in> set k" "DQ \<notin> set k" "CHR '','' \<notin> set k"
  shows "parse_xattrs (build_xattrs [(k, v)]) = []"
proof -
  obtain p where p: "find_idx ((=) CHR '':'') k = Some p" using assms(1) by (cases "find_idx ((=) CHR '':'') k") (auto simp: find_idx_None)
  have i: "find_idx ((=) CHR '':'') (xattr_pair (k, v)) = Some (p + 1)"
    using p by (simp add: xattr_pair_def find_idx_append DQ_def)
  have "p < length k" using p by (simp add: find_idx_Some)
  then have "take (p + 1) (xattr_pair (k, v)) = DQ # take p k" by (simp add: xattr_pair_def)
  moreover have "find_last_idx ((=) DQ) (take p k) = None"
    using assms(2) by (auto simp: find_last_idx_def find_idx_None dest: in_set_takeD)
  ultimately have key: "parse_xattr_keyval (xattr_pair (k, v)) = None"
    using i by (simp add: parse_xattr_keyval_def takeout_str_dquart_def DQ_def)
  have "CHR '','' \<notin> set (xattr_pair (k, v))"
    using assms(3) base64_plain(2) by (auto simp: xattr_pair_def DQ_def split: option.splits)
  then have "find_idx ((=) CHR '','') (xattr_pair (k, v)) = None" by (auto simp: find_idx_None)
  then have "next_pair (xattr_pair (k, v)) = (xattr_pair (k, v), [])" "xattr_pair (k, v) \<noteq> []"
    by (simp_all add: next_pair_def) (simp add: xattr_pair_def)
  then have "parse_pairs (xattr_pair (k, v)) [] = []" using key by (simp add: parse_pairs.simps)
  moreover have "urlDecode (build_xattrs [(k, v)]) = CHR ''{'' # xattr_pair (k, v) @ [CHR ''}'']"
    unfolding build_xattrs_def urlDecode_urlEncode by simp
  ultimately show ?thesis unfolding parse_xattrs_def Let_def by (simp only: find_last_brace) (simp add: substr_def)
qed

theorem xattr_with_colon_lost_witness:
  "parse_xattrs (build_xattrs [(''user.a:b'', Some [1])]) = []"
  by (rule xattr_with_colon_lost) (simp_all add: DQ_def)

end
