(* ===== verification/Fs_List.thy ===== *)
theory Fs_List
  imports Fd_Manager Stat_Cache S3_Obj_List Curl_Sign Object_Meta Fs_Xattr "HOL-Library.Monad_Syntax"
begin

text \<open>
  State, environment and listing of the file system layer, \<open>protocols/s3/s3fs.cpp\<close>. Its state is the stat
  cache and the table of cached files with the world below them; the options are the record \<open>fsconf\<close>. The requests of
  \<open>S3fsCurl\<close>, which are modelled in the theories \<open>Curl_Request\<close> to \<open>Curl_Multi\<close>, and what libxml2 reads from an
  answer are functions of the record \<open>fsenv\<close>. A call that does not return (an exception passes it, it deadlocks or loops
  for ever) is \<open>None\<close>.
\<close>

section \<open>State and environment\<close>

record fsconf =
  mp_uid :: "32 word"
  mp_gid :: "32 word"
  mp_mode :: mode_t
  is_s3fs_uid :: bool
  s3fs_uid :: "32 word"
  is_s3fs_gid :: bool
  s3fs_gid :: "32 word"
  is_s3fs_umask :: bool
  s3fs_umask :: mode_t
  support_compat_dir :: bool
  max_keys_list_object :: int
  use_wtf8 :: bool
  nocopyapi :: bool
  norenameapi :: bool
  fs_nomultipart :: bool
  singlepart_copy_limit :: int

text \<open>
  A listing as libxml2 presents it: the values of single elements, and the nodes of \<open>Contents\<close> and of
  \<open>CommonPrefixes\<close>, each with the text of its name (no name element, or one without text) and its tag;
  \<open>None\<close> for a list is an expression that cannot be evaluated.
\<close>

record xnode =
  x_key :: "string option option"
  x_etag :: "string option"

record xmldoc =
  x_prefix :: "string option"
  x_marker :: "string option"
  x_truncated :: "string option"
  x_contents :: "xnode list option"
  x_prefixes :: "xnode list option"

record 'w fs =
  stats :: stat_cache
  mg :: "'w mgr"

type_synonym ('a, 'w) fs_call = "'w fs \<Rightarrow> ('a \<times> 'w fs) option"

text \<open>
  The environment. \<open>r_heads\<close> are the parallel requests of a directory listing, which are handed the names and the function to
  call with the headers of each answer.
\<close>

record 'w fsenv =
  fcf :: fsconf
  ccf :: cconf
  menv :: "'w mgr_env"
  fs_mimes :: mimes
  statenv :: senv
  mono :: "'w \<Rightarrow> timespec"
  wall :: "'w \<Rightarrow> int"
  fuse_context :: "(32 word \<times> 32 word) option"
  in_group :: "32 word \<Rightarrow> 32 word \<Rightarrow> int"
  r_head :: "string \<Rightarrow> 'w \<Rightarrow> ((int \<times> headers) \<times> 'w) option"
  r_delete :: "string \<Rightarrow> 'w \<Rightarrow> (int \<times> 'w) option"
  r_put :: "string \<Rightarrow> headers \<Rightarrow> 'w \<Rightarrow> (int \<times> 'w) option"
  r_puthead :: "string \<Rightarrow> headers \<Rightarrow> bool \<Rightarrow> 'w \<Rightarrow> (int \<times> 'w) option"
  r_multihead :: "string \<Rightarrow> int \<Rightarrow> headers \<Rightarrow> bool \<Rightarrow> 'w \<Rightarrow> ((int \<times> headers) \<times> 'w) option"
  r_multirename :: "string \<Rightarrow> string \<Rightarrow> headers \<Rightarrow> int \<Rightarrow> 'w \<Rightarrow> (int \<times> 'w) option"
  r_heads :: "(string \<times> string) list \<Rightarrow> (string \<Rightarrow> headers \<Rightarrow> (bool, 'w) fs_call) \<Rightarrow> (int, 'w) fs_call"
  r_list :: "string \<Rightarrow> string \<Rightarrow> 'w \<Rightarrow> ((int \<times> string) \<times> 'w) option"
  xml_doc :: "'w \<Rightarrow> string \<Rightarrow> xmldoc option"
  last_errno :: "'w \<Rightarrow> int"
  delete_cache_file :: "string \<Rightarrow> 'w \<Rightarrow> 'w"

definition fs_world :: "'w fs \<Rightarrow> 'w" where
  "fs_world s = m_world (mg s)"

definition set_world :: "'w \<Rightarrow> 'w fs \<Rightarrow> 'w fs" where
  "set_world w s = s\<lparr>mg := (mg s)\<lparr>m_world := w\<rparr>\<rparr>"

text \<open>A request, a call of the stat cache and a call of the table as calls of this layer.\<close>

definition on_world :: "('w \<Rightarrow> ('a \<times> 'w) option) \<Rightarrow> ('a, 'w) fs_call" where
  "on_world f s = (case f (fs_world s) of None \<Rightarrow> None | Some (r, w) \<Rightarrow> Some (r, set_world w s))"

definition on_stats :: "(stat_cache \<Rightarrow> ('a \<times> stat_cache) locked) \<Rightarrow> ('a, 'w) fs_call" where
  "on_stats f s = (case f (stats s) of Deadlock \<Rightarrow> None | Returns (r, c) \<Rightarrow> Some (r, s\<lparr>stats := c\<rparr>))"

definition on_mgr :: "('w mgr \<Rightarrow> ('a \<times> 'w mgr) option) \<Rightarrow> ('a, 'w) fs_call" where
  "on_mgr f s = (case f (mg s) of None \<Rightarrow> None | Some (r, m) \<Rightarrow> Some (r, s\<lparr>mg := m\<rparr>))"

section \<open>Names\<close>

text \<open>
  \<open>dirname\<close> and \<open>basename\<close> of the C library; of the two results POSIX allows for a path of two slashes
  the single slash is taken.
\<close>

definition strip_slashes :: "string \<Rightarrow> string" where
  "strip_slashes s = rev (dropWhile ((=) CHR ''/'') (rev s))"

definition dirname :: "string \<Rightarrow> string" where
  "dirname s =
     (if s = [] then ''.''
      else if strip_slashes s = [] then ''/''
      else case find_last_idx ((=) CHR ''/'') (strip_slashes s) of
        None \<Rightarrow> ''.''
      | Some i \<Rightarrow> (let u = strip_slashes (take i (strip_slashes s)) in if u = [] then ''/'' else u))"

definition basename :: "string \<Rightarrow> string" where
  "basename s =
     (if s = [] then ''.''
      else if strip_slashes s = [] then ''/''
      else case find_last_idx ((=) CHR ''/'') (strip_slashes s) of
        None \<Rightarrow> strip_slashes s
      | Some i \<Rightarrow> drop (i + 1) (strip_slashes s))"

definition mydirname :: "string option \<Rightarrow> string" where
  "mydirname path = (case path of None \<Rightarrow> [] | Some p \<Rightarrow> if p = [] then [] else dirname p)"

definition mybasename :: "string option \<Rightarrow> string" where
  "mybasename path = (case path of None \<Rightarrow> [] | Some p \<Rightarrow> if p = [] then [] else basename p)"

section \<open>Reading a listing\<close>

text \<open>The name of an entry below a directory; \<open>Outside\<close> is the constant \<open>c_strErrorObjectName\<close>.\<close>

datatype objname = No_name | Outside | Name string

definition get_object_name :: "string option \<Rightarrow> string \<Rightarrow> objname" where
  "get_object_name node path =
     (case node of None \<Rightarrow> No_name
      | Some fullpath \<Rightarrow>
          if fullpath = path then Outside
          else
            (let dirpath = dirname fullpath;
                 mybname = basename fullpath;
                 basepath = (if path \<noteq> [] \<and> hd path = CHR ''/'' then tl path else path)
             in if mybname = [] then No_name
                else if dirpath = [] then Outside
                else if mybname = ''/'' \<and> dirpath = ''/'' then Outside
                else if mybname = ''.'' \<and> dirpath = ''.'' then Outside
                else if mybname = ''..'' \<and> dirpath = ''.'' then Outside
                else if dirpath = ''.'' then Name mybname
                else if dirpath = basepath then Name mybname
                else if ends_with CHR ''/'' basepath
                        \<and> take (length basepath - 1) dirpath = butlast basepath then
                  (let withdirname = drop (length basepath) dirpath;
                       withdirname = (if withdirname \<noteq> [] \<and> \<not> ends_with CHR ''/'' withdirname
                         then withdirname @ ''/'' else withdirname)
                   in Name (withdirname @ mybname))
                else Outside))"

text \<open>The entries of one kind; \<open>None\<close> is the result \<open>-1\<close>, with the list as it is then.\<close>

fun append_nodes :: "string \<Rightarrow> bool \<Rightarrow> xnode list \<Rightarrow> s3obj \<Rightarrow> bool \<times> s3obj" where
  "append_nodes path isCPrefix [] head = (True, head)"
| "append_nodes path isCPrefix (x # xs) head =
     (case x_key x of None \<Rightarrow> append_nodes path isCPrefix xs head
      | Some node \<Rightarrow>
          (case get_object_name node path of
             Name name \<Rightarrow>
               (let stretag = (if isCPrefix then [] else case x_etag x of None \<Rightarrow> [] | Some t \<Rightarrow> t)
                in case insert_obj head name (if stretag \<noteq> [] then Some stretag else None) isCPrefix of
                     (False, head1) \<Rightarrow> (False, head1)
                   | (True, head1) \<Rightarrow> append_nodes path isCPrefix xs head1)
           | _ \<Rightarrow> append_nodes path isCPrefix xs head))"

definition append_objects_from_xml_ex :: "string \<Rightarrow> bool \<Rightarrow> xnode list option \<Rightarrow> s3obj \<Rightarrow> bool \<times> s3obj" where
  "append_objects_from_xml_ex path isCPrefix nodes head =
     (case nodes of None \<Rightarrow> (False, head) | Some xs \<Rightarrow> append_nodes path isCPrefix xs head)"

definition append_objects_from_xml :: "string \<Rightarrow> xmldoc \<Rightarrow> s3obj \<Rightarrow> bool \<times> s3obj" where
  "append_objects_from_xml path doc head =
     (let prefix = (case x_prefix doc of Some p \<Rightarrow> p | None \<Rightarrow> path)
      in case append_objects_from_xml_ex prefix False (x_contents doc) head of
           (False, head1) \<Rightarrow> (False, head1)
         | (True, head1) \<Rightarrow> append_objects_from_xml_ex prefix True (x_prefixes doc) head1)"

definition is_truncated :: "xmldoc \<Rightarrow> bool" where
  "is_truncated doc = (case x_truncated doc of None \<Rightarrow> False | Some t \<Rightarrow> nocase_eq t ''true'')"

section \<open>Listing a directory\<close>

definition with_slash :: "string \<Rightarrow> string" where
  "with_slash s = (if ends_with CHR ''/'' s then s else s @ ''/'')"

definition list_query :: "'w fsenv \<Rightarrow> string \<Rightarrow> string option \<Rightarrow> bool \<Rightarrow> string \<Rightarrow> string" where
  "list_query env realpath delimiter check_content_only next_marker =
     (let query_delimiter = (case delimiter of None \<Rightarrow> [] | Some d \<Rightarrow> if d = [] then [] else ''delimiter='' @ d @ ''&'');
          query_prefix = ''&prefix='' @ urlEncode
            (if ends_with CHR ''/'' realpath then drop 1 realpath else drop 1 realpath @ ''/'');
          query_maxkey = (if check_content_only then ''max-keys=2''
                          else ''max-keys='' @ str (max_keys_list_object (fcf env)))
      in query_delimiter
         @ (if next_marker \<noteq> [] then ''marker='' @ urlEncode next_marker @ ''&'' else [])
         @ query_maxkey @ query_prefix)"

text \<open>Where the next request starts: the marker of the answer, or the last name listed.\<close>

definition next_marker_of :: "string \<Rightarrow> xmldoc \<Rightarrow> s3obj \<Rightarrow> string option" where
  "next_marker_of realpath doc head =
     (case x_marker doc of Some t \<Rightarrow> Some t
      | None \<Rightarrow> (case GetLastName head of
          (False, _) \<Rightarrow> None
        | (True, lastname) \<Rightarrow> Some (drop 1 realpath
            @ (if realpath = [] \<or> \<not> ends_with CHR ''/'' realpath then ''/'' else []) @ lastname)))"

text \<open>
  The loop over the answers. It ends with an answer that is not truncated; a server that never sends one keeps
  it going.
\<close>

partial_function (option) list_loop ::
  "'w fsenv \<Rightarrow> string \<Rightarrow> string \<Rightarrow> string option \<Rightarrow> bool \<Rightarrow> string \<Rightarrow> s3obj \<Rightarrow> 'w fs \<Rightarrow> ((int \<times> s3obj) \<times> 'w fs) option" where
  [code]: "list_loop env path realpath delimiter only marker head s =
     (case on_world (r_list env path (list_query env realpath delimiter only marker)) s of
        None \<Rightarrow> None
      | Some ((result, body), s1) \<Rightarrow>
          if result \<noteq> 0 then Some ((result, head), s1)
          else (case xml_doc env (fs_world s1) body of None \<Rightarrow> Some ((- 1, head), s1)
            | Some doc \<Rightarrow>
                (case append_objects_from_xml path doc head of (ok, head1) \<Rightarrow>
                   if \<not> ok then Some ((- 1, head1), s1)
                   else (case (if is_truncated doc then next_marker_of realpath doc head1 else None) of
                        None \<Rightarrow> Some ((0, head1), s1)
                      | Some next \<Rightarrow>
                          if only then Some ((0, head1), s1)
                          else list_loop env path realpath delimiter only next head1 s1))))"

definition list_bucket ::
  "'w fsenv \<Rightarrow> string \<Rightarrow> s3obj \<Rightarrow> string option \<Rightarrow> bool \<Rightarrow> (int \<times> s3obj, 'w) fs_call" where
  "list_bucket env path head delimiter check_content_only s =
     (let realpath = get_realpath (ccf env) path
      in if realpath = [] then None
         else list_loop env path realpath delimiter check_content_only [] head s)"

definition directory_empty :: "'w fsenv \<Rightarrow> string \<Rightarrow> (int, 'w) fs_call" where
  "directory_empty env path s = do {
     ((result, head), s1) \<leftarrow> list_bucket env path [] (Some ''/'') True s;
     Some (if result \<noteq> 0 then result else if head \<noteq> [] then - ENOTEMPTY else 0, s1)
   }"

section \<open>A server in memory\<close>

text \<open>
  For concrete runs: a server that is a map from paths to headers, which answers every request, lists all its objects in
  one answer and copies what is there; and a table of files whose calls all succeed.
\<close>

type_synonym mem = "headers smap"

definition mem_io :: "'w io" where
  "mem_io = \<lparr>sys = (\<lambda>c w. (Inr 0, w)), get_object = (\<lambda>par path off n w. (0, replicate (nat n) 0, w)),
     put_object = (\<lambda>par path meta f w. (0, w)), mp_pre = (\<lambda>path meta w. (0, ''id'', w)),
     mp_upload = (\<lambda>uid path f tags w. (0, tags, w)), mp_complete = (\<lambda>path uid tags w. (0, w)),
     avail_space = (\<lambda>w. 1000000), cleanup_cache = (\<lambda>w. w), leave_cache = (\<lambda>path w. w),
     to_temp_path = (\<lambda>path w. w), multipart_size = 10485760, max_parallel = 5, nomultipart = False, is_cache_dir = False\<rparr>"

definition mem_mgr :: "'w mgr_env" where
  "mem_mgr = \<lparr>me_io = mem_io,
     me_disk = \<lparr>mtime_of = (\<lambda>p w. None), data_of = (\<lambda>p w. []), stat_text = (\<lambda>p w. None),
       save_stat = (\<lambda>p text w. (True, w)), open_mirror = (\<lambda>p w. (None, ''/m'', w)),
       drop_mirror = (\<lambda>p w. w), file_times = (\<lambda>f w. (0, 0))\<rparr>,
     cache_dir = [], bucket = ''b'', mkdirs = (\<lambda>p w. 0), random = (\<lambda>w. 31)\<rparr>"

definition mem_conf :: fsconf where
  "mem_conf = \<lparr>mp_uid = 0, mp_gid = 0, mp_mode = 0x41ED, is_s3fs_uid = False, s3fs_uid = 0, is_s3fs_gid = False,
     s3fs_gid = 0, is_s3fs_umask = False, s3fs_umask = 0, support_compat_dir = False, max_keys_list_object = 1000,
     use_wtf8 = False, nocopyapi = False, norenameapi = False, fs_nomultipart = False,
     singlepart_copy_limit = 512 * 1024 * 1024\<rparr>"

definition copied_from :: "headers \<Rightarrow> string" where
  "copied_from meta = (case hd_find ''x-amz-copy-source'' meta of None \<Rightarrow> []
     | Some v \<Rightarrow> drop 2 (urlDecode v))"

definition mem_doc :: "mem \<Rightarrow> xmldoc" where
  "mem_doc w = \<lparr>x_prefix = None, x_marker = None, x_truncated = None,
     x_contents = Some (map (\<lambda>(k, h). \<lparr>x_key = Some (Some (drop 1 k)), x_etag = None\<rparr>) w), x_prefixes = Some []\<rparr>"

definition mem_env :: "fsconf \<Rightarrow> 32 word \<times> 32 word \<Rightarrow> mem fsenv" where
  "mem_env fc ids = \<lparr>fcf = fc, ccf = initial_conf\<lparr>g_bucket := ''b''\<rparr>, menv = mem_mgr, fs_mimes = [],
     statenv = \<lparr>complement_stat = False, geteuid = fst ids, getegid = snd ids, parse_date = (\<lambda>s. 0)\<rparr>,
     mono = (\<lambda>w. \<lparr>tv_sec = 0, tv_nsec = 0\<rparr>), wall = (\<lambda>w. 7), fuse_context = Some ids, in_group = (\<lambda>u g. 0),
     r_head = (\<lambda>path w. Some (case sm_find path w of None \<Rightarrow> (- ENOENT, []) | Some h \<Rightarrow> (0, h), w)),
     r_delete = (\<lambda>path w. Some (0, sm_erase path w)), r_put = (\<lambda>path meta w. Some (0, sm_set path meta w)),
     r_puthead = (\<lambda>path meta cp w. Some (if sm_find (copied_from meta) w = None then (- EIO, w) else (0, sm_set path meta w))),
     r_multihead = (\<lambda>path n meta cp w. Some ((0, meta), sm_set path meta w)),
     r_multirename = (\<lambda>from to meta n w. Some (0, sm_set to meta w)),
     r_heads = (\<lambda>reqs cb s. Some (0, s)), r_list = (\<lambda>path query w. Some ((0, []), w)),
     xml_doc = (\<lambda>w body. Some (mem_doc w)),
     last_errno = (\<lambda>w. 5), delete_cache_file = (\<lambda>path w. w)\<rparr>"

definition mem_fs :: "mem \<Rightarrow> mem fs" where
  "mem_fs w = \<lparr>stats = new_stat_cache, mg = new_mgr w\<rparr>"

lemma mem_env_simps [simp]:
  "fcf (mem_env fc ids) = fc" "fuse_context (mem_env fc ids) = Some ids" "in_group (mem_env fc ids) u g = 0"
  "menv (mem_env fc ids) = mem_mgr"
  by (simp_all add: mem_env_def)

lemma mem_list_bucket:
  assumes "path \<noteq> []"
  shows "list_bucket (mem_env fc ids) path head d only s =
    (case append_objects_from_xml path (mem_doc (fs_world s)) head of
       (ok, h) \<Rightarrow> Some ((if ok then 0 else - 1, h), s))"
proof -
  have w: "set_world (fs_world s) s = s" "fs_world (set_world (fs_world s) s) = fs_world s"
    by (simp_all add: set_world_def fs_world_def)
  have "get_realpath (ccf (mem_env fc ids)) path \<noteq> []" using assms by (simp add: get_realpath_def)
  then show ?thesis
    unfolding list_bucket_def Let_def
    by (subst list_loop.simps)
      (simp add: on_world_def mem_env_def w is_truncated_def mem_doc_def [of "fs_world s"] split: prod.splits)
qed

end
