(* ===== verification/Fs_Attr.thy ===== *)
theory Fs_Attr
  imports Fs_List
begin

text \<open>
  Attributes and permissions of the file system layer, \<open>protocols/s3/s3fs.cpp\<close>: the attributes of an object from the stat
  cache or from the server, with the four ways a directory may be stored, the type of a directory object, and the checks
  of the mode, the owner and the directories above an object.
\<close>

unbundle bit_operations_syntax

section \<open>Calls of the stat cache\<close>

definition now_of :: "'w fsenv \<Rightarrow> 'w fs \<Rightarrow> timespec" where
  "now_of env s = mono env (fs_world s)"

definition fs_DelStat :: "string \<Rightarrow> (unit, 'w) fs_call" where
  "fs_DelStat key s = on_stats (\<lambda>c. case DelStat False c (Some key) False of
     Deadlock \<Rightarrow> Deadlock | Returns (_, c1) \<Rightarrow> Returns ((), c1)) s"

text \<open>\<open>HeadRequest\<close> replaces the caller's headers when it succeeds and leaves them alone when it fails.\<close>

definition head_request :: "'w fsenv \<Rightarrow> string \<Rightarrow> headers \<Rightarrow> (int \<times> headers, 'w) fs_call" where
  "head_request env path meta s = do {
     ((result, answer), s1) \<leftarrow> on_world (r_head env path) s;
     Some ((result, if result = 0 then answer else meta), s1)
   }"

section \<open>Names of directory objects\<close>

text \<open>A name without the marker of an old directory and what follows it, as a directory.\<close>

definition cut_folder :: "string \<Rightarrow> string" where
  "cut_folder s = (case find_sub FOLDER s of None \<Rightarrow> s | Some pos \<Rightarrow> take pos s @ ''/'')"

definition chop_slash :: "string \<Rightarrow> string" where
  "chop_slash s = (if ends_with CHR ''/'' s then butlast s else s)"

definition has_folder :: "string \<Rightarrow> bool" where
  "has_folder s \<longleftrightarrow> find_sub FOLDER s \<noteq> None"

datatype dirtype = DIRTYPE_UNKNOWN | DIRTYPE_NEW | DIRTYPE_OLD | DIRTYPE_FOLDER | DIRTYPE_NOOBJ

definition IS_REPLACEDIR :: "dirtype \<Rightarrow> bool" where
  "IS_REPLACEDIR type \<longleftrightarrow> DIRTYPE_OLD = type \<or> DIRTYPE_FOLDER = type \<or> DIRTYPE_NOOBJ = type"

definition IS_RMTYPEDIR :: "dirtype \<Rightarrow> bool" where
  "IS_RMTYPEDIR type \<longleftrightarrow> DIRTYPE_OLD = type \<or> DIRTYPE_FOLDER = type"

definition is_special_name_folder_object :: "'w fsenv \<Rightarrow> string \<Rightarrow> (bool, 'w) fs_call" where
  "is_special_name_folder_object env path s =
     (if \<not> support_compat_dir (fcf env) \<or> path = [] then Some (False, s)
      else
        (let strpath = (if has_folder path then path else chop_slash path @ FOLDER)
         in do {
              ((result, _), s1) \<leftarrow> head_request env strpath [] s;
              Some (result = 0, s1)
            }))"

section \<open>Attributes of an object\<close>

text \<open>
  What \<open>get_object_attribute\<close> leaves in the structures of its caller: the attributes, the headers and the flag of a
  directory without an object. The arguments of that name are what they hold before.
\<close>

record attrs =
  a_stat :: stat_t
  a_meta :: headers
  a_force :: bool

definition no_attrs :: attrs where
  "no_attrs = \<lparr>a_stat = zero_stat, a_meta = [], a_force = False\<rparr>"

text \<open>The search on the server: its result, the name found, the headers and whether only children were found.\<close>

type_synonym found = "int \<times> string \<times> headers \<times> bool"

definition try_name :: "'w fsenv \<Rightarrow> string \<Rightarrow> headers \<Rightarrow> (found, 'w) fs_call" where
  "try_name env strpath meta s = do {
     ((result, meta1), s1) \<leftarrow> head_request env strpath meta s;
     Some ((result, strpath, meta1, False), s1)
   }"

definition over_check :: "'w fsenv \<Rightarrow> found \<Rightarrow> (found, 'w) fs_call" where
  "over_check env f0 s = do {
     (f1, s1) \<leftarrow> (case f0 of (r, p, h, _) \<Rightarrow>
        if \<not> ends_with CHR ''/'' p \<and> \<not> has_folder p then try_name env (p @ ''/'') h s else Some (f0, s));
     (case f1 of (r, p, h, _) \<Rightarrow>
        if support_compat_dir (fcf env) \<and> r \<noteq> 0 then do {
          ((r2, p2, h2, _), s2) \<leftarrow> try_name env (butlast p @ FOLDER) h s1;
          Some ((r2, if r2 \<noteq> 0 then (case find_sub FOLDER p2 of None \<Rightarrow> p2 | Some pos \<Rightarrow> take pos p2) else p2, h2, False), s2)
        }
        else Some (f1, s1))
   }"

text \<open>A directory that is only the prefix of other objects.\<close>

definition children_check :: "'w fsenv \<Rightarrow> string \<Rightarrow> found \<Rightarrow> (found, 'w) fs_call" where
  "children_check env strpath f s = do {
     (e, s1) \<leftarrow> directory_empty env strpath s;
     (case f of (r, _, h, _) \<Rightarrow>
        Some (if e = - ENOTEMPTY then (0, strpath @ ''/'', h, True) else (r, strpath, h, False), s1))
   }"

definition find_object :: "'w fsenv \<Rightarrow> string \<Rightarrow> bool \<Rightarrow> headers \<Rightarrow> (found, 'w) fs_call" where
  "find_object env path overcheck meta s = do {
     (f0, s0) \<leftarrow> try_name env path meta s;
     (if fst f0 \<noteq> 0 then do {
        (f1, s1) \<leftarrow> (if overcheck then over_check env f0 s0 else Some (f0, s0));
        (case f1 of (r, p, h, _) \<Rightarrow>
           if support_compat_dir (fcf env) \<and> r \<noteq> 0 \<and> \<not> has_folder p then children_check env (chop_slash p) f1 s1
           else Some (f1, s1))
      }
      else (case f0 of (r, p, h, _) \<Rightarrow>
        if support_compat_dir (fcf env) \<and> \<not> ends_with CHR ''/'' p \<and> \<not> has_folder p then
          (case is_need_check_obj_detail h of Inl e \<Rightarrow> None
           | Inr True \<Rightarrow> children_check env p f0 s0
           | Inr False \<Rightarrow> Some (f0, s0))
        else Some (f0, s0)))
   }"

text \<open>The attributes from the headers.\<close>

definition convert_found ::
  "'w fsenv \<Rightarrow> string \<Rightarrow> bool \<Rightarrow> attrs \<Rightarrow> (int \<times> attrs, 'w) fs_call" where
  "convert_found env strpath forcedir a s =
     (case convert_header_to_stat (statenv env) strpath (a_meta a) forcedir of
        Inl e \<Rightarrow> None
      | Inr st \<Rightarrow> Some ((0, a\<lparr>a_stat := st\<rparr>), s))"

text \<open>
  A found object enters the cache and is read back from it. The flag the new entry gets is the variable
  \<open>forcedir\<close>, which is the caller's flag only when the caller gave none.
\<close>

definition cache_found ::
  "'w fsenv \<Rightarrow> string \<Rightarrow> bool \<Rightarrow> bool \<Rightarrow> bool \<Rightarrow> attrs \<Rightarrow> (int \<times> attrs, 'w) fs_call" where
  "cache_found env strpath forcedir overcheck add_no_truncate_cache a s =
     (if add_no_truncate_cache \<or> CacheSize (stats s) \<noteq> 0 then do {
        (ok, s1) \<leftarrow> on_stats (\<lambda>c. AddStat (statenv env) c (now_of env s) strpath (a_meta a) forcedir add_no_truncate_cache) s;
        (case ok of Inl e \<Rightarrow> None
         | Inr False \<Rightarrow> Some ((- ENOENT, a), s1)
         | Inr True \<Rightarrow> do {
             (hit, s2) \<leftarrow> on_stats (\<lambda>c. GetStat c (now_of env s1) strpath overcheck None) s1;
             (case hit of
                Some (st, h, f) \<Rightarrow> Some ((0, \<lparr>a_stat = st, a_meta = h, a_force = f\<rparr>), s2)
              | None \<Rightarrow> convert_found env strpath forcedir a s2)
           })
      }
      else convert_found env strpath forcedir a s)"

definition root_stat :: "'w fsenv \<Rightarrow> stat_t" where
  "root_stat env = zero_stat\<lparr>st_nlink := 1, st_mode := mp_mode (fcf env),
     st_uid := (if is_s3fs_uid (fcf env) then s3fs_uid (fcf env) else mp_uid (fcf env)),
     st_gid := (if is_s3fs_gid (fcf env) then s3fs_gid (fcf env) else mp_gid (fcf env))\<rparr>"

definition get_object_attribute ::
  "'w fsenv \<Rightarrow> string \<Rightarrow> attrs \<Rightarrow> bool \<Rightarrow> bool \<Rightarrow> bool \<Rightarrow> (int \<times> attrs, 'w) fs_call" where
  "get_object_attribute env path a0 overcheck has_pisforce add_no_truncate_cache s =
     (if path = [] then Some ((- ENOENT, a0), s)
      else if path = ''/'' \<or> path = ''.'' then Some ((0, a0\<lparr>a_stat := root_stat env\<rparr>), s)
      else
        (let a = a0\<lparr>a_stat := zero_stat, a_force := False\<rparr>;
             strpath = (if support_compat_dir (fcf env) \<and> overcheck then cut_folder path else path)
         in do {
           (hit, s1) \<leftarrow> on_stats (\<lambda>c. GetStat c (now_of env s) strpath overcheck None) s;
           (case hit of
              Some (st, h, f) \<Rightarrow>
                Some ((0, \<lparr>a_stat = st, a_meta = h, a_force = f\<rparr>),
                  s1\<lparr>stats := ChangeNoTruncateFlag (stats s1) strpath add_no_truncate_cache\<rparr>)
            | None \<Rightarrow> do {
                (gone, s2) \<leftarrow> on_stats (\<lambda>c. IsNoObjectCache c (now_of env s1) strpath True) s1;
                (if gone then Some ((- ENOENT, a), s2)
                 else do {
                   ((r, p, h, force), s3) \<leftarrow> find_object env path overcheck (a_meta a) s2;
                   (if r \<noteq> 0 then do {
                      (_, s4) \<leftarrow> on_stats (\<lambda>c. AddNoObjectCache c (now_of env s3) path) s3;
                      Some ((r, a\<lparr>a_meta := h\<rparr>), s4)
                    }
                    else cache_found env (cut_folder p) (force \<and> \<not> has_pisforce) overcheck add_no_truncate_cache
                      (a\<lparr>a_meta := h, a_force := force\<rparr>) s3)
                 })
              })
         }))"

abbreviation get_attr :: "'w fsenv \<Rightarrow> string \<Rightarrow> (int \<times> attrs, 'w) fs_call" where
  "get_attr env path \<equiv> get_object_attribute env path no_attrs True False False"

section \<open>The type of a directory object\<close>

text \<open>The names \<open>chk_dir_object_type\<close> fills in, and what it found.\<close>

record dirnames =
  newpath :: string
  nowpath :: string
  nowcache :: string
  d_meta :: headers
  d_type :: "dirtype option"

definition normal_dir :: "string \<Rightarrow> string" where
  "normal_dir path =
     (if ends_with CHR ''/'' path then path
      else (case find_sub FOLDER path of None \<Rightarrow> path | Some pos \<Rightarrow> take pos path) @ ''/'')"

text \<open>The name an old object would have is searched when \<open>dir/\<close> is not found.\<close>

definition chk_compat_dir ::
  "'w fsenv \<Rightarrow> dirnames \<Rightarrow> attrs \<Rightarrow> int \<Rightarrow> (int \<times> dirnames, 'w) fs_call" where
  "chk_compat_dir env d a result0 s =
     (let now0 = butlast (newpath d)
      in do {
        ((result, a1), s1) \<leftarrow> get_object_attribute env now0 a False True False s;
        (let d1 = d\<lparr>d_meta := a_meta a1\<rparr>
         in if result = 0 then
              (if a_force a1 then Some ((0, d1\<lparr>nowcache := now0, d_type := Some DIRTYPE_NOOBJ, nowpath := []\<rparr>), s1)
               else Some ((0, d1\<lparr>nowcache := now0, d_type := Some DIRTYPE_OLD, nowpath := now0\<rparr>), s1))
            else do {
              (folder, s2) \<leftarrow> is_special_name_folder_object env (now0 @ FOLDER) s1;
              (if folder then Some ((0, d1\<lparr>nowcache := [], nowpath := now0 @ FOLDER, d_type := Some DIRTYPE_FOLDER\<rparr>), s2)
               else do {
                 (e, s3) \<leftarrow> directory_empty env (newpath d) s2;
                 (if e = - ENOTEMPTY then
                    Some ((0, d1\<lparr>nowcache := [], nowpath := [], d_type := Some DIRTYPE_NOOBJ\<rparr>), s3)
                  else Some ((result, d1\<lparr>nowcache := [], nowpath := [], newpath := [], d_type := Some DIRTYPE_UNKNOWN\<rparr>), s3))
               })
            })
      })"

definition chk_dir_object_type ::
  "'w fsenv \<Rightarrow> string \<Rightarrow> dirnames \<Rightarrow> (int \<times> dirnames, 'w) fs_call" where
  "chk_dir_object_type env path d0 s =
     (let d = d0\<lparr>newpath := normal_dir path\<rparr>
      in do {
        ((result, a), s1) \<leftarrow>
          get_object_attribute env (newpath d) (no_attrs\<lparr>a_meta := d_meta d\<rparr>) False True False s;
        (let d1 = d\<lparr>d_meta := a_meta a\<rparr>
         in if result = 0 then do {
              (folder, s2) \<leftarrow> is_special_name_folder_object env (newpath d1) s1;
              (let d2 = d1\<lparr>nowcache := newpath d1\<rparr>
               in if folder then
                    Some ((0, d2\<lparr>d_type := Some DIRTYPE_FOLDER, nowpath := butlast (newpath d2) @ FOLDER\<rparr>), s2)
                  else if a_force a then Some ((0, d2\<lparr>d_type := Some DIRTYPE_NOOBJ, nowpath := []\<rparr>), s2)
                  else Some ((0, d2\<lparr>nowpath := newpath d2,
                    d_type := Some (if ends_with CHR ''/'' (newpath d2) then DIRTYPE_NEW else DIRTYPE_OLD)\<rparr>), s2))
            }
            else if support_compat_dir (fcf env) then chk_compat_dir env d1 a result s1
            else Some ((result, d1), s1))
      })"

definition remove_old_type_dir :: "'w fsenv \<Rightarrow> string \<Rightarrow> dirtype option \<Rightarrow> (int, 'w) fs_call" where
  "remove_old_type_dir env path type s =
     (if (case type of None \<Rightarrow> False | Some t \<Rightarrow> IS_RMTYPEDIR t) then do {
        (result, s1) \<leftarrow> on_world (r_delete env path) s;
        Some (if result \<noteq> 0 \<and> result \<noteq> - ENOENT then result else 0, s1)
      }
      else Some (0, s))"

section \<open>What the search leaves alone\<close>

text \<open>Requests and listings do not touch the stat cache.\<close>

lemma on_world_stats: "on_world f s = Some (r, s') \<Longrightarrow> stats s' = stats s"
  by (auto simp: on_world_def set_world_def split: option.splits)

lemma head_request_stats: "head_request env p h s = Some (r, s') \<Longrightarrow> stats s' = stats s"
  by (auto simp: head_request_def bind_eq_Some_conv dest: on_world_stats)

lemma try_name_facts: "try_name env p h s = Some (f, s') \<Longrightarrow> stats s' = stats s \<and> snd (snd (snd f)) = False"
  by (auto simp: try_name_def bind_eq_Some_conv dest: head_request_stats)

lemma list_loop_stats:
  assumes "list_loop env path rp d only m head s = Some r"
  shows "stats (snd r) = stats s"
proof (rule list_loop.raw_induct [OF _ assms], goal_cases)
  case (1 f env path rp d only m head s r)
  then show ?case by (auto split: option.splits prod.splits if_splits dest!: on_world_stats)
qed

lemma directory_empty_stats: "directory_empty env path s = Some (r, s') \<Longrightarrow> stats s' = stats s"
  by (auto simp: directory_empty_def list_bucket_def Let_def bind_eq_Some_conv split: if_splits dest!: list_loop_stats)

lemma children_check_facts:
  "children_check env p f s = Some ((r, q, h, force), s') \<Longrightarrow> stats s' = stats s \<and> (force \<longrightarrow> ends_with CHR ''/'' q)"
  by (cases f) (auto simp: children_check_def bind_eq_Some_conv ends_with_def split: if_splits dest!: directory_empty_stats)

lemma over_check_facts: "over_check env f s = Some (g, s') \<Longrightarrow> stats s' = stats s \<and> (snd (snd (snd g)) \<longrightarrow> snd (snd (snd f)))"
  by (auto simp: over_check_def bind_eq_Some_conv split: prod.splits if_splits dest!: try_name_facts)

lemma find_object_facts:
  assumes "find_object env path oc h s = Some ((r, p, h', force), s')"
  shows "stats s' = stats s" "force \<longrightarrow> ends_with CHR ''/'' p"
  using assms
  by (auto simp: find_object_def bind_eq_Some_conv split: prod.splits if_splits sum.splits bool.splits
      dest!: try_name_facts over_check_facts children_check_facts)

section \<open>The flag of a directory without an object\<close>

definition unforced :: "stat_cache \<Rightarrow> bool" where
  "unforced c \<longleftrightarrow> cache_sorted c \<and> \<not> IsExpireTime c \<and> all_entries (\<lambda>e. \<not> isforce e) c"

lemma unforced_keeps: "unforced c \<Longrightarrow> keeps (\<lambda>e. \<not> isforce e) c c' \<Longrightarrow> unforced c'"
  by (auto simp: unforced_def keeps_def same_config_def)

lemma unforced_GetStat:
  assumes "unforced c" "GetStat c now k oc tag = Returns (hit, c')"
  shows "unforced c' \<and> CacheSize c' = CacheSize c \<and> (\<forall>st h f. hit = Some (st, h, f) \<longrightarrow> \<not> f)"
proof -
  have k: "keeps (\<lambda>e. \<not> isforce e) c c'"
    using assms by (intro keeps_GetStat [of c _ now k oc tag hit]) (auto simp: unforced_def)
  have "\<not> f" if h: "hit = Some (st, h, f)" for st h f
  proof (cases rule: find_entry_cases [of "entries c" k oc])
    case (miss p)
    then show ?thesis using assms(2) h by (auto simp: GetStat_def)
  next
    case (hit p e)
    then have "\<not> isforce e" using assms(1) all_entries_find by (auto simp: unforced_def)
    then show ?thesis using assms(2) h hit by (auto simp: GetStat_def split: if_splits locked.splits)
  qed
  then show ?thesis using unforced_keeps [OF assms(1) k] k by (auto simp: keeps_def same_config_def)
qed

lemma on_stats_Some: "on_stats f s = Some (r, s') \<longleftrightarrow> (\<exists>c. f (stats s) = Returns (r, c) \<and> s' = s\<lparr>stats := c\<rparr>)"
  by (auto simp: on_stats_def split: locked.splits)

lemma AddStat_enters:
  assumes "unforced c" "nt \<or> CacheSize c \<noteq> 0" "AddStat en c now k h fd nt = Returns (Inr True, c')"
  shows "\<exists>ent. sm_find k (entries c') = Some ent \<and> isforce ent = fd \<and> \<not> noobjcache ent"
    "\<not> fd \<Longrightarrow> unforced c'" "IsExpireTime c' = IsExpireTime c"
proof -
  obtain c1 where m: "make_room c now k = Returns (True, c1)" using make_room_Returns by blast
  have k1: "keeps (\<lambda>e. \<not> isforce e) c c1" using assms(1) m by (intro keeps_make_room) (auto simp: unforced_def)
  then have s1: "sm_sorted (entries c1)" "IsExpireTime c1 = IsExpireTime c"
    by (auto simp: keeps_def cache_sorted_def same_config_def)
  then show "\<exists>ent. sm_find k (entries c') = Some ent \<and> isforce ent = fd \<and> \<not> noobjcache ent"
    "IsExpireTime c' = IsExpireTime c"
    using assms(2,3) m by (auto simp: AddStat_def Let_def sm_laws split: if_splits sum.splits)
  show "unforced c'" if "\<not> fd"
    using assms that by (intro unforced_keeps [OF assms(1) keeps_AddStat [of c _ en now k h fd nt]]) (auto simp: unforced_def)
qed

lemma cache_found_unforced:
  assumes "unforced (stats s)" "nt \<or> CacheSize (stats s) \<noteq> 0" "a_force a \<longrightarrow> ends_with CHR ''/'' p"
    "cache_found env p False oc nt a s = Some ((0, a'), s')"
  shows "\<not> a_force a'"
proof -
  obtain ok c1 where a1: "AddStat (statenv env) (stats s) (now_of env s) p (a_meta a) False nt = Returns (ok, c1)"
    and k: "(case ok of Inl e \<Rightarrow> None
         | Inr False \<Rightarrow> Some ((- ENOENT, a), s\<lparr>stats := c1\<rparr>)
         | Inr True \<Rightarrow> Option.bind (on_stats (\<lambda>c. GetStat c (now_of env (s\<lparr>stats := c1\<rparr>)) p oc None) (s\<lparr>stats := c1\<rparr>))
             (\<lambda>(hit, s2). case hit of
                Some (st, h, f) \<Rightarrow> Some ((0, \<lparr>a_stat = st, a_meta = h, a_force = f\<rparr>), s2)
              | None \<Rightarrow> convert_found env p False a s2)) = Some ((0, a'), s')"
    using assms(2,4) unfolding cache_found_def by (auto simp: bind_eq_Some_conv on_stats_Some)
  then have a: "AddStat (statenv env) (stats s) (now_of env s) p (a_meta a) False nt = Returns (Inr True, c1)"
    by (auto split: sum.splits bool.splits)
  have ok: "ok = Inr True" using a1 a by simp
  have rest: "(case GetStat c1 (now_of env (s\<lparr>stats := c1\<rparr>)) p oc None of
        Deadlock \<Rightarrow> False
      | Returns (hit, c2) \<Rightarrow> (case hit of Some (st, h, f) \<Rightarrow> a_force a' = f
          | None \<Rightarrow> a_force a' = a_force a))"
  proof -
    obtain hit c2 where g: "GetStat c1 (now_of env (s\<lparr>stats := c1\<rparr>)) p oc None = Returns (hit, c2)"
      and x: "(case hit of Some (st, h, f) \<Rightarrow> Some ((0, \<lparr>a_stat = st, a_meta = h, a_force = f\<rparr>), s\<lparr>stats := c2\<rparr>)
          | None \<Rightarrow> convert_found env p False a (s\<lparr>stats := c2\<rparr>)) = Some ((0, a'), s')"
      using k unfolding ok by (auto simp: bind_eq_Some_conv on_stats_Some)
    show ?thesis unfolding g using x
      by (cases hit) (auto simp: convert_found_def split: sum.splits)
  qed
  obtain ent where e: "sm_find p (entries c1) = Some ent" "\<not> isforce ent" "\<not> noobjcache ent"
    using AddStat_enters(1) [OF assms(1,2) a] by auto
  have u: "unforced c1" using AddStat_enters(2) [OF assms(1,2) a] by simp
  obtain hit c2 where g: "GetStat c1 (now_of env (s\<lparr>stats := c1\<rparr>)) p oc None = Returns (hit, c2)"
    using rest by (auto split: locked.splits)
  show ?thesis
  proof (cases hit)
    case None
    have "\<not> ends_with CHR ''/'' p"
    proof
      assume "ends_with CHR ''/'' p"
      then have "find_entry (entries c1) p oc = (p, Some ent)" using e(1) by (simp add: find_entry_def)
      then show False using g None e u
        by (auto simp: GetStat_def fresh_def unforced_def etag_differs_def split: if_splits)
    qed
    then show ?thesis using rest g None assms(3) by simp
  next
    case (Some x)
    then show ?thesis using rest g unforced_GetStat [OF u g] by (cases x) auto
  qed
qed

text \<open>
  With a stat cache a directory that exists only as the prefix of other objects is never reported as such to a caller
  that asks: as long as no entry of the cache has the flag, a call that is given a place for it does not set it. The code
  hands the cache a flag of its own, which stays false, and the cache hands it back.
\<close>

theorem forced_directory_flag_lost:
  assumes "unforced (stats s)" "CacheSize (stats s) \<noteq> 0" "path \<noteq> ''/''" "path \<noteq> ''.''"
    and "get_object_attribute env path a0 oc True nt s = Some ((0, a), s')"
  shows "\<not> a_force a"
proof -
  let ?p = "if support_compat_dir (fcf env) \<and> oc then cut_folder path else path"
  have ne: "path \<noteq> []" using assms(5) by (auto simp: get_object_attribute_def)
  obtain hit c1 where g: "GetStat (stats s) (now_of env s) ?p oc None = Returns (hit, c1)"
    using assms(3,4,5) ne
    by (auto simp: get_object_attribute_def Let_def bind_eq_Some_conv on_stats_Some split: if_splits)
  have u1: "unforced c1" "CacheSize c1 = CacheSize (stats s)" using unforced_GetStat [OF assms(1) g] by auto
  show ?thesis
  proof (cases hit)
    case (Some x)
    then show ?thesis using assms(3,4,5) ne g unforced_GetStat [OF assms(1) g]
      by (cases x) (auto simp: get_object_attribute_def Let_def bind_eq_Some_conv on_stats_Some split: if_splits)
  next
    case None
    let ?s1 = "s\<lparr>stats := c1\<rparr>"
    obtain gone s2 where n: "on_stats (\<lambda>c. IsNoObjectCache c (now_of env ?s1) ?p True) ?s1 = Some (gone, s2)"
      "\<not> gone"
      using assms(3,4,5) ne g None
      by (auto simp: get_object_attribute_def Let_def bind_eq_Some_conv on_stats_Some split: if_splits)
    obtain r p h force s3 where f: "find_object env path oc (a_meta a0) s2 = Some ((r, p, h, force), s3)" "r = 0"
      and c: "cache_found env (cut_folder p) False oc nt
        (a0\<lparr>a_stat := zero_stat, a_meta := h, a_force := force\<rparr>) s3 = Some ((0, a), s')"
      using assms(3,4,5) ne g None n
      by (auto simp: get_object_attribute_def Let_def bind_eq_Some_conv on_stats_Some split: if_splits prod.splits)
    have "keeps (\<lambda>e. \<not> isforce e) c1 (stats s2)"
    proof -
      obtain c2 where c2: "IsNoObjectCache c1 (now_of env ?s1) ?p True = Returns (gone, c2)" "s2 = ?s1\<lparr>stats := c2\<rparr>"
        using n(1) by (auto simp: on_stats_Some)
      have "keeps (\<lambda>e. \<not> isforce e) c1 c2"
        using u1(1) by (intro keeps_IsNoObjectCache [OF _ _ c2(1)]) (auto simp: unforced_def)
      then show ?thesis using c2(2) by simp
    qed
    then have u2: "unforced (stats s3)" "CacheSize (stats s3) = CacheSize (stats s)"
      using unforced_keeps [OF u1(1)] u1(2) find_object_facts(1) [OF f(1)] by (auto simp: keeps_def same_config_def)
    have "force \<longrightarrow> ends_with CHR ''/'' (cut_folder p)"
      using find_object_facts(2) [OF f(1)] by (auto simp: cut_folder_def ends_with_def split: option.splits)
    then show ?thesis
      using cache_found_unforced [OF u2(1) _ _ c] u2(2) assms(2) by simp
  qed
qed

definition compat_env :: "mem fsenv" where
  "compat_env = mem_env (mem_conf\<lparr>support_compat_dir := True\<rparr>) (5, 6)"


lemma compat_doc:
  "mem_doc (fs_world (mem_fs [(''/d/x'', [])])) = \<lparr>x_prefix = None, x_marker = None, x_truncated = None,
     x_contents = Some [\<lparr>x_key = Some (Some ''d/x''), x_etag = None\<rparr>], x_prefixes = Some []\<rparr>"
  by (simp add: mem_doc_def fs_world_def mem_fs_def new_mgr_def)

lemma compat_entries:
  "append_nodes ''/d'' False [\<lparr>x_key = Some (Some ''d/x''), x_etag = None\<rparr>] [] =
    (True, [(''x'', \<lparr>normalname = [], orgname = ''x'', etag = [], obj_is_dir = False\<rparr>)])"
  by code_simp

lemma compat_empty:
  "directory_empty compat_env ''/d'' (mem_fs [(''/d/x'', [])]) = Some (- ENOTEMPTY, mem_fs [(''/d/x'', [])])"
  by (simp add: directory_empty_def compat_env_def mem_list_bucket append_objects_from_xml_def
      append_objects_from_xml_ex_def compat_doc compat_entries del: append_nodes.simps(2))

lemma compat_search:
  "find_object compat_env ''/d/'' False [] (mem_fs [(''/d/x'', [])]) =
    Some ((0, ''/d/'', [], True), mem_fs [(''/d/x'', [])])"
proof -
  have "chop_slash ''/d/'' = ''/d''" "has_folder ''/d/'' = False"
    "sm_find ''/d/'' [(''/d/x'', [])] = None" by code_simp+
  moreover have "on_world (r_head compat_env ''/d/'') (mem_fs [(''/d/x'', [])]) =
      Some ((- ENOENT, []), mem_fs [(''/d/x'', [])])"
    using calculation(3) by (simp add: on_world_def compat_env_def mem_env_def fs_world_def set_world_def mem_fs_def new_mgr_def)
  moreover have "support_compat_dir (fcf compat_env)" by (simp add: compat_env_def)
  ultimately show ?thesis
    by (simp add: find_object_def try_name_def head_request_def children_check_def compat_empty)
qed

lemma compat_cache:
  "GetStat new_stat_cache \<lparr>tv_sec = 0, tv_nsec = 0\<rparr> ''/d/'' False None = Returns (None, new_stat_cache)"
  "IsNoObjectCache new_stat_cache \<lparr>tv_sec = 0, tv_nsec = 0\<rparr> ''/d/'' True = Returns (False, new_stat_cache)"
  by (simp_all add: GetStat_def IsNoObjectCache_def find_entry_def ends_with_def new_stat_cache_def)

lemma compat_enter:
  assumes "convert_header_to_stat en k h False = Inr st"
  shows "AddStat en new_stat_cache now k h False False = Returns (Inr True,
      new_stat_cache\<lparr>entries := sm_set k \<lparr>stbuf = st, hit_count = 0, cache_date = now,
        ent_meta = cached_headers h, isforce = False, noobjcache = False, notruncate = 0\<rparr> []\<rparr>)"
  using assms by (simp add: AddStat_def make_room_def new_stat_cache_def)

theorem forced_directory_flag_lost_witness:
  "\<exists>a s'. get_object_attribute compat_env ''/d/'' no_attrs False True False (mem_fs [(''/d/x'', [])]) = Some ((0, a), s')
    \<and> \<not> a_force a \<and> map_option fst (directory_empty compat_env ''/d'' (mem_fs [(''/d/x'', [])])) = Some (- ENOTEMPTY)"
proof -
  let ?s = "mem_fs [(''/d/x'', [])]" and ?t = "\<lparr>tv_sec = 0, tv_nsec = 0\<rparr>"
  obtain st where c: "convert_header_to_stat (statenv compat_env) ''/d/'' [] False = Inr st"
  proof -
    have "case convert_header_to_stat \<lparr>complement_stat = False, geteuid = 5, getegid = 6, parse_date = (\<lambda>s. 0)\<rparr>
        ''/d/'' [] False of Inl _ \<Rightarrow> False | Inr _ \<Rightarrow> True" by code_simp
    then have "case convert_header_to_stat (statenv compat_env) ''/d/'' [] False of Inl _ \<Rightarrow> False | Inr _ \<Rightarrow> True"
      by (simp add: compat_env_def mem_env_def)
    then show ?thesis using that by (auto split: sum.splits)
  qed
  have st: "stats ?s = new_stat_cache" "now_of compat_env s = ?t" "?s\<lparr>stats := new_stat_cache\<rparr> = ?s"
    "CacheSize new_stat_cache > 0" "cut_folder ''/d/'' = ''/d/''" for s
    by (simp_all add: mem_fs_def now_of_def compat_env_def mem_env_def new_stat_cache_def) code_simp
  define c1 where "c1 = new_stat_cache\<lparr>entries := sm_set ''/d/'' \<lparr>stbuf = st, hit_count = 0, cache_date = ?t,
        ent_meta = cached_headers [], isforce = False, noobjcache = False, notruncate = 0\<rparr> []\<rparr>"
  have e: "AddStat (statenv compat_env) new_stat_cache ?t ''/d/'' [] False False = Returns (Inr True, c1)"
    using compat_enter [OF c] by (simp add: c1_def)
  obtain x c2 where h: "GetStat c1 ?t ''/d/'' False None = Returns (Some x, c2)"
    using GetStat_hit [of "''/d/''" c1 _ ?t False] by (simp add: c1_def fresh_def new_stat_cache_def sm_laws) blast
  obtain a s' where g: "get_object_attribute compat_env ''/d/'' no_attrs False True False ?s = Some ((0, a), s')"
    using e h by (cases x) (simp add: get_object_attribute_def cache_found_def on_stats_def st compat_cache compat_search no_attrs_def Let_def)
  have "unforced (stats ?s)" "CacheSize (stats ?s) \<noteq> 0"
    by (simp_all add: mem_fs_def new_stat_cache_def unforced_def cache_sorted_def all_entries_def om_sorted_def)
  then have "\<not> a_force a" using forced_directory_flag_lost [OF _ _ _ _ g] by simp
  then show ?thesis using g compat_empty by auto
qed

end
