(* ===== verification/Fs_Access.thy ===== *)
theory Fs_Access
  imports Fs_Attr
begin

text \<open>
  The permission checks of \<open>protocols/s3/s3fs.cpp\<close>: the mode of an object against the caller, its owner, and the
  directories above it.
\<close>

unbundle bit_operations_syntax

abbreviation X_OK :: "32 word" where "X_OK \<equiv> 1"
abbreviation W_OK :: "32 word" where "W_OK \<equiv> 2"
abbreviation R_OK :: "32 word" where "R_OK \<equiv> 4"

section \<open>The mode of an object\<close>

definition S_IRWXU :: mode_t where "S_IRWXU = 0x1C0"
definition S_IRWXG :: mode_t where "S_IRWXG = 0x38"
definition S_IRWXO :: mode_t where "S_IRWXO = 0x7"

text \<open>The bits of the mode that count for the caller: those of every class the caller belongs to.\<close>

definition base_mask :: "'w fsenv \<Rightarrow> 32 word \<Rightarrow> 32 word \<Rightarrow> stat_t \<Rightarrow> mode_t" where
  "base_mask env uid gid st =
     (let obj_uid = (if is_s3fs_uid (fcf env) then s3fs_uid (fcf env) else st_uid st);
          obj_gid = (if is_s3fs_gid (fcf env) then s3fs_gid (fcf env) else st_gid st)
      in S_IRWXO OR (if uid = obj_uid then S_IRWXU else 0)
         OR (if gid = obj_gid then S_IRWXG else 0)
         OR (if in_group env uid obj_gid = 1 then S_IRWXG else 0))"

definition object_mode :: "'w fsenv \<Rightarrow> stat_t \<Rightarrow> mode_t" where
  "object_mode env st =
     (if is_s3fs_umask (fcf env) then (S_IRWXU OR S_IRWXG OR S_IRWXO) AND NOT (s3fs_umask (fcf env)) else st_mode st)"

definition mode_check :: "mode_t \<Rightarrow> 32 word \<Rightarrow> int" where
  "mode_check mode want =
     (if want AND X_OK = X_OK \<and> mode AND 0x49 = 0 then - EPERM
      else if want AND W_OK = W_OK \<and> mode AND 0x92 = 0 then - EACCES
      else if want AND R_OK = R_OK \<and> mode AND 0x124 = 0 then - EACCES
      else if mode = 0 then - EACCES else 0)"

text \<open>The test of the attributes; the caller is the pair of the user and group of the request.\<close>

definition access_check :: "'w fsenv \<Rightarrow> 32 word \<Rightarrow> 32 word \<Rightarrow> 32 word \<Rightarrow> stat_t \<Rightarrow> int" where
  "access_check env uid gid want st =
     (if uid = 0 then 0
      else if is_s3fs_uid (fcf env) \<and> s3fs_uid (fcf env) = uid then 0
      else if want = 0 then 0
      else mode_check (object_mode env st AND base_mask env uid gid st) want)"

definition check_object_access :: "'w fsenv \<Rightarrow> string \<Rightarrow> 32 word \<Rightarrow> (int \<times> stat_t, 'w) fs_call" where
  "check_object_access env path want s =
     (case fuse_context env of None \<Rightarrow> Some ((- EIO, zero_stat), s)
      | Some (uid, gid) \<Rightarrow> do {
          ((result, a), s1) \<leftarrow> get_attr env path s;
          Some ((if result \<noteq> 0 then result else access_check env uid gid want (a_stat a), a_stat a), s1)
        })"

definition check_object_owner :: "'w fsenv \<Rightarrow> string \<Rightarrow> (int \<times> stat_t, 'w) fs_call" where
  "check_object_owner env path s =
     (case fuse_context env of None \<Rightarrow> Some ((- EIO, zero_stat), s)
      | Some (uid, gid) \<Rightarrow> do {
          ((result, a), s1) \<leftarrow> get_attr env path s;
          Some ((if result \<noteq> 0 then result
                 else if uid = 0 then 0
                 else if is_s3fs_uid (fcf env) \<and> s3fs_uid (fcf env) = uid then 0
                 else if uid = st_uid (a_stat a) then 0 else - EPERM, a_stat a), s1)
        })"

section \<open>The directories above an object\<close>

lemma strip_slashes_length: "length (strip_slashes s) \<le> length s"
  using length_dropWhile_le [of _ "rev s"] by (simp add: strip_slashes_def)

lemma dirname_shorter:
  assumes "s \<noteq> []" "dirname s \<noteq> ''.''" "dirname s \<noteq> ''/''"
  shows "length (dirname s) < length s"
proof -
  obtain i where i: "find_last_idx ((=) CHR ''/'') (strip_slashes s) = Some i"
    "dirname s = strip_slashes (take i (strip_slashes s))"
    using assms by (auto simp: dirname_def Let_def split: if_splits option.splits)
  have "length (dirname s) \<le> i"
    using strip_slashes_length [of "take i (strip_slashes s)"] i(2) by simp
  also have "i < length (strip_slashes s)" using i(1) by (rule find_last_idx_less)
  also have "\<dots> \<le> length s" by (rule strip_slashes_length)
  finally show ?thesis .
qed

text \<open>
  The loop over the directories upwards: it ends at the mount point, or at the first directory that may not be
  searched.
\<close>

function parent_loop :: "'w fsenv \<Rightarrow> string \<Rightarrow> (int, 'w) fs_call" where
  "parent_loop env dir s =
     (if dir = [] then Some (0, s)
      else
        (let dir1 = (if dir = ''.'' then ''/'' else dir)
         in case check_object_access env dir1 X_OK s of
              None \<Rightarrow> None
            | Some ((result, _), s1) \<Rightarrow>
                if result \<noteq> 0 then Some (result, s1)
                else if dir1 = ''/'' then Some (0, s1)
                else parent_loop env (mydirname (Some dir1)) s1))"
  by pat_completeness auto
termination
proof (relation "measure (\<lambda>(env, p, s). if p = ''.'' \<or> p = ''/'' then 0 else length p)", goal_cases)
  case (2 env dir s dir1 x y result st s1)
  then have "dir1 = dir" "dir \<noteq> ''.''" "dir \<noteq> ''/''" "dir \<noteq> []" by (auto split: if_splits)
  then show ?case using dirname_shorter [of dir] by (auto simp: mydirname_def)
qed simp

declare parent_loop.simps [simp del]

definition check_parent_object_access :: "'w fsenv \<Rightarrow> string \<Rightarrow> 32 word \<Rightarrow> (int, 'w) fs_call" where
  "check_parent_object_access env path want s =
     (if path = ''/'' \<or> path = ''.'' then Some (0, s)
      else do {
        (result, s1) \<leftarrow> (if want AND X_OK = X_OK then parent_loop env (mydirname (Some path)) s else Some (0, s));
        (let want1 = want AND NOT X_OK
         in if result \<noteq> 0 then Some (result, s1)
            else if want1 \<noteq> 0 then do {
              (let dir = mydirname (Some path)
               in do {
                    ((r, _), s2) \<leftarrow> check_object_access env (if dir = ''.'' then ''/'' else dir) want1 s1;
                    Some (r, s2)
                  })
            }
            else Some (0, s1))
      })"

section \<open>Encryption of an object\<close>

definition sse_of_header :: "string \<times> string \<Rightarrow> sse_type_t \<times> string \<Rightarrow> sse_type_t \<times> string" where
  "sse_of_header h t =
     (case h of (key, value) \<Rightarrow>
        if nocase_eq key ''x-amz-server-side-encryption'' \<and> nocase_eq value ''AES256'' then (SSE_S3, snd t)
        else if nocase_eq key ''x-amz-server-side-encryption-aws-kms-key-id'' then (SSE_KMS, value)
        else if nocase_eq key ''x-amz-server-side-encryption-customer-key-md5'' then (SSE_C, value)
        else t)"

definition get_object_sse_type :: "'w fsenv \<Rightarrow> string option \<Rightarrow> ((sse_type_t \<times> string) option, 'w) fs_call" where
  "get_object_sse_type env path s =
     (case path of None \<Rightarrow> Some (None, s)
      | Some p \<Rightarrow> do {
          ((result, a), s1) \<leftarrow> get_attr env p s;
          Some (if result \<noteq> 0 then None else Some (fold sse_of_header (a_meta a) (SSE_DISABLE, [])), s1)
        })"

definition remote_mountpath_exists :: "'w fsenv \<Rightarrow> string \<Rightarrow> (int, 'w) fs_call" where
  "remote_mountpath_exists env path s = do {
     ((result, a), s1) \<leftarrow> get_attr env ''/'' s;
     Some (if result \<noteq> 0 \<or> \<not> S_ISDIR (st_mode (a_stat a)) then - 1 else 0, s1)
   }"

section \<open>Who may do what\<close>

text \<open>
  Right 0 is to execute or search, 1 to write, 2 to read: the bit of others, of the group and of the owner is the right, the
  right plus 3 and the right plus 6. A caller has a right when one of the classes it belongs to has it.
\<close>

definition obj_owner :: "'w fsenv \<Rightarrow> stat_t \<Rightarrow> 32 word" where
  "obj_owner env st = (if is_s3fs_uid (fcf env) then s3fs_uid (fcf env) else st_uid st)"

definition obj_group :: "'w fsenv \<Rightarrow> stat_t \<Rightarrow> 32 word" where
  "obj_group env st = (if is_s3fs_gid (fcf env) then s3fs_gid (fcf env) else st_gid st)"

definition has_right :: "'w fsenv \<Rightarrow> 32 word \<Rightarrow> 32 word \<Rightarrow> stat_t \<Rightarrow> nat \<Rightarrow> bool" where
  "has_right env uid gid st r \<longleftrightarrow>
     bit (object_mode env st) r
     \<or> ((gid = obj_group env st \<or> in_group env uid (obj_group env st) = 1) \<and> bit (object_mode env st) (r + 3))
     \<or> (uid = obj_owner env st \<and> bit (object_mode env st) (r + 6))"

lemma and_zero_bits: "(m :: 32 word) AND k = 0 \<longleftrightarrow> (\<forall>n. \<not> (bit m n \<and> bit k n))"
  unfolding bit_eq_iff bit_and_iff using bit_imp_le_length by fastforce

lemma and_self_bits: "(m :: 32 word) AND k = k \<longleftrightarrow> (\<forall>n. bit k n \<longrightarrow> bit m n)"
  unfolding bit_eq_iff bit_and_iff using bit_imp_le_length by fastforce

lemma mask_bits:
  "bit (0x49 :: mode_t) n \<longleftrightarrow> n = 0 \<or> n = 3 \<or> n = 6" "bit (0x92 :: mode_t) n \<longleftrightarrow> n = 1 \<or> n = 4 \<or> n = 7"
  "bit (0x124 :: mode_t) n \<longleftrightarrow> n = 2 \<or> n = 5 \<or> n = 8"
  "bit (1 :: mode_t) n \<longleftrightarrow> n = 0" "bit (2 :: mode_t) n \<longleftrightarrow> n = 1" "bit (4 :: mode_t) n \<longleftrightarrow> n = 2"
  by (auto simp: bit_simps bit_numeral_rec nat_eq_iff split: nat.splits)

lemma class_bits:
  "(m :: mode_t) AND 0x49 = 0 \<longleftrightarrow> \<not> bit m 0 \<and> \<not> bit m 3 \<and> \<not> bit m 6"
  "m AND 0x92 = 0 \<longleftrightarrow> \<not> bit m 1 \<and> \<not> bit m 4 \<and> \<not> bit m 7"
  "m AND 0x124 = 0 \<longleftrightarrow> \<not> bit m 2 \<and> \<not> bit m 5 \<and> \<not> bit m 8"
  unfolding and_zero_bits mask_bits by blast+

lemma bit_class_masks:
  "bit S_IRWXO n \<longleftrightarrow> n < 3" "bit S_IRWXG n \<longleftrightarrow> 3 \<le> n \<and> n < 6" "bit S_IRWXU n \<longleftrightarrow> 6 \<le> n \<and> n < 9"
  by (auto simp: S_IRWXO_def S_IRWXG_def S_IRWXU_def bit_simps bit_numeral_rec nat_eq_iff split: nat.splits)

lemma bit_base_mask:
  "bit (base_mask env uid gid st) n \<longleftrightarrow> n < 3
     \<or> ((gid = obj_group env st \<or> in_group env uid (obj_group env st) = 1) \<and> 3 \<le> n \<and> n < 6)
     \<or> (uid = obj_owner env st \<and> 6 \<le> n \<and> n < 9)"
  by (auto simp: base_mask_def Let_def bit_or_iff bit_class_masks obj_owner_def obj_group_def)

lemma right_bits:
  "(object_mode env st AND base_mask env uid gid st) AND 0x49 = 0 \<longleftrightarrow> \<not> has_right env uid gid st 0"
  "(object_mode env st AND base_mask env uid gid st) AND 0x92 = 0 \<longleftrightarrow> \<not> has_right env uid gid st 1"
  "(object_mode env st AND base_mask env uid gid st) AND 0x124 = 0 \<longleftrightarrow> \<not> has_right env uid gid st 2"
  by (auto simp: class_bits bit_and_iff bit_base_mask has_right_def)

lemma want_bits:
  "(want :: 32 word) AND 1 = 1 \<longleftrightarrow> bit want 0" "want AND 2 = 2 \<longleftrightarrow> bit want 1" "want AND 4 = 4 \<longleftrightarrow> bit want 2"
  unfolding and_self_bits mask_bits by blast+

lemma mode_check_rights:
  assumes "want \<noteq> 0" "\<forall>n. bit want n \<longrightarrow> n < 3"
  shows "mode_check (object_mode env st AND base_mask env uid gid st) want = 0
    \<longleftrightarrow> (\<forall>r. bit want r \<longrightarrow> has_right env uid gid st r)"
proof -
  let ?m = "object_mode env st AND base_mask env uid gid st"
  obtain r0 where r0: "bit want r0" using assms(1) by (auto simp: bit_eq_iff)
  have r: "r = 0 \<or> r = 1 \<or> r = 2" if "bit want r" for r using assms(2) that by fastforce
  have nz: "?m \<noteq> 0" if "\<forall>r. bit want r \<longrightarrow> has_right env uid gid st r"
  proof
    assume z: "?m = 0"
    have "has_right env uid gid st r0" using that r0 by blast
    then show False using r [OF r0] right_bits [of env st uid gid] unfolding z by auto
  qed
  have "mode_check ?m want = 0 \<longleftrightarrow>
      (bit want 0 \<longrightarrow> has_right env uid gid st 0) \<and> (bit want 1 \<longrightarrow> has_right env uid gid st 1)
      \<and> (bit want 2 \<longrightarrow> has_right env uid gid st 2) \<and> ?m \<noteq> 0"
    unfolding mode_check_def want_bits right_bits by auto
  then show ?thesis using r nz by blast
qed

text \<open>
  C11: The access check answers 0 exactly when the object is there and the caller is the superuser or the owner the
  options name, or asks for nothing, or has each right asked for in one of the classes it belongs to, which may be another
  class for another right (POSIX would ask only the first class that fits: an owner is let in by the bits of others).
\<close>

theorem object_access_by_class:
  assumes "fuse_context env = Some (uid, gid)" "\<forall>n. bit want n \<longrightarrow> n < 3"
    and "get_attr env path s = Some ((result, a), s1)"
  shows "\<exists>r. check_object_access env path want s = Some ((r, a_stat a), s1) \<and>
    (r = 0 \<longleftrightarrow> result = 0 \<and> (uid = 0 \<or> (is_s3fs_uid (fcf env) \<and> s3fs_uid (fcf env) = uid)
      \<or> (\<forall>n. bit want n \<longrightarrow> has_right env uid gid (a_stat a) n)))"
proof (cases "want = 0")
  case True
  then show ?thesis using assms by (auto simp: check_object_access_def access_check_def)
next
  case False
  note m = mode_check_rights [OF False assms(2)]
  show ?thesis using assms(1,3) False
    by (auto simp: check_object_access_def access_check_def m)
qed

theorem object_access_by_class_witness:
  "\<exists>r. check_object_access (mem_env mem_conf (5, 6)) ''/'' R_OK (mem_fs []) = Some (r, mem_fs []) \<and> fst r = 0"
proof -
  have b: "\<forall>n. bit R_OK n \<longrightarrow> n < 3" unfolding mask_bits by simp
  have g: "get_attr (mem_env mem_conf (5, 6)) ''/'' (mem_fs []) = Some ((0, no_attrs\<lparr>a_stat := root_stat (mem_env mem_conf (5, 6))\<rparr>), mem_fs [])"
    by (simp add: get_object_attribute_def)
  have h: "has_right (mem_env mem_conf (5, 6)) 5 6 (root_stat (mem_env mem_conf (5, 6))) 2"
    by (simp add: has_right_def object_mode_def mem_conf_def root_stat_def bit_numeral_rec eval_nat_numeral bit_simps)
  have "\<forall>n. bit R_OK n \<longrightarrow> has_right (mem_env mem_conf (5, 6)) 5 6 (root_stat (mem_env mem_conf (5, 6))) n"
    using h unfolding mask_bits by simp
  then obtain r where "check_object_access (mem_env mem_conf (5, 6)) ''/'' R_OK (mem_fs []) =
      Some ((r, root_stat (mem_env mem_conf (5, 6))), mem_fs [])" "r = 0"
    using object_access_by_class [of "mem_env mem_conf (5, 6)" 5 6 R_OK "''/''" "mem_fs []", OF _ b g]
    by auto
  then show ?thesis by simp
qed

section \<open>All directories above\<close>

definition component :: "string \<Rightarrow> bool" where
  "component c \<longleftrightarrow> c \<noteq> [] \<and> CHR ''/'' \<notin> set c"

definition path_of :: "string list \<Rightarrow> string" where
  "path_of cs = (if cs = [] then ''/'' else concat (map (\<lambda>c. CHR ''/'' # c) cs))"

text \<open>The directories above a path, from the nearest up to the mount point; and the check of one after the other.\<close>

definition dirs_above :: "string list \<Rightarrow> string list" where
  "dirs_above cs = map (\<lambda>k. path_of (take k cs)) (rev [0..<length cs])"

fun check_dirs :: "'w fsenv \<Rightarrow> 32 word \<Rightarrow> string list \<Rightarrow> (int, 'w) fs_call" where
  "check_dirs env want [] s = Some (0, s)"
| "check_dirs env want (d # ds) s =
     (case check_object_access env d want s of None \<Rightarrow> None
      | Some ((r, _), s1) \<Rightarrow> if r \<noteq> 0 then Some (r, s1) else check_dirs env want ds s1)"

lemma strip_slashes_id: "s \<noteq> [] \<Longrightarrow> last s \<noteq> CHR ''/'' \<Longrightarrow> strip_slashes s = s"
  by (cases s rule: rev_cases) (auto simp: strip_slashes_def)

lemma path_of_last: "cs \<noteq> [] \<Longrightarrow> \<forall>c \<in> set cs. component c \<Longrightarrow> last (path_of cs) \<noteq> CHR ''/'' \<and> path_of cs \<noteq> []"
  by (cases cs rule: rev_cases) (auto simp: path_of_def component_def, metis last_in_set)

lemma path_of_not_root:
  assumes "cs \<noteq> []" "\<forall>c \<in> set cs. component c"
  shows "path_of cs \<noteq> ''/''" "path_of cs \<noteq> ''.''" "path_of cs \<noteq> []"
  using assms by (cases cs, auto simp: path_of_def component_def)+

lemma dirname_path_of:
  assumes "\<forall>c \<in> set cs. component c" "component c"
  shows "dirname (path_of (cs @ [c])) = path_of cs"
proof -
  let ?p = "concat (map (\<lambda>c. CHR ''/'' # c) cs)"
  have p: "path_of (cs @ [c]) = ?p @ CHR ''/'' # c" by (simp add: path_of_def)
  have last: "last (path_of (cs @ [c])) \<noteq> CHR ''/''" "path_of (cs @ [c]) \<noteq> []"
    using path_of_last [of "cs @ [c]"] assms by auto
  have "find_last_idx ((=) CHR ''/'') (?p @ CHR ''/'' # c) = Some (length ?p)"
    using assms(2) by (intro find_last_idx_last) (auto simp: component_def)
  then have d: "dirname (path_of (cs @ [c])) = (let u = strip_slashes ?p in if u = [] then ''/'' else u)"
    using last strip_slashes_id [OF last(2,1)] unfolding dirname_def by (simp add: p)
  show ?thesis
  proof (cases "cs = []")
    case True
    then show ?thesis using d by (simp add: strip_slashes_def path_of_def)
  next
    case False
    then have "strip_slashes ?p = ?p" "?p \<noteq> []"
      using path_of_last [OF False assms(1)] strip_slashes_id [of ?p] by (auto simp: path_of_def)
    then show ?thesis using d False by (simp add: path_of_def)
  qed
qed

lemma rev_upt_Suc: "rev [0..<Suc n] = n # rev [0..<n]" by simp

lemma parent_loop_dirs:
  "\<forall>c \<in> set cs. component c \<Longrightarrow>
   parent_loop env (path_of cs) s = check_dirs env X_OK (path_of cs # dirs_above cs) s"
proof (induction cs arbitrary: s rule: rev_induct)
  case Nil
  show ?case by (subst parent_loop.simps) (simp add: path_of_def dirs_above_def split: option.splits)
next
  case (snoc c cs)
  note r = path_of_not_root [of "cs @ [c]"]
  have above: "dirs_above (cs @ [c]) = path_of cs # dirs_above cs"
    by (simp add: dirs_above_def rev_upt_Suc cong: map_cong)
  have "mydirname (Some (path_of (cs @ [c]))) = path_of cs"
    using r snoc.prems dirname_path_of [of cs c] by (simp add: mydirname_def)
  then show ?case
    using r snoc by (subst parent_loop.simps) (simp add: above Let_def split: option.splits)
qed

text \<open>
  C17: The check of the directories above a path is the check of each of them in turn, from the nearest to the mount
  point, for the right to search, and then of the nearest for the other rights; it stops at the first that refuses.
\<close>

theorem parent_access_checks_every_directory:
  assumes "cs \<noteq> []" "\<forall>c \<in> set cs. component c"
  shows "check_parent_object_access env (path_of cs) want s = do {
     (r, s1) \<leftarrow> (if want AND X_OK = X_OK then check_dirs env X_OK (dirs_above cs) s else Some (0, s));
     (if r \<noteq> 0 \<or> want AND NOT X_OK = 0 then Some (r, s1)
      else check_dirs env (want AND NOT X_OK) [path_of (butlast cs)] s1)
   }"
proof -
  obtain ds d where cs: "cs = ds @ [d]" using assms(1) by (cases cs rule: rev_cases) auto
  note r = path_of_not_root [OF assms]
  have p: "mydirname (Some (path_of cs)) = path_of ds" "path_of ds \<noteq> ''.''"
    using r assms(2) dirname_path_of [of ds d] path_of_not_root [of ds] cs
    by (auto simp: mydirname_def path_of_def)
  have above: "dirs_above cs = path_of ds # dirs_above ds"
    by (simp add: cs dirs_above_def rev_upt_Suc cong: map_cong)
  have l: "parent_loop env (path_of ds) s = check_dirs env X_OK (dirs_above cs) s"
    using parent_loop_dirs [of ds env s] assms(2) unfolding above by (simp add: cs)
  have b: "path_of (butlast cs) = path_of ds" by (simp add: cs)
  show ?thesis
    unfolding check_parent_object_access_def Let_def p(1) l b using r p(2)
    by (auto simp: bind_eq_Some_conv split: option.splits Option.bind_splits)
qed

theorem parent_access_checks_every_directory_witness:
  "dirs_above [''a'', ''b''] = [''/a'', ''/''] \<and>
   (\<forall>env s. check_parent_object_access env ''/a/b'' X_OK s = check_dirs env X_OK [''/a'', ''/''] s)"
proof -
  have p: "path_of [''a'', ''b''] = ''/a/b''" and d: "dirs_above [''a'', ''b''] = [''/a'', ''/'']"
    by (simp_all add: path_of_def dirs_above_def upt_rec)
  have "check_parent_object_access env ''/a/b'' X_OK s = check_dirs env X_OK [''/a'', ''/''] s" for env :: "'c fsenv" and s
    using parent_access_checks_every_directory [of "[''a'', ''b'']" env X_OK s] unfolding p d
    by (simp add: component_def split: option.splits Option.bind_splits)
  then show ?thesis using d by blast
qed

end
