(* ===== verification/Fs_File.thy ===== *)
theory Fs_File
  imports Fs_Access S3_Io Wtf8
begin

text \<open>
  The operations on files of \<open>protocols/s3/s3fs.cpp\<close>: attributes, opening, reading, writing, flushing, truncating, creating
  and removing. The handle of an open file, \<open>fi->fh\<close>, is the number of its entity.
\<close>

section \<open>Calls of the table of cached files\<close>

text \<open>A call of the table that throws does not return here.\<close>

definition fs_Open ::
  "'w fsenv \<Rightarrow> string \<Rightarrow> headers option \<Rightarrow> int \<Rightarrow> int \<Rightarrow> bool \<Rightarrow> bool \<Rightarrow> (nat option, 'w) fs_call" where
  "fs_Open env path pmeta sz t force_tmpfile is_create s = do {
     (r, s1) \<leftarrow> on_mgr (mgr_Open (menv env) None path pmeta sz t force_tmpfile is_create) s;
     (case r of Inl e \<Rightarrow> None | Inr a \<Rightarrow> Some (a, s1))
   }"

definition fs_ExistOpen :: "'w fsenv \<Rightarrow> string \<Rightarrow> int \<Rightarrow> bool \<Rightarrow> (nat option, 'w) fs_call" where
  "fs_ExistOpen env path existfd ignore_existfd s = do {
     (r, s1) \<leftarrow> on_mgr (ExistOpen (menv env) path existfd ignore_existfd) s;
     (case r of Inl e \<Rightarrow> None | Inr a \<Rightarrow> Some (a, s1))
   }"

definition fs_Close :: "'w fsenv \<Rightarrow> nat \<Rightarrow> (unit, 'w) fs_call" where
  "fs_Close env a s = do { (_, s1) \<leftarrow> on_mgr (mgr_Close (menv env) (Some a)) s; Some ((), s1) }"

text \<open>A call of an entity.\<close>

definition on_ent :: "nat \<Rightarrow> ('w fds \<Rightarrow> 'a \<times> 'w fds) \<Rightarrow> ('a, 'w) fs_call" where
  "on_ent a f s = (case f (enter a (mg s)) of (r, x) \<Rightarrow> Some (r, s\<lparr>mg := leave a x (mg s)\<rparr>))"

abbreviation io_of :: "'w fsenv \<Rightarrow> 'w io" where "io_of env \<equiv> me_io (menv env)"
abbreviation disk_of :: "'w fsenv \<Rightarrow> 'w disk" where "disk_of env \<equiv> me_disk (menv env)"

text \<open>\<open>GetStats\<close>, for the size of the open file.\<close>

definition GetFileSize :: "'w io \<Rightarrow> 'w fds \<Rightarrow> int option \<times> 'w fds" where
  "GetFileSize io s =
     (if e_file (cur s) = None then (None, s)
      else (case do_sys io Fstat s of
        (Inl _, s1) \<Rightarrow> (None, s1) | (Inr _, s1) \<Rightarrow> (Some (int (length (fdata (cur s1)))), s1)))"

text \<open>A path argument in the form the server is given.\<close>

definition WTF8_ENCODE :: "'w fsenv \<Rightarrow> string \<Rightarrow> string" where
  "WTF8_ENCODE env path =
     (if use_wtf8 (fcf env) \<and> snd (wtf8_encode_loop False (c_bytes (map byte_of path)))
      then map char_of_byte (s3fs_wtf8_encode (map byte_of path)) else path)"

section \<open>Opening for the other operations\<close>

definition open_time :: "stat_t \<Rightarrow> int" where
  "open_time st = (if \<not> S_ISREG (st_mode st) \<or> S_ISLNK (st_mode st) then - 1 else st_mtime st)"

text \<open>
  An entity whose file is not open makes \<open>OpenAndLoadAll\<close> wait for its own lock; a file that cannot be loaded
  is closed again.
\<close>

definition get_local_fent :: "'w fsenv \<Rightarrow> string \<Rightarrow> bool \<Rightarrow> (nat option, 'w) fs_call" where
  "get_local_fent env path is_load s = do {
     ((result, a), s1) \<leftarrow> get_attr env path s;
     (if result \<noteq> 0 then Some (None, s1)
      else do {
        (ent, s2) \<leftarrow> fs_Open env path (Some (a_meta a)) (st_size (a_stat a)) (open_time (a_stat a))
          (\<not> S_ISREG (st_mode (a_stat a))) True s1;
        (case ent of None \<Rightarrow> Some (None, s2)
         | Some e \<Rightarrow>
             if is_load then do {
               (loaded, x) \<leftarrow> OpenAndLoadAll (io_of env) False (enter e (mg s2));
               (let s3 = s2\<lparr>mg := leave e x (mg s2)\<rparr>
                in if loaded = None then do { (_, s4) \<leftarrow> fs_Close env e s3; Some (None, s4) }
                   else Some (Some e, s3))
             }
             else Some (Some e, s2))
      })
   }"

text \<open>
  New headers for an object. The attributes of an object that is not there are those \<open>get_object_attribute\<close> cleared; a file
  that is cached gets the new time.
\<close>

definition put_headers :: "'w fsenv \<Rightarrow> string \<Rightarrow> headers \<Rightarrow> bool \<Rightarrow> (int \<times> headers, 'w) fs_call" where
  "put_headers env path meta is_copy s = do {
     ((_, a), s1) \<leftarrow> get_attr env path s;
     ((result, meta1), s2) \<leftarrow>
       (if FIVE_GB \<le> st_size (a_stat a) then
          on_world (r_multihead env path (st_size (a_stat a)) meta is_copy) s1
        else do { (r, s2) \<leftarrow> on_world (r_puthead env path meta is_copy) s1; Some ((r, meta), s2) });
     (if result \<noteq> 0 then Some ((result, meta1), s2)
      else if ends_with CHR ''/'' path then Some ((0, meta1), s2)
      else do {
        (known, s3) \<leftarrow> fs_ExistOpen env path (- 1) (\<not> IsCacheDir (menv env)) s2;
        (ent, s4) \<leftarrow> (if known = None \<and> IsCacheDir (menv env)
          then fs_Open env path (Some meta1) (st_size (a_stat a)) (- 1) False True s3 else Some (known, s3));
        (case ent of None \<Rightarrow> Some ((0, meta1), s4)
         | Some e \<Rightarrow>
             (case get_mtime (statenv env) meta1 True of Inl _ \<Rightarrow> None
              | Inr t \<Rightarrow> do {
                  (_, s5) \<leftarrow> on_ent e (SetMtime (io_of env) t) s4;
                  (_, s6) \<leftarrow> fs_Close env e s5;
                  Some ((0, meta1), s6)
                }))
      })
   }"

section \<open>Attributes\<close>

definition s3fs_getattr :: "'w fsenv \<Rightarrow> string \<Rightarrow> (int \<times> stat_t, 'w) fs_call" where
  "s3fs_getattr env path0 s =
     (let path = WTF8_ENCODE env path0
      in do {
        (result, s1) \<leftarrow> check_parent_object_access env path X_OK s;
        (if result \<noteq> 0 then Some ((result, zero_stat), s1)
         else do {
           ((result, st), s2) \<leftarrow> check_object_access env path 0 s1;
           (if result \<noteq> 0 then Some ((result, st), s2)
            else do {
              (ent, s3) \<leftarrow> fs_ExistOpen env path (- 1) False s2;
              (st1, s5) \<leftarrow> (case ent of None \<Rightarrow> Some (st, s3)
                 | Some e \<Rightarrow> do {
                     (sz, s4) \<leftarrow> on_ent e (GetFileSize (io_of env)) s3;
                     (_, s5) \<leftarrow> fs_Close env e s4;
                     Some (case sz of None \<Rightarrow> st | Some n \<Rightarrow> st\<lparr>st_size := n\<rparr>, s5)
                   });
              Some ((0, st1\<lparr>st_blksize := 4096, st_blocks := get_blocks (st_size st1)\<rparr>), s5)
            })
         })
      })"

section \<open>Opening\<close>

text \<open>The flags of an open call, and its handle.\<close>

record file_info =
  fi_flag :: "32 word"
  fi_fh :: int

abbreviation O_CREAT :: "32 word" where "O_CREAT \<equiv> 0x40"
abbreviation O_TRUNC :: "32 word" where "O_TRUNC \<equiv> 0x200"

definition access_mask :: "file_info \<Rightarrow> 32 word" where
  "access_mask fi = (if fi_flag fi AND O_ACCMODE \<noteq> O_RDONLY then W_OK else R_OK)"

text \<open>The check of \<open>open\<close> and \<open>flush\<close>: a missing object may be created where the directory may be written.\<close>

definition check_or_parent :: "'w fsenv \<Rightarrow> string \<Rightarrow> 32 word \<Rightarrow> bool \<Rightarrow> (int \<times> stat_t, 'w) fs_call" where
  "check_or_parent env path want may_create s = do {
     (result, s1) \<leftarrow> check_parent_object_access env path X_OK s;
     (if result \<noteq> 0 then Some ((result, zero_stat), s1)
      else do {
        ((result, st), s2) \<leftarrow> check_object_access env path want s1;
        (if result = - ENOENT \<and> may_create then do {
           (result, s3) \<leftarrow> check_parent_object_access env path W_OK s2;
           Some ((result, st), s3)
         }
         else Some ((result, st), s2))
      })
   }"

definition s3fs_flush :: "'w fsenv \<Rightarrow> string \<Rightarrow> file_info \<Rightarrow> (int, 'w) fs_call" where
  "s3fs_flush env path0 fi s =
     (let path = WTF8_ENCODE env path0
      in do {
        ((result, _), s1) \<leftarrow> check_or_parent env path (access_mask fi) True s;
        (if result \<noteq> 0 then Some (result, s1)
         else do {
           (ent, s2) \<leftarrow> fs_ExistOpen env path (fi_fh fi) False s1;
           (case ent of None \<Rightarrow> Some (result, s2)
            | Some e \<Rightarrow> do {
                (_, s3) \<leftarrow> on_ent e (UpdateMtime (io_of env) (disk_of env)) s2;
                (result, s4) \<leftarrow> on_ent e (RowFlush (io_of env) None False) s3;
                (_, s5) \<leftarrow> fs_Close env e s4;
                Some (result, s5)
              })
         })
      })"

text \<open>Attributes of an earlier time are dropped first, with a flush of what is written, whose result is only logged.\<close>

definition refresh_stat :: "'w fsenv \<Rightarrow> string \<Rightarrow> file_info \<Rightarrow> (unit, 'w) fs_call" where
  "refresh_stat env path0 fi s =
     (let path = WTF8_ENCODE env path0
      in do {
        (hit, s1) \<leftarrow> on_stats (\<lambda>c. GetStat c (now_of env s) path True None) s;
        (if hit \<noteq> None then do {
           (_, s2) \<leftarrow> s3fs_flush env path0 fi s1;
           fs_DelStat path s2
         }
         else Some ((), s1))
      })"

definition s3fs_open :: "'w fsenv \<Rightarrow> string \<Rightarrow> file_info \<Rightarrow> mode_t \<Rightarrow> (int \<times> file_info, 'w) fs_call" where
  "s3fs_open env path0 fi mode s =
     (let path = WTF8_ENCODE env path0
      in do {
        (_, s1) \<leftarrow> refresh_stat env path0 fi s;
        ((result, st), s2) \<leftarrow> check_or_parent env path (access_mask fi) (mode AND O_CREAT = O_CREAT) s1;
        (if result \<noteq> 0 then Some ((result, fi), s2)
         else
           (let needs_flush = (fi_flag fi AND O_TRUNC \<noteq> 0 \<and> st_size st \<noteq> 0);
                sz = (if needs_flush then 0 else st_size st)
            in do {
              ((_, a), s3) \<leftarrow> get_object_attribute env path no_attrs True False True s2;
              (ent, s4) \<leftarrow> fs_Open env path (Some (a_meta a)) sz (open_time st) False True s3;
              (case ent of
                 None \<Rightarrow> do { (_, s5) \<leftarrow> fs_DelStat path s4; Some ((- EIO, fi), s5) }
               | Some e \<Rightarrow> do {
                   (result, s5) \<leftarrow> (if needs_flush
                     then on_ent e (RowFlush (io_of env) (Some path) True) s4 else Some (0, s4));
                   (if result \<noteq> 0 then do {
                      (_, s6) \<leftarrow> fs_Close env e s5;
                      (_, s7) \<leftarrow> fs_DelStat path s6;
                      Some ((result, fi), s7)
                    }
                    else Some ((0, fi\<lparr>fi_fh := fd_of (mg s5) e\<rparr>), s5))
                 })
            }))
      })"

section \<open>Reading and writing\<close>

definition s3fs_read :: "'w fsenv \<Rightarrow> string \<Rightarrow> nat \<Rightarrow> int \<Rightarrow> file_info \<Rightarrow> (int \<times> filedata, 'w) fs_call" where
  "s3fs_read env path0 sz offset fi s = do {
     (ent, s1) \<leftarrow> fs_ExistOpen env (WTF8_ENCODE env path0) (fi_fh fi) False s;
     (case ent of None \<Rightarrow> Some ((- EIO, []), s1)
      | Some e \<Rightarrow> do {
          (res, s2) \<leftarrow>
            (if GetSize (ent_at (mg s1) e) = None \<or> GetSize (ent_at (mg s1) e) = Some 0 then Some ((0, []), s1)
             else on_ent e (\<lambda>x. case Read (io_of env) offset sz False x of (r, bs, y) \<Rightarrow> ((r, bs), y)) s1);
          (_, s3) \<leftarrow> fs_Close env e s2;
          Some (res, s3)
        })
   }"

definition s3fs_write :: "'w fsenv \<Rightarrow> string \<Rightarrow> filedata \<Rightarrow> int \<Rightarrow> file_info \<Rightarrow> (int \<times> nat, 'w) fs_call" where
  "s3fs_write env path0 bs offset fi s = do {
     (ent, s1) \<leftarrow> fs_ExistOpen env (WTF8_ENCODE env path0) (fi_fh fi) False s;
     (case ent of None \<Rightarrow> Some ((- EIO, 0), s1)
      | Some e \<Rightarrow> do {
          (res, s2) \<leftarrow> on_ent e (\<lambda>x. case Write (io_of env) bs offset x of (r, n, y) \<Rightarrow> ((r, n), y)) s1;
          (_, s3) \<leftarrow> fs_Close env e s2;
          Some (res, s3)
        })
   }"

section \<open>Flushing and closing\<close>

definition s3fs_fsync :: "'w fsenv \<Rightarrow> string \<Rightarrow> int \<Rightarrow> file_info \<Rightarrow> (int, 'w) fs_call" where
  "s3fs_fsync env path0 datasync fi s =
     (let path = WTF8_ENCODE env path0
      in do {
        (ent, s1) \<leftarrow> fs_ExistOpen env path (fi_fh fi) False s;
        (result, s2) \<leftarrow> (case ent of None \<Rightarrow> Some (0, s1)
          | Some e \<Rightarrow> do {
              (_, s2) \<leftarrow> (if datasync = 0 then on_ent e (UpdateMtime (io_of env) (disk_of env)) s1 else Some (False, s1));
              (result, s3) \<leftarrow> on_ent e (RowFlush (io_of env) None False) s2;
              (_, s4) \<leftarrow> fs_Close env e s3;
              Some (result, s4)
            });
        (_, s3) \<leftarrow> fs_DelStat path s2;
        Some (result, s3)
      })"

text \<open>
  \<open>release\<close> gives back two references: the one \<open>GetFdEntity\<close> takes here and that of the open call. The first goes
  through the entity alone.
\<close>

definition s3fs_release :: "'w fsenv \<Rightarrow> string \<Rightarrow> file_info \<Rightarrow> (int, 'w) fs_call" where
  "s3fs_release env path0 fi s =
     (let path = WTF8_ENCODE env path0;
          s1 = s\<lparr>stats := ChangeNoTruncateFlag (stats s) path False\<rparr>
      in do {
        (_, s2) \<leftarrow> (if fi_flag fi AND O_RDWR \<noteq> 0 \<or> fi_flag fi AND O_WRONLY \<noteq> 0
          then fs_DelStat path s1 else Some ((), s1));
        (ent, s3) \<leftarrow> on_mgr (\<lambda>m. Some (GetFdEntity path (fi_fh fi) m)) s2;
        (case ent of None \<Rightarrow> Some (- EIO, s3)
         | Some e \<Rightarrow> do {
             x \<leftarrow> ent_Close (disk_of env) (enter e (mg s3));
             (_, s4) \<leftarrow> fs_Close env e (s3\<lparr>mg := leave e x (mg s3)\<rparr>);
             Some (0, s4)
           })
      })"

section \<open>Truncating\<close>

text \<open>The headers a truncated file gets when it has disappeared since the check: those of a link.\<close>

definition gone_meta :: "int \<Rightarrow> 32 word \<Rightarrow> 32 word \<Rightarrow> headers \<Rightarrow> headers" where
  "gone_meta now uid gid meta =
     hd_set ''x-amz-meta-gid'' (str (uint gid))
     (hd_set ''x-amz-meta-uid'' (str (uint uid))
     (hd_set ''x-amz-meta-mtime'' (str now)
     (hd_set ''x-amz-meta-ctime'' (str now)
     (hd_set ''x-amz-meta-mode'' (str (uint (S_IFLNK OR S_IRWXU OR S_IRWXG OR S_IRWXO)))
     (hd_set ''Content-Type'' ''application/octet-stream'' meta)))))"

text \<open>The entity to truncate, loaded up to its new size; or the error.\<close>

definition truncate_open :: "'w fsenv \<Rightarrow> string \<Rightarrow> int \<Rightarrow> (int + nat, 'w) fs_call" where
  "truncate_open env path sz s = do {
     ((result, a), s1) \<leftarrow> get_attr env path s;
     (if result = 0 then do {
        (ent, s2) \<leftarrow> fs_Open env path (Some (a_meta a)) sz (- 1) False True s1;
        (case ent of None \<Rightarrow> Some (Inl (- EIO), s2)
         | Some e \<Rightarrow> do {
             (result, s3) \<leftarrow> on_ent e (Load (io_of env) 0 sz) s2;
             (if result \<noteq> 0 then do { (_, s4) \<leftarrow> fs_Close env e s3; Some (Inl result, s4) }
              else Some (Inr e, s3))
           })
      }
      else (case fuse_context env of None \<Rightarrow> Some (Inl (- EIO), s1)
        | Some (uid, gid) \<Rightarrow> do {
            (ent, s2) \<leftarrow> fs_Open env path (Some (gone_meta (wall env (fs_world s1)) uid gid (a_meta a))) sz (- 1) True True s1;
            Some (case ent of None \<Rightarrow> Inl (- EIO) | Some e \<Rightarrow> Inr e, s2)
          }))
   }"

definition s3fs_truncate :: "'w fsenv \<Rightarrow> string \<Rightarrow> int \<Rightarrow> (int, 'w) fs_call" where
  "s3fs_truncate env path0 size0 s =
     (let path = WTF8_ENCODE env path0; sz = max 0 size0
      in do {
        ((result, _), s1) \<leftarrow> check_or_parent env path W_OK False s;
        (if result \<noteq> 0 then Some (result, s1)
         else do {
           (r, s2) \<leftarrow> truncate_open env path sz s1;
           (case r of Inl err \<Rightarrow> Some (err, s2)
            | Inr e \<Rightarrow> do {
                (result, s3) \<leftarrow> on_ent e (RowFlush (io_of env) None True) s2;
                (_, s4) \<leftarrow> fs_Close env e s3;
                (if result \<noteq> 0 then Some (result, s4)
                 else do { (_, s5) \<leftarrow> fs_DelStat path s4; Some (0, s5) })
              })
         })
      })"

section \<open>Creating and removing\<close>

definition create_file_object ::
  "'w fsenv \<Rightarrow> string \<Rightarrow> mode_t \<Rightarrow> 32 word \<Rightarrow> 32 word \<Rightarrow> (int, 'w) fs_call" where
  "create_file_object env path mode uid gid s =
     on_world (r_put env path (create_file_meta (fs_mimes env) path mode uid gid (wall env (fs_world s)))) s"

definition s3fs_mknod :: "'w fsenv \<Rightarrow> string \<Rightarrow> mode_t \<Rightarrow> (int, 'w) fs_call" where
  "s3fs_mknod env path0 mode s =
     (let path = WTF8_ENCODE env path0
      in case fuse_context env of None \<Rightarrow> Some (- EIO, s)
        | Some (uid, gid) \<Rightarrow> do {
            (result, s1) \<leftarrow> create_file_object env path mode uid gid s;
            (if result \<noteq> 0 then Some (result, s1)
             else do { (_, s2) \<leftarrow> fs_DelStat path s1; Some (0, s2) })
          })"

definition s3fs_create :: "'w fsenv \<Rightarrow> string \<Rightarrow> mode_t \<Rightarrow> file_info \<Rightarrow> (int \<times> file_info, 'w) fs_call" where
  "s3fs_create env path0 mode fi s =
     (let path = WTF8_ENCODE env path0
      in case fuse_context env of None \<Rightarrow> Some ((- EIO, fi), s)
        | Some (uid, gid) \<Rightarrow> do {
            ((result, _), s1) \<leftarrow> check_or_parent env path W_OK True s;
            (if result \<noteq> 0 then Some ((result, fi), s1)
             else do {
               (result, s2) \<leftarrow> create_file_object env path mode uid gid s1;
               (_, s3) \<leftarrow> fs_DelStat path s2;
               (if result \<noteq> 0 then Some ((result, fi), s3)
                else do {
                  ((_, a), s4) \<leftarrow> get_object_attribute env path no_attrs True False True s3;
                  (ent, s5) \<leftarrow> fs_Open env path (Some (a_meta a)) 0 (- 1) False True s4;
                  (case ent of
                     None \<Rightarrow> do { (_, s6) \<leftarrow> fs_DelStat path s5; Some ((- EIO, fi), s6) }
                   | Some e \<Rightarrow> Some ((0, fi\<lparr>fi_fh := fd_of (mg s5) e\<rparr>), s5))
                })
             })
          })"

text \<open>The local copy and the attributes go whether or not the server removed the object.\<close>

definition s3fs_unlink :: "'w fsenv \<Rightarrow> string \<Rightarrow> (int, 'w) fs_call" where
  "s3fs_unlink env path0 s =
     (let path = WTF8_ENCODE env path0
      in do {
        (result, s1) \<leftarrow> check_parent_object_access env path (W_OK OR X_OK) s;
        (if result \<noteq> 0 then Some (result, s1)
         else do {
           (result, s2) \<leftarrow> on_world (r_delete env path) s1;
           (_, s3) \<leftarrow> fs_DelStat path (set_world (delete_cache_file env path (fs_world s2)) s2);
           Some (result, s3)
         })
      })"

section \<open>Links\<close>

definition text_of :: "filedata \<Rightarrow> string" where
  "text_of bs = map char_of_byte bs"

text \<open>
  What \<open>readlink\<close> leaves in a buffer of \<open>n\<close> bytes: the text up to a NUL, without blanks around it, decoded, and copied with \<open>strncpy\<close>, which fills the rest with NULs and writes none behind a text that fills it.
  The NUL is put where the result of \<open>Read\<close> says the text ends.
\<close>

definition link_text :: "'w fsenv \<Rightarrow> filedata \<Rightarrow> string" where
  "link_text env bs =
     (let t = trim (c_str (text_of bs)) SPACES
      in if use_wtf8 (fcf env) then text_of (s3fs_wtf8_decode (map byte_of t)) else t)"

definition s3fs_readlink :: "'w fsenv \<Rightarrow> string option \<Rightarrow> nat \<Rightarrow> (int \<times> string option, 'w) fs_call" where
  "s3fs_readlink env path0 n s =
     (case path0 of None \<Rightarrow> Some ((0, None), s)
      | Some p \<Rightarrow>
          if n = 0 then Some ((0, None), s)
          else do {
            (ent, s1) \<leftarrow> get_local_fent env (WTF8_ENCODE env p) False s;
            (case ent of None \<Rightarrow> Some ((- EIO, None), s1)
             | Some e \<Rightarrow>
                 (case GetSize (ent_at (mg s1) e) of
                    None \<Rightarrow> do { (_, s2) \<leftarrow> fs_Close env e s1; Some ((- EIO, None), s2) }
                  | Some filesize \<Rightarrow>
                      (let readsize = (if int n \<le> filesize then int n - 1 else filesize)
                       in do {
                         ((res, bs), s2) \<leftarrow>
                           on_ent e (\<lambda>x. case Read (io_of env) 0 (nat readsize) False x of (r, bs, y) \<Rightarrow> ((r, bs), y)) s1;
                         (_, s3) \<leftarrow> fs_Close env e s2;
                         Some (if res < 0 then (res, None)
                               else (0, Some (take n (c_str (link_text env (take (nat res) bs))))), s3)
                       })))
          })"

definition link_meta :: "int \<Rightarrow> 32 word \<Rightarrow> 32 word \<Rightarrow> headers" where
  "link_meta now uid gid = gone_meta now uid gid []"

text \<open>\<open>errno\<close> after a failed call is what the world holds.\<close>

definition s3fs_symlink :: "'w fsenv \<Rightarrow> string \<Rightarrow> string \<Rightarrow> (int, 'w) fs_call" where
  "s3fs_symlink env from0 to0 s =
     (let from = WTF8_ENCODE env from0; to = WTF8_ENCODE env to0
      in case fuse_context env of None \<Rightarrow> Some (- EIO, s)
        | Some (uid, gid) \<Rightarrow> do {
            (result, s1) \<leftarrow> check_parent_object_access env to (W_OK OR X_OK) s;
            (if result \<noteq> 0 then Some (result, s1)
             else do {
               ((result, _), s2) \<leftarrow> check_object_access env to 0 s1;
               (if result \<noteq> - ENOENT then Some (if result = 0 then - EEXIST else result, s2)
                else do {
                  (ent, s3) \<leftarrow> fs_Open env to (Some (link_meta (wall env (fs_world s2)) uid gid)) 0 (- 1) True True s2;
                  (case ent of None \<Rightarrow> Some (- last_errno env (fs_world s3), s3)
                   | Some e \<Rightarrow>
                       (let text = map byte_of (trim from SPACES)
                        in do {
                          ((res, n), s4) \<leftarrow>
                            on_ent e (\<lambda>x. case Write (io_of env) text 0 x of (r, n, y) \<Rightarrow> ((r, n), y)) s3;
                          (if res \<noteq> int (length text) then do {
                             (_, s5) \<leftarrow> fs_Close env e s4;
                             Some (- last_errno env (fs_world s4), s5)
                           }
                           else do {
                             (result, s5) \<leftarrow> on_ent e (RowFlush (io_of env) None True) s4;
                             (_, s6) \<leftarrow> fs_Close env e s5;
                             (_, s7) \<leftarrow> fs_DelStat to s6;
                             Some (result, s7)
                           })
                        }))
                })
             })
          })"

end
