(* ===== verification/Fs_Dir.thy ===== *)
theory Fs_Dir
  imports Fs_File
begin

text \<open>
  The operations on directories and the renaming of \<open>protocols/s3/s3fs.cpp\<close>: making, removing and reading a directory, and
  the four ways an object is renamed. A rename copies and then removes.
\<close>

section \<open>Making and removing directories\<close>

definition create_directory_object ::
  "'w fsenv \<Rightarrow> string \<Rightarrow> mode_t \<Rightarrow> int \<Rightarrow> 32 word \<Rightarrow> 32 word \<Rightarrow> (int, 'w) fs_call" where
  "create_directory_object env path mode time uid gid s =
     (case create_directory_meta path mode time uid gid of
        None \<Rightarrow> Some (- 1, s)
      | Some (tpath, meta) \<Rightarrow> on_world (r_put env tpath meta) s)"

definition s3fs_mkdir :: "'w fsenv \<Rightarrow> string \<Rightarrow> mode_t \<Rightarrow> (int, 'w) fs_call" where
  "s3fs_mkdir env path0 mode s =
     (let path = WTF8_ENCODE env path0
      in case fuse_context env of None \<Rightarrow> Some (- EIO, s)
        | Some (uid, gid) \<Rightarrow> do {
            (result, s1) \<leftarrow> check_parent_object_access env path (W_OK OR X_OK) s;
            (if result \<noteq> 0 then Some (result, s1)
             else do {
               ((result, _), s2) \<leftarrow> check_object_access env path 0 s1;
               (if result \<noteq> - ENOENT then Some (if result = 0 then - EEXIST else result, s2)
                else do {
                  (result, s3) \<leftarrow> create_directory_object env path mode (wall env (fs_world s2)) uid gid s2;
                  (_, s4) \<leftarrow> fs_DelStat path s3;
                  Some (result, s4)
                })
             })
          })"

text \<open>The objects of a directory: \<open>dir/\<close>, then \<open>dir\<close> of an old version, then the one of other clients.\<close>

definition s3fs_rmdir :: "'w fsenv \<Rightarrow> string \<Rightarrow> (int, 'w) fs_call" where
  "s3fs_rmdir env path0 s =
     (let path = WTF8_ENCODE env path0
      in do {
        (result, s1) \<leftarrow> check_parent_object_access env path (W_OK OR X_OK) s;
        (if result \<noteq> 0 then Some (result, s1)
         else do {
           (e, s2) \<leftarrow> directory_empty env path s1;
           (if e \<noteq> 0 then Some (- ENOTEMPTY, s2)
            else do {
              (result, s3) \<leftarrow> on_world (r_delete env (with_slash path)) s2;
              (_, s4) \<leftarrow> fs_DelStat (with_slash path) s3;
              (let strpath = butlast (with_slash path)
               in do {
                 ((r, a), s5) \<leftarrow> get_object_attribute env strpath no_attrs False False False s4;
                 (result, s6) \<leftarrow> (if r = 0 \<and> S_ISDIR (st_mode (a_stat a)) then do {
                     (result, s6) \<leftarrow> on_world (r_delete env strpath) s5;
                     (_, s7) \<leftarrow> fs_DelStat strpath s6;
                     Some (result, s7)
                   } else Some (result, s5));
                 (folder, s7) \<leftarrow> is_special_name_folder_object env strpath s6;
                 (if folder then on_world (r_delete env (strpath @ FOLDER)) s7 else Some (result, s7))
               })
            })
         })
      })"

section \<open>Renaming an object\<close>

definition fs_Rename :: "string \<Rightarrow> string \<Rightarrow> (unit, 'w) fs_call" where
  "fs_Rename from to s = Some ((), s\<lparr>mg := mgr_Rename from to (mg s)\<rparr>)"

text \<open>The source of a copy, and the headers that replace those it has.\<close>

definition copy_source :: "'w fsenv \<Rightarrow> string \<Rightarrow> string" where
  "copy_source env path = urlEncode (service_path (ccf env) @ g_bucket (ccf env) @ get_realpath (ccf env) path)"

definition replaced_meta :: "'w fsenv \<Rightarrow> string \<Rightarrow> headers \<Rightarrow> headers" where
  "replaced_meta env path meta =
     hd_set ''x-amz-metadata-directive'' ''REPLACE'' (hd_set ''x-amz-copy-source'' (copy_source env path) meta)"

text \<open>Both directories must be writable.\<close>

definition rename_guard :: "'w fsenv \<Rightarrow> string \<Rightarrow> string \<Rightarrow> (int, 'w) fs_call" where
  "rename_guard env from to s = do {
     (result, s1) \<leftarrow> check_parent_object_access env to (W_OK OR X_OK) s;
     (if result \<noteq> 0 then Some (result, s1) else check_parent_object_access env from (W_OK OR X_OK) s1)
   }"

definition rename_object :: "'w fsenv \<Rightarrow> string \<Rightarrow> string \<Rightarrow> (int, 'w) fs_call" where
  "rename_object env from to s = do {
     (result, s1) \<leftarrow> rename_guard env from to s;
     (if result \<noteq> 0 then Some (result, s1)
      else do {
        ((result, a), s2) \<leftarrow> get_attr env from s1;
        (if result \<noteq> 0 then Some (result, s2)
         else do {
           ((result, _), s3) \<leftarrow> put_headers env to
             (hd_set ''x-amz-metadata-directive'' ''REPLACE''
              (hd_set ''Content-Type'' (LookupMimeType (fs_mimes env) to)
               (hd_set ''x-amz-copy-source'' (copy_source env from) (a_meta a)))) True s2;
           (if result \<noteq> 0 then Some (result, s3)
            else do {
              (_, s4) \<leftarrow> fs_Rename from to s3;
              (result, s5) \<leftarrow> s3fs_unlink env from s4;
              (_, s6) \<leftarrow> fs_DelStat to s5;
              Some (result, s6)
            })
         })
      })
   }"

definition rename_object_nocopy :: "'w fsenv \<Rightarrow> string \<Rightarrow> string \<Rightarrow> (int, 'w) fs_call" where
  "rename_object_nocopy env from to s = do {
     (result, s1) \<leftarrow> rename_guard env from to s;
     (if result \<noteq> 0 then Some (result, s1)
      else do {
        (ent, s2) \<leftarrow> get_local_fent env from True s1;
        (case ent of None \<Rightarrow> Some (- EIO, s2)
         | Some e \<Rightarrow> do {
             (ok, s3) \<leftarrow> on_ent e (SetContentType (fs_mimes env) (Some to)) s2;
             (if \<not> ok then Some (- EIO, s3)
              else do {
                (result, s4) \<leftarrow> on_ent e (RowFlush (io_of env) (Some to) True) s3;
                (_, s5) \<leftarrow> fs_Close env e s4;
                (if result \<noteq> 0 then Some (result, s5)
                 else do {
                   (result, s6) \<leftarrow> s3fs_unlink env from s5;
                   (_, s7) \<leftarrow> fs_DelStat to s6;
                   (_, s8) \<leftarrow> fs_DelStat from s7;
                   Some (result, s8)
                 })
              })
           })
      })
   }"

definition rename_large_object :: "'w fsenv \<Rightarrow> string \<Rightarrow> string \<Rightarrow> (int, 'w) fs_call" where
  "rename_large_object env from to s = do {
     (result, s1) \<leftarrow> rename_guard env from to s;
     (if result \<noteq> 0 then Some (result, s1)
      else do {
        ((result, a), s2) \<leftarrow> get_object_attribute env from no_attrs False False False s1;
        (if result \<noteq> 0 then Some (result, s2)
         else do {
           (result, s3) \<leftarrow> on_world (r_multirename env from to (a_meta a) (st_size (a_stat a))) s2;
           (if result \<noteq> 0 then Some (result, s3)
            else do {
              (_, s4) \<leftarrow> fs_DelStat to s3;
              s3fs_unlink env from s4
            })
         })
      })
   }"

definition clone_directory_object :: "'w fsenv \<Rightarrow> string \<Rightarrow> string \<Rightarrow> (int, 'w) fs_call" where
  "clone_directory_object env from to s = do {
     ((result, a), s1) \<leftarrow> get_attr env from s;
     (if result \<noteq> 0 then Some (result, s1)
      else do {
        (result, s2) \<leftarrow> create_directory_object env to (st_mode (a_stat a)) (st_mtime (a_stat a))
          (st_uid (a_stat a)) (st_gid (a_stat a)) s1;
        (_, s3) \<leftarrow> fs_DelStat to s2;
        Some (result, s3)
      })
   }"

section \<open>Renaming a directory\<close>

definition no_names :: dirnames where
  "no_names = \<lparr>newpath = [], nowpath = [], nowcache = [], d_meta = [], d_type = None\<rparr>"

text \<open>
  A directory object to move: the name it has now, or for a directory without an object the name it is known by,
  with whether it is such a directory.
\<close>

definition dir_move :: "'w fsenv \<Rightarrow> string \<Rightarrow> ((string \<times> bool) option, 'w) fs_call" where
  "dir_move env from s = do {
     ((result, d), s1) \<leftarrow> chk_dir_object_type env from no_names s;
     Some (if result \<noteq> 0 \<or> d_type d = Some DIRTYPE_UNKNOWN then None
           else if d_type d \<noteq> Some DIRTYPE_NOOBJ then Some (nowpath d, False) else Some (from, True), s1)
   }"

fun collect_moves ::
  "'w fsenv \<Rightarrow> string \<Rightarrow> string \<Rightarrow> s3obj \<Rightarrow> string list \<Rightarrow> mvnode list \<Rightarrow> (mvnode list, 'w) fs_call" where
  "collect_moves env basepath strto head [] ms s = Some (ms, s)"
| "collect_moves env basepath strto head (name # names) ms s = do {
     (_, s1) \<leftarrow> on_stats (\<lambda>c. GetStat c (now_of env s) (basepath @ name) True (Some (GetETag head name))) s;
     ((result, a), s2) \<leftarrow> get_attr env (basepath @ name) s1;
     (if result \<noteq> 0 then collect_moves env basepath strto head names ms s2
      else if S_ISDIR (st_mode (a_stat a)) then do {
        (d, s3) \<leftarrow> dir_move env (basepath @ name) s2;
        (case d of None \<Rightarrow> collect_moves env basepath strto head names ms s3
         | Some (from_name, normdir) \<Rightarrow>
             collect_moves env basepath strto head names (add_mvnode ms from_name (strto @ name) True normdir) s3)
      }
      else collect_moves env basepath strto head names (add_mvnode ms (basepath @ name) (strto @ name) False False) s2)
   }"

fun clone_dirs :: "'w fsenv \<Rightarrow> mvnode list \<Rightarrow> (int, 'w) fs_call" where
  "clone_dirs env [] s = Some (0, s)"
| "clone_dirs env (x # xs) s =
     (if mv_is_dir x \<and> old_path x \<noteq> [] then do {
        (result, s1) \<leftarrow> clone_directory_object env (old_path x) (new_path x) s;
        (if result \<noteq> 0 then Some (- EIO, s1) else clone_dirs env xs s1)
      }
      else clone_dirs env xs s)"

fun move_files :: "'w fsenv \<Rightarrow> mvnode list \<Rightarrow> (int, 'w) fs_call" where
  "move_files env [] s = Some (0, s)"
| "move_files env (x # xs) s =
     (if \<not> mv_is_dir x then do {
        (result, s1) \<leftarrow> (if \<not> nocopyapi (fcf env) \<and> \<not> norenameapi (fcf env)
          then rename_object env (old_path x) (new_path x) s
          else rename_object_nocopy env (old_path x) (new_path x) s);
        (if result \<noteq> 0 then Some (- EIO, s1) else move_files env xs s1)
      }
      else move_files env xs s)"

fun remove_dirs :: "'w fsenv \<Rightarrow> mvnode list \<Rightarrow> (int, 'w) fs_call" where
  "remove_dirs env [] s = Some (0, s)"
| "remove_dirs env (x # xs) s =
     (if mv_is_dir x \<and> old_path x \<noteq> [] then
        (if \<not> is_normdir x then do {
           (result, s1) \<leftarrow> s3fs_rmdir env (old_path x) s;
           (if result \<noteq> 0 then Some (- EIO, s1) else remove_dirs env xs s1)
         }
         else do {
           (_, s1) \<leftarrow> fs_DelStat (old_path x) s;
           remove_dirs env xs s1
         })
      else remove_dirs env xs s)"

text \<open>The directories are made first, then the files are moved, then the old directories removed from the last to the first.\<close>

definition rename_directory :: "'w fsenv \<Rightarrow> string \<Rightarrow> string \<Rightarrow> (int, 'w) fs_call" where
  "rename_directory env from to s = do {
     (d, s1) \<leftarrow> dir_move env from s;
     ((result, head), s2) \<leftarrow> list_bucket env (from @ ''/'') [] None False s1;
     (if result \<noteq> 0 then Some (result, s2)
      else do {
        (ms, s3) \<leftarrow> collect_moves env (from @ ''/'') (to @ ''/'') head
          (MakeHierarchizedList (GetNameList head [] True True) False)
          (case d of None \<Rightarrow> [] | Some (strfrom, normdir) \<Rightarrow> add_mvnode [] strfrom (to @ ''/'') True normdir) s2;
        (result, s4) \<leftarrow> clone_dirs env ms s3;
        (if result \<noteq> 0 then Some (result, s4)
         else do {
           (result, s5) \<leftarrow> move_files env ms s4;
           (if result \<noteq> 0 then Some (result, s5) else remove_dirs env (rev ms) s5)
         })
      })
   }"

section \<open>Renaming\<close>

text \<open>An open file is flushed first; the result is not looked at, and the reference to it is not given back.\<close>

definition flush_open :: "'w fsenv \<Rightarrow> string \<Rightarrow> (unit, 'w) fs_call" where
  "flush_open env from s = do {
     (ent, s1) \<leftarrow> fs_ExistOpen env from (- 1) False s;
     (case ent of None \<Rightarrow> Some ((), s1)
      | Some e \<Rightarrow> do {
          (_, s2) \<leftarrow> on_ent e (RowFlush (io_of env) None True) s1;
          fs_DelStat from s2
        })
   }"

definition s3fs_rename :: "'w fsenv \<Rightarrow> string \<Rightarrow> string \<Rightarrow> (int, 'w) fs_call" where
  "s3fs_rename env from0 to0 s =
     (let from = WTF8_ENCODE env from0; to = WTF8_ENCODE env to0
      in do {
        (result, s1) \<leftarrow> rename_guard env from to s;
        (if result \<noteq> 0 then Some (result, s1)
         else do {
           ((result, a), s2) \<leftarrow> get_attr env from s1;
           (if result \<noteq> 0 then Some (result, s2)
            else do {
              (_, s3) \<leftarrow> flush_open env from s2;
              (if S_ISDIR (st_mode (a_stat a)) then rename_directory env from to s3
               else if \<not> fs_nomultipart (fcf env) \<and> singlepart_copy_limit (fcf env) \<le> st_size (a_stat a)
                 then rename_large_object env from to s3
               else if \<not> nocopyapi (fcf env) \<and> \<not> norenameapi (fcf env) then rename_object env from to s3
               else rename_object_nocopy env from to s3)
            })
         })
      })"

definition s3fs_link :: "'w fsenv \<Rightarrow> string \<Rightarrow> string \<Rightarrow> int" where
  "s3fs_link env from0 to0 = - ENOTSUP"

text \<open>The figures of the file system are constants.\<close>

record statvfs =
  f_bsize :: int
  f_blocks :: int
  f_bfree :: int
  f_bavail :: int
  f_namemax :: int

definition s3fs_statfs :: "string \<Rightarrow> int \<times> statvfs" where
  "s3fs_statfs path = (0, \<lparr>f_bsize = 0x1000000, f_blocks = 0x1000000, f_bfree = 0x1000000, f_bavail = 0x1000000,
     f_namemax = 255\<rparr>)"

definition s3fs_access :: "'w fsenv \<Rightarrow> string \<Rightarrow> 32 word \<Rightarrow> (int, 'w) fs_call" where
  "s3fs_access env path want s = map_option (map_prod fst id) (check_object_access env path want s)"

section \<open>Reading a directory\<close>

definition s3fs_opendir :: "'w fsenv \<Rightarrow> string \<Rightarrow> file_info \<Rightarrow> (int, 'w) fs_call" where
  "s3fs_opendir env path0 fi s =
     (let path = WTF8_ENCODE env path0; want = access_mask fi OR X_OK
      in do {
        ((result, _), s1) \<leftarrow> check_object_access env path want s;
        (if result = 0 then check_parent_object_access env path want s1 else Some (result, s1))
      })"

definition multi_head_callback :: "'w fsenv \<Rightarrow> string \<Rightarrow> headers \<Rightarrow> (bool, 'w) fs_call" where
  "multi_head_callback env spath meta s = do {
     (r, s1) \<leftarrow> on_stats (\<lambda>c. AddStat (statenv env) c (now_of env s) spath meta False False) s;
     (case r of Inl e \<Rightarrow> None | Inr ok \<Rightarrow> Some (ok, s1))
   }"

text \<open>The requests to make: those of the names whose attributes are not cached.\<close>

fun missing_heads ::
  "'w fsenv \<Rightarrow> string \<Rightarrow> s3obj \<Rightarrow> string list \<Rightarrow> ((string \<times> string) list, 'w) fs_call" where
  "missing_heads env path head [] s = Some ([], s)"
| "missing_heads env path head (name # names) s = do {
     (hit, s1) \<leftarrow> on_stats (\<lambda>c. GetStat c (now_of env s) (path @ name) True (Some (GetETag head name))) s;
     (reqs, s2) \<leftarrow> missing_heads env path head names s1;
     Some (if hit \<noteq> None then reqs else (path @ name, name) # reqs, s2)
   }"

type_synonym filled = "string \<times> stat_t option"

fun fill_entries :: "'w fsenv \<Rightarrow> string list \<Rightarrow> (filled list, 'w) fs_call" where
  "fill_entries env [] s = Some ([], s)"
| "fill_entries env (p # ps) s = do {
     (hit, s1) \<leftarrow> on_stats (\<lambda>c. GetStat c (now_of env s) p True None) s;
     (out, s2) \<leftarrow> fill_entries env ps s1;
     (let bpath = basename p;
          bpath = (if use_wtf8 (fcf env) then text_of (s3fs_wtf8_decode (map byte_of bpath)) else bpath)
      in Some ((bpath, map_option fst hit) # out, s2))
   }"

text \<open>An answer that could not be had leaves an entry without attributes; any other failure ends the listing.\<close>

definition readdir_multi_head :: "'w fsenv \<Rightarrow> string \<Rightarrow> s3obj \<Rightarrow> (int \<times> filled list, 'w) fs_call" where
  "readdir_multi_head env path head s =
     (let names = GetNameList head [] True False
      in do {
        (reqs, s1) \<leftarrow> missing_heads env path head names s;
        (result, s2) \<leftarrow> r_heads env reqs (multi_head_callback env) s1;
        (if result \<noteq> 0 \<and> result \<noteq> - EIO then Some ((result, []), s2)
         else do {
           (out, s3) \<leftarrow> fill_entries env (map (\<lambda>n. chop_slash (path @ n)) names) s2;
           Some ((0, out), s3)
         })
      })"

definition s3fs_readdir :: "'w fsenv \<Rightarrow> string \<Rightarrow> (int \<times> filled list, 'w) fs_call" where
  "s3fs_readdir env path0 s =
     (let path = WTF8_ENCODE env path0
      in do {
        ((result, _), s1) \<leftarrow> check_object_access env path X_OK s;
        (if result \<noteq> 0 then Some ((result, []), s1)
         else do {
           ((result, head), s2) \<leftarrow> list_bucket env path [] (Some ''/'') False s1;
           (let dots = [(''.'', None), (''..'', None)]
            in if result \<noteq> 0 then Some ((result, []), s2)
               else if head = [] then Some ((0, dots), s2)
               else do {
                 ((result, out), s3) \<leftarrow> readdir_multi_head env (if path = ''/'' then path else path @ ''/'') head s2;
                 Some ((result, dots @ out), s3)
               })
         })
      })"

end
