(* ===== verification/Fs_Change.thy ===== *)
theory Fs_Change
  imports Fs_Dir
begin

text \<open>
  The operations of \<open>protocols/s3/s3fs.cpp\<close> that change the mode, the owner, the times and the extended attributes. Each has
  a form that lets the server copy the object onto itself with new headers, and a form that uploads the file again.
\<close>

section \<open>The object behind a path\<close>

text \<open>Who may change it: the owner, below directories that may be searched. The mount point is not changed.\<close>

definition change_guard :: "'w fsenv \<Rightarrow> string \<Rightarrow> (int \<times> stat_t, 'w) fs_call" where
  "change_guard env path s =
     (if path = ''/'' then Some ((- EIO, zero_stat), s)
      else do {
        (result, s1) \<leftarrow> check_parent_object_access env path X_OK s;
        (if result \<noteq> 0 then Some ((result, zero_stat), s1) else check_object_owner env path s1)
      })"

text \<open>The times may also be changed by one who may write.\<close>

definition utimens_guard :: "'w fsenv \<Rightarrow> string \<Rightarrow> (int \<times> stat_t, 'w) fs_call" where
  "utimens_guard env path s =
     (if path = ''/'' then Some ((- EIO, zero_stat), s)
      else do {
        (result, s1) \<leftarrow> check_parent_object_access env path X_OK s;
        (if result \<noteq> 0 then Some ((result, zero_stat), s1)
         else do {
           ((result, st), s2) \<leftarrow> check_object_access env path W_OK s1;
           (if result = 0 then Some ((0, st), s2)
            else do {
              ((owner, st1), s3) \<leftarrow> check_object_owner env path s2;
              Some ((if owner \<noteq> 0 then result else 0, st1), s3)
            })
         })
      })"

definition change_target :: "'w fsenv \<Rightarrow> string \<Rightarrow> stat_t \<Rightarrow> (int \<times> dirnames, 'w) fs_call" where
  "change_target env path st s =
     (if S_ISDIR (st_mode st) then chk_dir_object_type env path (no_names\<lparr>d_type := Some DIRTYPE_UNKNOWN\<rparr>) s
      else do {
        ((result, a), s1) \<leftarrow> get_attr env path s;
        Some ((result, \<lparr>newpath = [], nowpath = path, nowcache = path, d_meta = a_meta a,
          d_type = Some DIRTYPE_UNKNOWN\<rparr>), s1)
      })"

definition guarded ::
  "('w fs \<Rightarrow> ((int \<times> stat_t) \<times> 'w fs) option) \<Rightarrow> 'w fsenv \<Rightarrow> string
    \<Rightarrow> (stat_t \<Rightarrow> dirnames \<Rightarrow> (int, 'w) fs_call) \<Rightarrow> (int, 'w) fs_call" where
  "guarded guard env path action s = do {
     ((result, st), s1) \<leftarrow> guard s;
     (if result \<noteq> 0 then Some (result, s1)
      else do {
        ((result, d), s2) \<leftarrow> change_target env path st s1;
        (if result \<noteq> 0 then Some (result, s2) else action st d s2)
      })
   }"

definition to_rebuild :: "stat_t \<Rightarrow> dirnames \<Rightarrow> bool" where
  "to_rebuild st d \<longleftrightarrow> S_ISDIR (st_mode st) \<and> (case d_type d of None \<Rightarrow> False | Some t \<Rightarrow> IS_REPLACEDIR t)"

text \<open>The old object of a directory is removed before the new one is made.\<close>

definition rebuild_dir ::
  "'w fsenv \<Rightarrow> dirnames \<Rightarrow> mode_t \<Rightarrow> int \<Rightarrow> 32 word \<Rightarrow> 32 word \<Rightarrow> (int, 'w) fs_call" where
  "rebuild_dir env d mode time uid gid s = do {
     (result, s1) \<leftarrow> remove_old_type_dir env (nowpath d) (d_type d) s;
     (if result \<noteq> 0 then Some (result, s1)
      else do {
        (_, s2) \<leftarrow> fs_DelStat (nowcache d) s1;
        create_directory_object env (newpath d) mode time uid gid s2
      })
   }"

text \<open>The object is copied onto itself with new headers.\<close>

definition copy_onto_itself :: "'w fsenv \<Rightarrow> string \<Rightarrow> string \<Rightarrow> headers \<Rightarrow> (int, 'w) fs_call" where
  "copy_onto_itself env strpath cachename meta s = do {
     ((result, _), s1) \<leftarrow> put_headers env strpath (replaced_meta env strpath meta) True s;
     (if result \<noteq> 0 then Some (- EIO, s1)
      else do { (_, s2) \<leftarrow> fs_DelStat cachename s1; Some (0, s2) })
   }"

text \<open>The object is loaded, its headers are changed and it is uploaded.\<close>

definition upload_again ::
  "'w fsenv \<Rightarrow> dirnames \<Rightarrow> (nat \<Rightarrow> (int, 'w) fs_call) \<Rightarrow> (int, 'w) fs_call" where
  "upload_again env d change s = do {
     (ent, s1) \<leftarrow> get_local_fent env (nowpath d) True s;
     (case ent of None \<Rightarrow> Some (- EIO, s1)
      | Some e \<Rightarrow> do {
          (result, s2) \<leftarrow> change e s1;
          (result, s3) \<leftarrow> (if result \<noteq> 0 then Some (result, s2) else on_ent e (RowFlush (io_of env) None True) s2);
          (_, s4) \<leftarrow> fs_Close env e s3;
          (if result \<noteq> 0 then Some (result, s4)
           else do { (_, s5) \<leftarrow> fs_DelStat (nowcache d) s4; Some (0, s5) })
        })
   }"

text \<open>Setters of an entity without a result.\<close>

definition set_ent :: "nat \<Rightarrow> ('w fds \<Rightarrow> 'w fds) \<Rightarrow> (int, 'w) fs_call" where
  "set_ent e f = on_ent e (\<lambda>x. (0, f x))"

section \<open>Mode\<close>

definition s3fs_chmod :: "'w fsenv \<Rightarrow> string \<Rightarrow> mode_t \<Rightarrow> (int, 'w) fs_call" where
  "s3fs_chmod env path0 mode =
     (let path = WTF8_ENCODE env path0
      in guarded (change_guard env path) env path (\<lambda>st d s.
        if to_rebuild st d then rebuild_dir env d mode (st_mtime st) (st_uid st) (st_gid st) s
        else do {
          (result, s1) \<leftarrow> copy_onto_itself env (nowpath d) (nowcache d)
            (hd_set ''x-amz-meta-mode'' (str (uint mode))
              (hd_set ''x-amz-meta-ctime'' (str (wall env (fs_world s))) (d_meta d))) s;
          (if result \<noteq> 0 then Some (result, s1)
           else do {
             (ent, s2) \<leftarrow> fs_ExistOpen env path (- 1) False s1;
             (case ent of None \<Rightarrow> Some (0, s2)
              | Some e \<Rightarrow> do {
                  (_, s3) \<leftarrow> on_ent e (UpdateCtime (io_of env) (disk_of env)) s2;
                  (_, s4) \<leftarrow> set_ent e (SetMode mode) s3;
                  (_, s5) \<leftarrow> fs_Close env e s4;
                  Some (0, s5)
                })
           })
        }))"

definition s3fs_chmod_nocopy :: "'w fsenv \<Rightarrow> string \<Rightarrow> mode_t \<Rightarrow> (int, 'w) fs_call" where
  "s3fs_chmod_nocopy env path0 mode =
     (let path = WTF8_ENCODE env path0
      in guarded (change_guard env path) env path (\<lambda>st d s.
        if S_ISDIR (st_mode st) then rebuild_dir env d mode (st_mtime st) (st_uid st) (st_gid st) s
        else upload_again env d (\<lambda>e s. set_ent e (\<lambda>x. SetMode mode (SetCtime (wall env (world x)) x)) s) s))"

section \<open>Owner\<close>

definition keep_id :: "32 word \<Rightarrow> 32 word \<Rightarrow> 32 word" where
  "keep_id new old = (if new = - 1 then old else new)"

definition s3fs_chown :: "'w fsenv \<Rightarrow> string \<Rightarrow> 32 word \<Rightarrow> 32 word \<Rightarrow> (int, 'w) fs_call" where
  "s3fs_chown env path0 uid0 gid0 =
     (let path = WTF8_ENCODE env path0
      in guarded (change_guard env path) env path (\<lambda>st d s.
        (let uid = keep_id uid0 (st_uid st); gid = keep_id gid0 (st_gid st)
         in if to_rebuild st d then rebuild_dir env d (st_mode st) (st_mtime st) uid gid s
            else copy_onto_itself env (nowpath d) (nowcache d)
              (hd_set ''x-amz-meta-gid'' (str (uint gid))
                (hd_set ''x-amz-meta-uid'' (str (uint uid))
                  (hd_set ''x-amz-meta-ctime'' (str (wall env (fs_world s))) (d_meta d)))) s)))"

definition s3fs_chown_nocopy :: "'w fsenv \<Rightarrow> string \<Rightarrow> 32 word \<Rightarrow> 32 word \<Rightarrow> (int, 'w) fs_call" where
  "s3fs_chown_nocopy env path0 uid0 gid0 =
     (let path = WTF8_ENCODE env path0
      in guarded (change_guard env path) env path (\<lambda>st d s.
        (let uid = keep_id uid0 (st_uid st); gid = keep_id gid0 (st_gid st)
         in if S_ISDIR (st_mode st) then rebuild_dir env d (st_mode st) (st_mtime st) uid gid s
            else upload_again env d
              (\<lambda>e s. set_ent e (\<lambda>x. SetGId gid (SetUId uid (SetCtime (wall env (world x)) x))) s) s)))"

section \<open>Times\<close>

definition s3fs_utimens :: "'w fsenv \<Rightarrow> string \<Rightarrow> int \<Rightarrow> (int, 'w) fs_call" where
  "s3fs_utimens env path0 mtime =
     (let path = WTF8_ENCODE env path0
      in guarded (utimens_guard env path) env path (\<lambda>st d s.
        if to_rebuild st d then rebuild_dir env d (st_mode st) mtime (st_uid st) (st_gid st) s
        else copy_onto_itself env (nowpath d) (nowcache d) (hd_set ''x-amz-meta-mtime'' (str mtime) (d_meta d)) s))"

definition s3fs_utimens_nocopy :: "'w fsenv \<Rightarrow> string \<Rightarrow> int \<Rightarrow> (int, 'w) fs_call" where
  "s3fs_utimens_nocopy env path0 mtime =
     (let path = WTF8_ENCODE env path0
      in guarded (utimens_guard env path) env path (\<lambda>st d s.
        if S_ISDIR (st_mode st) then rebuild_dir env d (st_mode st) mtime (st_uid st) (st_gid st) s
        else upload_again env d (\<lambda>e. on_ent e (SetMtime (io_of env) mtime)) s))"

section \<open>Extended attributes\<close>

text \<open>The headers go to the object, which for a directory of another kind is made anew first.\<close>

definition put_xattr_meta :: "'w fsenv \<Rightarrow> stat_t \<Rightarrow> dirnames \<Rightarrow> ('w fs \<Rightarrow> headers) \<Rightarrow> (int, 'w) fs_call" where
  "put_xattr_meta env st d meta s =
     (if to_rebuild st d then do {
        (result, s1) \<leftarrow> rebuild_dir env d (st_mode st) (st_mtime st) (st_uid st) (st_gid st) s;
        (if result \<noteq> 0 then Some (result, s1) else copy_onto_itself env (newpath d) (newpath d) (meta s1) s1)
      }
      else copy_onto_itself env (nowpath d) (nowcache d) (meta s) s)"

text \<open>
  A value without a size, or a size without a value, is only logged. The flags \<open>XATTR_CREATE\<close> (1) and
  \<open>XATTR_REPLACE\<close> (2) are given as two truth values.
\<close>

definition s3fs_setxattr ::
  "'w fsenv \<Rightarrow> string \<Rightarrow> string \<Rightarrow> bytes option \<Rightarrow> nat \<Rightarrow> bool \<Rightarrow> bool \<Rightarrow> (int, 'w) fs_call" where
  "s3fs_setxattr env path name val n create replace s =
     (if (val \<noteq> None) = (n = 0) then Some (0, s)
      else guarded (change_guard env path) env path (\<lambda>st d s.
        (case set_xattrs_to_header (d_meta d) name (case val of None \<Rightarrow> [] | Some v \<Rightarrow> take n v) create replace of
           (result, meta) \<Rightarrow>
             if result \<noteq> 0 then Some (result, s)
             else put_xattr_meta env st d
               (\<lambda>s. hd_set ''x-amz-meta-ctime'' (str (wall env (fs_world s))) meta) s)) s)"

text \<open>The extended attributes of an object; \<open>None\<close> when it has none.\<close>

definition read_xattrs :: "'w fsenv \<Rightarrow> string \<Rightarrow> (int \<times> xattrs_t option, 'w) fs_call" where
  "read_xattrs env path s = do {
     (result, s1) \<leftarrow> check_parent_object_access env path X_OK s;
     (if result \<noteq> 0 then Some ((result, None), s1)
      else do {
        ((result, a), s2) \<leftarrow> get_attr env path s1;
        Some ((result, if result \<noteq> 0 then None
          else map_option parse_xattrs (hd_find ''x-amz-meta-xattr'' (a_meta a))), s2)
      })
   }"

definition s3fs_getxattr ::
  "'w fsenv \<Rightarrow> string option \<Rightarrow> string option \<Rightarrow> nat \<Rightarrow> (int \<times> bytes option, 'w) fs_call" where
  "s3fs_getxattr env path name n s =
     (case (path, name) of
        (Some p, Some nm) \<Rightarrow> do {
          ((result, xattrs), s1) \<leftarrow> read_xattrs env p s;
          Some (if result \<noteq> 0 then (result, None)
            else (case xattrs of None \<Rightarrow> (- ENODATA, None)
              | Some m \<Rightarrow>
                  (case sm_find nm m of None \<Rightarrow> (- ENODATA, None)
                   | Some v \<Rightarrow>
                       (let len = (case v of None \<Rightarrow> 0 | Some b \<Rightarrow> length b)
                        in if 0 < n \<and> n < len then (- ERANGE, None)
                           else (int len, if 0 < n then v else None)))), s1)
        }
      | _ \<Rightarrow> Some ((- EIO, None), s))"

definition names_total :: "xattrs_t \<Rightarrow> nat" where
  "names_total m = sum_list (map (\<lambda>x. length (fst x) + 1) (filter (\<lambda>x. fst x \<noteq> []) m))"

definition names_text :: "xattrs_t \<Rightarrow> string" where
  "names_text m = concat (map (\<lambda>x. c_str (fst x) @ [CHR 0x00]) (filter (\<lambda>x. fst x \<noteq> []) m))"

definition s3fs_listxattr ::
  "'w fsenv \<Rightarrow> string option \<Rightarrow> bool \<Rightarrow> nat \<Rightarrow> (int \<times> string option, 'w) fs_call" where
  "s3fs_listxattr env path has_list n s =
     (case path of None \<Rightarrow> Some ((- EIO, None), s)
      | Some p \<Rightarrow> do {
          ((result, xattrs), s1) \<leftarrow> read_xattrs env p s;
          Some (if result \<noteq> 0 then (result, None)
            else (case xattrs of None \<Rightarrow> (0, None)
              | Some m \<Rightarrow>
                  if names_total m = 0 then (0, None)
                  else if n = 0 then (int (names_total m), None)
                  else if \<not> has_list \<or> n < names_total m then (- ERANGE, None)
                  else (int (names_total m), Some (names_text m))), s1)
        })"

definition s3fs_removexattr :: "'w fsenv \<Rightarrow> string option \<Rightarrow> string option \<Rightarrow> (int, 'w) fs_call" where
  "s3fs_removexattr env path name s =
     (case (path, name) of
        (Some p, Some nm) \<Rightarrow>
          guarded (change_guard env p) env p (\<lambda>st d s.
            (case hd_find ''x-amz-meta-xattr'' (d_meta d) of None \<Rightarrow> Some (- ENODATA, s)
             | Some strxattrs \<Rightarrow>
                 (let xattrs = parse_xattrs strxattrs
                  in if sm_find nm xattrs = None then Some (- ENODATA, s)
                     else
                       (let rest = sm_erase nm xattrs
                        in put_xattr_meta env st d
                          (\<lambda>_. if rest \<noteq> [] then hd_set ''x-amz-meta-xattr'' (build_xattrs rest) (d_meta d)
                           else om_erase strcasecmp_less ''x-amz-meta-xattr'' (d_meta d)) s)))) s
      | _ \<Rightarrow> Some (- EIO, s))"

end
