(* ===== verification/Sys_Util.thy ===== *)
theory Sys_Util
  imports Header_Stat Fd_Data Curl_Config
begin

text \<open>
  Users, groups and directories of the machine: \<open>get_username\<close> to \<open>check_exist_dir_permission\<close> of
  \<open>protocols/s3/s3fs_util.cpp\<close>, and the checks of the cache directories in \<open>protocols/s3/fdcache.cpp\<close>. The tables of
  users and groups and the file system are the record \<open>sysenv\<close>.
\<close>

unbundle bit_operations_syntax

record sysenv =
  se_pw_name :: "32 word \<Rightarrow> int + string option"
  se_gr_mem :: "32 word \<Rightarrow> int + string list option"
  se_euid :: "32 word"
  se_stat :: "string \<Rightarrow> int + stat_t"

section \<open>Users and groups\<close>

text \<open>An error and an unknown user have the empty name.\<close>

definition get_username :: "sysenv \<Rightarrow> 32 word \<Rightarrow> string" where
  "get_username se uid = (case se_pw_name se uid of Inr (Some name) \<Rightarrow> name | _ \<Rightarrow> [])"

definition is_uid_include_group :: "sysenv \<Rightarrow> 32 word \<Rightarrow> 32 word \<Rightarrow> int" where
  "is_uid_include_group se uid gid =
     (case se_gr_mem se gid of
        Inl err \<Rightarrow> - err
      | Inr None \<Rightarrow> - EINVAL
      | Inr (Some members) \<Rightarrow> if get_username se uid \<in> set members then 1 else 0)"

section \<open>Directories\<close>

text \<open>
  \<open>mkdir --parents\<close>: the code puts a slash before every component, the empty one before the first slash of the path too.
  \<open>mk\<close> makes a directory, its result is \<open>errno\<close> or 0.
\<close>

fun mkdirp_loop ::
  "('w \<Rightarrow> string \<Rightarrow> mode_t option) \<Rightarrow> (string \<Rightarrow> 'w \<Rightarrow> int \<times> 'w) \<Rightarrow> string \<Rightarrow> string list \<Rightarrow> 'w \<Rightarrow> int \<times> 'w" where
  "mkdirp_loop stat_of mk base [] w = (0, w)"
| "mkdirp_loop stat_of mk base (component # cs) w =
     (let base1 = base @ ''/'' @ component
      in case stat_of w base1 of
           Some mode \<Rightarrow> if \<not> S_ISDIR mode then (EPERM, w) else mkdirp_loop stat_of mk base1 cs w
         | None \<Rightarrow>
             (case mk base1 w of (err, w1) \<Rightarrow>
                if err \<noteq> 0 \<and> err \<noteq> EEXIST then (err, w1) else mkdirp_loop stat_of mk base1 cs w1))"

definition mkdirp ::
  "('w \<Rightarrow> string \<Rightarrow> mode_t option) \<Rightarrow> (string \<Rightarrow> 'w \<Rightarrow> int \<times> 'w) \<Rightarrow> string \<Rightarrow> 'w \<Rightarrow> int \<times> 'w" where
  "mkdirp stat_of mk path = mkdirp_loop stat_of mk [] (getlines CHR ''/'' path)"

definition is_dir_at :: "sysenv \<Rightarrow> string \<Rightarrow> bool" where
  "is_dir_at se p \<longleftrightarrow> (case se_stat se p of Inl _ \<Rightarrow> False | Inr st \<Rightarrow> S_ISDIR (st_mode st))"

fun exist_loop :: "sysenv \<Rightarrow> string \<Rightarrow> string \<Rightarrow> string list \<Rightarrow> string" where
  "exist_loop se existed base [] = existed"
| "exist_loop se existed base (component # cs) =
     (let base1 = (if base \<noteq> ''/'' then base @ ''/'' else base) @ component
      in if is_dir_at se base1 then exist_loop se base1 base1 cs else existed)"

definition get_exist_directory_path :: "sysenv \<Rightarrow> string \<Rightarrow> string" where
  "get_exist_directory_path se path = exist_loop se ''/'' [] (getlines CHR ''/'' path)"

text \<open>A directory that does not exist may still be made.\<close>

definition check_exist_dir_permission :: "sysenv \<Rightarrow> string option \<Rightarrow> bool" where
  "check_exist_dir_permission se dirpath =
     (case dirpath of None \<Rightarrow> False
      | Some p \<Rightarrow>
          if p = [] then False
          else case se_stat se p of
            Inl err \<Rightarrow> err = ENOENT
          | Inr st \<Rightarrow>
              if \<not> S_ISDIR (st_mode st) then False
              else if se_euid se = st_uid st then st_mode st AND 0x1C0 = 0x1C0
              else if is_uid_include_group se (se_euid se) (st_gid st) = 1 then st_mode st AND 0x38 = 0x38
              else st_mode st AND 0x7 = 0x7)"

section \<open>The directories of the cache\<close>

definition CheckCacheDirExist :: "sysenv \<Rightarrow> bool \<Rightarrow> string \<Rightarrow> bool" where
  "CheckCacheDirExist se check dir \<longleftrightarrow> \<not> check \<or> dir = [] \<or> is_dir_at se dir"

definition CheckCacheTopDir :: "sysenv \<Rightarrow> string \<Rightarrow> string \<Rightarrow> bool" where
  "CheckCacheTopDir se dir bucket \<longleftrightarrow> dir = [] \<or> check_exist_dir_permission se (Some (dir @ ''/'' @ bucket))"

definition CheckCacheFileStatTopDir :: "sysenv \<Rightarrow> string \<Rightarrow> string \<Rightarrow> bool" where
  "CheckCacheFileStatTopDir se dir bucket \<longleftrightarrow>
     dir = [] \<or> check_exist_dir_permission se (Some (dir @ ''/.'' @ bucket @ ''.stat''))"

text \<open>The directory whose file system is asked for its free space.\<close>

definition space_path :: "sysenv \<Rightarrow> string \<Rightarrow> string option \<Rightarrow> string" where
  "space_path se dir path =
     (let top = (if dir \<noteq> [] then
            (let e = get_exist_directory_path se (dir @ ''/'') in if e \<noteq> ''/'' then e @ ''/'' else e)
          else ''/tmp/'')
      in top @ (case path of None \<Rightarrow> ''.'' | Some p \<Rightarrow> if p = [] then ''.'' else p))"

end
