(* ===== verification/Fs_Options.thy ===== *)
theory Fs_Options
  imports Fs_List Curl_Config Addhead
begin

text \<open>
  The options of \<open>protocols/s3/s3fs.cpp\<close>: \<open>set_bucket\<close> and \<open>my_fuse_opt_proc\<close>, which reads one argument into the
  global settings. The result of an option is 0 or, for what is to go on to FUSE, 1, and \<open>-1\<close> for an error.
\<close>

unbundle bit_operations_syntax

section \<open>Settings\<close>

datatype s3fs_log_level = S3FS_LOG_CRIT | S3FS_LOG_ERR | S3FS_LOG_WARN | S3FS_LOG_INFO | S3FS_LOG_DBG

datatype utility_incomp_type = NO_UTILITY_MODE | INCOMP_TYPE_LIST | INCOMP_TYPE_ABORT

record opts =
  o_cf :: cconf
  o_fs :: fsconf
  o_stats :: stat_cache
  o_complement :: bool
  o_is_ecs :: bool
  o_is_ibm_iam_auth :: bool
  o_is_use_session_token :: bool
  mp_umask :: mode_t
  is_mp_umask :: bool
  passwd_file :: string
  utility_mode :: utility_incomp_type
  noxmlns :: bool
  nonempty :: bool
  allow_other :: bool
  load_iamrole :: bool
  is_remove_cache :: bool
  is_use_xattr :: bool
  create_bucket :: bool
  is_specified_endpoint :: bool
  instance_name :: string
  aws_profile :: string
  debug_level :: s3fs_log_level
  o_cache_dir :: string
  check_cache_dir_exist :: bool
  free_disk_space :: int
  o_headers :: additional

definition initial_fsconf :: fsconf where
  "initial_fsconf = \<lparr>mp_uid = 0, mp_gid = 0, mp_mode = 0, is_s3fs_uid = False, s3fs_uid = 0, is_s3fs_gid = False,
     s3fs_gid = 0, is_s3fs_umask = False, s3fs_umask = 0, support_compat_dir = True, max_keys_list_object = 1000,
     use_wtf8 = False, nocopyapi = False, norenameapi = False, fs_nomultipart = False,
     singlepart_copy_limit = 512 * 1024 * 1024\<rparr>"

definition initial_opts :: opts where
  "initial_opts = \<lparr>o_cf = initial_conf, o_fs = initial_fsconf, o_stats = new_stat_cache, o_complement = False,
     o_is_ecs = False, o_is_ibm_iam_auth = False, o_is_use_session_token = False, mp_umask = 0, is_mp_umask = False,
     passwd_file = [], utility_mode = NO_UTILITY_MODE, noxmlns = False, nonempty = False, allow_other = False,
     load_iamrole = False, is_remove_cache = False, is_use_xattr = False, create_bucket = False,
     is_specified_endpoint = False, instance_name = [], aws_profile = ''default'', debug_level = S3FS_LOG_CRIT,
     o_cache_dir = [], check_cache_dir_exist = False, free_disk_space = 0, o_headers = no_additional\<rparr>"

text \<open>The process, the files it reads and the digest of the SSL library.\<close>

record optenv =
  oe_uid :: "32 word"
  oe_gid :: "32 word"
  oe_md5 :: "bytes \<Rightarrow> string option"
  oe_key_file :: "string \<Rightarrow> (32 word \<times> string option) option"
  oe_regex :: "string \<Rightarrow> (string \<Rightarrow> bool) option"
  oe_file :: "string \<Rightarrow> string option"

text \<open>What an option does: it is another one, it throws (a number that cannot be read), or it ends.\<close>

datatype handled = Other | Throws | Ends int opts

definition set_cf :: "(cconf \<Rightarrow> 'a \<times> cconf) \<Rightarrow> opts \<Rightarrow> handled" where
  "set_cf f o1 = Ends 0 (o1\<lparr>o_cf := snd (f (o_cf o1))\<rparr>)"

definition set_fs :: "(fsconf \<Rightarrow> fsconf) \<Rightarrow> opts \<Rightarrow> handled" where
  "set_fs f o1 = Ends 0 (o1\<lparr>o_fs := f (o_fs o1)\<rparr>)"

text \<open>The text behind \<open>=\<close>, and the number it is.\<close>

definition starts :: "string \<Rightarrow> string \<Rightarrow> bool" where
  "starts p arg \<longleftrightarrow> is_prefix p arg"

definition number :: "string \<Rightarrow> string \<Rightarrow> (int \<Rightarrow> handled) \<Rightarrow> handled" where
  "number p arg f = (case s3fs_strtoofft (drop (length p) arg) False of Inl e \<Rightarrow> Throws | Inr n \<Rightarrow> f n)"

definition to_int :: "int \<Rightarrow> int" where
  "to_int n = sint (word_of_int n :: 32 word)"

text \<open>\<open>strtol\<close> with base 0: what it cannot read is 0.\<close>

definition strtol0 :: "string \<Rightarrow> int" where
  "strtol0 s =
     (let s1 = dropWhile is_space s;
          s2 = (if s1 \<noteq> [] \<and> hd s1 \<in> {CHR ''-'', CHR ''+''} then tl s1 else s1);
          base = (if 3 \<le> length s2 \<and> s2 ! 0 = CHR ''0'' \<and> s2 ! 1 \<in> {CHR ''x'', CHR ''X''} \<and> is_base_digit 16 (s2 ! 2)
                  then 16 else if s2 \<noteq> [] \<and> hd s2 = CHR ''0'' then 8 else 10)
      in case strtoll base s of None \<Rightarrow> 0 | Some (n, _) \<Rightarrow> max LLONG_MIN (min LLONG_MAX n))"

definition mode_bits :: "string \<Rightarrow> mode_t" where
  "mode_bits s = word_of_int (strtol0 s) AND 0x1FF"

section \<open>The bucket\<close>

text \<open>
  \<open>set_bucket\<close>: the name, and behind a colon the directory that is mounted. \<open>strtok\<close> skips colons in front of the
  name and has no answer for a name of colons only; the code then reads a NULL pointer (\<open>None\<close>).
\<close>

definition set_bucket :: "string \<Rightarrow> cconf \<Rightarrow> (int \<times> cconf) option" where
  "set_bucket arg cf =
     (if CHR '':'' \<notin> set arg then Some (0, cf\<lparr>g_bucket := arg\<rparr>)
      else if find_sub ''://'' arg \<noteq> None then Some (- 1, cf)
      else
        (let s = dropWhile ((=) CHR '':'') arg;
             name = takeWhile ((\<noteq>) CHR '':'') s;
             prefix = drop (length name + 1) s
         in if s = [] then None
            else if prefix = [] then Some (0, cf\<lparr>g_bucket := name\<rparr>)
            else if hd prefix \<noteq> CHR ''/'' then Some (- 1, cf\<lparr>g_bucket := name\<rparr>)
            else Some (0, cf\<lparr>g_bucket := name,
                    mount_prefix := (if last prefix = CHR ''/'' then butlast prefix else prefix)\<rparr>)))"

definition bucket_option :: "string \<Rightarrow> opts \<Rightarrow> handled" where
  "bucket_option arg o1 =
     (case set_bucket arg (o_cf o1) of None \<Rightarrow> Throws | Some (r, cf) \<Rightarrow> Ends r (o1\<lparr>o_cf := cf\<rparr>))"

section \<open>Owner, mode and bucket\<close>

definition opt_owner :: "optenv \<Rightarrow> string \<Rightarrow> opts \<Rightarrow> handled" where
  "opt_owner en arg o1 =
     (if starts ''bucket_name='' arg then bucket_option (drop 12 arg) o1
      else if starts ''uid='' arg then
        (case get_id_str (drop 4 arg) of Inl e \<Rightarrow> Throws
         | Inr u \<Rightarrow>
             (let fs = (o_fs o1)\<lparr>s3fs_uid := u\<rparr>
              in if oe_uid en \<noteq> 0 \<and> u = 0 then Ends (- 1) (o1\<lparr>o_fs := fs\<rparr>)
                 else Ends 1 (o1\<lparr>o_fs := fs\<lparr>is_s3fs_uid := True\<rparr>\<rparr>)))
      else if starts ''gid='' arg then
        (case get_id_str (drop 4 arg) of Inl e \<Rightarrow> Throws
         | Inr g \<Rightarrow>
             (let fs = (o_fs o1)\<lparr>s3fs_gid := g\<rparr>
              in if oe_gid en \<noteq> 0 \<and> g = 0 then Ends (- 1) (o1\<lparr>o_fs := fs\<rparr>)
                 else Ends 1 (o1\<lparr>o_fs := fs\<lparr>is_s3fs_gid := True\<rparr>\<rparr>)))
      else if starts ''umask='' arg then
        set_fs (\<lambda>f. f\<lparr>s3fs_umask := mode_bits (drop 6 arg), is_s3fs_umask := True\<rparr>) o1
      else if arg = ''allow_other'' then Ends 1 (o1\<lparr>allow_other := True\<rparr>)
      else if starts ''mp_umask='' arg then
        Ends 0 (o1\<lparr>mp_umask := mode_bits (drop 9 arg), is_mp_umask := True\<rparr>)
      else if starts ''default_acl='' arg then set_cf (SetDefaultAcl (Some (drop 12 arg))) o1
      else if starts ''retries='' arg then number ''retries='' arg (\<lambda>n. set_cf (SetRetries (to_int n)) o1)
      else Other)"

section \<open>Cache and storage class\<close>

definition storage_class_of :: "string \<Rightarrow> storage_class_t option" where
  "storage_class_of s =
     (if s = ''standard'' then Some STANDARD
      else if s = ''standard_ia'' then Some STANDARD_IA
      else if s = ''onezone_ia'' then Some ONEZONE_IA
      else if s = ''reduced_redundancy'' then Some REDUCED_REDUNDANCY
      else None)"

definition opt_cache :: "string \<Rightarrow> opts \<Rightarrow> handled" where
  "opt_cache arg o1 =
     (if starts ''use_cache='' arg then Ends 0 (o1\<lparr>o_cache_dir := drop 10 arg\<rparr>)
      else if starts ''check_cache_dir_exist'' arg then Ends 0 (o1\<lparr>check_cache_dir_exist := True\<rparr>)
      else if arg = ''del_cache'' then Ends 0 (o1\<lparr>is_remove_cache := True\<rparr>)
      else if starts ''multireq_max='' arg then
        number ''multireq_max='' arg (\<lambda>n. set_cf (SetMaxMultiRequest (to_int n)) o1)
      else if arg = ''nonempty'' then Ends 1 (o1\<lparr>nonempty := True\<rparr>)
      else if arg = ''nomultipart'' then set_fs (\<lambda>f. f\<lparr>fs_nomultipart := True\<rparr>) o1
      else if arg = ''use_rrs'' then set_cf (SetStorageClass REDUCED_REDUNDANCY) o1
      else if starts ''use_rrs='' arg then
        number ''use_rrs='' arg (\<lambda>rrs.
          if rrs = 0 then set_cf (SetStorageClass STANDARD) o1
          else if rrs = 1 then set_cf (SetStorageClass REDUCED_REDUNDANCY) o1
          else Ends (- 1) o1)
      else if starts ''storage_class='' arg then
        (case storage_class_of (drop 14 arg) of None \<Rightarrow> Ends (- 1) o1 | Some c \<Rightarrow> set_cf (SetStorageClass c) o1)
      else Other)"

section \<open>Server side encryption\<close>

text \<open>A type may be set when none is, or the same.\<close>

definition sse_free :: "sse_type_t \<Rightarrow> opts \<Rightarrow> bool" where
  "sse_free t o1 \<longleftrightarrow> ssetype (o_cf o1) = SSE_DISABLE \<or> ssetype (o_cf o1) = t"

definition load_ckeys :: "optenv \<Rightarrow> string \<Rightarrow> bool \<Rightarrow> opts \<Rightarrow> handled" where
  "load_ckeys en file set_type o1 =
     (case SetSseCKeys (oe_md5 en) (oe_key_file en) (Some file) (o_cf o1) of
        (False, cf) \<Rightarrow> Ends (- 1) (o1\<lparr>o_cf := cf\<rparr>)
      | (True, cf) \<Rightarrow> Ends 0 (o1\<lparr>o_cf := (if set_type then snd (SetSseType SSE_C cf) else cf)\<rparr>))"

definition load_kmsid :: "string \<Rightarrow> opts \<Rightarrow> handled" where
  "load_kmsid kmsid o1 =
     (case SetSseKmsid (Some kmsid) (o_cf o1) of
        (False, cf) \<Rightarrow> Ends (- 1) (o1\<lparr>o_cf := cf\<rparr>)
      | (True, cf) \<Rightarrow> Ends 0 (o1\<lparr>o_cf := snd (SetSseType SSE_KMS cf)\<rparr>))"

definition opt_sse :: "optenv \<Rightarrow> string \<Rightarrow> opts \<Rightarrow> handled" where
  "opt_sse en arg o1 =
     (if starts ''use_sse'' arg then
        (if arg = ''use_sse'' \<or> arg = ''use_sse=1'' then
           (if \<not> sse_free SSE_S3 o1 then Ends (- 1) o1 else set_cf (SetSseType SSE_S3) o1)
         else if arg = ''use_sse=kmsid'' \<or> arg = ''use_sse=k'' then
           (if \<not> sse_free SSE_KMS o1 \<or> ssekmsid (o_cf o1) = [] then Ends (- 1) o1 else set_cf (SetSseType SSE_KMS) o1)
         else if starts ''use_sse=kmsid:'' arg \<or> starts ''use_sse=k:'' arg then
           (if \<not> sse_free SSE_KMS o1 then Ends (- 1) o1
            else load_kmsid (drop (if starts ''use_sse=kmsid:'' arg then 14 else 10) arg) o1)
         else if arg = ''use_sse=custom'' \<or> arg = ''use_sse=c'' then
           (if \<not> sse_free SSE_C o1 then Ends (- 1) o1 else set_cf (SetSseType SSE_C) o1)
         else if starts ''use_sse=custom:'' arg \<or> starts ''use_sse=c:'' arg then
           (if \<not> sse_free SSE_C o1 then Ends (- 1) o1
            else load_ckeys en (drop (if starts ''use_sse=custom:'' arg then 15 else 10) arg) True o1)
         else if arg = ''use_sse='' then load_ckeys en [] True o1
         else Ends (- 1) o1)
      else if starts ''load_sse_c='' arg then load_ckeys en (drop 11 arg) False o1
      else if starts ''ssl_verify_hostname='' arg then
        number ''ssl_verify_hostname='' arg (\<lambda>n.
          case SetSslVerifyHostname n (o_cf o1) of (r, cf) \<Rightarrow>
            if r = - 1 then Ends (- 1) o1 else Ends 0 (o1\<lparr>o_cf := cf\<rparr>))
      else if starts ''passwd_file='' arg then Ends 0 (o1\<lparr>passwd_file := drop 12 arg\<rparr>)
      else Other)"

section \<open>Credentials\<close>

definition ibm_conf :: "cconf \<Rightarrow> cconf" where
  "ibm_conf cf = cf\<lparr>is_ibm_iam_auth := True, IAM_cred_url := ''https://iam.bluemix.net/oidc/token'',
     IAM_token_field := ''access_token'', IAM_expiry_field := ''expiration'', IAM_field_count := 2\<rparr>"

definition ecs_conf :: "cconf \<Rightarrow> cconf" where
  "ecs_conf cf = cf\<lparr>is_ecs := True, IAM_cred_url := ''http://169.254.170.2'', IAM_field_count := 5\<rparr>"

definition is_url :: "string \<Rightarrow> bool" where
  "is_url s \<longleftrightarrow> starts ''https://'' s \<or> starts ''http://'' s"

definition opt_iam :: "string \<Rightarrow> opts \<Rightarrow> handled" where
  "opt_iam arg o1 =
     (if arg = ''ibm_iam_auth'' then Ends 0 (o1\<lparr>o_cf := ibm_conf (o_cf o1), o_is_ibm_iam_auth := True\<rparr>)
      else if starts ''use_session_token'' arg then Ends 0 (o1\<lparr>o_is_use_session_token := True\<rparr>)
      else if starts ''ibm_iam_endpoint='' arg then
        (if \<not> is_url (drop 17 arg) then Ends (- 1) o1
         else set_cf (SetIAMCredentialsURL (Some (drop 17 arg @ ''/oidc/token''))) o1)
      else if arg = ''ecs'' then
        (if o_is_ibm_iam_auth o1 then Ends (- 1) o1 else Ends 0 (o1\<lparr>o_cf := ecs_conf (o_cf o1), o_is_ecs := True\<rparr>))
      else if starts ''iam_role'' arg then
        (if o_is_ecs o1 \<or> o_is_ibm_iam_auth o1 then Ends (- 1) o1
         else if arg = ''iam_role'' \<or> arg = ''iam_role=auto'' then Ends 0 (o1\<lparr>load_iamrole := True\<rparr>)
         else if starts ''iam_role='' arg then
           Ends 0 (o1\<lparr>o_cf := snd (SetIAMRole (Some (drop 9 arg)) (o_cf o1)), load_iamrole := False\<rparr>)
         else Ends 0 o1)
      else if starts ''profile='' arg then Ends 0 (o1\<lparr>aws_profile := drop 8 arg\<rparr>)
      else if starts ''public_bucket='' arg then
        number ''public_bucket='' arg (\<lambda>n.
          if n = 1 then Ends 0 (o1\<lparr>o_cf := snd (SetPublicBucket True (o_cf o1)), o_fs := (o_fs o1)\<lparr>nocopyapi := True\<rparr>\<rparr>)
          else if n = 0 then set_cf (SetPublicBucket False) o1
          else Ends (- 1) o1)
      else if starts ''bucket='' arg then bucket_option (drop 7 arg) o1
      else if starts ''host='' arg then Ends 0 (o1\<lparr>o_cf := (o_cf o1)\<lparr>g_host := drop 5 arg\<rparr>\<rparr>)
      else if starts ''servicepath='' arg then Ends 0 (o1\<lparr>o_cf := (o_cf o1)\<lparr>service_path := drop 12 arg\<rparr>\<rparr>)
      else Other)"

section \<open>Times and sizes\<close>

definition EnableCacheNoObject :: "stat_cache \<Rightarrow> bool \<times> stat_cache" where
  "EnableCacheNoObject c = SetCacheNoObject c True"

definition opt_times :: "string \<Rightarrow> opts \<Rightarrow> handled" where
  "opt_times arg o1 =
     (if arg = ''no_check_certificate'' then set_cf (SetCheckCertificate False) o1
      else if starts ''connect_timeout='' arg then
        number ''connect_timeout='' arg (\<lambda>n. set_cf (SetConnectTimeout n) o1)
      else if starts ''readwrite_timeout='' arg then
        number ''readwrite_timeout='' arg (\<lambda>n. set_cf (SetReadwriteTimeout n) o1)
      else if starts ''list_object_max_keys='' arg then
        number ''list_object_max_keys='' arg (\<lambda>n.
          if to_int n < 1000 then Ends (- 1) o1 else set_fs (\<lambda>f. f\<lparr>max_keys_list_object := to_int n\<rparr>) o1)
      else if starts ''max_stat_cache_size='' arg then
        number ''max_stat_cache_size='' arg (\<lambda>n.
          Ends 0 (o1\<lparr>o_stats := snd (SetCacheSize (o_stats o1) (unat (word_of_int n :: 64 word)))\<rparr>))
      else if starts ''stat_cache_expire='' arg then
        number ''stat_cache_expire='' arg (\<lambda>n. Ends 0 (o1\<lparr>o_stats := snd (SetExpireTime (o_stats o1) n False)\<rparr>))
      else if starts ''stat_cache_interval_expire='' arg then
        number ''stat_cache_interval_expire='' arg (\<lambda>n.
          Ends 0 (o1\<lparr>o_stats := snd (SetExpireTime (o_stats o1) n True)\<rparr>))
      else if arg = ''enable_noobj_cache'' then
        Ends 0 (o1\<lparr>o_stats := snd (EnableCacheNoObject (o_stats o1))\<rparr>)
      else if arg = ''nodnscache'' then set_cf (SetDnsCache False) o1
      else if arg = ''nosscache'' then set_cf (SetSslSessionCache False) o1
      else Other)"

definition parallel_option :: "string \<Rightarrow> string \<Rightarrow> opts \<Rightarrow> handled" where
  "parallel_option p arg o1 = number p arg (\<lambda>n.
     if to_int n \<le> 0 then Ends (- 1) o1 else set_cf (SetMaxParallelCount (to_int n)) o1)"

text \<open>
  A size in MB is multiplied in 64 bits; a limit in kB too. Of a space smaller than a part the size of a part is taken.
\<close>

definition to_off :: "int \<Rightarrow> int" where
  "to_off n = sint (word_of_int n :: 64 word)"

definition opt_sizes :: "optenv \<Rightarrow> string \<Rightarrow> opts \<Rightarrow> handled" where
  "opt_sizes en arg o1 =
     (if starts ''parallel_count='' arg then parallel_option ''parallel_count='' arg o1
      else if starts ''parallel_upload='' arg then parallel_option ''parallel_upload='' arg o1
      else if starts ''fd_page_size='' arg then Ends 0 o1
      else if starts ''multipart_size='' arg then
        number ''multipart_size='' arg (\<lambda>n.
          case SetMultipartSize n (o_cf o1) of (ok, cf) \<Rightarrow> if ok then Ends 0 (o1\<lparr>o_cf := cf\<rparr>) else Ends (- 1) o1)
      else if starts ''ensure_diskfree='' arg then
        number ''ensure_diskfree='' arg (\<lambda>n.
          Ends 0 (o1\<lparr>free_disk_space := max (to_off (n * 1024 * 1024)) (c_multipart_size (o_cf o1))\<rparr>))
      else if starts ''singlepart_copy_limit='' arg then
        number ''singlepart_copy_limit='' arg (\<lambda>n. set_fs (\<lambda>f. f\<lparr>singlepart_copy_limit := to_off (n * 1024)\<rparr>) o1)
      else if starts ''ahbe_conf='' arg then
        (case ah_Load (oe_regex en) (oe_file en) (Some (drop 10 arg)) (o_headers o1) of
           (ok, h) \<Rightarrow> Ends (if ok then 0 else - 1) (o1\<lparr>o_headers := h\<rparr>))
      else Other)"

section \<open>Switches and the address\<close>

text \<open>
  \<open>url\<close>: slashes at the end go. A host of slashes only is erased to nothing; for it \<open>find_last_of\<close> and the length of
  what is left differ, so the loop ends.
\<close>

definition opt_flags :: "string \<Rightarrow> opts \<Rightarrow> handled" where
  "opt_flags arg o1 =
     (if arg = ''noxmlns'' then Ends 0 (o1\<lparr>noxmlns := True\<rparr>)
      else if arg = ''nocopyapi'' then set_fs (\<lambda>f. f\<lparr>nocopyapi := True\<rparr>) o1
      else if arg = ''norenameapi'' then set_fs (\<lambda>f. f\<lparr>norenameapi := True\<rparr>) o1
      else if arg = ''complement_stat'' then Ends 0 (o1\<lparr>o_complement := True\<rparr>)
      else if arg = ''notsup_compat_dir'' then set_fs (\<lambda>f. f\<lparr>support_compat_dir := False\<rparr>) o1
      else if arg = ''enable_content_md5'' then set_cf (SetContentMd5 True) o1
      else if starts ''url='' arg then
        (let host = strip_slashes (drop 4 arg)
         in Ends (if is_url host then 0 else - 1) (o1\<lparr>o_cf := (o_cf o1)\<lparr>g_host := host\<rparr>\<rparr>))
      else if arg = ''sigv2'' then Ends 0 (o1\<lparr>o_cf := (o_cf o1)\<lparr>is_sigv4 := False\<rparr>\<rparr>)
      else if arg = ''createbucket'' then Ends 0 (o1\<lparr>create_bucket := True\<rparr>)
      else if starts ''endpoint='' arg then
        Ends 0 (o1\<lparr>o_cf := (o_cf o1)\<lparr>g_endpoint := drop 9 arg\<rparr>, is_specified_endpoint := True\<rparr>)
      else if arg = ''use_path_request_style'' then Ends 0 (o1\<lparr>o_cf := (o_cf o1)\<lparr>pathrequeststyle := True\<rparr>\<rparr>)
      else if starts ''noua'' arg then Ends 0 (o1\<lparr>o_cf := (o_cf o1)\<lparr>is_ua := False\<rparr>\<rparr>)
      else if arg = ''use_xattr'' then Ends 0 (o1\<lparr>is_use_xattr := True\<rparr>)
      else if starts ''use_xattr='' arg then
        (if drop 10 arg = ''1'' then Ends 0 (o1\<lparr>is_use_xattr := True\<rparr>)
         else if drop 10 arg = ''0'' then Ends 0 (o1\<lparr>is_use_xattr := False\<rparr>)
         else Ends (- 1) o1)
      else if starts ''cipher_suites='' arg then Ends 0 (o1\<lparr>o_cf := (o_cf o1)\<lparr>cipher_suites := drop 14 arg\<rparr>\<rparr>)
      else if starts ''instance_name='' arg then Ends 0 (o1\<lparr>instance_name := ''['' @ drop 14 arg @ '']''\<rparr>)
      else Other)"

section \<open>Debugging, keys and the rest\<close>

definition log_level_of :: "string \<Rightarrow> s3fs_log_level option" where
  "log_level_of s =
     (if nocase_eq s ''silent'' \<or> nocase_eq s ''critical'' \<or> nocase_eq s ''crit'' then Some S3FS_LOG_CRIT
      else if nocase_eq s ''error'' \<or> nocase_eq s ''err'' then Some S3FS_LOG_ERR
      else if nocase_eq s ''wan'' \<or> nocase_eq s ''warn'' \<or> nocase_eq s ''warning'' then Some S3FS_LOG_WARN
      else if nocase_eq s ''inf'' \<or> nocase_eq s ''info'' \<or> nocase_eq s ''information'' then Some S3FS_LOG_INFO
      else if nocase_eq s ''dbg'' \<or> nocase_eq s ''debug'' then Some S3FS_LOG_DBG
      else None)"

definition set_s3fs_log_level :: "s3fs_log_level \<Rightarrow> opts \<Rightarrow> s3fs_log_level \<times> opts" where
  "set_s3fs_log_level level o1 =
     (if level = debug_level o1 then (debug_level o1, o1) else (debug_level o1, o1\<lparr>debug_level := level\<rparr>))"

definition bumpup_s3fs_log_level :: "opts \<Rightarrow> s3fs_log_level \<times> opts" where
  "bumpup_s3fs_log_level o1 =
     (debug_level o1, o1\<lparr>debug_level := (case debug_level o1 of S3FS_LOG_CRIT \<Rightarrow> S3FS_LOG_ERR
        | S3FS_LOG_ERR \<Rightarrow> S3FS_LOG_WARN | S3FS_LOG_WARN \<Rightarrow> S3FS_LOG_INFO | S3FS_LOG_INFO \<Rightarrow> S3FS_LOG_DBG
        | S3FS_LOG_DBG \<Rightarrow> S3FS_LOG_CRIT)\<rparr>)"

text \<open>
  \<open>ak_sk\<close>: the two keys around the first colon. Without a colon \<open>npos + 1\<close> is 0, and the secret key is the text
  without its last character.
\<close>

definition split_keys :: "string \<Rightarrow> string \<times> string" where
  "split_keys ak_sk =
     (case find_idx ((=) CHR '':'') ak_sk of
        Some n \<Rightarrow> (take n ak_sk, take (length ak_sk - 1) (drop (n + 1) ak_sk))
      | None \<Rightarrow> (ak_sk, take (length ak_sk - 1) ak_sk))"

definition opt_rest :: "string \<Rightarrow> opts \<Rightarrow> handled" where
  "opt_rest arg o1 =
     (if starts ''dbglevel='' arg then
        (case log_level_of (drop 9 arg) of None \<Rightarrow> Ends (- 1) o1
         | Some l \<Rightarrow> Ends 0 (snd (set_s3fs_log_level l o1)))
      else if (arg = ''-d'' \<or> arg = ''--debug'') \<and> debug_level o1 \<notin> {S3FS_LOG_INFO, S3FS_LOG_DBG} then
        Ends 0 (snd (set_s3fs_log_level S3FS_LOG_INFO o1))
      else if arg = ''f2'' then Ends 0 (snd (set_s3fs_log_level S3FS_LOG_DBG o1))
      else if arg = ''curldbg'' then set_cf (SetVerbose True) o1
      else if starts ''ak_sk='' arg then
        (case split_keys (drop 6 arg) of (ak, sk) \<Rightarrow>
           (case SetAccessKey (Some ak) (Some sk) (o_cf o1) of None \<Rightarrow> Throws
            | Some (ok, cf) \<Rightarrow> Ends (if ok then 0 else - 1) (o1\<lparr>o_cf := cf\<rparr>)))
      else if starts ''accessKeyId='' arg \<or> starts ''secretAccessKey='' arg then Ends (- 1) o1
      else if arg = ''use_wtf8'' then set_fs (\<lambda>f. f\<lparr>use_wtf8 := True\<rparr>) o1
      else Ends 0 o1)"

section \<open>One argument\<close>

definition or_else :: "handled \<Rightarrow> handled \<Rightarrow> handled" where
  "or_else a b = (case a of Other \<Rightarrow> b | _ \<Rightarrow> a)"

text \<open>The result, with the settings; \<open>None\<close> when a number cannot be read.\<close>

definition my_fuse_opt_proc :: "optenv \<Rightarrow> string \<Rightarrow> opts \<Rightarrow> (int \<times> opts) option" where
  "my_fuse_opt_proc en arg o1 =
     (case or_else (opt_owner en arg o1) (or_else (opt_cache arg o1) (or_else (opt_sse en arg o1)
        (or_else (opt_iam arg o1) (or_else (opt_times arg o1) (or_else (opt_sizes en arg o1)
        (or_else (opt_flags arg o1) (opt_rest arg o1))))))) of
        Ends r o2 \<Rightarrow> Some (r, o2) | _ \<Rightarrow> None)"

text \<open>All arguments, up to the first result that is not 0.\<close>

fun read_options :: "optenv \<Rightarrow> string list \<Rightarrow> opts \<Rightarrow> (bool \<times> opts) option" where
  "read_options en [] o1 = Some (True, o1)"
| "read_options en (arg # args) o1 =
     (case my_fuse_opt_proc en arg o1 of None \<Rightarrow> None
      | Some (r, o2) \<Rightarrow> if r \<noteq> 0 then Some (False, o2) else read_options en args o2)"

end
