(* ===== verification/Fs_Cred.thy ===== *)
theory Fs_Cred
  imports Fs_Options Fs_Access
begin

text \<open>
  The credentials of \<open>protocols/s3/s3fs.cpp\<close>: the password file, the credentials file of AWS, the environment, and the order
  in which they are asked. A key or a secret is the text the file holds.
\<close>

unbundle bit_operations_syntax

section \<open>Environment\<close>

text \<open>The files that can be read with their text, their modes, the variables and the home directory of the user.\<close>

record credenv =
  ce_file :: "string \<Rightarrow> string option"
  ce_mode :: "string \<Rightarrow> mode_t option"
  ce_getenv :: "string \<Rightarrow> string option"
  ce_pwdir :: string

definition keyval_fields_type :: string where "keyval_fields_type = [CHR 0x09]"
definition aws_accesskeyid :: string where "aws_accesskeyid = ''AWSAccessKeyId''"
definition aws_secretkey :: string where "aws_secretkey = ''AWSSecretKey''"

type_synonym kvmap_t = "string smap"
type_synonym bucketkvmap_t = "kvmap_t smap"

section \<open>The password file\<close>

text \<open>The lines that count; \<open>None\<close> for a line with a blank in it or one that starts with a bracket.\<close>

fun passwd_lines :: "string list \<Rightarrow> string list option" where
  "passwd_lines [] = Some []"
| "passwd_lines (l # ls) =
     (let line = trim l SPACES
      in if line = [] \<or> hd line = CHR ''#'' then passwd_lines ls
         else if (\<exists>c \<in> set line. c = CHR '' '' \<or> c = CHR 0x09) \<or> hd line = CHR ''['' then None
         else map_option ((#) line) (passwd_lines ls))"

text \<open>The lines \<open>key=value\<close>; the first value of a key stays.\<close>

definition keyval_line :: "string \<Rightarrow> kvmap_t \<Rightarrow> kvmap_t" where
  "keyval_line line kvm =
     (case find_idx ((=) CHR ''='') line of None \<Rightarrow> kvm
      | Some p \<Rightarrow>
          (let key = trim (take p line) SPACES
           in if key = [] \<or> sm_find key kvm \<noteq> None then kvm else sm_set key (trim (drop (p + 1) line) SPACES) kvm))"

text \<open>The lines with colons: the bucket, empty for the default, and its keys.\<close>

definition bucket_line :: "string \<Rightarrow> (string \<times> kvmap_t) option" where
  "bucket_line line =
     (case (find_idx ((=) CHR '':'') line, find_last_idx ((=) CHR '':'') line) of
        (Some p1, Some p2) \<Rightarrow>
          (let (bucketname, accesskey) =
                 (if p1 \<noteq> p2
                  then (trim (take p1 line) SPACES, trim (substr line (p1 + 1) (p2 - p1 - 1)) SPACES)
                  else ([], trim (take p1 line) SPACES))
           in Some (bucketname,
                sm_set aws_secretkey (trim (drop (p2 + 1) line) SPACES) (sm_set aws_accesskeyid accesskey [])))
      | _ \<Rightarrow> None)"

fun bucket_lines :: "string list \<Rightarrow> bucketkvmap_t \<Rightarrow> bucketkvmap_t option" where
  "bucket_lines [] resmap = Some resmap"
| "bucket_lines (line # ls) resmap =
     (case bucket_line line of None \<Rightarrow> bucket_lines ls resmap
      | Some (name, kvm) \<Rightarrow> if sm_find name resmap \<noteq> None then None else bucket_lines ls (sm_set name kvm resmap))"

definition parse_passwd_file :: "credenv \<Rightarrow> string \<Rightarrow> int \<times> bucketkvmap_t" where
  "parse_passwd_file ce file =
     (case ce_file ce file of None \<Rightarrow> (- 1, [])
      | Some t \<Rightarrow>
          (case passwd_lines (getlines LF t) of None \<Rightarrow> (- 1, [])
           | Some ls \<Rightarrow>
               (case bucket_lines ls (sm_set keyval_fields_type (fold keyval_line ls []) []) of
                  None \<Rightarrow> (- 1, [])
                | Some resmap \<Rightarrow> (if resmap = [] then 0 else 1, resmap))))"

definition check_for_aws_format :: "kvmap_t \<Rightarrow> cconf \<Rightarrow> int \<times> cconf" where
  "check_for_aws_format kvmap cf =
     (case (sm_find aws_accesskeyid kvmap, sm_find aws_secretkey kvmap) of
        (None, None) \<Rightarrow> (0, cf)
      | (Some k, Some sk) \<Rightarrow>
          (case SetAccessKey (Some k) (Some sk) cf of
             Some (True, cf1) \<Rightarrow> (1, cf1) | _ \<Rightarrow> (- 1, cf))
      | _ \<Rightarrow> (- 1, cf))"

text \<open>No rights for others; for the group only in \<open>/etc/passwd-s3fs\<close>, and not to write or run it.\<close>

definition check_passwd_file_perms :: "credenv \<Rightarrow> string \<Rightarrow> bool" where
  "check_passwd_file_perms ce file =
     (case ce_mode ce file of None \<Rightarrow> False
      | Some mode \<Rightarrow>
          \<not> (mode AND 0x4 \<noteq> 0 \<or> mode AND 0x2 \<noteq> 0 \<or> mode AND 0x1 \<noteq> 0)
          \<and> (if file \<noteq> ''/etc/passwd-s3fs'' then \<not> (mode AND 0x20 \<noteq> 0 \<or> mode AND 0x10 \<noteq> 0 \<or> mode AND 0x8 \<noteq> 0)
             else mode AND 0x10 = 0)
          \<and> \<not> (mode AND 0x40 \<noteq> 0 \<or> mode AND 0x8 \<noteq> 0))"

text \<open>The result is whether keys were set.\<close>

definition keys_of_bucket :: "bucketkvmap_t \<Rightarrow> cconf \<Rightarrow> bool \<times> cconf" where
  "keys_of_bucket m cf =
     (let bucket_key = (if g_bucket cf \<noteq> [] \<and> sm_find (g_bucket cf) m \<noteq> None then g_bucket cf else [])
      in case sm_find bucket_key m of None \<Rightarrow> (False, cf)
       | Some keyval \<Rightarrow>
           (case (sm_find aws_accesskeyid keyval, sm_find aws_secretkey keyval) of
              (Some k, Some sk) \<Rightarrow>
                (case SetAccessKey (Some k) (Some sk) cf of Some (True, cf1) \<Rightarrow> (True, cf1) | _ \<Rightarrow> (False, cf))
            | _ \<Rightarrow> (False, cf)))"

definition read_passwd_file :: "credenv \<Rightarrow> string \<Rightarrow> cconf \<Rightarrow> bool \<times> cconf" where
  "read_passwd_file ce file cf =
     (if \<not> check_passwd_file_perms ce file then (False, cf)
      else case parse_passwd_file ce file of (result, m) \<Rightarrow>
        if result = - 1 then (False, cf)
        else (case sm_find keyval_fields_type m of
          None \<Rightarrow> keys_of_bucket m cf
        | Some kvm \<Rightarrow>
            (case check_for_aws_format kvm cf of (r, cf1) \<Rightarrow>
               if r = - 1 then (False, cf1) else if r = 1 then (True, cf1) else keys_of_bucket m cf1)))"

section \<open>The credentials file of AWS\<close>

text \<open>The profile read, the keys and the token; the reading stops at the section behind that of the profile.\<close>

record awskeys =
  ak_profile :: string
  ak_id :: string
  ak_secret :: string
  ak_token :: string

definition aws_keyval :: "string \<Rightarrow> awskeys \<Rightarrow> awskeys" where
  "aws_keyval line a =
     (case find_idx ((=) CHR ''='') line of None \<Rightarrow> a
      | Some pos \<Rightarrow>
          (let key = trim (take pos line) SPACES; v = trim (drop (pos + 1) line) SPACES
           in if key = ''aws_access_key_id'' then a\<lparr>ak_id := v\<rparr>
              else if key = ''aws_secret_access_key'' then a\<lparr>ak_secret := v\<rparr>
              else if key = ''aws_session_token'' then a\<lparr>ak_token := v\<rparr>
              else a))"

fun aws_lines :: "string \<Rightarrow> string list \<Rightarrow> awskeys \<Rightarrow> awskeys" where
  "aws_lines profile [] a = a"
| "aws_lines profile (l # ls) a =
     (let line = trim l SPACES
      in if line = [] \<or> hd line = CHR ''#'' then aws_lines profile ls a
         else if 2 < length line \<and> hd line = CHR ''['' \<and> last line = CHR '']'' then
           (if ak_profile a = profile then a
            else aws_lines profile ls (aws_keyval line
              \<lparr>ak_profile = substr line 1 (length line - 2), ak_id = [], ak_secret = [], ak_token = []\<rparr>))
         else aws_lines profile ls (aws_keyval line a))"

definition key_result :: "cconf \<Rightarrow> (bool \<times> cconf) option \<Rightarrow> bool \<times> cconf" where
  "key_result cf r = (case r of Some (True, cf1) \<Rightarrow> (True, cf1) | _ \<Rightarrow> (False, cf))"

definition read_aws_credentials_file :: "credenv \<Rightarrow> string \<Rightarrow> opts \<Rightarrow> bool \<times> opts" where
  "read_aws_credentials_file ce file o1 =
     (case ce_file ce file of None \<Rightarrow> (False, o1)
      | Some t \<Rightarrow>
          (let a = aws_lines (aws_profile o1) (getlines LF t)
                 \<lparr>ak_profile = [], ak_id = [], ak_secret = [], ak_token = []\<rparr>;
               cf = o_cf o1
           in if ak_profile a \<noteq> aws_profile o1 then (False, o1)
              else if ak_token a = [] then
                (if o_is_use_session_token o1 then (False, o1)
                 else case key_result cf (SetAccessKey (Some (ak_id a)) (Some (ak_secret a)) cf) of
                   (ok, cf1) \<Rightarrow> (ok, o1\<lparr>o_cf := cf1\<rparr>))
              else (case key_result cf
                  (SetAccessKeyWithSessionToken (Some (ak_id a)) (Some (ak_secret a)) (Some (ak_token a)) cf) of
                (ok, cf1) \<Rightarrow> (ok, o1\<lparr>o_cf := cf1\<rparr>))))"

section \<open>The order of the sources\<close>

definition IsSetAccessKeys :: "cconf \<Rightarrow> bool" where
  "IsSetAccessKeys cf \<longleftrightarrow>
     IAM_role cf \<noteq> [] \<or> ((AWSAccessKeyId cf \<noteq> [] \<or> is_ibm_iam_auth cf) \<and> AWSSecretAccessKey cf \<noteq> [])"

definition read_passwd :: "credenv \<Rightarrow> opts \<Rightarrow> bool \<times> opts" where
  "read_passwd ce o1 =
     (case read_passwd_file ce (passwd_file o1) (o_cf o1) of (ok, cf) \<Rightarrow> (ok, o1\<lparr>o_cf := cf\<rparr>))"

definition readable :: "credenv \<Rightarrow> string \<Rightarrow> bool" where
  "readable ce file \<longleftrightarrow> ce_file ce file \<noteq> None"

text \<open>The variables; \<open>None\<close> when neither of the two keys is one.\<close>

definition environment_keys :: "credenv \<Rightarrow> opts \<Rightarrow> (bool \<times> opts) option" where
  "environment_keys ce o1 =
     (case (ce_getenv ce ''AWSACCESSKEYID'', ce_getenv ce ''AWSSECRETACCESSKEY'') of
        (None, None) \<Rightarrow> None
      | (Some k, Some sk) \<Rightarrow>
          (let (ok, cf) =
                 (case ce_getenv ce ''AWSSESSIONTOKEN'' of
                    Some t \<Rightarrow> key_result (o_cf o1) (SetAccessKeyWithSessionToken (Some k) (Some sk) (Some t) (o_cf o1))
                  | None \<Rightarrow> (\<not> o_is_use_session_token o1, o_cf o1))
           in Some (if \<not> ok then (False, o1\<lparr>o_cf := cf\<rparr>)
                    else (case key_result cf (SetAccessKey (Some k) (Some sk) cf) of
                      (ok, cf1) \<Rightarrow> (ok, o1\<lparr>o_cf := cf1\<rparr>))))
      | _ \<Rightarrow> Some (False, o1))"

text \<open>The last sources: the file of the user, then that of the system.\<close>

definition system_passwd :: "credenv \<Rightarrow> opts \<Rightarrow> bool \<times> opts" where
  "system_passwd ce o1 =
     (let o2 = o1\<lparr>passwd_file := ''/etc/passwd-s3fs''\<rparr>
      in if readable ce (passwd_file o2) then read_passwd ce o2 else (False, o2))"

definition home_passwd :: "credenv \<Rightarrow> opts \<Rightarrow> bool \<times> opts" where
  "home_passwd ce o1 =
     (case ce_getenv ce ''HOME'' of None \<Rightarrow> system_passwd ce o1
      | Some home \<Rightarrow>
          (let o2 = o1\<lparr>passwd_file := home @ ''/.passwd-s3fs''\<rparr>
           in if readable ce (passwd_file o2) then
                (case read_passwd ce o2 of (ok, o3) \<Rightarrow>
                   if \<not> ok then (False, o3)
                   else if IsSetAccessKeys (o_cf o3) then (True, o3) else system_passwd ce o3)
              else system_passwd ce o2))"

definition aws_file_keys :: "credenv \<Rightarrow> opts \<Rightarrow> bool \<times> opts" where
  "aws_file_keys ce o1 =
     (case read_aws_credentials_file ce (ce_pwdir ce @ ''/.aws/credentials'') o1 of (ok, o2) \<Rightarrow>
        if ok then (True, o2)
        else if aws_profile o2 \<noteq> ''default'' then (False, o2)
        else home_passwd ce o2)"

definition get_access_keys :: "credenv \<Rightarrow> opts \<Rightarrow> bool \<times> opts" where
  "get_access_keys ce o1 =
     (if is_public_bucket (o_cf o1) then (True, o1)
      else if load_iamrole o1 \<or> o_is_ecs o1 then (True, o1)
      else if IsSetAccessKeys (o_cf o1) then (True, o1)
      else if passwd_file o1 \<noteq> [] then
        (if readable ce (passwd_file o1) then read_passwd ce o1 else (False, o1))
      else case environment_keys ce o1 of
        Some r \<Rightarrow> r
      | None \<Rightarrow>
          (case ce_getenv ce ''AWS_CREDENTIAL_FILE'' of
             None \<Rightarrow> aws_file_keys ce o1
           | Some file \<Rightarrow>
               (let o2 = o1\<lparr>passwd_file := file\<rparr>
                in if file = [] then aws_file_keys ce o2
                   else if readable ce file then read_passwd ce o2 else (False, o2))))"

section \<open>The mount point\<close>

definition set_mountpoint_attribute ::
  "optenv \<Rightarrow> (32 word \<Rightarrow> 32 word \<Rightarrow> int) \<Rightarrow> stat_t \<Rightarrow> opts \<Rightarrow> bool \<times> opts" where
  "set_mountpoint_attribute en in_grp mpst o1 =
     (let mode = S_IFDIR OR (if allow_other o1
            then (if is_mp_umask o1 then NOT (mp_umask o1) AND 0x1FF else 0x1FF) else S_IRWXU);
          o2 = o1\<lparr>o_fs := (o_fs o1)\<lparr>mp_uid := oe_uid en, mp_gid := oe_gid en, mp_mode := mode\<rparr>\<rparr>
      in (if oe_uid en = 0 \<or> st_uid mpst = oe_uid en then True
          else if (st_gid mpst = oe_gid en \<or> in_grp (oe_uid en) (st_gid mpst) = 1)
                  \<and> st_mode mpst AND S_IRWXG = S_IRWXG then True
          else st_mode mpst AND S_IRWXO = S_IRWXO, o2))"

end
