(* ===== verification/Fs_Init.thy ===== *)
theory Fs_Init
  imports Fs_Cred Sys_Util
begin

text \<open>
  The start and the end of the file system layer, \<open>protocols/s3/s3fs.cpp\<close>: \<open>init\<close> with the checks of its options,
  \<open>s3fs_init\<close> with the check of the bucket, the utility mode that lists or aborts uploads, and \<open>uninit\<close>.
\<close>

section \<open>State and environment\<close>

text \<open>
  Whether the curl and the SSL library are initialised, and the exit status for the loop of FUSE. The requests take the
  settings; their answers are a result, the response code and a body.
\<close>

record 'w ist =
  i_opts :: opts
  i_w :: 'w
  i_curl :: bool
  i_ssl :: bool
  i_exit :: int

record upload_node =
  un_key :: "string option"
  un_id :: "string option"
  un_date :: "string option"

record 'w initenv =
  ie_opt :: optenv
  ie_cred :: credenv
  ie_sys :: sysenv
  ie_ssl_ok :: bool
  ie_curl_ok :: bool
  ie_handler_ok :: bool
  ie_agent :: string
  ie_avail :: "string \<Rightarrow> 'w \<Rightarrow> int"
  ie_time :: "'w \<Rightarrow> int"
  ie_iso8601 :: "string \<Rightarrow> int option"
  ie_xml :: "string \<Rightarrow> string \<Rightarrow> string option"
  ie_uploads :: "string \<Rightarrow> upload_node list option option"
  ie_check :: "cconf \<Rightarrow> 'w \<Rightarrow> (int \<times> int \<times> string) \<times> 'w"
  ie_put_bucket :: "cconf \<Rightarrow> string option \<Rightarrow> 'w \<Rightarrow> (int \<times> int) \<times> 'w"
  ie_tmpfile :: "'w \<Rightarrow> int option \<times> 'w"
  ie_load_role :: "cconf \<Rightarrow> 'w \<Rightarrow> (bool \<times> cconf) \<times> 'w"
  ie_credentials :: "cconf \<Rightarrow> 'w \<Rightarrow> (bool \<times> cconf) \<times> 'w"
  ie_list_uploads :: "cconf \<Rightarrow> 'w \<Rightarrow> (int \<times> string) \<times> 'w"
  ie_abort :: "cconf \<Rightarrow> string \<Rightarrow> string \<Rightarrow> 'w \<Rightarrow> int \<times> 'w"
  ie_delete_cache :: "opts \<Rightarrow> 'w \<Rightarrow> 'w"

abbreviation EXIT_SUCCESS :: int where "EXIT_SUCCESS \<equiv> 0"
abbreviation EXIT_FAILURE :: int where "EXIT_FAILURE \<equiv> 1"

definition i_conf :: "'w ist \<Rightarrow> cconf" where
  "i_conf s = o_cf (i_opts s)"

definition set_conf :: "cconf \<Rightarrow> 'w ist \<Rightarrow> 'w ist" where
  "set_conf cf s = s\<lparr>i_opts := (i_opts s)\<lparr>o_cf := cf\<rparr>\<rparr>"

section \<open>Incomplete uploads\<close>

text \<open>An entry that lacks its name, its number or its date is skipped; a name gets a slash in front.\<close>

definition incomp_mpu :: "upload_node \<Rightarrow> (string \<times> string \<times> string) option" where
  "incomp_mpu u =
     (case (un_key u, un_id u, un_date u) of
        (Some k, Some i, Some d) \<Rightarrow>
          Some (if k \<noteq> [] \<and> hd k = CHR ''/'' then k else ''/'' @ k, i, d)
      | _ \<Rightarrow> None)"

definition get_incomp_mpu_list :: "upload_node list option \<Rightarrow> (string \<times> string \<times> string) list option" where
  "get_incomp_mpu_list nodes = map_option (List.map_filter incomp_mpu) nodes"

text \<open>Those that are older than the time given go, or all when it is 0. Each is asked even after a failure.\<close>

fun abort_incomp_mpu_list ::
  "'w initenv \<Rightarrow> cconf \<Rightarrow> int \<Rightarrow> int \<Rightarrow> (string \<times> string \<times> string) list \<Rightarrow> 'w \<Rightarrow> bool \<times> 'w" where
  "abort_incomp_mpu_list en cf now abort_time [] w = (True, w)"
| "abort_incomp_mpu_list en cf now abort_time ((key, uid, date) # us) w =
     (if abort_time \<noteq> 0 \<and> (case ie_iso8601 en date of None \<Rightarrow> True | Some d \<Rightarrow> now \<le> d + abort_time)
      then abort_incomp_mpu_list en cf now abort_time us w
      else
        (case ie_abort en cf key uid w of (r, w1) \<Rightarrow>
           (case abort_incomp_mpu_list en cf now abort_time us w1 of (ok, w2) \<Rightarrow> (r = 0 \<and> ok, w2))))"

definition s3fs_utility_processing :: "'w initenv \<Rightarrow> int \<Rightarrow> 'w ist \<Rightarrow> int \<times> 'w ist" where
  "s3fs_utility_processing en abort_time s =
     (if utility_mode (i_opts s) = NO_UTILITY_MODE then (EXIT_FAILURE, s)
      else
        (case ie_list_uploads en (i_conf s) (i_w s) of ((r, body), w1) \<Rightarrow>
           (let (result, w2) =
              (if r \<noteq> 0 then (EXIT_FAILURE, w1)
               else case ie_uploads en body of
                 None \<Rightarrow> (EXIT_FAILURE, w1)
               | Some nodes \<Rightarrow>
                   (case get_incomp_mpu_list nodes of
                      None \<Rightarrow> (EXIT_FAILURE, w1)
                    | Some us \<Rightarrow>
                        if utility_mode (i_opts s) = INCOMP_TYPE_ABORT then
                          (case abort_incomp_mpu_list en (i_conf s) (ie_time en w1) abort_time us w1 of
                             (ok, w2) \<Rightarrow> (if ok then EXIT_SUCCESS else EXIT_FAILURE, w2))
                        else (EXIT_SUCCESS, w1)))
            in (result, s\<lparr>i_w := w2, i_ssl := False\<rparr>))))"

section \<open>The bucket\<close>

definition bucket_request_body :: "cconf \<Rightarrow> string option" where
  "bucket_request_body cf =
     (if g_endpoint cf = ''us-east-1'' then None
      else Some (''<CreateBucketConfiguration xmlns='' @ [CHR 0x22]
        @ ''http://s3.amazonaws.com/doc/2006-03-01/'' @ [CHR 0x22] @ ''>'' @ [LF]
        @ ''  <LocationConstraint>'' @ g_endpoint cf @ ''</LocationConstraint>'' @ [LF]
        @ ''</CreateBucketConfiguration>''))"

text \<open>A bucket that is there already is a success; a signature that is refused is tried again in version 2.\<close>

definition do_create_bucket :: "'w initenv \<Rightarrow> 'w ist \<Rightarrow> int \<times> 'w ist" where
  "do_create_bucket en s =
     (let body = bucket_request_body (i_conf s);
          (err, w0) = (if body = None then (None, i_w s) else ie_tmpfile en (i_w s))
      in case err of Some e \<Rightarrow> (if e = 0 then - EIO else - e, s\<lparr>i_w := w0\<rparr>)
       | None \<Rightarrow>
           (case ie_put_bucket en (i_conf s) body w0 of ((res, code), w1) \<Rightarrow>
              if 0 \<le> res then (res, s\<lparr>i_w := w1\<rparr>)
              else if (code = 400 \<or> code = 403) \<and> is_sigv4 (i_conf s) then
                (let s2 = set_conf ((i_conf s)\<lparr>is_sigv4 := False\<rparr>) (s\<lparr>i_w := w1\<rparr>)
                 in case ie_put_bucket en (i_conf s2) body w1 of ((res, code), w2) \<Rightarrow> (res, s2\<lparr>i_w := w2\<rparr>))
              else (if code = 409 then 0 else res, s\<lparr>i_w := w1\<rparr>)))"

text \<open>The region the answer names, when it complains about the region.\<close>

definition check_region_error :: "'w initenv \<Rightarrow> string \<Rightarrow> string option" where
  "check_region_error en body =
     (if ie_xml en body ''Code'' \<noteq> Some ''AuthorizationHeaderMalformed'' then None else ie_xml en body ''Region'')"

definition region_host :: "cconf \<Rightarrow> cconf" where
  "region_host cf =
     (if \<not> is_sigv4 cf then cf
      else if g_host cf = ''http://s3.amazonaws.com'' then cf\<lparr>g_host := ''http://s3-'' @ g_endpoint cf @ ''.amazonaws.com''\<rparr>
      else if g_host cf = ''https://s3.amazonaws.com'' then cf\<lparr>g_host := ''https://s3-'' @ g_endpoint cf @ ''.amazonaws.com''\<rparr>
      else cf)"

definition check_again :: "'w initenv \<Rightarrow> 'w ist \<Rightarrow> (int \<times> int \<times> string) \<times> 'w ist" where
  "check_again en s = (case ie_check en (i_conf s) (i_w s) of (r, w) \<Rightarrow> (r, s\<lparr>i_w := w\<rparr>))"

text \<open>The first request, once more in the region the server expects, once more with signature version 2.\<close>

definition retry_region :: "'w initenv \<Rightarrow> (int \<times> int \<times> string) \<times> 'w ist \<Rightarrow> (int \<times> int \<times> string) \<times> 'w ist" where
  "retry_region en x =
     (case x of ((res, code, body), s) \<Rightarrow>
        if res < 0 \<and> 300 \<le> code \<and> code < 500 then
          (case check_region_error en body of
             None \<Rightarrow> x
           | Some region \<Rightarrow>
               if is_specified_endpoint (i_opts s) then x
               else check_again en (set_conf (region_host ((i_conf s)\<lparr>g_endpoint := region\<rparr>)) s))
        else x)"

definition retry_sigv2 :: "'w initenv \<Rightarrow> (int \<times> int \<times> string) \<times> 'w ist \<Rightarrow> (int \<times> int \<times> string) \<times> 'w ist" where
  "retry_sigv2 en x =
     (case x of ((res, code, body), s) \<Rightarrow>
        if res < 0 \<and> (code = 400 \<or> code = 403) \<and> is_sigv4 (i_conf s)
        then check_again en (set_conf ((i_conf s)\<lparr>is_sigv4 := False\<rparr>) s) else x)"

text \<open>The attributes of the mount point are those of the options, so only its mode is asked for.\<close>

definition mountpath_ok :: "'w ist \<Rightarrow> bool" where
  "mountpath_ok s \<longleftrightarrow> mount_prefix (i_conf s) = [] \<or> S_ISDIR (mp_mode (o_fs (i_opts s)))"

definition s3fs_check_service :: "'w initenv \<Rightarrow> 'w ist \<Rightarrow> int \<times> 'w ist" where
  "s3fs_check_service en s =
     (case ie_credentials en (i_conf s) (i_w s) of ((ok, cf), w) \<Rightarrow>
        (let s1 = set_conf cf (s\<lparr>i_w := w\<rparr>)
         in if \<not> ok then (EXIT_FAILURE, s1)
            else
              (case retry_sigv2 en (retry_region en (check_again en s1)) of ((res, code, body), s2) \<Rightarrow>
                 if res < 0 \<and> code \<noteq> 200 \<and> code \<noteq> 301 then (EXIT_FAILURE, s2)
                 else if \<not> mountpath_ok s2 then (EXIT_FAILURE, s2)
                 else (EXIT_SUCCESS, s2))))"

section \<open>Initialisation of the mount\<close>

text \<open>The cache directories go when the option asks for it, at the start and at the end; a failure is only logged.\<close>

definition delete_caches :: "'w initenv \<Rightarrow> 'w ist \<Rightarrow> 'w ist" where
  "delete_caches en s = (if is_remove_cache (i_opts s) then s\<lparr>i_w := ie_delete_cache en (i_opts s) (i_w s)\<rparr> else s)"

text \<open>The capabilities of FUSE are wanted when it has them. The function returns no value: an error is an exit status.\<close>

definition FUSE_CAP_ATOMIC_O_TRUNC :: "32 word" where "FUSE_CAP_ATOMIC_O_TRUNC = 8"
definition FUSE_CAP_BIG_WRITES :: "32 word" where "FUSE_CAP_BIG_WRITES = 32"

definition wanted :: "32 word \<Rightarrow> 32 word \<Rightarrow> 32 word" where
  "wanted capable want =
     (let w1 = (if capable AND FUSE_CAP_ATOMIC_O_TRUNC \<noteq> 0 then want OR FUSE_CAP_ATOMIC_O_TRUNC else want)
      in if capable AND FUSE_CAP_BIG_WRITES \<noteq> 0 then w1 OR FUSE_CAP_BIG_WRITES else w1)"

definition s3fs_init :: "'w initenv \<Rightarrow> 32 word \<Rightarrow> 32 word \<Rightarrow> 'w ist \<Rightarrow> 32 word \<times> 'w ist" where
  "s3fs_init en capable want s =
     (let s1 = delete_caches en s;
          (ok, s2) = (if load_iamrole (i_opts s1)
            then (case ie_load_role en (i_conf s1) (i_w s1) of ((ok, cf), w) \<Rightarrow> (ok, set_conf cf (s1\<lparr>i_w := w\<rparr>)))
            else (True, s1))
      in if \<not> ok then (want, s2\<lparr>i_exit := EXIT_FAILURE\<rparr>)
         else
           (case (if create_bucket (i_opts s2) then do_create_bucket en s2 else (0, s2)) of (result, s3) \<Rightarrow>
              if result \<noteq> 0 then (want, s3\<lparr>i_exit := result\<rparr>)
              else
                (case s3fs_check_service en s3 of (result, s4) \<Rightarrow>
                   if result \<noteq> EXIT_SUCCESS then (want, s4\<lparr>i_exit := result\<rparr>) else (wanted capable want, s4))))"

section \<open>The start\<close>

text \<open>What \<open>getopt_long\<close> finds, one after the other.\<close>

datatype getopt = Opt_version | Opt_help | Opt_foreground | Opt_list | Opt_abort "string option" | Opt_none | Opt_bad

text \<open>The time of the abort option, and whether the options let the start go on (\<open>Inl\<close>: the exit code).\<close>

fun read_getopts :: "getopt list \<Rightarrow> int \<Rightarrow> opts \<Rightarrow> (int + int) \<times> opts" where
  "read_getopts [] t o1 = (Inr t, o1)"
| "read_getopts (Opt_none # gs) t o1 = read_getopts gs t o1"
| "read_getopts (Opt_version # gs) t o1 = (Inl EXIT_SUCCESS, o1)"
| "read_getopts (Opt_help # gs) t o1 = (Inl EXIT_SUCCESS, o1)"
| "read_getopts (Opt_bad # gs) t o1 = (Inl EXIT_FAILURE, o1)"
| "read_getopts (Opt_foreground # gs) t o1 =
     read_getopts gs t (o1\<lparr>o_cf := (o_cf o1)\<lparr>g_foreground := True\<rparr>\<rparr>)"
| "read_getopts (Opt_list # gs) t o1 =
     (if utility_mode o1 \<noteq> NO_UTILITY_MODE then (Inl EXIT_FAILURE, o1)
      else read_getopts gs t (o1\<lparr>utility_mode := INCOMP_TYPE_LIST\<rparr>))"
| "read_getopts (Opt_abort arg # gs) t o1 =
     (if utility_mode o1 \<noteq> NO_UTILITY_MODE then (Inl EXIT_FAILURE, o1)
      else
        (let o2 = o1\<lparr>utility_mode := INCOMP_TYPE_ABORT\<rparr>
         in case arg of None \<Rightarrow> read_getopts gs t o2
          | Some a \<Rightarrow>
              if nocase_eq a ''all'' then read_getopts gs 0 o2
              else (case convert_unixtime_from_option_arg (Some a) t of (t1, ok) \<Rightarrow>
                if ok then read_getopts gs t1 o2 else (Inl EXIT_FAILURE, o2))))"

definition LoadEnvSse :: "'w initenv \<Rightarrow> cconf \<Rightarrow> bool \<times> cconf" where
  "LoadEnvSse en cf =
     (case LoadEnvSseCKeys (oe_md5 (ie_opt en)) (ce_getenv (ie_cred en) ''AWSSSECKEYS'') cf of
        (False, cf1) \<Rightarrow> (False, cf1)
      | (True, cf1) \<Rightarrow> LoadEnvSseKmsid (ce_getenv (ie_cred en) ''AWSSSEKMSID'') cf1)"

definition illegal_bucket_chars :: string where
  "illegal_bucket_chars = ''/:'' @ [CHR 0x5C] @ '';!@#$%^&*?|+=''"

text \<open>The checks of the options that exclude each other and of the bucket's name.\<close>

definition bucket_ok :: "cconf \<Rightarrow> bool" where
  "bucket_ok cf \<longleftrightarrow>
     g_bucket cf \<noteq> []
     \<and> \<not> (\<not> pathrequeststyle cf \<and> lower (g_bucket cf) \<noteq> g_bucket cf)
     \<and> \<not> (\<exists>c \<in> set (g_bucket cf). c \<in> set illegal_bucket_chars)
     \<and> \<not> (\<not> pathrequeststyle cf \<and> starts ''https://'' (g_host cf) \<and> CHR ''.'' \<in> set (g_bucket cf))"

definition options_ok :: "opts \<Rightarrow> bool \<times> opts" where
  "options_ok o1 =
     (if storage_class (o_cf o1) = REDUCED_REDUNDANCY \<and> ssetype (o_cf o1) \<noteq> SSE_DISABLE then (False, o1)
      else case FinalCheckSse (o_cf o1) of (ok, cf) \<Rightarrow>
        (let o2 = o1\<lparr>o_cf := cf\<rparr>
         in (ok \<and> bucket_ok cf \<and> \<not> (is_public_bucket cf \<and> IsSetAccessKeys cf)
             \<and> \<not> (passwd_file o2 \<noteq> [] \<and> IsSetAccessKeys cf), o2)))"

definition need_keys :: "opts \<Rightarrow> bool" where
  "need_keys o1 \<longleftrightarrow> \<not> is_public_bucket (o_cf o1) \<and> \<not> load_iamrole o1 \<and> \<not> o_is_ecs o1"

definition establish_keys :: "credenv \<Rightarrow> opts \<Rightarrow> bool \<times> opts" where
  "establish_keys ce o1 =
     (if \<not> need_keys o1 then (True, o1)
      else case get_access_keys ce o1 of (ok, o2) \<Rightarrow> (ok \<and> IsSetAccessKeys (o_cf o2), o2))"

text \<open>With IBM authentication the access control list is \<open>public-read\<close>, or \<open>private\<close>, which is sent as none.\<close>

definition check_ibm :: "opts \<Rightarrow> bool \<times> opts" where
  "check_ibm o1 =
     (if \<not> o_is_ibm_iam_auth o1 then (True, o1)
      else if default_acl (o_cf o1) \<noteq> ''private'' \<and> default_acl (o_cf o1) \<noteq> ''public-read'' then (False, o1)
      else
        (let o2 = (if default_acl (o_cf o1) = ''private'' then o1\<lparr>o_cf := (o_cf o1)\<lparr>default_acl := []\<rparr>\<rparr> else o1)
         in (\<not> (create_bucket o2 \<and> AWSAccessKeyId (o_cf o2) = []), o2)))"

definition InitUserAgent :: "'w initenv \<Rightarrow> opts \<Rightarrow> opts" where
  "InitUserAgent en o1 =
     (if userAgent (o_cf o1) = [] then o1\<lparr>o_cf := (o_cf o1)\<lparr>userAgent := ie_agent en @ instance_name o1\<rparr>\<rparr> else o1)"

definition cache_dirs_ok :: "sysenv \<Rightarrow> opts \<Rightarrow> bool" where
  "cache_dirs_ok se o1 \<longleftrightarrow>
     CheckCacheDirExist se (check_cache_dir_exist o1) (o_cache_dir o1)
     \<and> CheckCacheTopDir se (o_cache_dir o1) (g_bucket (o_cf o1))
     \<and> CheckCacheFileStatTopDir se (o_cache_dir o1) (g_bucket (o_cf o1))"

definition disk_ok :: "'w initenv \<Rightarrow> opts \<Rightarrow> 'w \<Rightarrow> bool" where
  "disk_ok en o1 w \<longleftrightarrow>
     c_multipart_size (o_cf o1) * max_parallel_cnt (o_cf o1) + free_disk_space o1
       \<le> ie_avail en (space_path (ie_sys en) (o_cache_dir o1) None) w"

text \<open>An error after the libraries were initialised releases them.\<close>

definition give_up :: "'w ist \<Rightarrow> int \<times> 'w ist" where
  "give_up s = (EXIT_FAILURE, s\<lparr>i_curl := False, i_ssl := False\<rparr>)"

definition finish_init :: "'w initenv \<Rightarrow> int \<Rightarrow> 'w ist \<Rightarrow> int \<times> 'w ist" where
  "finish_init en abort_time s =
     (if utility_mode (i_opts s) \<noteq> NO_UTILITY_MODE then
        (case s3fs_utility_processing en abort_time s of
           (code, s1) \<Rightarrow> (code, s1\<lparr>i_curl := False, i_ssl := False\<rparr>))
      else if \<not> disk_ok en (i_opts s) (i_w s) then give_up s
      else if \<not> ie_handler_ok en then give_up s
      else (EXIT_SUCCESS, s))"

definition check_options :: "'w initenv \<Rightarrow> opts \<Rightarrow> bool \<times> opts" where
  "check_options en o1 =
     (case options_ok o1 of
        (False, o2) \<Rightarrow> (False, o2)
      | (True, o2) \<Rightarrow>
          (case establish_keys (ie_cred en) o2 of
             (False, o3) \<Rightarrow> (False, o3)
           | (True, o3) \<Rightarrow>
               if \<not> cache_dirs_ok (ie_sys en) o3 then (False, o3)
               else (case check_ibm o3 of
                 (False, o4) \<Rightarrow> (False, o4) | (True, o4) \<Rightarrow> (True, InitUserAgent en o4))))"

text \<open>The start with the arguments behind the program's name; a number that cannot be read passes it (\<open>None\<close>).\<close>

definition init :: "'w initenv \<Rightarrow> getopt list \<Rightarrow> string list \<Rightarrow> 'w ist \<Rightarrow> (int \<times> 'w ist) option" where
  "init en gs args s =
     (case read_getopts gs (24 * 60 * 60) (i_opts s) of
        (Inl code, o1) \<Rightarrow> Some (code, s\<lparr>i_opts := o1\<rparr>)
      | (Inr abort_time, o1) \<Rightarrow>
          (case LoadEnvSse en (o_cf o1) of (ok, cf) \<Rightarrow>
             (let s1 = s\<lparr>i_opts := o1\<lparr>o_cf := cf\<rparr>\<rparr>
              in if \<not> ok \<or> \<not> ie_ssl_ok en then Some (EXIT_FAILURE, s1)
                 else if \<not> ie_curl_ok en then Some (EXIT_FAILURE, s1\<lparr>i_ssl := False\<rparr>)
                 else
                   (case read_options (ie_opt en) args (i_opts s1) of
                      None \<Rightarrow> None
                    | Some (ok, o2) \<Rightarrow>
                        (let s2 = s1\<lparr>i_opts := o2, i_curl := True, i_ssl := True\<rparr>
                         in if \<not> ok then Some (give_up s2)
                            else (case check_options en o2 of (ok, o3) \<Rightarrow>
                              (let s3 = s2\<lparr>i_opts := o3\<rparr>
                               in Some (if \<not> ok then give_up s3 else finish_init en abort_time s3))))))))"

section \<open>The end\<close>

definition s3fs_destroy :: "'w initenv \<Rightarrow> 'w ist \<Rightarrow> 'w ist" where
  "s3fs_destroy en s = delete_caches en s"

definition uninit :: "'w initenv \<Rightarrow> 'w ist \<Rightarrow> int \<times> 'w ist" where
  "uninit en s = (EXIT_SUCCESS, s3fs_destroy en (s\<lparr>i_curl := False, i_ssl := False\<rparr>))"

end
