(* ===== verification/Fs_Content.thy ===== *)
theory Fs_Content
  imports Fs_File Fd_Content
begin

text \<open>
  What the operations on files of \<open>protocols/s3/s3fs.cpp\<close> do to the content of an open file: each looks the entity up,
  which counts a reference, works on it, and gives the reference back.
\<close>

section \<open>Working on an open file\<close>

text \<open>The file is in the table under its path, open and referred to.\<close>

definition open_at :: "'w fs \<Rightarrow> string \<Rightarrow> nat \<Rightarrow> ent \<Rightarrow> bool" where
  "open_at s path a e \<longleftrightarrow> path \<noteq> [] \<and> sm_find path (fent (mg s)) = Some a \<and> ents (mg s) a = Some e
     \<and> e_file e \<noteq> None \<and> 0 < refcnt e"

definition after :: "nat \<Rightarrow> 'w fds \<Rightarrow> 'w fs \<Rightarrow> 'w fs" where
  "after a x s = s\<lparr>mg := leave a x (mg s)\<rparr>"

definition shared :: "nat \<Rightarrow> ent \<Rightarrow> 'w fs \<Rightarrow> 'w fs" where
  "shared a e s = s\<lparr>mg := (mg s)\<lparr>ents := (ents (mg s))(a \<mapsto> e\<lparr>refcnt := refcnt e + 1\<rparr>)\<rparr>\<rparr>"

lemma ent_Dup_open: "e_file e \<noteq> None \<Longrightarrow> ent_Dup e = e\<lparr>refcnt := refcnt e + 1\<rparr>"
  by (simp add: ent_Dup_def)

lemma ExistOpen_found:
  assumes "path \<noteq> []" "sm_find path (fent m) = Some a" "ents m a = Some e" "e_file e \<noteq> None"
  shows "ExistOpen env path existfd ign m = Some (Inr (Some a), m\<lparr>ents := (ents m)(a \<mapsto> e\<lparr>refcnt := refcnt e + 1\<rparr>)\<rparr>)"
  using assms
  by (cases m) (auto simp: ExistOpen_def mgr_Open_def find_open_def open_entity_def ent_Open_def reopen_def ent_Close_def
      ent_Dup_def update_ent_def enter_def leave_def ent_at_def Let_def)

lemma mgr_Close_shared:
  assumes "a \<in> snd ` set (fent m)" "ents m a = Some e" "e_file e \<noteq> None" "1 < refcnt e"
  shows "mgr_Close env (Some a) m = Some (True, m\<lparr>ents := (ents m)(a \<mapsto> e\<lparr>refcnt := refcnt e - 1\<rparr>)\<rparr>)"
  using assms
  by (cases m) (auto simp: mgr_Close_def ent_Close_def enter_def leave_def ent_at_def ent_IsOpen_def Let_def)

lemma work_on_open:
  assumes o: "open_at s path a e"
    and f: "f \<lparr>cur = e\<lparr>refcnt := refcnt e + 1\<rparr>, free_disk = m_free (mg s), world = fs_world s\<rparr> = (r, x)"
    and x: "e_file (cur x) \<noteq> None" "refcnt (cur x) = refcnt e + 1"
  shows "fs_ExistOpen env path existfd ign s = Some (Some a, shared a e s)"
    and "on_ent a f (shared a e s) = Some (r, after a x (shared a e s))"
    and "fs_Close env a (after a x (shared a e s)) = Some ((), after a (x\<lparr>cur := (cur x)\<lparr>refcnt := refcnt e\<rparr>\<rparr>) s)"
proof -
  note o' = o [unfolded open_at_def]
  let ?s1 = "shared a e s"
  show "fs_ExistOpen env path existfd ign s = Some (Some a, ?s1)"
    using o' by (simp add: fs_ExistOpen_def on_mgr_def ExistOpen_found shared_def)
  show "on_ent a f ?s1 = Some (r, after a x ?s1)"
    using f by (simp add: on_ent_def enter_def ent_at_def fs_world_def after_def shared_def)
  have "a \<in> snd ` set (fent (mg (after a x ?s1)))"
    using o' om_find_value [of "(<)" path "fent (mg s)" a] by (simp add: after_def leave_def shared_def)
  moreover have "ents (mg (after a x ?s1)) a = Some (cur x)" by (simp add: after_def leave_def)
  ultimately have "mgr_Close (menv env) (Some a) (mg (after a x ?s1)) =
      Some (True, (mg (after a x ?s1))\<lparr>ents := (ents (mg (after a x ?s1)))(a \<mapsto> (cur x)\<lparr>refcnt := refcnt e\<rparr>)\<rparr>)"
    using x o' by (subst mgr_Close_shared) auto
  then show "fs_Close env a (after a x ?s1) = Some ((), after a (x\<lparr>cur := (cur x)\<lparr>refcnt := refcnt e\<rparr>\<rparr>) s)"
    by (simp add: fs_Close_def on_mgr_def after_def leave_def shared_def)
qed

section \<open>A concrete open file\<close>

text \<open>The file \<open>/f\<close>, open once, with three bytes of its own; the object in the store has zeros only.\<close>

definition open_ent :: ent where
  "open_ent = (plain_ent [1, 2, 3] (pl_Init 3 True) 3)\<lparr>is_modify := True\<rparr>"

definition open_fs :: "mem fs" where
  "open_fs = (mem_fs [])\<lparr>mg := (new_mgr [])\<lparr>fent := [(''/f'', 0)], ents := [0 \<mapsto> open_ent], next_id := 1\<rparr>\<rparr>"

abbreviation plain_info :: file_info where "plain_info \<equiv> \<lparr>fi_flag = 2, fi_fh = 0\<rparr>"

lemma open_fs_at: "open_at open_fs (WTF8_ENCODE (mem_env mem_conf ids) ''/f'') 0 open_ent"
  by (simp add: open_at_def open_fs_def open_ent_def plain_ent_def WTF8_ENCODE_def mem_conf_def mem_fs_def)

lemma mem_io_ok: "io_ok mem_io (replicate n 0) p" "truncates mem_io"
  by (auto simp: io_ok_def truncates_def mem_io_def substr_def split: syscall.splits)

lemma open_ent_ok: "ent_ok (replicate 3 0) open_ent" "clean (replicate 3 0) open_ent" "content (replicate 3 0) open_ent = [1, 2, 3]"
  by (simp add: ent_ok_def open_ent_def plain_ent_def fdata_def)
    (simp add: clean_def open_ent_def plain_ent_def, code_simp)

section \<open>Reading and writing\<close>

lemma ent_ok_refcnt [simp]: "ent_ok obj (e\<lparr>refcnt := n\<rparr>) = ent_ok obj e"
  by (simp add: ent_ok_def fdata_def)

lemma content_refcnt [simp]: "content obj (e\<lparr>refcnt := n\<rparr>) = content obj e"
  by (simp add: content_def view_byte_def remote_byte_def fdata_def fun_eq_iff)

lemma clean_refcnt [simp]: "clean obj (e\<lparr>refcnt := n\<rparr>) = clean obj e"
  by (simp add: clean_def remote_byte_def fdata_def)

definition handed :: "ent \<Rightarrow> 'w fs \<Rightarrow> 'w fds" where
  "handed e s = \<lparr>cur = e\<lparr>refcnt := refcnt e + 1\<rparr>, free_disk = m_free (mg s), world = fs_world s\<rparr>"

definition given_back :: "nat \<Rightarrow> ent \<Rightarrow> 'w fds \<Rightarrow> 'w fs \<Rightarrow> 'w fs" where
  "given_back a e x s = after a (x\<lparr>cur := (cur x)\<lparr>refcnt := refcnt e\<rparr>\<rparr>) s"

lemma handed_simps [simp]: "cur (handed e s) = e\<lparr>refcnt := refcnt e + 1\<rparr>" "free_disk (handed e s) = m_free (mg s)"
  by (simp_all add: handed_def)

lemma open_at_given_back:
  "open_at s path a e \<Longrightarrow> e_file (cur x) \<noteq> None \<Longrightarrow> open_at (given_back a e x s) path a ((cur x)\<lparr>refcnt := refcnt e\<rparr>)"
  by (simp add: open_at_def given_back_def after_def leave_def)

lemma s3fs_read_open:
  assumes "open_at s (WTF8_ENCODE env path) a e" "pl_Size (pagelist e) \<noteq> 0"
    and "Read (io_of env) offset n False (handed e s) = (r, bs, x)" "e_file (cur x) \<noteq> None" "refcnt (cur x) = refcnt e + 1"
  shows "s3fs_read env path n offset fi s = Some ((r, bs), given_back a e x s)"
proof -
  have f: "(\<lambda>y. case Read (io_of env) offset n False y of (r, bs, z) \<Rightarrow> ((r, bs), z))
      \<lparr>cur = e\<lparr>refcnt := refcnt e + 1\<rparr>, free_disk = m_free (mg s), world = fs_world s\<rparr> = ((r, bs), x)"
    using assms(3) by (simp add: handed_def)
  have "GetSize (ent_at (mg (shared a e s)) a) = Some (pl_Size (pagelist e))"
    using assms(1) by (simp add: GetSize_def ent_at_def shared_def open_at_def)
  then show ?thesis
    using work_on_open [where f = "\<lambda>y. case Read (io_of env) offset n False y of (r, bs, z) \<Rightarrow> ((r, bs), z)", OF assms(1) f assms(4,5)] assms(2)
    by (simp add: s3fs_read_def given_back_def)
qed

lemma s3fs_write_open:
  assumes "open_at s (WTF8_ENCODE env path) a e"
    and "Write (io_of env) bs offset (handed e s) = (r, n, x)" "e_file (cur x) \<noteq> None" "refcnt (cur x) = refcnt e + 1"
  shows "s3fs_write env path bs offset fi s = Some ((r, n), given_back a e x s)"
proof -
  have f: "(\<lambda>y. case Write (io_of env) bs offset y of (r, n, z) \<Rightarrow> ((r, n), z))
      \<lparr>cur = e\<lparr>refcnt := refcnt e + 1\<rparr>, free_disk = m_free (mg s), world = fs_world s\<rparr> = ((r, n), x)"
    using assms(2) by (simp add: handed_def)
  show ?thesis
    using work_on_open [where f = "\<lambda>y. case Write (io_of env) bs offset y of (r, n, z) \<Rightarrow> ((r, n), z)", OF assms(1) f assms(3,4)]
    by (simp add: s3fs_write_def given_back_def)
qed

text \<open>The result of the call is that of the work on the entity.\<close>

lemma s3fs_read_result:
  assumes "open_at s (WTF8_ENCODE env path) a e" "pl_Size (pagelist e) \<noteq> 0"
    and "s3fs_read env path n offset fi s = Some ((r, bs), s')"
  shows "\<exists>x. Read (io_of env) offset n False (handed e s) = (r, bs, x)"
  using assms
  by (auto simp: s3fs_read_def on_ent_def open_at_def fs_ExistOpen_def on_mgr_def ExistOpen_found enter_def ent_at_def
      fs_world_def bind_eq_Some_conv handed_def GetSize_def split: prod.splits)

lemma s3fs_write_result:
  assumes "open_at s (WTF8_ENCODE env path) a e" "s3fs_write env path bs offset fi s = Some ((r, n), s')"
  shows "\<exists>x. Write (io_of env) bs offset (handed e s) = (r, n, x)"
  using assms
  by (auto simp: s3fs_write_def on_ent_def open_at_def fs_ExistOpen_def on_mgr_def ExistOpen_found enter_def ent_at_def
      fs_world_def bind_eq_Some_conv handed_def split: prod.splits)

text \<open>
  C6: Reading an open file through its path gives the content at the offset: at most the bytes asked for, cut at the end
  of the file and at least one unless there is none; the content stays what it was, and the file stays open with as
  many references as before.
\<close>

theorem s3fs_read_returns_content:
  assumes "io_ok (io_of env) obj (e_path e)" "truncates (io_of env)" "ent_ok obj e" "clean obj e" "0 \<le> offset"
    and "pl_Size (pagelist e) \<noteq> 0" "open_at s (WTF8_ENCODE env path) a e"
    and "s3fs_read env path n offset fi s = Some ((0, bs), s')"
  shows "(\<exists>k \<le> n. (0 < n \<longrightarrow> 0 < k) \<and> bs = take k (drop (nat offset) (content obj e)))
    \<and> (\<exists>e'. open_at s' (WTF8_ENCODE env path) a e' \<and> refcnt e' = refcnt e \<and> ent_ok obj e' \<and> content obj e' = content obj e)"
proof -
  obtain x where R: "Read (io_of env) offset n False (handed e s) = (0, bs, x)"
    using s3fs_read_result [OF assms(7,6,8)] by blast
  have x: "ent_ok obj (cur x)" "content obj (cur x) = content obj e" "keeps_rest (e\<lparr>refcnt := refcnt e + 1\<rparr>) (cur x)"
    "\<exists>k \<le> n. (0 < n \<longrightarrow> 0 < k) \<and> bs = take k (drop (nat offset) (content obj e))"
    using Read_spec [of "io_of env" obj "handed e s" offset n bs x] assms(1-5) R by simp_all
  then have f: "e_file (cur x) \<noteq> None" "refcnt (cur x) = refcnt e + 1" by (simp_all add: ent_ok_def keeps_rest_def)
  have "s' = given_back a e x s" using s3fs_read_open [OF assms(7,6) R f] assms(8) by simp
  then show ?thesis using x open_at_given_back [OF assms(7) f(1)] by auto
qed

theorem s3fs_read_returns_content_witness:
  "\<exists>bs s'. s3fs_read (mem_env mem_conf (5, 6)) ''/f'' 5 1 plain_info open_fs = Some ((0, bs), s')
    \<and> (\<exists>k \<le> 5. 0 < k \<and> bs = take k [2, 3])"
proof -
  have io: "io_of (mem_env mem_conf (5, 6)) = mem_io" by (simp add: mem_mgr_def)
  have sz: "pl_Size (pagelist open_ent) \<noteq> 0" by (simp add: open_ent_def plain_ent_def)
  let ?x = "\<lparr>cur = open_ent\<lparr>refcnt := 2\<rparr>, free_disk = 0, world = []\<rparr>"
  have x: "handed open_ent open_fs = ?x"
    by (simp add: handed_def open_fs_def new_mgr_def fs_world_def open_ent_def plain_ent_def)
  have "case Read mem_io 1 5 False ?x of (r, _, x) \<Rightarrow> r = 0 \<and> e_file (cur x) \<noteq> None \<and> refcnt (cur x) = refcnt open_ent + 1"
    by code_simp
  then obtain bs x where R: "Read (io_of (mem_env mem_conf (5, 6))) 1 5 False (handed open_ent open_fs) = (0, bs, x)"
    "e_file (cur x) \<noteq> None" "refcnt (cur x) = refcnt open_ent + 1" unfolding io x by auto
  note r = s3fs_read_open [OF open_fs_at sz R]
  from s3fs_read_returns_content [where env = "mem_env mem_conf (5, 6)", unfolded io, OF mem_io_ok(1) mem_io_ok(2) open_ent_ok(1,2) _ sz open_fs_at r]
  show ?thesis using r by (auto simp: open_ent_ok)
qed

text \<open>
  C7: Writing to an open file through its path overwrites its content at the offset with what the result says was written,
  after a gap was filled with zeros; the file stays open with as many references as before.
\<close>

theorem s3fs_write_overwrites_content:
  assumes "io_ok (io_of env) obj (e_path e)" "ent_ok obj e" "upload_id e = []" "0 \<le> offset" "bs \<noteq> []"
    and "\<forall>w. m_free (mg s) + offset + int (length bs) \<le> avail_space (io_of env) w"
    and "open_at s (WTF8_ENCODE env path) a e" "s3fs_write env path bs offset fi s = Some ((0, n), s')"
  shows "0 < n \<and> n \<le> length bs \<and> (\<exists>e'. open_at s' (WTF8_ENCODE env path) a e' \<and> refcnt e' = refcnt e \<and> ent_ok obj e'
    \<and> content obj e' = pwrite_at (content obj e) (nat offset) (take n bs))"
proof -
  obtain x where R: "Write (io_of env) bs offset (handed e s) = (0, n, x)" using s3fs_write_result [OF assms(7,8)] by blast
  have W: "0 < n" "n \<le> length bs" "ent_ok obj (cur x)" "keeps_rest (e\<lparr>refcnt := refcnt e + 1\<rparr>) (cur x)"
    "content obj (cur x) = pwrite_at (content obj e) (nat offset) (take n bs)"
    using Write_spec [of "io_of env" obj "handed e s" offset bs n x] assms(1-6) R by simp_all
  then have f: "e_file (cur x) \<noteq> None" "refcnt (cur x) = refcnt e + 1" by (simp_all add: ent_ok_def keeps_rest_def)
  have "s' = given_back a e x s" using s3fs_write_open [OF assms(7) R f] assms(8) by simp
  then show ?thesis using W open_at_given_back [OF assms(7) f(1)] by auto
qed

theorem s3fs_write_overwrites_content_witness:
  "\<exists>n s' e'. s3fs_write (mem_env mem_conf (5, 6)) ''/f'' [9, 9] 4 plain_info open_fs = Some ((0, n), s')
    \<and> open_at s' (WTF8_ENCODE (mem_env mem_conf (5, 6)) ''/f'') 0 e'
    \<and> content (replicate 3 0) e' = pwrite_at [1, 2, 3] 4 (take n [9, 9])"
proof -
  have io: "io_of (mem_env mem_conf (5, 6)) = mem_io" by (simp add: mem_mgr_def)
  let ?x = "\<lparr>cur = open_ent\<lparr>refcnt := 2\<rparr>, free_disk = 0, world = []\<rparr>"
  have x: "handed open_ent open_fs = ?x"
    by (simp add: handed_def open_fs_def new_mgr_def fs_world_def open_ent_def plain_ent_def)
  have "case Write mem_io [9, 9] 4 ?x of (r, _, x) \<Rightarrow> r = 0 \<and> e_file (cur x) \<noteq> None \<and> refcnt (cur x) = refcnt open_ent + 1"
    by code_simp
  then obtain n x where R: "Write (io_of (mem_env mem_conf (5, 6))) [9, 9] 4 (handed open_ent open_fs) = (0, n, x)"
    "e_file (cur x) \<noteq> None" "refcnt (cur x) = refcnt open_ent + 1" unfolding io x by auto
  note r = s3fs_write_open [OF open_fs_at R]
  have up: "upload_id open_ent = []" by (simp add: open_ent_def plain_ent_def)
  have room: "\<forall>w. m_free (mg open_fs) + 4 + int (length [9, 9 :: 8 word]) \<le> avail_space mem_io w"
    by (simp add: open_fs_def new_mgr_def mem_io_def)
  from s3fs_write_overwrites_content [where env = "mem_env mem_conf (5, 6)", unfolded io, OF mem_io_ok(1) open_ent_ok(1) up _ _ room open_fs_at r]
  show ?thesis using r by (auto simp: open_ent_ok)
qed

section \<open>Reading a link\<close>

lemma Read_result: "Read io start n force s = (r, bs, s') \<Longrightarrow> r = 0 \<or> bs = []"
  by (auto simp: Read_def Let_def split: if_splits prod.splits sum.splits)

lemma on_ent_Read:
  "on_ent a (\<lambda>x. case Read io start n force x of (r, bs, y) \<Rightarrow> ((r, bs), y)) s = Some ((r, bs), s') \<Longrightarrow> r = 0 \<or> bs = []"
  by (auto simp: on_ent_def split: prod.splits dest: Read_result)

lemma link_text_empty: "link_text env [] = []"
proof -
  have "trim [] SPACES = []" "s3fs_wtf8_decode [] = []" by code_simp+
  then show ?thesis by (simp add: link_text_def text_of_def c_str_def Let_def)
qed

text \<open>
  C40: The text of a symbolic link is never returned: whatever the file holds, a \<open>readlink\<close> that succeeds leaves an empty
  string in the buffer. \<open>Read\<close> answers 0 for a success, and the NUL is put where its result says.
\<close>

theorem readlink_always_empty:
  assumes "s3fs_readlink env (Some path) n s = Some ((0, Some text), s')"
  shows "text = []"
proof -
  have t: "link_text env (take (nat r) bs) = []" if "r = 0 \<or> bs = []" for r and bs :: filedata
    using that by (auto simp: link_text_empty)
  have n: "n \<noteq> 0" using assms by (cases "n = 0") (simp_all add: s3fs_readlink_def)
  obtain e s1 where g: "get_local_fent env (WTF8_ENCODE env path) False s = Some (Some e, s1)"
    using assms n by (auto simp: s3fs_readlink_def bind_eq_Some_conv split: option.splits)
  obtain sz where sz: "GetSize (ent_at (mg s1) e) = Some sz"
    using assms n g by (cases "GetSize (ent_at (mg s1) e)") (auto simp: s3fs_readlink_def bind_eq_Some_conv)
  obtain r bs s2 where R: "r = 0 \<or> bs = []" and "text = take n (c_str (link_text env (take (nat r) bs)))"
    using assms n g sz
    by (auto simp: s3fs_readlink_def bind_eq_Some_conv Let_def split: if_splits dest!: on_ent_Read)
  then show ?thesis using t [OF R] by (simp add: c_str_def)
qed

definition linked_fs :: "mem fs" where
  "linked_fs = open_fs\<lparr>stats := new_stat_cache\<lparr>entries := [(''/f'', \<lparr>stbuf = zero_stat\<lparr>st_mode := 0x8000, st_size := 3\<rparr>,
     hit_count = 0, cache_date = \<lparr>tv_sec = 0, tv_nsec = 0\<rparr>, ent_meta = [], isforce = False, noobjcache = False,
     notruncate = 0\<rparr>)]\<rparr>\<rparr>"

lemma mg_linked_fs [simp]: "mg linked_fs = mg open_fs"
  by (simp add: linked_fs_def)

lemma linked_attr:
  assumes "stats s = stats linked_fs"
  shows "\<exists>s1. get_attr (mem_env mem_conf ids) ''/f'' s = Some ((0, \<lparr>a_stat = zero_stat\<lparr>st_mode := 0x8000, st_size := 3\<rparr>,
      a_meta = [], a_force = False\<rparr>), s1) \<and> mg s1 = mg s"
proof -
  let ?env = "mem_env mem_conf ids"
  let ?e = "\<lparr>stbuf = zero_stat\<lparr>st_mode := 0x8000, st_size := 3\<rparr>,
     hit_count = 0, cache_date = \<lparr>tv_sec = 0, tv_nsec = 0\<rparr>, ent_meta = [], isforce = False, noobjcache = False,
     notruncate = 0\<rparr>"
  have st: "sm_find ''/f'' (entries (stats linked_fs)) = Some ?e" "sm_find ''/f/'' (entries (stats linked_fs)) = None"
    "fresh (stats linked_fs) (now_of ?env s) ?e"
    by (simp_all add: linked_fs_def fresh_def new_stat_cache_def)
  have fo: "support_compat_dir mem_conf = False" by (simp add: mem_conf_def)
  obtain c where g: "GetStat (stats linked_fs) (now_of ?env s) ''/f'' True None =
      Returns (Some (zero_stat\<lparr>st_mode := 0x8000, st_size := 3\<rparr>, [], False), c)"
    using GetStat_hit [OF st(1,3), of True] st(2) by auto
  define s1 where "s1 = s\<lparr>stats := ChangeNoTruncateFlag c ''/f'' False\<rparr>"
  have "get_attr ?env ''/f'' s = Some ((0, \<lparr>a_stat = zero_stat\<lparr>st_mode := 0x8000, st_size := 3\<rparr>,
      a_meta = [], a_force = False\<rparr>), s1)"
    using g by (simp add: get_object_attribute_def on_stats_def fo s1_def assms)
  then show ?thesis by (auto simp: s1_def)
qed

theorem readlink_always_empty_witness:
  "\<exists>text s'. s3fs_readlink (mem_env mem_conf (5, 6)) (Some ''/f'') 5 linked_fs = Some ((0, Some text), s') \<and> text = []"
proof -
  let ?env = "mem_env mem_conf (5, 6)"
  have io: "menv ?env = mem_mgr" "me_io mem_mgr = mem_io" by (simp_all add: mem_mgr_def)
  have p: "WTF8_ENCODE ?env ''/f'' = ''/f''" by (simp add: WTF8_ENCODE_def mem_conf_def)
  obtain s1 where a: "get_attr ?env ''/f'' linked_fs = Some ((0, \<lparr>a_stat = zero_stat\<lparr>st_mode := 0x8000, st_size := 3\<rparr>,
      a_meta = [], a_force = False\<rparr>), s1)" and m1: "mg s1 = mg open_fs"
    using linked_attr [OF refl] by auto
  have r: "S_ISREG 0x8000" "open_time (zero_stat\<lparr>st_mode := 0x8000, st_size := 3\<rparr>) = 0" by code_simp+
  let ?o = "open_ent\<lparr>refcnt := 2, size_orgmeta := 0\<rparr>"
  define m where "m = (mg open_fs)\<lparr>ents := [0 \<mapsto> ?o]\<rparr>"
  have o: "mgr_Open mem_mgr None ''/f'' (Some []) 3 0 False True (mg open_fs) = Some (Inr (Some 0), m)"
    by (simp add: mgr_Open_def find_open_def open_entity_def ent_Open_def reopen_def ent_Close_def ent_Dup_def update_ent_def
        enter_def leave_def ent_at_def Let_def m_def open_fs_def open_ent_def plain_ent_def get_size_def new_mgr_def
        numeral_2_eq_2)
  have e: "enter 0 m = \<lparr>cur = ?o, free_disk = 0, world = []\<rparr>" "GetSize (ent_at m 0) = Some 3"
    by (simp_all add: enter_def m_def ent_at_def open_fs_def new_mgr_def GetSize_def open_ent_def plain_ent_def)
  have "case Read mem_io 0 3 False \<lparr>cur = ?o, free_disk = 0, world = []\<rparr> of
      (r, _, x) \<Rightarrow> r = 0 \<and> e_file (cur x) \<noteq> None \<and> refcnt (cur x) = 2" by code_simp
  then obtain bs x where R: "Read mem_io 0 3 False (enter 0 m) = (0, bs, x)" "e_file (cur x) \<noteq> None" "refcnt (cur x) = 2"
    unfolding e by auto
  have "\<exists>b m'. mgr_Close mem_mgr (Some 0) (leave 0 x m) = Some (b, m')"
    using R(2,3) by (subst mgr_Close_shared [of _ _ "cur x"]) (auto simp: leave_def m_def open_fs_def)
  then obtain b m' where c: "mgr_Close mem_mgr (Some 0) (leave 0 x m) = Some (b, m')" by blast
  have "\<exists>text s'. s3fs_readlink ?env (Some ''/f'') 5 linked_fs = Some ((0, Some text), s')"
    using o e(2) R(1) c by (simp add: s3fs_readlink_def p get_local_fent_def a fs_Open_def on_mgr_def io r m1 on_ent_def fs_Close_def Let_def)
  then show ?thesis using readlink_always_empty [of ?env "''/f''" 5 linked_fs] by blast
qed

end
