(* ===== verification/Fs_Safety.thy ===== *)
theory Fs_Safety
  imports Fs_Dir
begin

text \<open>
  What the operations of the file system layer leave alone: looking up attributes, checking rights and listing only send
  requests that read, and do not touch the open files; a directory is removed only when it was seen empty, and an object
  is removed by a rename only behind a copy that succeeded.
\<close>

section \<open>Requests that read\<close>

text \<open>A property of the world, for instance the content of the server, that HEAD and LIST requests keep.\<close>

definition reads_keep :: "'w fsenv \<Rightarrow> ('w \<Rightarrow> bool) \<Rightarrow> bool" where
  "reads_keep env P \<longleftrightarrow>
     (\<forall>path w r w'. P w \<longrightarrow> r_head env path w = Some (r, w') \<longrightarrow> P w')
     \<and> (\<forall>path q w r w'. P w \<longrightarrow> r_list env path q w = Some (r, w') \<longrightarrow> P w')"

definition undisturbed :: "('w \<Rightarrow> bool) \<Rightarrow> 'w fs \<Rightarrow> 'w fs \<Rightarrow> bool" where
  "undisturbed P s s' \<longleftrightarrow> (P (fs_world s) \<longrightarrow> P (fs_world s')) \<and> mg s' = (mg s)\<lparr>m_world := fs_world s'\<rparr>"

lemma undisturbed_refl [simp, intro]: "undisturbed P s s"
  by (simp add: undisturbed_def fs_world_def)

lemma undisturbed_trans: "undisturbed P s s1 \<Longrightarrow> undisturbed P s1 s2 \<Longrightarrow> undisturbed P s s2"
  by (auto simp: undisturbed_def)

lemma undisturbed_stats [simp]: "undisturbed P s (s1\<lparr>stats := c\<rparr>) \<longleftrightarrow> undisturbed P s s1"
  by (simp add: undisturbed_def fs_world_def)

text \<open>A call that ends, if it ends, undisturbed; and the rules along the structure of the calls.\<close>

definition quiet :: "('w \<Rightarrow> bool) \<Rightarrow> 'w fs \<Rightarrow> ('a \<times> 'w fs) option \<Rightarrow> bool" where
  "quiet P s m \<longleftrightarrow> (\<forall>r s'. m = Some (r, s') \<longrightarrow> undisturbed P s s')"

lemma quiet_None: "quiet P s None"
  by (simp add: quiet_def)

lemma quiet_Some: "undisturbed P s s' \<Longrightarrow> quiet P s (Some (r, s'))"
  by (simp add: quiet_def)

lemma quiet_bind:
  "quiet P s m \<Longrightarrow> (\<And>x s1. quiet P s1 (g x s1)) \<Longrightarrow> quiet P s (Option.bind m (\<lambda>(x, s1). g x s1))"
  by (auto simp: quiet_def bind_eq_Some_conv intro: undisturbed_trans)

lemma quiet_prod: "(\<And>a b. quiet P s (g a b)) \<Longrightarrow> quiet P s (case x of (a, b) \<Rightarrow> g a b)"
  by (cases x) simp

lemma quiet_prod_state: "(\<And>a b. quiet P s (g a b s1)) \<Longrightarrow> quiet P s ((case x of (a, b) \<Rightarrow> g a b) s1)"
  by (cases x) simp

lemma quiet_if: "quiet P s a \<Longrightarrow> quiet P s b \<Longrightarrow> quiet P s (if c then a else b)"
  by simp

lemma quiet_option: "quiet P s a \<Longrightarrow> (\<And>x. quiet P s (b x)) \<Longrightarrow> quiet P s (case z of None \<Rightarrow> a | Some x \<Rightarrow> b x)"
  by (cases z) auto

lemma quiet_sum: "(\<And>x. quiet P s (a x)) \<Longrightarrow> (\<And>x. quiet P s (b x)) \<Longrightarrow> quiet P s (case z of Inl x \<Rightarrow> a x | Inr x \<Rightarrow> b x)"
  by (cases z) auto

lemma quiet_bool: "quiet P s a \<Longrightarrow> quiet P s b \<Longrightarrow> quiet P s (case z of True \<Rightarrow> a | False \<Rightarrow> b)"
  by (cases z) auto

lemma quiet_stats: "quiet P s (on_stats f s)"
  by (auto simp: quiet_def on_stats_def split: locked.splits)

lemma quiet_DelStat: "quiet P s (fs_DelStat k s)"
  unfolding fs_DelStat_def by (rule quiet_stats)

lemma quiet_world:
  "(\<And>r w'. P (fs_world s) \<Longrightarrow> f (fs_world s) = Some (r, w') \<Longrightarrow> P w') \<Longrightarrow> quiet P s (on_world f s)"
  by (auto simp: quiet_def on_world_def undisturbed_def set_world_def fs_world_def split: option.splits)

lemmas quiet_rules = quiet_None quiet_bind quiet_prod_state quiet_prod quiet_if quiet_option quiet_sum quiet_bool quiet_stats quiet_DelStat
  quiet_Some undisturbed_refl

lemma quiet_head: "reads_keep env P \<Longrightarrow> quiet P s (head_request env p h s)"
  unfolding head_request_def by (intro quiet_rules quiet_world) (unfold reads_keep_def, blast)

lemma quiet_try_name: "reads_keep env P \<Longrightarrow> quiet P s (try_name env p h s)"
  unfolding try_name_def by (intro quiet_rules quiet_head)

lemma quiet_list_loop:
  assumes "reads_keep env P"
  shows "quiet P s (list_loop env path rp d only m head s)"
proof -
  have "reads_keep env P \<longrightarrow> undisturbed P s (snd r)" if "list_loop env path rp d only m head s = Some r" for r
  proof (rule list_loop.raw_induct [OF _ that], goal_cases)
    case (1 f env path rp d only m head s r)
    show ?case
    proof (intro impI)
      assume k: "reads_keep env P"
      obtain result body s1 where w: "on_world (r_list env path (list_query env rp d only m)) s = Some ((result, body), s1)"
        using 1(2) by (auto split: option.splits)
      have "quiet P s (on_world (r_list env path (list_query env rp d only m)) s)"
        using k by (intro quiet_world) (unfold reads_keep_def, blast)
      then have u: "undisturbed P s s1" using w by (simp add: quiet_def)
      show "undisturbed P s (snd r)"
        using 1(2) w k u by (cases r) (auto split: option.splits prod.splits if_splits
            dest!: 1(1) [THEN mp, of env] intro: undisturbed_trans [OF u])
    qed
  qed
  then show ?thesis using assms by (auto simp: quiet_def)
qed

lemma quiet_list_bucket: "reads_keep env P \<Longrightarrow> quiet P s (list_bucket env p h d only s)"
  unfolding list_bucket_def Let_def by (intro quiet_rules quiet_list_loop)

lemma quiet_directory_empty: "reads_keep env P \<Longrightarrow> quiet P s (directory_empty env p s)"
  unfolding directory_empty_def by (intro quiet_rules quiet_list_bucket)

lemma quiet_children: "reads_keep env P \<Longrightarrow> quiet P s (children_check env p f s)"
  unfolding children_check_def by (intro quiet_rules quiet_directory_empty)

lemma quiet_over_check: "reads_keep env P \<Longrightarrow> quiet P s (over_check env f s)"
  unfolding over_check_def by (intro quiet_rules quiet_try_name)

lemma quiet_find_object: "reads_keep env P \<Longrightarrow> quiet P s (find_object env p oc h s)"
  unfolding find_object_def by (intro quiet_rules quiet_over_check quiet_children quiet_try_name)

lemma quiet_convert: "quiet P s (convert_found env p f a s)"
  unfolding convert_found_def by (intro quiet_rules)

lemma quiet_cache_found: "quiet P s (cache_found env p f oc nt a s)"
  unfolding cache_found_def by (intro quiet_rules quiet_convert)

lemma quiet_attribute: "reads_keep env P \<Longrightarrow> quiet P s (get_object_attribute env p a oc pf nt s)"
  unfolding get_object_attribute_def Let_def
  by (intro quiet_rules quiet_find_object quiet_cache_found) simp_all

lemma quiet_folder: "reads_keep env P \<Longrightarrow> quiet P s (is_special_name_folder_object env p s)"
  unfolding is_special_name_folder_object_def Let_def by (intro quiet_rules quiet_head)

section \<open>Rights\<close>

lemma quiet_object_access: "reads_keep env P \<Longrightarrow> quiet P s (check_object_access env p want s)"
  unfolding check_object_access_def by (intro quiet_rules quiet_attribute)

lemma quiet_parent_loop:
  assumes "reads_keep env P"
  shows "quiet P s (parent_loop env d s)"
  using assms
proof (induction env d s rule: parent_loop.induct)
  case (1 env d s)
  let ?d = "if d = ''.'' then ''/'' else d"
  have c: "quiet P s (check_object_access env ?d X_OK s)" using 1(2) by (rule quiet_object_access)
  show ?case
  proof (cases "check_object_access env ?d X_OK s")
    case None
    then show ?thesis by (subst parent_loop.simps) (simp add: quiet_def Let_def)
  next
    case (Some x)
    then obtain r st s1 where x: "check_object_access env ?d X_OK s = Some ((r, st), s1)" by (cases x) auto
    then have u: "undisturbed P s s1" using c by (simp add: quiet_def)
    have "quiet P s1 (parent_loop env (mydirname (Some ?d)) s1)" if "r = 0" "?d \<noteq> ''/''" "d \<noteq> []"
      using 1(1) [OF that(3) refl x refl refl] that 1(2) by simp
    then show ?thesis
      using x u by (subst parent_loop.simps) (auto simp: quiet_def Let_def intro: undisturbed_trans [OF u])
  qed
qed

lemma quiet_parent_access: "reads_keep env P \<Longrightarrow> quiet P s (check_parent_object_access env p want s)"
  unfolding check_parent_object_access_def Let_def by (intro quiet_rules quiet_parent_loop quiet_object_access)

lemma quiet_rename_guard: "reads_keep env P \<Longrightarrow> quiet P s (rename_guard env from to s)"
  unfolding rename_guard_def by (intro quiet_rules quiet_parent_access)

section \<open>Removing a directory\<close>

text \<open>
  C16: Removing a directory changes nothing unless the rights were granted and the directory then seen empty: either it ends with
  an error, the server as it was and the open files untouched, or the first request that is not a reading one is sent,
  for the object of the directory, on a server still as it was, after a listing that found no entry.
\<close>

theorem rmdir_removes_only_what_is_empty:
  assumes "reads_keep env P" "P (fs_world s)" "s3fs_rmdir env path s = Some (r, s')"
  shows "(r \<noteq> 0 \<and> P (fs_world s') \<and> mg s' = (mg s)\<lparr>m_world := fs_world s'\<rparr>)
    \<or> (\<exists>s1 s2 d. check_parent_object_access env (WTF8_ENCODE env path) (W_OK OR X_OK) s = Some (0, s1)
      \<and> directory_empty env (WTF8_ENCODE env path) s1 = Some (0, s2) \<and> P (fs_world s2)
      \<and> r_delete env (with_slash (WTF8_ENCODE env path)) (fs_world s2) = Some d)"
proof -
  let ?p = "WTF8_ENCODE env path"
  obtain c s1 where c: "check_parent_object_access env ?p (W_OK OR X_OK) s = Some (c, s1)"
    using assms(3) by (auto simp: s3fs_rmdir_def Let_def bind_eq_Some_conv)
  have u1: "undisturbed P s s1" using quiet_parent_access [OF assms(1)] c unfolding quiet_def by blast
  show ?thesis
  proof (cases "c = 0")
    case False
    then show ?thesis using assms(2,3) c u1 by (auto simp: s3fs_rmdir_def undisturbed_def)
  next
    case True
    obtain e s2 where e: "directory_empty env ?p s1 = Some (e, s2)"
      using assms(3) c True by (auto simp: s3fs_rmdir_def Let_def bind_eq_Some_conv)
    have u: "undisturbed P s s2"
      using quiet_directory_empty [OF assms(1)] e u1 unfolding quiet_def by (blast intro: undisturbed_trans)
    show ?thesis
    proof (cases "e = 0")
      case False
      then show ?thesis using assms(2,3) c True e u by (auto simp: s3fs_rmdir_def undisturbed_def)
    next
      case e0: True
      then obtain d where "r_delete env (with_slash ?p) (fs_world s2) = Some d"
        using assms(3) c True e by (auto simp: s3fs_rmdir_def Let_def bind_eq_Some_conv on_world_def split: option.splits)
      then show ?thesis using True e0 c e u assms(2) by (auto simp: undisturbed_def)
    qed
  qed
qed

lemma mem_reads: "reads_keep (mem_env fc ids) P"
  by (simp add: reads_keep_def mem_env_def)

lemma root_access:
  assumes "mydirname (Some p) = ''/''" "p \<noteq> ''/''" "p \<noteq> ''.''"
  shows "check_parent_object_access (mem_env fc (0, g)) p want s = Some (0, s)"
proof -
  have r: "check_object_access (mem_env fc (0, g)) ''/'' k s = Some ((0, root_stat (mem_env fc (0, g))), s)" for k
    by (simp add: check_object_access_def get_object_attribute_def no_attrs_def access_check_def)
  then have "parent_loop (mem_env fc (0, g)) ''/'' s = Some (0, s)" by (subst parent_loop.simps) simp
  then show ?thesis using assms r by (simp add: check_parent_object_access_def Let_def)
qed

theorem rmdir_removes_only_what_is_empty_witness:
  "\<exists>r s'. s3fs_rmdir (mem_env mem_conf (0, 0)) ''/d'' (mem_fs [(''/d/x'', [])]) = Some (r, s') \<and> r \<noteq> 0
    \<and> fs_world s' = [(''/d/x'', [])]"
proof -
  let ?env = "mem_env mem_conf (0, 0)" and ?s = "mem_fs [(''/d/x'', [])]"
  have p: "WTF8_ENCODE ?env ''/d'' = ''/d''" by (simp add: WTF8_ENCODE_def mem_conf_def)
  have a: "mydirname (Some ''/d'') = ''/''" by code_simp
  have c: "check_parent_object_access ?env ''/d'' want ?s = Some (0, ?s)" for want by (rule root_access [OF a]) simp_all
  have d: "directory_empty ?env ''/d'' ?s = Some (- ENOTEMPTY, ?s)"
    by (simp add: directory_empty_def mem_list_bucket append_objects_from_xml_def append_objects_from_xml_ex_def
        compat_doc compat_entries del: append_nodes.simps(2))
  have r: "s3fs_rmdir ?env ''/d'' ?s = Some (- ENOTEMPTY, ?s)" by (simp add: s3fs_rmdir_def Let_def p c d)
  have w: "fs_world ?s = [(''/d/x'', [])]" by (simp add: fs_world_def mem_fs_def new_mgr_def)
  show ?thesis
    using rmdir_removes_only_what_is_empty [OF mem_reads [of mem_conf "(0, 0)" "\<lambda>w. w = [(''/d/x'', [])]"] w r] r by (simp add: p c d)
qed

section \<open>Renaming an object\<close>

lemma hd_find_set: "hd_find k (hd_set k v m) = Some v"
  by (induction m) (auto simp: strcasecmp_less_def)

lemma hd_find_other:
  "hd_find k m = Some x \<Longrightarrow> \<not> nocase_eq k j \<Longrightarrow> hd_find k (hd_set j v m) = Some x"
proof (induction m)
  case (Cons p m)
  obtain a b where p: "p = (a, b)" by (cases p)
  consider "strcasecmp_less a j" | "strcasecmp_less j a" | "nocase_eq a j"
    using nocase_total [of a j] by (auto simp: nocase_eq_def strcasecmp_less_def)
  then show ?case
    using Cons p by cases (auto simp: strcasecmp_less_def nocase_eq_def split: if_splits)
qed simp

lemma kept_source:
  "hd_find ''x-amz-copy-source'' (hd_set ''x-amz-metadata-directive'' d (hd_set ''Content-Type'' t
     (hd_set ''x-amz-copy-source'' c m))) = Some c"
proof -
  have "\<not> nocase_eq ''x-amz-copy-source'' ''Content-Type''" "\<not> nocase_eq ''x-amz-copy-source'' ''x-amz-metadata-directive''"
    by code_simp+
  then show ?thesis by (intro hd_find_other hd_find_set)
qed

text \<open>A copy request: one for an object of up to 5 GB, one in parts for a larger one.\<close>

definition copy_request :: "'w fsenv \<Rightarrow> string \<Rightarrow> headers \<Rightarrow> 'w \<Rightarrow> int \<Rightarrow> 'w \<Rightarrow> bool" where
  "copy_request env to meta w r w' \<longleftrightarrow> r_puthead env to meta True w = Some (r, w')
     \<or> (\<exists>n m. r_multihead env to n meta True w = Some ((r, m), w'))"

lemma put_headers_request:
  assumes "reads_keep env P" "P (fs_world s)" "put_headers env to meta True s = Some ((r, m), s')"
  shows "\<exists>w c w'. P w \<and> copy_request env to meta w c w' \<and> (c \<noteq> 0 \<longrightarrow> r = c \<and> fs_world s' = w')"
proof -
  obtain q a s1 where a: "get_attr env to s = Some ((q, a), s1)"
    using assms(3) by (auto simp: put_headers_def bind_eq_Some_conv)
  have "undisturbed P s s1" using quiet_attribute [OF assms(1)] a unfolding quiet_def by blast
  then have p: "P (fs_world s1)" using assms(2) by (simp add: undisturbed_def)
  obtain c m1 s2 where c: "(if FIVE_GB \<le> st_size (a_stat a) then
          on_world (r_multihead env to (st_size (a_stat a)) meta True) s1
        else do { (r, s2) \<leftarrow> on_world (r_puthead env to meta True) s1; Some ((r, meta), s2) }) = Some ((c, m1), s2)"
    using assms(3) a by (auto simp: put_headers_def bind_eq_Some_conv)
  have w: "copy_request env to meta (fs_world s1) c (fs_world s2)"
    using c by (auto simp: copy_request_def on_world_def fs_world_def set_world_def bind_eq_Some_conv
        split: if_splits option.splits)
  have "c \<noteq> 0 \<Longrightarrow> r = c \<and> s' = s2"
    using assms(3) by (simp add: put_headers_def a c)
  then show ?thesis using p w by blast
qed

text \<open>
  C15: \<open>rename_object\<close> deletes nothing before the copy is made: it ends either with an error and the server as it was, or it sends a copy
  request from the old name to the new one on a server still as it was, and when that fails it ends with its error
  and the server as the copy request left it.
\<close>

theorem rename_copies_before_it_deletes:
  assumes "reads_keep env P" "P (fs_world s)" "rename_object env from to s = Some (r, s')"
  shows "(r \<noteq> 0 \<and> P (fs_world s'))
    \<or> (\<exists>meta w c w'. P w \<and> copy_request env to meta w c w'
      \<and> hd_find ''x-amz-copy-source'' meta = Some (copy_source env from) \<and> (c \<noteq> 0 \<longrightarrow> r = c \<and> fs_world s' = w'))"
proof -
  obtain c s1 where c: "rename_guard env from to s = Some (c, s1)"
    using assms(3) by (auto simp: rename_object_def bind_eq_Some_conv)
  have u1: "undisturbed P s s1" using quiet_rename_guard [OF assms(1)] c unfolding quiet_def by blast
  show ?thesis
  proof (cases "c = 0")
    case False
    then show ?thesis using assms(2,3) c u1 by (auto simp: rename_object_def undisturbed_def)
  next
    case True
    obtain q a s2 where a: "get_attr env from s1 = Some ((q, a), s2)"
      using assms(3) c True by (auto simp: rename_object_def bind_eq_Some_conv)
    have u: "undisturbed P s s2"
      using quiet_attribute [OF assms(1)] a u1 unfolding quiet_def by (blast intro: undisturbed_trans)
    show ?thesis
    proof (cases "q = 0")
      case False
      then show ?thesis using assms(2,3) c True a u by (auto simp: rename_object_def undisturbed_def)
    next
      case q: True
      let ?m = "hd_set ''x-amz-metadata-directive'' ''REPLACE'' (hd_set ''Content-Type'' (LookupMimeType (fs_mimes env) to)
               (hd_set ''x-amz-copy-source'' (copy_source env from) (a_meta a)))"
      obtain k m s3 where h: "put_headers env to ?m True s2 = Some ((k, m), s3)"
        using assms(3) c True a q by (auto simp: rename_object_def bind_eq_Some_conv)
      have "P (fs_world s2)" using u assms(2) by (simp add: undisturbed_def)
      from put_headers_request [OF assms(1) this h] obtain w c' w' where
        w: "P w" "copy_request env to ?m w c' w'" "c' \<noteq> 0 \<longrightarrow> k = c' \<and> fs_world s3 = w'" by blast
      have "k \<noteq> 0 \<Longrightarrow> r = k \<and> s' = s3"
        using assms(3) c True a q h by (simp add: rename_object_def)
      moreover have "hd_find ''x-amz-copy-source'' ?m = Some (copy_source env from)"
        by (rule kept_source)
      ultimately show ?thesis using w by blast
    qed
  qed
qed

definition two_entry :: stat_cache_entry where
  "two_entry = \<lparr>stbuf = zero_stat, hit_count = 0, cache_date = \<lparr>tv_sec = 0, tv_nsec = 0\<rparr>, ent_meta = [], isforce = False,
     noobjcache = False, notruncate = 0\<rparr>"

definition two_fs :: "mem fs" where
  "two_fs = (mem_fs [])\<lparr>stats := new_stat_cache\<lparr>entries := [(''/f'', two_entry), (''/g'', two_entry)]\<rparr>\<rparr>"

theorem rename_copies_before_it_deletes_witness:
  "\<exists>r s'. rename_object (mem_env mem_conf (0, 0)) ''/f'' ''/g'' two_fs = Some (r, s') \<and>
    ((r \<noteq> 0 \<and> fs_world s' = []) \<or> (\<exists>meta c w'. copy_request (mem_env mem_conf (0, 0)) ''/g'' meta [] c w'
      \<and> (c \<noteq> 0 \<longrightarrow> r = c \<and> fs_world s' = w')))"
proof -
  let ?env = "mem_env mem_conf (0, 0)"
  let ?a = "\<lparr>a_stat = zero_stat, a_meta = [], a_force = False\<rparr>"
  have p: "mydirname (Some ''/f'') = ''/''" "mydirname (Some ''/g'') = ''/''" by code_simp+
  have g: "rename_guard ?env ''/f'' ''/g'' two_fs = Some (0, two_fs)"
    by (simp add: rename_guard_def root_access p)
  have f: "sm_find ''/f'' (entries (stats two_fs)) = Some two_entry" "sm_find ''/f/'' (entries (stats two_fs)) = None"
    by (simp_all add: two_fs_def)
  define c1 where "c1 = new_stat_cache\<lparr>entries := [(''/f'', two_entry\<lparr>hit_count := 1\<rparr>), (''/g'', two_entry)]\<rparr>"
  have fo: "support_compat_dir mem_conf = False" by (simp add: mem_conf_def)
  have 1: "GetStat (stats two_fs) t ''/f'' True None = Returns (Some (zero_stat, [], False), c1)" for t
    by (simp add: two_fs_def GetStat_def find_entry_def ends_with_def fresh_def new_stat_cache_def two_entry_def c1_def
        etag_differs_def)
  have 2: "\<exists>c2. GetStat c1 t ''/g'' True None = Returns (Some (zero_stat, [], False), c2)" for t
    by (simp add: GetStat_def find_entry_def ends_with_def fresh_def new_stat_cache_def two_entry_def c1_def etag_differs_def)
  have n: "ChangeNoTruncateFlag c1 ''/f'' False = c1"
    by (simp add: ChangeNoTruncateFlag_def c1_def two_entry_def)
  have a: "get_attr ?env ''/f'' two_fs = Some ((0, ?a), two_fs\<lparr>stats := c1\<rparr>)"
    by (simp add: get_object_attribute_def on_stats_def fo 1 n no_attrs_def)
  obtain c2 where c2: "GetStat c1 (now_of ?env (two_fs\<lparr>stats := c1\<rparr>)) ''/g'' True None = Returns (Some (zero_stat, [], False), c2)"
    using 2 by blast
  define s2 where "s2 = two_fs\<lparr>stats := ChangeNoTruncateFlag c2 ''/g'' False\<rparr>"
  have b: "get_attr ?env ''/g'' (two_fs\<lparr>stats := c1\<rparr>) = Some ((0, ?a), s2)"
    using c2 by (simp add: get_object_attribute_def on_stats_def fo no_attrs_def s2_def)
  have w2: "fs_world s2 = []" by (simp add: s2_def two_fs_def fs_world_def mem_fs_def new_mgr_def)
  have h: "put_headers ?env ''/g'' m True (two_fs\<lparr>stats := c1\<rparr>) = Some ((- EIO, m), set_world [] s2)" for m
  proof -
    have "r_puthead ?env ''/g'' m True [] = Some (- EIO, [])" by (simp add: mem_env_def)
    then show ?thesis by (simp add: put_headers_def b on_world_def w2 zero_stat_def FIVE_GB_def)
  qed
  then obtain r s' where r: "rename_object ?env ''/f'' ''/g'' two_fs = Some (r, s')"
    by (simp add: rename_object_def g a)
  have w: "fs_world two_fs = []" by (simp add: two_fs_def fs_world_def mem_fs_def new_mgr_def)
  show ?thesis
    using rename_copies_before_it_deletes [OF mem_reads [of mem_conf "(0, 0)" "\<lambda>w. w = []"] w r] r by auto
qed

end
