(* ===== verification/Fs_Flush.thy ===== *)
theory Fs_Flush
  imports Fs_Safety Fs_Content
begin

text \<open>
  What \<open>s3fs_flush\<close> of \<open>protocols/s3/s3fs.cpp\<close> stores: it checks the rights, which leaves the open files alone, takes a
  reference, sets the times, uploads and gives the reference back.
\<close>

section \<open>The steps on the entity\<close>

lemma UpdateMtime_frame:
  assumes "UpdateMtime io d x = (b, y)"
  shows "\<exists>m. cur y = (cur x)\<lparr>orgmeta := m\<rparr>" "free_disk y = free_disk x"
proof -
  obtain t x1 where g: "GetTimes io d x = (t, x1)" by fastforce
  then have "cur x1 = cur x" "free_disk x1 = free_disk x"
    by (auto simp: GetTimes_def split: option.splits prod.splits sum.splits dest: do_sys_cur free_disk_sys)
  then show "\<exists>m. cur y = (cur x)\<lparr>orgmeta := m\<rparr>" "free_disk y = free_disk x"
    using assms g
    by (auto simp: UpdateMtime_def set_meta_def split: option.splits prod.splits intro: exI [of _ "orgmeta (cur x)"])
qed

text \<open>An upload changes the size of the original and the mark of a modification only.\<close>

definition same_file :: "ent \<Rightarrow> ent \<Rightarrow> bool" where
  "same_file e e' \<longleftrightarrow> e'\<lparr>size_orgmeta := size_orgmeta e, is_modify := is_modify e\<rparr> = e"

lemma same_file_simps [simp]: "same_file e e" "same_file e (e\<lparr>size_orgmeta := n\<rparr>)" "same_file e (e\<lparr>size_orgmeta := n, is_modify := m\<rparr>)"
  by (simp_all add: same_file_def)

lemma same_file_fields:
  assumes "same_file e e'"
  shows "e_file e' = e_file e" "refcnt e' = refcnt e" "pagelist e' = pagelist e" "fdata e' = fdata e" "e_path e' = e_path e"
  using assms unfolding same_file_def fdata_def by (cases e; cases e'; simp)+

lemma upload_whole_frame: "upload_whole io tpath s = (r, s') \<Longrightarrow> same_file (cur s) (cur s')"
  by (auto simp: upload_whole_def Let_def split: if_splits prod.splits sum.splits dest!: do_sys_cur)

lemma RowFlush_frame:
  assumes "RowFlush io tpath force s = (r, s')" "pl_inv (pagelist (cur s))" "upload_id (cur s) = []"
  shows "same_file (cur s) (cur s')"
  using assms load_rest_nothing [OF assms(2), of io]
  by (auto simp: RowFlush_def split: if_splits dest!: upload_whole_frame)

section \<open>The call\<close>

text \<open>The rights are checked without touching the open files.\<close>

lemma reads_keep_any: "reads_keep env (\<lambda>_. True)"
  by (simp add: reads_keep_def)

lemma quiet_check_or_parent: "reads_keep env P \<Longrightarrow> quiet P s (check_or_parent env path want may s)"
  unfolding check_or_parent_def by (intro quiet_rules quiet_parent_access quiet_object_access)

lemma open_at_undisturbed: "undisturbed P s s1 \<Longrightarrow> open_at s path a e \<Longrightarrow> open_at s1 path a e"
  by (simp add: undisturbed_def open_at_def)

lemma on_ent_shared:
  "on_ent a f (shared a e s) = (case f (handed e s) of (r, x) \<Rightarrow> Some (r, after a x (shared a e s)))"
  by (simp add: on_ent_def enter_def ent_at_def fs_world_def after_def shared_def handed_def)

lemma on_ent_after: "on_ent a f (after a x s) = (case f x of (r, y) \<Rightarrow> Some (r, after a y s))"
  by (cases x) (simp add: on_ent_def enter_def ent_at_def after_def leave_def split: prod.splits)

lemma s3fs_flush_result:
  assumes "open_at s (WTF8_ENCODE env path) a e" "s3fs_flush env path fi s = Some (0, s')"
  shows "\<exists>s1 b x y. undisturbed (\<lambda>_. True) s s1 \<and> UpdateMtime (io_of env) (disk_of env) (handed e s1) = (b, x)
    \<and> RowFlush (io_of env) None False x = (0, y) \<and> fs_Close env a (after a y (shared a e s1)) = Some ((), s')"
proof -
  obtain st s1 where c: "check_or_parent env (WTF8_ENCODE env path) (access_mask fi) True s = Some ((0, st), s1)"
    using assms(2) by (auto simp: s3fs_flush_def Let_def bind_eq_Some_conv split: if_splits)
  then have u: "undisturbed (\<lambda>_. True) s s1"
    using quiet_check_or_parent [OF reads_keep_any, of s env] unfolding quiet_def by blast
  then have o: "open_at s1 (WTF8_ENCODE env path) a e" using assms(1) by (rule open_at_undisturbed)
  obtain b x where x: "UpdateMtime (io_of env) (disk_of env) (handed e s1) = (b, x)" by fastforce
  obtain r y where y: "RowFlush (io_of env) None False x = (r, y)" by fastforce
  have ex: "fs_ExistOpen env (WTF8_ENCODE env path) (fi_fh fi) False s1 = Some (Some a, shared a e s1)"
    using o by (simp add: open_at_def fs_ExistOpen_def on_mgr_def ExistOpen_found shared_def)
  have "fs_Close env a (after a y (shared a e s1)) = Some ((), s') \<and> r = 0"
    using assms(2) by (simp add: s3fs_flush_def c ex on_ent_shared on_ent_after x y bind_eq_Some_conv)
  then show ?thesis using u x y by auto
qed

text \<open>A modified file that is completely loaded is stored.\<close>

lemma flush_loaded:
  assumes "io_ok (io_of env) obj (e_path e)" "ent_ok obj e" "upload_id e = []" "is_modify e"
    and "\<forall>x. st_at (pagelist e) x \<noteq> Some False"
    and "open_at s (WTF8_ENCODE env path) a e" "s3fs_flush env path fi s = Some (0, s')"
  shows "(\<exists>par meta w w'. put_object (io_of env) par (e_path e) meta (content obj e) w = (0, w')
      \<and> fs_world s' = snd (sys (io_of env) Lseek w'))
    \<and> (\<exists>e'. open_at s' (WTF8_ENCODE env path) a e' \<and> refcnt e' = refcnt e \<and> \<not> is_modify e'
      \<and> fdata e' = content obj e \<and> pagelist e' = pagelist e)"
proof -
  obtain s1 b x y where u: "undisturbed (\<lambda>_. True) s s1" and x: "UpdateMtime (io_of env) (disk_of env) (handed e s1) = (b, x)"
    and y: "RowFlush (io_of env) None False x = (0, y)" and c: "fs_Close env a (after a y (shared a e s1)) = Some ((), s')"
    using s3fs_flush_result [OF assms(6,7)] by blast
  have o: "open_at s1 (WTF8_ENCODE env path) a e" using u assms(6) by (rule open_at_undisturbed)
  obtain m where m: "cur x = e\<lparr>refcnt := refcnt e + 1, orgmeta := m\<rparr>" using UpdateMtime_frame(1) [OF x] by auto
  then have inv: "pl_inv (pagelist (cur x))" "e_file (cur x) \<noteq> None" "upload_id (cur x) = []" "fdata (cur x) = content obj e"
    using assms(2,3) fully_loaded [OF assms(2,5)] by (simp_all add: ent_ok_def fdata_def)
  have pos: "\<forall>c w err w'. sys (io_of env) c w = (Inl err, w') \<longrightarrow> 0 < err"
    using assms(1) by (auto dest: io_ok_sys)
  note f = same_file_fields [OF RowFlush_frame [OF y inv(1,3)], unfolded m, simplified]
  have up: "(\<exists>par w'. put_object (io_of env) par (e_path e) m (content obj e)
        (snd (sys (io_of env) Fstat (snd (sys (io_of env) Lseek (world x))))) = (0, w')
      \<and> world y = snd (sys (io_of env) Lseek w')) \<and> \<not> is_modify (cur y)"
    using RowFlush_upload [OF pos inv(1-3) _ y] m assms(4) inv(4) by simp
  have "s' = given_back a e y s1"
    using work_on_open(3) [OF o, of "\<lambda>_. ((), y)" "()" y] c f o by (simp add: given_back_def open_at_def)
  moreover have "open_at (given_back a e y s1) (WTF8_ENCODE env path) a ((cur y)\<lparr>refcnt := refcnt e\<rparr>)"
    using open_at_given_back [OF o] f o by (simp add: open_at_def)
  moreover have "fs_world (given_back a e y s1) = world y"
    by (simp add: fs_world_def given_back_def after_def leave_def)
  moreover have "fdata ((cur y)\<lparr>refcnt := refcnt e\<rparr>) = content obj e" "pagelist ((cur y)\<lparr>refcnt := refcnt e\<rparr>) = pagelist e"
    using f inv(4) m by (simp_all add: fdata_def)
  ultimately show ?thesis using up by fastforce
qed

text \<open>
  C8: What is written through a path and then flushed through it reaches the object: if the whole buffer was written
  to an open file, loaded or not, and the flush succeeds, then the last request that the flush made before its closing seek
  stored exactly the overwritten content under the file's name; the file stays open with as many references as before,
  holds that content completely and counts as not modified. As the flush is not a forced one, what lies behind the written
  range has to be loaded or inside the object.
\<close>

theorem s3fs_flush_stores_content:
  assumes "io_ok (io_of env) obj (e_path e)" "ent_ok obj e" "upload_id e = []" "0 \<le> offset" "bs \<noteq> []"
    and "\<forall>w. m_free (mg s) + offset + int (length bs) \<le> avail_space (io_of env) w"
    and "filled_from (offset + int (length bs)) e" "open_at s (WTF8_ENCODE env path) a e"
    and "s3fs_write env path bs offset fi s = Some ((0, length bs), s1)" "s3fs_flush env path fi' s1 = Some (0, s2)"
  shows "(\<exists>par meta w w'. put_object (io_of env) par (e_path e) meta (pwrite_at (content obj e) (nat offset) bs) w = (0, w')
      \<and> fs_world s2 = snd (sys (io_of env) Lseek w'))
    \<and> (\<exists>e'. open_at s2 (WTF8_ENCODE env path) a e' \<and> refcnt e' = refcnt e \<and> \<not> is_modify e'
      \<and> fdata e' = pwrite_at (content obj e) (nat offset) bs)"
proof -
  obtain x where R: "Write (io_of env) bs offset (handed e s) = (0, length bs, x)"
    using s3fs_write_result [OF assms(8,9)] by blast
  have "filled_from (offset + int (length bs)) (e\<lparr>refcnt := refcnt e + 1\<rparr>)" using assms(7) by (simp add: filled_from_def)
  then have W: "ent_ok obj (cur x)" "keeps_rest (e\<lparr>refcnt := refcnt e + 1\<rparr>) (cur x)"
    "content obj (cur x) = pwrite_at (content obj e) (nat offset) bs"
    "\<forall>y. st_at (pagelist (cur x)) y \<noteq> Some False" "is_modify (cur x)"
    using Write_spec [of "io_of env" obj "handed e s" offset bs "length bs" x] assms(1-6) R by simp_all
  then have f: "e_file (cur x) \<noteq> None" "refcnt (cur x) = refcnt e + 1" by (simp_all add: ent_ok_def keeps_rest_def)
  have s1: "s1 = given_back a e x s" using s3fs_write_open [OF assms(8) R f] assms(9) by simp
  let ?e = "(cur x)\<lparr>refcnt := refcnt e\<rparr>"
  have o: "open_at s1 (WTF8_ENCODE env path) a ?e" unfolding s1 by (rule open_at_given_back [OF assms(8) f(1)])
  have e: "io_ok (io_of env) obj (e_path ?e)" "ent_ok obj ?e" "upload_id ?e = []" "is_modify ?e"
    "\<forall>y. st_at (pagelist ?e) y \<noteq> Some False"
    using W assms(1,3) by (simp_all add: ent_ok_def fdata_def keeps_rest_def)
  have c: "content obj ?e = pwrite_at (content obj e) (nat offset) bs" using W(3) by simp
  have p: "e_path ?e = e_path e" using W(2) by (simp add: keeps_rest_def)
  show ?thesis using flush_loaded [OF e o assms(10)] unfolding c p by auto
qed

lemma s3fs_flush_open:
  assumes "check_or_parent env (WTF8_ENCODE env path) (access_mask fi) True s = Some ((0, st), s1)"
    and "open_at s1 (WTF8_ENCODE env path) a e"
    and "UpdateMtime (io_of env) (disk_of env) (handed e s1) = (b, x)" "RowFlush (io_of env) None False x = (r, y)"
    and "e_file (cur y) \<noteq> None" "refcnt (cur y) = refcnt e + 1"
  shows "s3fs_flush env path fi s = Some (r, given_back a e y s1)"
  using work_on_open [where f = "\<lambda>_. ((), y)", OF assms(2) refl assms(5,6)]
  by (simp add: s3fs_flush_def assms(1,3,4) on_ent_shared on_ent_after given_back_def)

lemma root_may_search: "check_parent_object_access (mem_env fc (0, g)) ''/f'' X_OK s = Some (0, s)"
proof -
  have r: "check_object_access (mem_env fc (0, g)) ''/'' X_OK s = Some ((0, root_stat (mem_env fc (0, g))), s)"
    by (simp add: check_object_access_def get_object_attribute_def no_attrs_def access_check_def)
  have "mydirname (Some ''/f'') = ''/''" by code_simp
  then show ?thesis
    unfolding check_parent_object_access_def
    by (subst parent_loop.simps) (simp add: r)
qed

lemma handed_given_back: "refcnt (cur x) = refcnt e + 1 \<Longrightarrow> mg s = mg (given_back a e x t) \<Longrightarrow>
    handed ((cur x)\<lparr>refcnt := refcnt e\<rparr>) s = x"
  by (cases x) (simp add: handed_def fs_world_def given_back_def after_def leave_def)

theorem s3fs_flush_stores_content_witness:
  "\<exists>s1 s2 e'. s3fs_write (mem_env mem_conf (0, 0)) ''/f'' [9] 1 plain_info linked_fs = Some ((0, 1), s1)
    \<and> s3fs_flush (mem_env mem_conf (0, 0)) ''/f'' plain_info s1 = Some (0, s2)
    \<and> open_at s2 ''/f'' 0 e' \<and> \<not> is_modify e' \<and> fdata e' = [1, 9, 3]"
proof -
  let ?env = "mem_env mem_conf (0, 0)"
  let ?st = "zero_stat\<lparr>st_mode := 0x8000, st_size := 3\<rparr>"
  have io: "io_of ?env = mem_io" "disk_of ?env = me_disk mem_mgr" by (simp_all add: mem_mgr_def)
  have p: "WTF8_ENCODE ?env ''/f'' = ''/f''" by (simp add: WTF8_ENCODE_def mem_conf_def)
  let ?h = "\<lparr>cur = open_ent\<lparr>refcnt := 2\<rparr>, free_disk = 0, world = []\<rparr>"
  have h: "handed open_ent linked_fs = ?h"
    by (simp add: handed_def open_fs_def new_mgr_def fs_world_def open_ent_def plain_ent_def)
  obtain r n x where w: "Write (mem_io :: mem io) [9] 1 ?h = (r, n, x)" by (metis prod_cases3)
  obtain b z where u: "UpdateMtime mem_io (me_disk mem_mgr) x = (b, z)" by fastforce
  obtain q y where f: "RowFlush mem_io None False z = (q, y)" by fastforce
  have "case Write (mem_io :: mem io) [9] 1 ?h of (r, n, x) \<Rightarrow> r = 0 \<and> n = length [9 :: 8 word] \<and> e_file (cur x) \<noteq> None
      \<and> refcnt (cur x) = refcnt open_ent + 1 \<and> (case UpdateMtime mem_io (me_disk mem_mgr) x of (b, z) \<Rightarrow>
      case RowFlush mem_io None False z of (r, y) \<Rightarrow> r = 0 \<and> e_file (cur y) \<noteq> None \<and> refcnt (cur y) = refcnt open_ent + 1)"
    by code_simp
  then have R: "Write (io_of ?env) [9] 1 (handed open_ent linked_fs) = (0, length [9 :: 8 word], x)"
    and x: "e_file (cur x) \<noteq> None" "refcnt (cur x) = refcnt open_ent + 1"
    and U: "UpdateMtime (io_of ?env) (disk_of ?env) x = (b, z)"
    and F: "RowFlush (io_of ?env) None False z = (0, y)" and y: "e_file (cur y) \<noteq> None" "refcnt (cur y) = refcnt open_ent + 1"
    unfolding io h w using u f w by simp_all
  have l: "open_at linked_fs (WTF8_ENCODE ?env ''/f'') 0 open_ent" using open_fs_at [of "(0, 0)"] by (simp add: open_at_def)
  define s1 where "s1 = given_back 0 open_ent x linked_fs"
  have w: "s3fs_write ?env ''/f'' [9] 1 plain_info linked_fs = Some ((0, length [9 :: 8 word]), s1)"
    unfolding s1_def by (rule s3fs_write_open [OF l R x])
  have "stats s1 = stats linked_fs" by (simp add: s1_def given_back_def after_def)
  then obtain s2 where a: "get_attr ?env ''/f'' s1 = Some ((0, \<lparr>a_stat = ?st, a_meta = [], a_force = False\<rparr>), s2)"
    and m: "mg s2 = mg s1" using linked_attr by blast
  have c: "check_or_parent ?env (WTF8_ENCODE ?env ''/f'') (access_mask plain_info) True s1 = Some ((0, ?st), s2)"
    by (simp add: check_or_parent_def p root_may_search check_object_access_def a access_check_def)
  let ?e = "(cur x)\<lparr>refcnt := refcnt open_ent\<rparr>"
  have o: "open_at s2 (WTF8_ENCODE ?env ''/f'') 0 ?e"
    using open_at_given_back [OF l x(1)] by (simp add: open_at_def m s1_def)
  have "handed ?e s2 = x" using x(2) m by (intro handed_given_back) (simp_all add: s1_def)
  then have U': "UpdateMtime (io_of ?env) (disk_of ?env) (handed ?e s2) = (b, z)" using U by simp
  have f: "s3fs_flush ?env ''/f'' plain_info s1 = Some (0, given_back 0 ?e y s2)"
    using y by (intro s3fs_flush_open [OF c o U' F]) simp_all
  have up: "upload_id open_ent = []" "filled_from (1 + int (length [9 :: 8 word])) open_ent"
    by (simp_all add: open_ent_def plain_ent_def pl_Init_def filled_from_def)
  have room: "\<forall>v. m_free (mg linked_fs) + 1 + int (length [9 :: 8 word]) \<le> avail_space mem_io v"
    by (simp add: open_fs_def new_mgr_def mem_io_def)
  have n: "pwrite_at [1, 2, 3] (nat 1) [9] = [1, 9, 3 :: 8 word]" by code_simp
  from s3fs_flush_stores_content [where env = ?env, unfolded io, OF mem_io_ok(1) open_ent_ok(1) up(1) _ _ room up(2) l w f]
  show ?thesis using w f n by (auto simp: open_ent_ok p)
qed

end
