(* ===== verification/Fs_Service.thy ===== *)
theory Fs_Service
  imports Fs_Init S3_Io
begin

text \<open>
  The file object \<open>S3Io\<close> above the file system layer: what the arguments \<open>S3Io::open\<close> makes do to the settings, and what
  the start of the layer guarantees.
\<close>

section \<open>What an option leaves alone\<close>

text \<open>The settings that come from the path and the mask, and the mode of the mount point.\<close>

definition settings :: "opts \<Rightarrow> (mode_t \<times> bool \<times> mode_t) \<times> (string \<times> string \<times> string) \<times> string \<times> string" where
  "settings o1 = ((s3fs_umask (o_fs o1), is_s3fs_umask (o_fs o1), mp_mode (o_fs o1)),
     (g_bucket (o_cf o1), mount_prefix (o_cf o1), g_host (o_cf o1)), AWSAccessKeyId (o_cf o1), AWSSecretAccessKey (o_cf o1))"

definition other_arg :: "string \<Rightarrow> bool" where
  "other_arg arg \<longleftrightarrow> \<not> starts ''bucket_name='' arg \<and> \<not> starts ''umask='' arg \<and> \<not> starts ''bucket='' arg
     \<and> \<not> starts ''host='' arg \<and> \<not> starts ''url='' arg \<and> \<not> starts ''ak_sk='' arg"

lemma push_keys_keeps:
  "g_bucket (push_keys md5 ls cf) = g_bucket cf \<and> mount_prefix (push_keys md5 ls cf) = mount_prefix cf
    \<and> g_host (push_keys md5 ls cf) = g_host cf \<and> AWSAccessKeyId (push_keys md5 ls cf) = AWSAccessKeyId cf
    \<and> AWSSecretAccessKey (push_keys md5 ls cf) = AWSSecretAccessKey cf"
proof (induction ls arbitrary: cf)
  case (Cons l ls)
  have "\<exists>ks. snd (PushbackSseKeys md5 l cf) = cf\<lparr>sseckeys := ks\<rparr>"
    by (auto simp: PushbackSseKeys_def Let_def split: option.splits prod.splits intro: exI [of _ "sseckeys cf"])
  then show ?case using Cons.IH [of "snd (PushbackSseKeys md5 l cf)"] by (auto simp: push_keys_def)
qed (simp add: push_keys_def)

text \<open>What an option does keeps these settings. The rules follow the structure of the options.\<close>

definition kept :: "opts \<Rightarrow> handled \<Rightarrow> bool" where
  "kept o1 h \<longleftrightarrow> (\<forall>r o2. h = Ends r o2 \<longrightarrow> settings o2 = settings o1)"

lemma kept_if: "(c \<Longrightarrow> kept o1 a) \<Longrightarrow> (\<not> c \<Longrightarrow> kept o1 b) \<Longrightarrow> kept o1 (if c then a else b)"
  by simp

lemma kept_leaf: "kept o1 Other" "kept o1 Throws" "kept o1 (Ends r o2) \<longleftrightarrow> settings o2 = settings o1"
  by (auto simp: kept_def)

lemma kept_number: "(\<And>n. kept o1 (f n)) \<Longrightarrow> kept o1 (number p arg f)"
  by (auto simp: number_def kept_leaf split: sum.splits)

lemma kept_option: "kept o1 a \<Longrightarrow> (\<And>x. kept o1 (b x)) \<Longrightarrow> kept o1 (case z of None \<Rightarrow> a | Some x \<Rightarrow> b x)"
  by (cases z) auto

lemma kept_set_cf: "settings (o1\<lparr>o_cf := snd (f (o_cf o1))\<rparr>) = settings o1 \<Longrightarrow> kept o1 (set_cf f o1)"
  by (simp add: set_cf_def kept_leaf)

lemma kept_set_fs: "settings (o1\<lparr>o_fs := f (o_fs o1)\<rparr>) = settings o1 \<Longrightarrow> kept o1 (set_fs f o1)"
  by (simp add: set_fs_def kept_leaf)

lemma kept_load_ckeys: "kept o1 (load_ckeys en file set_type o1)"
  by (auto simp: load_ckeys_def kept_leaf settings_def SetSseCKeys_def SetSseType_def push_keys_keeps Let_def
      split: option.splits prod.splits bool.splits if_splits)

lemma kept_load_kmsid: "kept o1 (load_kmsid kmsid o1)"
  by (auto simp: load_kmsid_def kept_leaf settings_def SetSseKmsid_def SetSseType_def split: prod.splits bool.splits if_splits)

lemma kept_SetMultipartSize:
  "kept o1 (case SetMultipartSize n (o_cf o1) of (ok, cf) \<Rightarrow> if ok then Ends 0 (o1\<lparr>o_cf := cf\<rparr>) else Ends (- 1) o1)"
  by (simp add: SetMultipartSize_def kept_leaf settings_def Let_def)

lemmas kept_rules = kept_if kept_number kept_option kept_set_cf kept_set_fs kept_load_ckeys kept_load_kmsid kept_SetMultipartSize

lemmas option_setters = SetDefaultAcl_def SetRetries_def SetMaxMultiRequest_def SetStorageClass_def SetSseType_def
  SetSslVerifyHostname_def SetIAMCredentialsURL_def SetIAMRole_def SetPublicBucket_def SetCheckCertificate_def
  SetConnectTimeout_def SetReadwriteTimeout_def SetDnsCache_def SetSslSessionCache_def SetMaxParallelCount_def
  SetContentMd5_def SetVerbose_def ibm_conf_def ecs_conf_def set_s3fs_log_level_def

lemma opt_owner_keeps: "other_arg arg \<Longrightarrow> kept o1 (opt_owner en arg o1)"
  unfolding opt_owner_def other_arg_def
  by (intro kept_rules) (simp_all add: kept_leaf settings_def option_setters Let_def split: sum.splits)

lemma opt_cache_keeps: "kept o1 (opt_cache arg o1)"
  unfolding opt_cache_def by (intro kept_rules) (simp_all add: kept_leaf settings_def option_setters)

lemma opt_sse_keeps: "kept o1 (opt_sse en arg o1)"
  unfolding opt_sse_def by (intro kept_rules) (simp_all add: kept_leaf settings_def option_setters)

lemma opt_iam_keeps: "other_arg arg \<Longrightarrow> kept o1 (opt_iam arg o1)"
  unfolding opt_iam_def other_arg_def by (intro kept_rules) (simp_all add: kept_leaf settings_def option_setters)

lemma opt_times_keeps: "kept o1 (opt_times arg o1)"
  unfolding opt_times_def by (intro kept_rules) (simp_all add: kept_leaf settings_def option_setters)

lemma opt_sizes_keeps: "kept o1 (opt_sizes en arg o1)"
  unfolding opt_sizes_def parallel_option_def
  by (intro kept_rules) (simp_all add: kept_leaf settings_def option_setters split: prod.splits)

lemma opt_flags_keeps: "other_arg arg \<Longrightarrow> kept o1 (opt_flags arg o1)"
  unfolding opt_flags_def other_arg_def by (intro kept_rules) (simp_all add: kept_leaf settings_def option_setters)

lemma opt_rest_keeps: "other_arg arg \<Longrightarrow> kept o1 (opt_rest arg o1)"
  unfolding opt_rest_def other_arg_def by (intro kept_rules) (simp_all add: kept_leaf settings_def option_setters)

lemma kept_or_else: "kept o1 a \<Longrightarrow> kept o1 b \<Longrightarrow> kept o1 (or_else a b)"
  by (cases a) (simp_all add: or_else_def kept_leaf)

lemma my_fuse_opt_proc_keeps:
  assumes "other_arg arg" "my_fuse_opt_proc en arg o1 = Some (r, o2)"
  shows "settings o2 = settings o1"
proof -
  have "kept o1 (or_else (opt_owner en arg o1) (or_else (opt_cache arg o1) (or_else (opt_sse en arg o1)
        (or_else (opt_iam arg o1) (or_else (opt_times arg o1) (or_else (opt_sizes en arg o1)
        (or_else (opt_flags arg o1) (opt_rest arg o1))))))))"
    using assms(1) by (intro kept_or_else opt_owner_keeps opt_cache_keeps opt_sse_keeps opt_iam_keeps opt_times_keeps
        opt_sizes_keeps opt_flags_keeps opt_rest_keeps)
  then show ?thesis using assms(2) by (auto simp: my_fuse_opt_proc_def kept_def split: handled.splits)
qed

section \<open>The arguments of the service\<close>

lemma read_options_keeps:
  "\<forall>arg \<in> set args. other_arg arg \<Longrightarrow> read_options en args o1 = Some (ok, o2) \<Longrightarrow> settings o2 = settings o1"
  by (induction args arbitrary: o1)
    (auto split: option.splits if_splits dest!: my_fuse_opt_proc_keeps)

lemmas option_groups = opt_owner_def opt_cache_def opt_sse_def opt_iam_def opt_times_def opt_sizes_def opt_flags_def

lemma umask_option:
  "my_fuse_opt_proc en ''umask=0000'' o1 = Some (0, o1\<lparr>o_fs := (o_fs o1)\<lparr>s3fs_umask := 0, is_s3fs_umask := True\<rparr>\<rparr>)"
proof -
  have "mode_bits ''0000'' = 0" by code_simp
  then show ?thesis by (simp add: my_fuse_opt_proc_def or_else_def opt_owner_def starts_def set_fs_def)
qed

lemma bucket_name_option:
  assumes "CHR '':'' \<notin> set b"
  shows "my_fuse_opt_proc en (''bucket_name='' @ b) o1 = Some (0, o1\<lparr>o_cf := (o_cf o1)\<lparr>g_bucket := b\<rparr>\<rparr>)"
  using assms by (simp add: my_fuse_opt_proc_def or_else_def opt_owner_def starts_def bucket_option_def set_bucket_def)

lemma url_option:
  assumes "d \<noteq> []" "last d \<noteq> CHR ''/''"
  shows "my_fuse_opt_proc en (''url=https://'' @ d) o1 = Some (0, o1\<lparr>o_cf := (o_cf o1)\<lparr>g_host := ''https://'' @ d\<rparr>\<rparr>)"
proof -
  have "strip_slashes (''https://'' @ d) = ''https://'' @ d"
    using assms by (cases d rule: rev_cases) (simp_all add: strip_slashes_def)
  then show ?thesis
    by (simp add: my_fuse_opt_proc_def or_else_def option_groups starts_def is_url_def Let_def)
qed

lemma ak_sk_option:
  assumes "ak \<noteq> []" "sk \<noteq> []" "CHR '':'' \<notin> set ak" "CHR 0x00 \<notin> set ak" "CHR 0x00 \<notin> set sk"
  shows "my_fuse_opt_proc en (''ak_sk='' @ ak @ '':'' @ sk) o1 =
    Some (0, o1\<lparr>o_cf := (o_cf o1)\<lparr>AWSAccessKeyId := ak, AWSSecretAccessKey := sk\<rparr>\<rparr>)"
proof -
  have "find_idx ((=) CHR '':'') (ak @ '':'' @ sk) = Some (length ak)"
    using find_idx_first [of ak "(=) CHR '':''" "CHR '':''" sk] assms(3) by auto
  then have "split_keys (ak @ '':'' @ sk) = (ak, sk)" by (simp add: split_keys_def)
  moreover have "c_str ak = ak" "c_str sk = sk"
    using assms(4,5) by (auto simp: c_str_def takeWhile_eq_all_conv)
  ultimately have "opt_rest (''ak_sk='' @ ak @ '':'' @ sk) o1 =
      Ends 0 (o1\<lparr>o_cf := (o_cf o1)\<lparr>AWSAccessKeyId := ak, AWSSecretAccessKey := sk\<rparr>\<rparr>)"
    using assms(1,2) by (simp add: opt_rest_def starts_def SetAccessKey_def no_text_def)
  then show ?thesis
    by (simp add: my_fuse_opt_proc_def or_else_def option_groups starts_def)
qed

text \<open>With the mask 0 every right is granted to everyone, whatever the attributes of the object.\<close>

lemma umask_0_grants:
  assumes "is_s3fs_umask (fcf env)" "s3fs_umask (fcf env) = 0"
  shows "access_check env uid gid want st = 0"
proof -
  let ?m = "object_mode env st AND base_mask env uid gid st"
  have b: "bit ?m k" if "k < 3" for k
    using assms that by (simp add: object_mode_def bit_and_iff bit_or_iff bit_class_masks bit_base_mask)
  have "?m \<noteq> 0"
  proof
    assume "?m = 0"
    then have "\<not> bit ?m 0" by simp
    then show False using b [of 0] by simp
  qed
  then have "mode_check ?m want = 0"
    unfolding mode_check_def class_bits using b [of 0] b [of 1] b [of 2] by simp
  then show ?thesis by (simp add: access_check_def)
qed

text \<open>
  The options that do not depend on the path are accepted, whatever was set before. \<open>SetSslVerifyHostname\<close> answers with
  the old value, and \<open>-1\<close> is an error, so that value must not be there; no option of the service sets it.
\<close>

definition no_error_mark :: "opts \<Rightarrow> bool" where
  "no_error_mark o1 \<longleftrightarrow> ssl_verify_hostname (o_cf o1) \<noteq> - 1"

definition accepted :: "optenv \<Rightarrow> string \<Rightarrow> bool" where
  "accepted en arg \<longleftrightarrow> (\<forall>o1. no_error_mark o1 \<longrightarrow> (\<exists>o2. my_fuse_opt_proc en arg o1 = Some (0, o2) \<and> no_error_mark o2))"

lemma read_options_accepts:
  "\<forall>arg \<in> set args. accepted en arg \<Longrightarrow> no_error_mark o1 \<Longrightarrow> \<exists>o2. read_options en args o1 = Some (True, o2)"
proof (induction args arbitrary: o1)
  case (Cons arg args)
  then obtain o2 where "my_fuse_opt_proc en arg o1 = Some (0, o2)" "no_error_mark o2"
    by (auto simp: accepted_def)
  then show ?case using Cons by simp
qed simp

lemmas accept_simps = accepted_def my_fuse_opt_proc_def or_else_def option_groups opt_rest_def starts_def set_cf_def no_error_mark_def
  set_s3fs_log_level_def SetConnectTimeout_def SetReadwriteTimeout_def SetCheckCertificate_def

lemma numbers_of_service:
  "s3fs_strtoofft ''30'' False = Inr 30" "s3fs_strtoofft ''0'' False = Inr 0"
  "s3fs_strtoofft ''4096'' False = Inr 4096"
  by code_simp+

lemma fixed_options_accepted:
  "accepted en ''check_cache_dir_exist''" "accepted en ''del_cache''" "accepted en ''-f''"
  "accepted en ''connect_timeout=30''" "accepted en ''no_check_certificate''" "accepted en ''ssl_verify_hostname=0''"
  "accepted en ''use_path_request_style''" "accepted en ''readwrite_timeout=30''"
  by (simp_all add: accept_simps number_def numbers_of_service SetSslVerifyHostname_def Let_def)

lemma use_cache_accepted: "accepted en (''use_cache='' @ dir)"
  by (simp add: accept_simps)

lemma ensure_diskfree_accepted:
  "s3fs_strtoofft n False = Inr k \<Longrightarrow> accepted en (''ensure_diskfree='' @ n)"
  by (simp add: accept_simps number_def)

lemma dbglevel_accepted: "log_level_of l = Some v \<Longrightarrow> accepted en (''dbglevel='' @ l)"
  by (simp add: accept_simps)

lemma service_options_accepted:
  assumes "int (cache_size_m s) \<le> LLONG_MAX" "s3_debug_mark s = [] \<or> log_level_of (s3_debug_mark s) \<noteq> None"
  shows "\<forall>arg \<in> set (drop 1 (open_args s [])). accepted en arg"
proof -
  have "s3fs_strtoofft (str (int (cache_size_m s))) False = Inr (int (cache_size_m s))"
    using assms(1) by (intro strtoofft_str) (simp_all add: LLONG_MIN_def)
  note size = ensure_diskfree_accepted [OF this, of en] ensure_diskfree_accepted [OF numbers_of_service(3), of en]
  note cache = use_cache_accepted [of en "s3_cachepath s"] use_cache_accepted [of en "''/tmp''"]
  have "s3_debug_mark s \<noteq> [] \<Longrightarrow> accepted en (''dbglevel='' @ s3_debug_mark s)"
    using assms(2) dbglevel_accepted by auto
  then show ?thesis using fixed_options_accepted [of en] size cache
    by (auto simp: open_args_def)
qed

text \<open>
  C14: The arguments that \<open>S3Io::open\<close> makes of a path \<open>protocol://ak:sk@domain/bucket/object\<close> are accepted, whatever was
  set before, and take effect: the bucket, the address and the two keys are those of the path, and as the mask is 0, the
  check of access refuses nobody. Of the other settings of the file object only the debug level can be refused.
\<close>

theorem service_arguments_take_effect:
  assumes "CHR ''/'' \<notin> set proto" "ak \<noteq> []" "sk \<noteq> []" "CHR '':'' \<notin> set ak" "CHR ''@'' \<notin> set (ak @ sk)"
    and "CHR 0x00 \<notin> set (ak @ sk)" "domain \<noteq> []" "CHR ''/'' \<notin> set domain"
    and "bkt \<noteq> []" "CHR ''/'' \<notin> set bkt" "CHR '':'' \<notin> set bkt" "get_current_name link \<noteq> []"
    and "int (cache_size_m s) \<le> LLONG_MAX" "s3_debug_mark s = [] \<or> log_level_of (s3_debug_mark s) \<noteq> None"
    and "ssl_verify_hostname (o_cf o1) \<noteq> - 1"
    and "split_path link (proto @ ''//'' @ (ak @ '':'' @ sk) @ ''@'' @ domain @ ''/'' @ bkt @ ''/'' @ object) = (vecret, obj)"
  shows "obj = Some (CHR ''/'' # object) \<and>
    (\<exists>o2. read_options en (tl (open_args s vecret)) o1 = Some (True, o2)
      \<and> g_bucket (o_cf o2) = bkt \<and> g_host (o_cf o2) = ''https://'' @ domain
      \<and> AWSAccessKeyId (o_cf o2) = ak \<and> AWSSecretAccessKey (o_cf o2) = sk
      \<and> (\<forall>env uid gid want st. fcf env = o_fs o2 \<longrightarrow> access_check env uid gid want st = 0))"
proof -
  have v: "vecret = [get_current_name link, ''ak_sk='' @ ak @ '':'' @ sk, ''url=https://'' @ domain, ''bucket_name='' @ bkt]"
    and obj: "obj = Some (CHR ''/'' # object)"
    using assms(16) split_path_complete [of proto "ak @ '':'' @ sk" domain bkt link object] assms(1-12) by auto
  define rest where "rest = tl (open_args s [])"
  have args: "tl (open_args s vecret) = (''ak_sk='' @ ak @ '':'' @ sk) # (''url=https://'' @ domain) #
      (''bucket_name='' @ bkt) # ''umask=0000'' # rest"
    unfolding v rest_def by (simp add: open_args_def)
  have oth: "\<forall>arg \<in> set rest. other_arg arg"
    by (simp add: rest_def open_args_def other_arg_def starts_def)
  have d: "last domain \<noteq> CHR ''/''" using assms(7,8) last_in_set by metis
  note opts = ak_sk_option [OF assms(2-4), of en o1] url_option [OF assms(7) d, of en] bucket_name_option [OF assms(11), of en]
    umask_option [of en]
  define o3 where "o3 = o1\<lparr>o_cf := (o_cf o1)\<lparr>AWSAccessKeyId := ak, AWSSecretAccessKey := sk, g_host := ''https://'' @ domain,
      g_bucket := bkt\<rparr>, o_fs := (o_fs o1)\<lparr>s3fs_umask := 0, is_s3fs_umask := True\<rparr>\<rparr>"
  have "\<forall>arg \<in> set rest. accepted en arg"
    using service_options_accepted [OF assms(13,14), of en] by (simp add: rest_def drop_Suc)
  then obtain o2 where ok: "read_options en rest o3 = Some (True, o2)"
    using read_options_accepts [of rest en o3] assms(15) by (auto simp: no_error_mark_def o3_def)
  then have "read_options en (tl (open_args s vecret)) o1 = Some (True, o2)"
    using assms(6) unfolding args by (simp add: opts o3_def del: append.simps)
  moreover have "settings o2 = settings o3" by (rule read_options_keeps [OF oth ok])
  ultimately show ?thesis using obj by (auto simp: settings_def o3_def intro!: exI [of _ o2] umask_0_grants)
qed

theorem service_arguments_take_effect_witness:
  "\<forall>en. \<exists>o2. read_options en (tl (open_args new_s3io [''multifs'', ''ak_sk=k:s'', ''url=https://h.com'', ''bucket_name=b'']))
     initial_opts = Some (True, o2) \<and> g_bucket (o_cf o2) = ''b''"
proof -
  have p: "split_path (Some ''/usr/bin/multifs'') ''s3://k:s@h.com/b/o'' =
      ([''multifs'', ''ak_sk=k:s'', ''url=https://h.com'', ''bucket_name=b''], Some ''/o'')" by code_simp
  have n: "get_current_name (Some ''/usr/bin/multifs'') \<noteq> []" by code_simp
  have s: "cache_size_m new_s3io = 0" "s3_debug_mark new_s3io = []" "ssl_verify_hostname (o_cf initial_opts) = 1"
    by (simp_all add: new_s3io_def initial_opts_def initial_conf_def)
  have "\<exists>o2. read_options en (tl (open_args new_s3io [''multifs'', ''ak_sk=k:s'', ''url=https://h.com'', ''bucket_name=b'']))
     initial_opts = Some (True, o2) \<and> g_bucket (o_cf o2) = ''b''" for en
    using service_arguments_take_effect [of "''s3:''" "''k''" "''s''" "''h.com''" "''b''"
        "Some ''/usr/bin/multifs''" new_s3io initial_opts "''o''"
        "[''multifs'', ''ak_sk=k:s'', ''url=https://h.com'', ''bucket_name=b'']" "Some ''/o''" en] n s p
    by (auto simp: LLONG_MAX_def)
  then show ?thesis by blast
qed

section \<open>The result of the start\<close>

lemma getopts_code: "read_getopts gs t o1 = (Inl code, o2) \<Longrightarrow> code = EXIT_SUCCESS \<or> code = EXIT_FAILURE"
proof (induction gs arbitrary: t o1)
  case (Cons g gs)
  show ?case
  proof (cases g)
    case (Opt_abort a)
    have i: "read_getopts gs t' o' = (Inl code, o2) \<Longrightarrow> code = EXIT_SUCCESS \<or> code = EXIT_FAILURE" for t' o'
      by (rule Cons.IH)
    show ?thesis
      using Cons.prems unfolding Opt_abort read_getopts.simps Let_def
      by (cases a) (auto split: if_splits prod.splits dest: i)
  qed (use Cons.prems in \<open>auto split: if_splits dest: Cons.IH\<close>)
qed simp

lemma finish_init_code:
  assumes "finish_init en t s = (code, s')"
  shows "code = EXIT_SUCCESS \<or> code = EXIT_FAILURE" "code = EXIT_FAILURE \<Longrightarrow> \<not> i_curl s' \<and> \<not> i_ssl s'"
  using assms
  by (auto simp: finish_init_def give_up_def s3fs_utility_processing_def Let_def split: if_splits prod.splits option.splits)

text \<open>The ways the start ends: before the libraries are up, by giving up, or with its last checks.\<close>

lemma init_ends:
  assumes "init en gs args s = Some (code, s')"
  shows "(code = EXIT_SUCCESS \<or> code = EXIT_FAILURE) \<and> (i_curl s' \<longrightarrow> i_curl s) \<and> (i_ssl s' \<longrightarrow> i_ssl s)
    \<or> (\<exists>s1. give_up s1 = (code, s')) \<or> (\<exists>t s1. finish_init en t s1 = (code, s'))"
proof -
  obtain g o1 where g: "read_getopts gs (24 * 60 * 60) (i_opts s) = (g, o1)" by fastforce
  show ?thesis
  proof (cases g)
    case (Inl c)
    then show ?thesis using assms g getopts_code by (auto simp: init_def)
  next
    case (Inr t)
    obtain ok cf where l: "LoadEnvSse en (o_cf o1) = (ok, cf)" by fastforce
    show ?thesis
    proof (cases "\<not> ok \<or> \<not> ie_ssl_ok en \<or> \<not> ie_curl_ok en")
      case True
      then show ?thesis using assms g Inr l by (auto simp: init_def Let_def split: if_splits)
    next
      case False
      then obtain ok2 o2 where r: "read_options (ie_opt en) args (o1\<lparr>o_cf := cf\<rparr>) = Some (ok2, o2)"
        using assms g Inr l by (auto simp: init_def Let_def split: option.splits)
      obtain ok3 o3 where c: "check_options en o2 = (ok3, o3)" by fastforce
      then show ?thesis using assms g Inr l False r
        by (cases "ok2 \<and> ok3") (auto simp: init_def Let_def split: if_splits)
    qed
  qed
qed

lemma init_code:
  assumes "init en gs args s = Some (code, s')"
  shows "code = EXIT_SUCCESS \<or> code = EXIT_FAILURE"
    "code = EXIT_FAILURE \<Longrightarrow> \<not> i_curl s \<Longrightarrow> \<not> i_ssl s \<Longrightarrow> \<not> i_curl s' \<and> \<not> i_ssl s'"
proof -
  consider "code = EXIT_SUCCESS \<or> code = EXIT_FAILURE" "i_curl s' \<longrightarrow> i_curl s" "i_ssl s' \<longrightarrow> i_ssl s"
    | s1 where "give_up s1 = (code, s')" | t s1 where "finish_init en t s1 = (code, s')"
    using init_ends [OF assms] by blast
  note ends = this
  show "code = EXIT_SUCCESS \<or> code = EXIT_FAILURE"
    using ends by cases (auto simp: give_up_def dest: finish_init_code(1))
  show "\<not> i_curl s' \<and> \<not> i_ssl s'" if "code = EXIT_FAILURE" "\<not> i_curl s" "\<not> i_ssl s"
    using ends that by cases (auto simp: give_up_def dest: finish_init_code(2))
qed

text \<open>
  C38: A start that fails is not noticed: the code of a failed \<open>init\<close> is 1, never the \<open>-1\<close> that \<open>S3Io::open\<close> looks for, so
  \<open>open\<close> goes on exactly as after a start that succeeded, although the libraries for requests have been shut down.
\<close>

theorem failed_start_goes_unnoticed:
  assumes "init en gs args st = Some (code, st')" "code \<noteq> EXIT_SUCCESS" "\<not> i_curl st" "\<not> i_ssl st"
    and "\<forall>args w. fst (fs_init fs args w) = code"
  shows "s3_open fs s mode path w =
      s3_open (fs\<lparr>fs_init := \<lambda>args w. (EXIT_SUCCESS, snd (fs_init fs args w))\<rparr>) s mode path w
    \<and> \<not> i_curl st' \<and> \<not> i_ssl st'"
proof -
  have c: "code = EXIT_FAILURE" using init_code(1) [OF assms(1)] assms(2) by blast
  then have f: "fst (fs_init fs args w) = EXIT_FAILURE" for args w using assms(5) by simp
  have "s3_open fs s mode path w =
      s3_open (fs\<lparr>fs_init := \<lambda>args w. (EXIT_SUCCESS, snd (fs_init fs args w))\<rparr>) s mode path w"
    by (cases path) (simp_all add: s3_open_def Let_def split_beta f)
  then show ?thesis using init_code(2) [OF assms(1)] c assms(3,4) by blast
qed

definition failing_start :: "nat s3fs" where
  "failing_start = empty_object_fs\<lparr>fs_init := \<lambda>args w. (EXIT_FAILURE, w)\<rparr>"

definition cold :: "unit ist" where
  "cold = \<lparr>i_opts = initial_opts, i_w = (), i_curl = False, i_ssl = False, i_exit = 0\<rparr>"

theorem failed_start_goes_unnoticed_witness:
  "\<forall>en. init en [Opt_bad] [] cold = Some (EXIT_FAILURE, cold) \<and>
    fst (s3_open failing_start new_s3io 0 (Some ''s3://k@h/b/o'') 7) = 0"
proof -
  have i: "init en [Opt_bad] [] cold = Some (EXIT_FAILURE, cold)" for en
    by (simp add: init_def cold_def)
  have f: "failing_start\<lparr>fs_init := \<lambda>args w. (EXIT_SUCCESS, snd (fs_init failing_start args w))\<rparr> = empty_object_fs"
    by (simp add: failing_start_def empty_object_fs_def missing_object_fs_def)
  have e: "fst (s3_open empty_object_fs new_s3io 0 (Some ''s3://k@h/b/o'') 7) = 0"
    by (simp add: s3_open_def empty_object_fs_def missing_object_fs_def Let_def split_beta)
  have "s3_open failing_start new_s3io 0 (Some ''s3://k@h/b/o'') 7 = s3_open empty_object_fs new_s3io 0 (Some ''s3://k@h/b/o'') 7"
    using failed_start_goes_unnoticed [OF i, of failing_start] unfolding f
    by (simp add: cold_def failing_start_def)
  then show ?thesis using i e by simp
qed

end
