(* ===== verification/Spec2Isabelle.thy ===== *)
theory Spec2Isabelle
  imports Mfs_Prelude Ord_Map Page_List String_Util Codecs Wtf8 Header_Stat Object_Meta Stat_Cache S3_Obj_List
    S3_Io Dispatch Page_Store Fd_Data Fd_Content Fd_Entity Fd_Manager Fd_Refs
    Curl_Slist Curl_State Curl_Sign Curl_Transfer Curl_Pool Curl_Handle Curl_Config Addhead Curl_Request Curl_Object
    Curl_Multipart Curl_Multi Curl_Parallel Curl_Threads Fs_Xattr Fs_List Fs_Attr Fs_Access Fs_File Fs_Dir Fs_Change
    Sys_Util Fs_Options Fs_Cred Fs_Init Fs_Content Fs_Safety
    Fs_Flush Fs_Service
begin

text \<open>
  Verification library of multifs, a file access service that a client program drives over a pipe.

  \<^bold>\<open>The program.\<close> A child process (\<open>src/main.cpp\<close>) reads commands with a fixed header
  (\<open>multifs_proto.h\<close>), keeps one file object (\<open>ifile.h\<close>) and answers. The only real file object is
  \<open>S3Io\<close> (\<open>protocols/s3/s3io.cpp\<close>), an object in an S3 bucket; FTP and SMB are placeholders. Below
  \<open>S3Io\<close> lies a fork of s3fs: attributes of objects are cached (\<open>cache.cpp\<close>), contents are cached in local
  files of which only some pages are loaded (\<open>fdcache.cpp\<close>), names, headers and attributes are
  converted (\<open>s3fs_util.cpp\<close>, \<open>string_util.cpp\<close>), and requests are signed, sent with libcurl, retried
  and split into parts (\<open>curl.cpp\<close>, \<open>addhead.cpp\<close>).

  \<^bold>\<open>Shared theories.\<close> \<open>Mfs_Prelude\<close> has searching and cutting of strings, C strings and the error
  monad; \<open>Ord_Map\<close> the ordered maps of the program, among them the header map whose keys ignore case
  (\<open>common.h\<close>), as association lists with an order, with the interface \<open>headers_t\<close> offers.

  \<^bold>\<open>The child.\<close> \<open>Dispatch\<close> models \<open>main.cpp\<close>: the header as bytes, every command of \<open>dspcmd\<close>, and
  the read loop as steps; undefined behaviour is a value \<open>fault\<close>. A command that does not fault is answered
  once and truthfully, input is consumed in finitely many reads, and what goes wrong (commands before
  OPEN, the end of the input) is stated too. \<open>S3_Io\<close> models \<open>s3io.cpp\<close>, with the functions below it as
  arguments, and the two placeholders.

  \<^bold>\<open>Attributes.\<close> \<open>Stat_Cache\<close> models \<open>cache.cpp\<close>: the cache, expiry, eviction, negative entries, and the mutex
  that \<open>DelStat\<close> takes a second time, so that a call returns or deadlocks. \<open>Header_Stat\<close> and
  \<open>Object_Meta\<close> convert headers to attributes and back; \<open>S3_Obj_List\<close> holds listings and lists of renames.

  \<^bold>\<open>Contents.\<close> \<open>Page_List\<close> models the class \<open>PageList\<close> of \<open>fdcache.cpp\<close>; its abstraction is the flag of each byte, and
  every operation is shown to refine an operation on flags. \<open>Page_Store\<close> is the stat file it is saved in.
  \<open>Fd_Data\<close> has the operations of \<open>FdEntity\<close> on data (load, read, write, flush, upload in parts, disk space),
  \<open>Fd_Content\<close> the content an entity stands for, local where loaded and remote elsewhere, which
  \<open>Read\<close>, \<open>Write\<close> and \<open>RowFlush\<close> are shown to implement. \<open>Fd_Entity\<close> opens and closes entities,
  \<open>Fd_Manager\<close> is the table of entities \<open>FdManager\<close>, and \<open>Fd_Refs\<close> the invariant of its references over
  sequences of calls, with the two calls that break it left out and shown to do so.

  \<^bold>\<open>The S3 client.\<close> \<open>Curl_State\<close> has the data of the class \<open>S3fsCurl\<close>, \<open>Curl_Slist\<close> its sorted header
  lists, \<open>Curl_Sign\<close> addresses and signatures of version 2 and 4, \<open>Curl_Config\<close> its settings, encryption
  keys and credentials, \<open>Addhead\<close> the additional headers. \<open>Curl_Transfer\<close> models response bodies, down to
  the memory they are collected in, and the callbacks libcurl calls; \<open>Curl_Pool\<close> the pool of handles;
  \<open>Curl_Handle\<close> a handle as the list of options set on it, and the retry loop. \<open>Curl_Request\<close>,
  \<open>Curl_Object\<close> and \<open>Curl_Multipart\<close> have one definition for each request, in the order of the code: its headers,
  its address, its signature, its options, the transfer and what is made of the answer. \<open>Curl_Multi\<close> models
  \<open>S3fsMultiCurl\<close> with a heap of request objects, so that a second deletion is a fault, and
  the parallel requests; \<open>Curl_Parallel\<close> shows what becomes of them. \<open>Curl_Threads\<close> has the threads and the
  semaphore of one batch as a step relation with all interleavings.

  \<^bold>\<open>The file system layer.\<close> \<open>s3fs.cpp\<close> composes the parts above. Its state is the stat cache and the
  table of cached files with the world below them (\<open>Fs_List\<close>), its requests and what libxml2 reads from an answer are
  functions of an environment. \<open>Fs_List\<close> lists a directory in pages, \<open>Fs_Attr\<close> finds the attributes
  of an object, \<open>Fs_Access\<close> checks access, \<open>Fs_File\<close> has the operations on files, \<open>Fs_Dir\<close> those on
  directories and the four ways of renaming, \<open>Fs_Change\<close> those that change attributes, with the text of the extended
  attributes in \<open>Fs_Xattr\<close>. \<open>Fs_Options\<close> reads the options, \<open>Fs_Cred\<close> finds the keys, \<open>Sys_Util\<close> has the
  checks of users and directories, and \<open>Fs_Init\<close> the start, the check of the bucket and the end. The service calls
  \<open>init\<close>, \<open>s3fs_init\<close>, \<open>s3fs_getattr\<close>, \<open>s3fs_open\<close>, \<open>s3fs_read\<close>, \<open>s3fs_write\<close>, \<open>s3fs_flush\<close>,
  \<open>s3fs_truncate\<close>, \<open>s3fs_unlink\<close> and \<open>uninit\<close>; \<open>S3_Io\<close>, which models that side, takes them as arguments.

  \<^bold>\<open>Across the layers.\<close> \<open>Fs_Content\<close> carries the theorems on the content of an entity up to \<open>s3fs_read\<close> and \<open>s3fs_write\<close>,
  \<open>Fs_Flush\<close> to \<open>s3fs_flush\<close>: what is written through a path and then flushed is stored. \<open>Fs_Safety\<close> shows what the operations leave alone: a predicate on
  the server that HEAD and LIST requests keep is kept until a request that writes is sent, which a removal sends only for an
  empty directory, and a rename only as a copy before it deletes. \<open>Fs_Service\<close> composes \<open>S3_Io\<close>, \<open>Fs_Options\<close>,
  \<open>Fs_Access\<close> and \<open>Fs_Init\<close>: the arguments the file object makes of a path take effect, and a failed start is not noticed.

  \<^bold>\<open>Groups of lemmas.\<close> Each component has first the lemmas on its operations, then its invariant and that every operation
  keeps it, then its properties. The interfaces between components are locales: the ordered maps,
  the refinement of page lists, retries that count (\<open>counted_retry\<close>, which the three retry callbacks
  satisfy and from which the parallel requests end). A property that has hypotheses is followed by a run where they hold.

  \<^bold>\<open>Parameters.\<close> Code that is not in the repository is an argument of the definitions: \<open>curl_easy_perform\<close>, which
  may change the request object through the callbacks, and \<open>curl_easy_getinfo\<close>; digests; the clock and the
  parsing of dates; system calls, which may fail or do less than they were asked to; regular expressions; values looked up in
  XML answers. Hypotheses on them are named, such as \<open>callbacks_keep\<close> (a transfer does not change what the callbacks do not
  touch), \<open>calm\<close> (reads and writes of local files make progress) and \<open>no_response\<close>.

  \<^bold>\<open>Fuel and termination.\<close> Loops are structural or have a measure. \<open>Request\<close> repeats batches for
  as long as retries are set up, with fuel; \<open>rounds\<close>, two more than the number of retries, is enough, as
  \<open>parallel_requests_end\<close> shows, because each retry counts and the callbacks stop at the limit. Splitting a file into parts
  ends for a positive size of the parts, which \<open>SetMultipartSize\<close> ensures. The read loop of the child does not end at
  the end of its input; it is a step function.

  \<^bold>\<open>Simplifications.\<close> Offsets and sizes of files are unbounded integers, as in sound runs of 64-bit arithmetic; where the code narrows
  them, as in \<open>ReadCallback\<close>, the width is kept. Locks are modelled where a thread takes one twice. The requests
  of a batch are run one after the other in \<open>Curl_Multi\<close>, where every thread is started; that a batch runs each request once in
  whatever order, and what a failed start does, is shown in \<open>Curl_Threads\<close>; joining a completed thread does not fail there.
  The calls of the handle pool are single steps, and so are the phases of \<open>AddStat\<close>, which the code runs under separate
  locks. An answer of the child is written to the pipe completely, as the code does nothing but log when it is not. The rewinding of
  the file of an upload in \<open>RemakeHandle\<close> is left out: a request has a file, but no position in it. Codes of libcurl
  with the same treatment are one, such as \<open>CURLE_PEER_FAILED_VERIFICATION\<close> and all others in \<open>CURLE_other\<close>.

  \<^bold>\<open>Not modelled.\<close> Log output. Initialisation of libcurl and its share locks. The wrappers of OpenSSL, GnuTLS and
  NSS, which only call these libraries. The semaphore of macOS. The evaluation of XPath expressions.
  The example client \<open>multifs-test.cpp\<close>.
\<close>

end
